(* ===== verification/Go_Base.thy ===== *)
theory Go_Base
  imports Main "HOL-Library.Word" "HOL-Library.Multiset"
begin

text \<open>
  The prelude of the development: the Go values the components share and the generic lemmas
  their proofs use.
  \<^item> Go's sized integers are words: \<^verbatim>\<open>int64\<close> and the 64-bit \<^verbatim>\<open>int\<close> wrap around, \<open>sint\<close> reads them.
  \<^item> An \<^verbatim>\<open>error\<close> is its message; a result with an error is a sum, \<open>Inl\<close> the error.
  \<^item> \<^verbatim>\<open>float64\<close> occurs in the program only for amounts converted from integers and added up,
    so a float is its integer value, rounded to 53 significant bits (ties to even) by every
    conversion and every addition.
  \<^item> \<^verbatim>\<open>time.Time\<close> is nanoseconds since the Unix epoch, \<^verbatim>\<open>time.Duration\<close> nanoseconds.
\<close>

section \<open>Types\<close>

type_synonym int64 = "64 word"
type_synonym int32 = "32 word"
type_synonym go_int = "64 word"
type_synonym go_error = string
type_synonym 'a go_result = "go_error + 'a"
type_synonym float64 = int
type_synonym go_time = int
type_synonym go_duration = int

text \<open>Rule collections: the operations of the model as rewrite rules, and the case splits
  that go with their early returns.\<close>

named_theorems go_defs \<open>definitions of small model helpers, unfolded by the component proofs\<close>
named_theorems go_inv \<open>preservation lemmas: one operation keeps one invariant\<close>

lemmas go_splits = option.splits sum.splits prod.splits if_splits

section \<open>Maps with zero values\<close>

text \<open>Reading a missing key of a Go map gives the zero value of the element type.\<close>

definition mget :: "('k \<rightharpoonup> 'v) \<Rightarrow> 'k \<Rightarrow> 'v \<Rightarrow> 'v" where
  "mget m k d = (case m k of None \<Rightarrow> d | Some v \<Rightarrow> v)"

lemma mget_upd [simp]: "mget (m(k \<mapsto> v)) k' d = (if k' = k then v else mget m k' d)"
  by (simp add: mget_def)

lemma mget_del [simp]: "mget (m(k := None)) k' d = (if k' = k then d else mget m k' d)"
  by (simp add: mget_def)

lemma mget_empty [simp]: "mget Map.empty k d = d"
  by (simp add: mget_def)

lemma mget_Some [simp]: "m k = Some v \<Longrightarrow> mget m k d = v"
  by (simp add: mget_def)

lemma mget_None [simp]: "m k = None \<Longrightarrow> mget m k d = d"
  by (simp add: mget_def)

section \<open>Time\<close>

definition Second :: go_duration where
  "Second = 1000000000"

text \<open>The zero \<^verbatim>\<open>time.Time\<close> is midnight, January 1, year 1, UTC.\<close>

definition zero_time :: go_time where
  "zero_time = - 62135596800 * 1000000000"

text \<open>\<^verbatim>\<open>int64(d.Seconds())\<close> truncates towards zero; \<^verbatim>\<open>t.Unix()\<close> rounds down.\<close>

definition seconds_of :: "go_duration \<Rightarrow> int64" where
  "seconds_of d = word_of_int (sgn d * (\<bar>d\<bar> div Second))"

definition Unix :: "go_time \<Rightarrow> int64" where
  "Unix t = word_of_int (t div Second)"

section \<open>Floats that hold integers\<close>

fun bit_count :: "nat \<Rightarrow> nat" where
  "bit_count n = (if n = 0 then 0 else Suc (bit_count (n div 2)))"

declare bit_count.simps [simp del]

text \<open>Rounding a natural number to 53 significant bits, ties to even.\<close>

definition round53_nat :: "nat \<Rightarrow> nat" where
  "round53_nat a =
     (if a \<le> 2 ^ 53 then a
      else let e = bit_count a - 53; q = a div 2 ^ e; r = a mod 2 ^ e; h = 2 ^ (e - 1)
           in (if r > h \<or> (r = h \<and> odd q) then q + 1 else q) * 2 ^ e)"

definition round53 :: "int \<Rightarrow> float64" where
  "round53 v = sgn v * int (round53_nat (nat \<bar>v\<bar>))"

definition float_of_int64 :: "int64 \<Rightarrow> float64" where
  "float_of_int64 w = round53 (sint w)"

definition float_add :: "float64 \<Rightarrow> float64 \<Rightarrow> float64" where
  "float_add a b = round53 (a + b)"

text \<open>The conversion back to \<^verbatim>\<open>int64\<close> is implementation-dependent out of range:
  the parameter \<open>oor\<close> stands for what the platform then gives.\<close>

definition int64_of_float :: "(float64 \<Rightarrow> int64) \<Rightarrow> float64 \<Rightarrow> int64" where
  "int64_of_float oor v = (if - (2 ^ 63) \<le> v \<and> v < 2 ^ 63 then word_of_int v else oor v)"

lemma round53_exact: "\<bar>v\<bar> \<le> 2 ^ 53 \<Longrightarrow> round53 v = v"
proof -
  assume "\<bar>v\<bar> \<le> 2 ^ 53"
  then have "nat \<bar>v\<bar> \<le> 2 ^ 53" by (simp add: nat_le_iff)
  then have "round53_nat (nat \<bar>v\<bar>) = nat \<bar>v\<bar>" by (simp add: round53_nat_def)
  then show ?thesis by (simp add: round53_def sgn_mult_abs)
qed

lemma round53_zero [simp]: "round53 0 = 0"
  by (simp add: round53_def)

text \<open>Amounts of up to \<open>2\<^sup>5\<^sup>3\<close> survive the trip through \<^verbatim>\<open>float64\<close>.\<close>

lemma int64_float_roundtrip:
  assumes "\<bar>sint w\<bar> \<le> 2 ^ 53"
  shows "int64_of_float oor (float_of_int64 w) = w"
proof -
  have "float_of_int64 w = sint w"
    using assms by (simp add: float_of_int64_def round53_exact)
  moreover have "- (2 ^ 63) \<le> sint w" and "sint w < 2 ^ 63"
    using assms by simp_all
  ultimately show ?thesis by (simp add: int64_of_float_def)
qed

lemma int64_float_zero [simp]: "int64_of_float oor (float_of_int64 0) = 0"
  by (simp add: int64_of_float_def float_of_int64_def)

section \<open>Decimal printing\<close>

text \<open>\<^verbatim>\<open>%d\<close> and \<^verbatim>\<open>strconv.Itoa\<close>.\<close>

definition digit_char :: "nat \<Rightarrow> char" where
  "digit_char d = ''0123456789'' ! d"

definition decimal_chars :: "char set" where
  "decimal_chars = set ''0123456789''"

fun nat_digits :: "nat \<Rightarrow> string" where
  "nat_digits n = (if n < 10 then [digit_char n] else nat_digits (n div 10) @ [digit_char (n mod 10)])"

declare nat_digits.simps [simp del]

definition itoa :: "int \<Rightarrow> string" where
  "itoa i = (if i < 0 then CHR ''-'' # nat_digits (nat (- i)) else nat_digits (nat i))"

lemma digit_char_inj:
  assumes "a < 10" and "b < 10" and "digit_char a = digit_char b"
  shows "a = b"
proof -
  have "distinct ''0123456789''" by simp
  from nth_eq_iff_index_eq [OF this, of a b] assms show ?thesis
    by (simp add: digit_char_def)
qed

lemma digit_char_decimal: "d < 10 \<Longrightarrow> digit_char d \<in> decimal_chars"
  unfolding digit_char_def decimal_chars_def by (rule nth_mem) simp

lemma nat_digits_nonempty: "nat_digits n \<noteq> []"
  by (subst nat_digits.simps) simp

lemma nat_digits_decimal: "set (nat_digits n) \<subseteq> decimal_chars"
proof (induction n rule: nat_digits.induct)
  case (1 n)
  then show ?case
    using digit_char_decimal [of n] digit_char_decimal [of "n mod 10"]
    by (subst nat_digits.simps) auto
qed

lemma nat_digits_inj: "nat_digits m = nat_digits n \<Longrightarrow> m = n"
proof (induction m arbitrary: n rule: nat_digits.induct)
  case (1 m)
  note eq = "1.prems" [unfolded nat_digits.simps [of m] nat_digits.simps [of n]]
  show ?case
  proof (cases "m < 10 \<or> n < 10")
    case True
    with eq show ?thesis
      using nat_digits_nonempty [of "m div 10"] nat_digits_nonempty [of "n div 10"]
      by (auto split: if_splits dest: digit_char_inj)
  next
    case False
    with eq have "nat_digits (m div 10) = nat_digits (n div 10)"
      and last: "digit_char (m mod 10) = digit_char (n mod 10)" by auto
    with False "1.IH" have "m div 10 = n div 10" by simp
    moreover from last have "m mod 10 = n mod 10" by (rule digit_char_inj [rotated 2]) simp_all
    ultimately show ?thesis by (metis div_mult_mod_eq)
  qed
qed

lemma itoa_decimal: "set (itoa i) \<subseteq> insert (CHR ''-'') decimal_chars"
  using nat_digits_decimal [of "nat (- i)"] nat_digits_decimal [of "nat i"]
  by (auto simp: itoa_def)

lemma minus_no_digits: "CHR ''-'' # xs \<noteq> nat_digits n"
proof
  assume "CHR ''-'' # xs = nat_digits n"
  then have "CHR ''-'' \<in> set (nat_digits n)" by (metis list.set_intros(1))
  with nat_digits_decimal [of n] have "CHR ''-'' \<in> decimal_chars" by blast
  then show False by (simp add: decimal_chars_def)
qed

lemma itoa_inj [simp]: "itoa i = itoa j \<longleftrightarrow> i = j"
proof
  assume eq: "itoa i = itoa j"
  show "i = j"
  proof (cases "i < 0 \<longleftrightarrow> j < 0")
    case True
    with eq show ?thesis by (auto simp: itoa_def dest!: nat_digits_inj split: if_splits)
  next
    case False
    with eq show ?thesis
      using minus_no_digits minus_no_digits [symmetric] by (auto simp: itoa_def split: if_splits)
  qed
qed simp

section \<open>Keys built by formatting\<close>

text \<open>A separator that occurs in neither suffix makes \<^verbatim>\<open>%s:%d\<close> injective.\<close>

lemma sep_suffix_inj:
  assumes eq: "a @ c # x = b @ c # y" and "c \<notin> set x" and "c \<notin> set y"
  shows "a = b \<and> x = y"
proof -
  let ?keep = "takeWhile (\<lambda>d. d \<noteq> c)"
  have keep: "?keep (rev z @ c # r) = rev z" if "c \<notin> set z" for z r
    using that by (subst takeWhile_append2) auto
  have "rev x @ c # rev a = rev y @ c # rev b"
    using arg_cong [OF eq, of rev] by simp
  then have "rev x = rev y"
    using keep [of x "rev a"] keep [of y "rev b"] assms by simp
  with eq show ?thesis by simp
qed

lemma itoa_no_colon [simp]: "CHR '':'' \<notin> set (itoa i)"
proof
  assume "CHR '':'' \<in> set (itoa i)"
  with itoa_decimal [of i] have "CHR '':'' \<in> insert (CHR ''-'') decimal_chars" by blast
  then show False by (simp add: decimal_chars_def)
qed

end
