(* ===== verification/Wallet.thy ===== *)
theory Wallet
  imports Go_Base
begin

text \<open>
  The wallet: the interface \<^verbatim>\<open>pkg/service/wallet.go\<close> as a record of methods over the state of
  its implementation, the mock implementation of \<^verbatim>\<open>internal/modules/wallet/mock.go\<close>, and the
  contract a client of the interface may rely on, stated as a locale and discharged for the mock.
\<close>

section \<open>The interface\<close>

record 'w WalletService =
  wallet_GetBalance :: "'w \<Rightarrow> int64 \<Rightarrow> int64 go_result"
  wallet_DeductBalance :: "'w \<Rightarrow> int64 \<Rightarrow> int64 \<Rightarrow> string \<Rightarrow> int64 go_result \<times> 'w"
  wallet_AddBalance :: "'w \<Rightarrow> int64 \<Rightarrow> int64 \<Rightarrow> string \<Rightarrow> int64 go_result \<times> 'w"
  wallet_PlaceBet :: "'w \<Rightarrow> int64 \<Rightarrow> int64 \<Rightarrow> string \<Rightarrow> int64 go_result \<times> 'w"

section \<open>The mock service\<close>

record MockService =
  balances :: "int64 \<rightharpoonup> int64"

definition NewMockService :: MockService where
  "NewMockService = \<lparr>balances = Map.empty\<rparr>"

definition SetBalance :: "MockService \<Rightarrow> int64 \<Rightarrow> int64 \<Rightarrow> MockService" where
  "SetBalance s userID balance = s\<lparr>balances := (balances s)(userID \<mapsto> balance)\<rparr>"

definition GetBalance :: "MockService \<Rightarrow> int64 \<Rightarrow> int64 go_result" where
  "GetBalance s userID =
     (case balances s userID of
        None \<Rightarrow> Inr 1000000
      | Some balance \<Rightarrow> Inr balance)"

definition DeductBalance :: "MockService \<Rightarrow> int64 \<Rightarrow> int64 \<Rightarrow> string \<Rightarrow> int64 go_result \<times> MockService" where
  "DeductBalance s userID amount reason =
     (let balance = (case balances s userID of None \<Rightarrow> 1000000 | Some b \<Rightarrow> b);
          newBalance = balance - amount
      in (Inr newBalance, s\<lparr>balances := (balances s)(userID \<mapsto> newBalance)\<rparr>))"

definition AddBalance :: "MockService \<Rightarrow> int64 \<Rightarrow> int64 \<Rightarrow> string \<Rightarrow> int64 go_result \<times> MockService" where
  "AddBalance s userID amount reason =
     (let balance = (case balances s userID of None \<Rightarrow> 0 | Some b \<Rightarrow> b);
          newBalance = balance + amount
      in (Inr newBalance, s\<lparr>balances := (balances s)(userID \<mapsto> newBalance)\<rparr>))"

definition PlaceBet :: "MockService \<Rightarrow> int64 \<Rightarrow> int64 \<Rightarrow> string \<Rightarrow> int64 go_result \<times> MockService" where
  "PlaceBet s userID amount roundID = DeductBalance s userID amount (''bet:'' @ roundID)"

definition mockWallet :: "MockService WalletService" where
  "mockWallet =
     \<lparr>wallet_GetBalance = GetBalance, wallet_DeductBalance = DeductBalance,
      wallet_AddBalance = AddBalance, wallet_PlaceBet = PlaceBet\<rparr>"

lemmas mock_defs = NewMockService_def SetBalance_def GetBalance_def DeductBalance_def
  AddBalance_def PlaceBet_def mockWallet_def Let_def

section \<open>The contract\<close>

text \<open>
  \<open>known w u\<close>: the wallet holds an account for user \<open>u\<close>.  A bet opens the account and takes the
  stake from the balance the user is shown; a deposit to an existing account adds to it; both
  leave every other user alone.  Nothing is promised of a deposit to an account the wallet does
  not hold: the mock shows such a user 1000000 and starts the deposit from 0.
\<close>

definition wallet_balance :: "'w WalletService \<Rightarrow> 'w \<Rightarrow> int64 \<Rightarrow> int64" where
  "wallet_balance W w u = (case wallet_GetBalance W w u of Inl _ \<Rightarrow> 0 | Inr b \<Rightarrow> b)"

locale wallet_service =
  fixes W :: "'w WalletService"
    and known :: "'w \<Rightarrow> int64 \<Rightarrow> bool"
  assumes bet_returns: "\<exists>b. fst (wallet_PlaceBet W w u a r) = Inr b"
    and bet_known: "known (snd (wallet_PlaceBet W w u a r)) v \<longleftrightarrow> v = u \<or> known w v"
    and bet_balance:
      "wallet_balance W (snd (wallet_PlaceBet W w u a r)) v =
         (if v = u then wallet_balance W w v - a else wallet_balance W w v)"
    and add_returns: "\<exists>b. fst (wallet_AddBalance W w u a r) = Inr b"
    and add_known: "known (snd (wallet_AddBalance W w u a r)) v \<longleftrightarrow> v = u \<or> known w v"
    and add_balance:
      "known w u \<Longrightarrow>
       wallet_balance W (snd (wallet_AddBalance W w u a r)) v =
         (if v = u then wallet_balance W w v + a else wallet_balance W w v)"
begin

text \<open>Paying a list of (user, amount) deposits, in order.\<close>

lemma add_many_balance:
  assumes "\<forall>(u, a) \<in> set ps. known w u"
  shows "wallet_balance W (fold (\<lambda>(u, a) w. snd (wallet_AddBalance W w u a r)) ps w) v =
           wallet_balance W w v + (\<Sum>(u, a) \<leftarrow> ps. if u = v then a else 0)"
  using assms
proof (induction ps arbitrary: w)
  case Nil
  then show ?case by simp
next
  case (Cons p ps)
  obtain u a where p: "p = (u, a)" by (cases p)
  have "\<forall>(u', a') \<in> set ps. known (snd (wallet_AddBalance W w u a r)) u'"
    using Cons.prems add_known by auto
  from Cons.IH [OF this] show ?case
    using Cons.prems p by (simp add: add_balance)
qed

end

interpretation mock_wallet: wallet_service mockWallet "\<lambda>w u. u \<in> dom (balances w)"
  by unfold_locales
    (auto simp: mock_defs wallet_balance_def split: option.splits)

section \<open>Properties\<close>

lemma mock_balance: "wallet_balance mockWallet w u = mget (balances w) u 1000000"
  by (simp add: wallet_balance_def mock_defs mget_def split: option.splits)

end
