(* ===== verification/Go_Time.thy ===== *)
theory Go_Time
  imports Go_Base
begin

text \<open>
  \<^verbatim>\<open>time.Format("20060102150405")\<close>: the calendar date and the time of day of an instant in the
  local zone, fourteen digits.  The zone is a parameter: \<open>tz t\<close> is the offset from UTC, in
  seconds, that the local zone has at the instant \<open>t\<close>.  The result identifies the second of the
  instant as long as the offset does not change.
\<close>

section \<open>The proleptic Gregorian calendar\<close>

text \<open>Days since the Unix epoch to (year, month, day).  The year starts in March, so that the leap
  day is its last; 719468 days separate March 1 of the year 0 from the epoch; an era has 400 years.\<close>

definition century :: "int \<Rightarrow> int" where
  "century doe = min (doe div 36524) 3"

definition quad :: "int \<Rightarrow> int" where
  "quad doe = (doe - 36524 * century doe) div 1461"

definition year_in_quad :: "int \<Rightarrow> int" where
  "year_in_quad doe = min ((doe - 36524 * century doe) mod 1461 div 365) 3"

definition year_of_era :: "int \<Rightarrow> int" where
  "year_of_era doe = 100 * century doe + 4 * quad doe + year_in_quad doe"

definition day_of_year :: "int \<Rightarrow> int" where
  "day_of_year doe = (doe - 36524 * century doe) mod 1461 - 365 * year_in_quad doe"

definition civil_from_days :: "int \<Rightarrow> int \<times> int \<times> int" where
  "civil_from_days z =
     (let era = (z + 719468) div 146097;
          doe = (z + 719468) mod 146097;
          mp = (5 * day_of_year doe + 2) div 153;
          d = day_of_year doe - (153 * mp + 2) div 5 + 1;
          m = (if mp < 10 then mp + 3 else mp - 9)
      in (year_of_era doe + era * 400 + (if m \<le> 2 then 1 else 0), m, d))"

definition days_from_civil :: "int \<times> int \<times> int \<Rightarrow> int" where
  "days_from_civil = (\<lambda>(y, m, d).
     let y' = (if m \<le> 2 then y - 1 else y);
         yoe = y' mod 400;
         mp = (if m > 2 then m - 3 else m + 9);
         doy = (153 * mp + 2) div 5 + d - 1
     in (y' div 400) * 146097 + (yoe * 365 + yoe div 4 - yoe div 100 + doy) - 719468)"

lemma era_parts:
  assumes "0 \<le> doe" and "doe < 146097"
  shows "0 \<le> century doe" "century doe \<le> 3" "0 \<le> quad doe" "quad doe \<le> 24"
    "0 \<le> year_in_quad doe" "year_in_quad doe \<le> 3"
    "0 \<le> day_of_year doe" "day_of_year doe \<le> 365"
proof -
  let ?doc = "doe - 36524 * century doe"
  show c: "0 \<le> century doe" "century doe \<le> 3"
    using assms by (simp_all add: century_def)
  have doc: "0 \<le> ?doc" "?doc \<le> 36524"
    using assms unfolding century_def by linarith+
  then show "0 \<le> quad doe" "quad doe \<le> 24"
    unfolding quad_def by linarith+
  show "0 \<le> year_in_quad doe" "year_in_quad doe \<le> 3"
    "0 \<le> day_of_year doe" "day_of_year doe \<le> 365"
    unfolding year_in_quad_def day_of_year_def by linarith+
qed

lemma day_of_era_sum:
  assumes "0 \<le> doe" and "doe < 146097"
  shows "year_of_era doe * 365 + year_of_era doe div 4 - year_of_era doe div 100 + day_of_year doe = doe"
proof -
  note parts = era_parts [OF assms]
  have "year_of_era doe div 4 = 25 * century doe + quad doe"
    using parts unfolding year_of_era_def by linarith
  moreover have "year_of_era doe div 100 = century doe"
    using parts unfolding year_of_era_def by linarith
  moreover have "doe - 36524 * century doe = 1461 * quad doe + (doe - 36524 * century doe) mod 1461"
    by (simp add: quad_def)
  ultimately show ?thesis by (simp add: year_of_era_def day_of_year_def)
qed

lemma days_from_civil_inverse: "days_from_civil (civil_from_days z) = z"
proof -
  define doe where "doe = (z + 719468) mod 146097"
  define era where "era = (z + 719468) div 146097"
  define mp where "mp = (5 * day_of_year doe + 2) div 153"
  have doe: "0 \<le> doe" "doe < 146097" by (simp_all add: doe_def)
  note parts = era_parts [OF doe]
  have mp: "0 \<le> mp" "mp \<le> 11" using parts(7,8) unfolding mp_def by linarith+
  have yoe: "0 \<le> year_of_era doe" "year_of_era doe < 400"
    using parts unfolding year_of_era_def by linarith+
  have year: "(year_of_era doe + era * 400) mod 400 = year_of_era doe"
    "(year_of_era doe + era * 400) div 400 = era" using yoe by simp_all
  define d where "d = day_of_year doe - (153 * mp + 2) div 5 + 1"
  have z: "era * 146097 + doe - 719468 = z" by (simp add: era_def doe_def)
  have civil: "civil_from_days z =
      (if mp < 10 then (year_of_era doe + era * 400, mp + 3, d)
       else (year_of_era doe + era * 400 + 1, mp - 9, d))"
    using mp by (simp add: civil_from_days_def Let_def doe_def era_def mp_def d_def)
  have "days_from_civil (civil_from_days z) =
      era * 146097 + (year_of_era doe * 365 + year_of_era doe div 4 - year_of_era doe div 100
        + ((153 * mp + 2) div 5 + d - 1)) - 719468"
    using mp year by (simp add: civil days_from_civil_def Let_def split: if_split)
  also have "\<dots> = era * 146097 + doe - 719468"
    using day_of_era_sum [OF doe] by (simp add: d_def)
  finally show ?thesis by (simp only: z)
qed

lemma civil_from_days_bounds:
  assumes "civil_from_days z = (y, m, d)"
  shows "1 \<le> m" "m \<le> 12" "1 \<le> d" "d \<le> 31"
proof -
  define doe where "doe = (z + 719468) mod 146097"
  have doe: "0 \<le> doe" "doe < 146097" by (simp_all add: doe_def)
  note parts = era_parts(7,8) [OF doe]
  have eqs: "m = (if (5 * day_of_year doe + 2) div 153 < 10 then (5 * day_of_year doe + 2) div 153 + 3
                  else (5 * day_of_year doe + 2) div 153 - 9)"
    "d = day_of_year doe - (153 * ((5 * day_of_year doe + 2) div 153) + 2) div 5 + 1"
    using assms by (simp_all add: civil_from_days_def Let_def doe_def split: if_splits)
  show "1 \<le> m" "m \<le> 12" using parts unfolding eqs(1) by (simp split: if_split; linarith)+
  show "1 \<le> d" "d \<le> 31" using parts unfolding eqs(2) by linarith+
qed

section \<open>Fixed-width decimal fields\<close>

definition pad :: "nat \<Rightarrow> string \<Rightarrow> string" where
  "pad w s = replicate (w - length s) (CHR ''0'') @ s"

definition pad_int :: "nat \<Rightarrow> int \<Rightarrow> string" where
  "pad_int w i = (if i < 0 then CHR ''-'' # pad w (nat_digits (nat (- i))) else pad w (nat_digits (nat i)))"

definition digit_val :: "char \<Rightarrow> nat" where
  "digit_val c = of_char c - 48"

definition dec_val :: "string \<Rightarrow> nat" where
  "dec_val s = foldl (\<lambda>a c. 10 * a + digit_val c) 0 s"

lemma digit_val_char [simp]: "d < 10 \<Longrightarrow> digit_val (digit_char d) = d"
proof -
  assume "d < 10"
  then have "d \<in> {0, 1, 2, 3, 4, 5, 6, 7, 8, 9}" by auto
  then show ?thesis
    by (elim insertE emptyE) (simp_all add: digit_char_def digit_val_def)
qed

lemma dec_val_digits [simp]: "dec_val (nat_digits n) = n"
proof (induction n rule: nat_digits.induct)
  case (1 n)
  then show ?case by (subst nat_digits.simps) (simp add: dec_val_def)
qed

lemma dec_val_pad [simp]: "dec_val (pad w s) = dec_val s"
proof -
  have "dec_val (replicate k (CHR ''0'') @ s) = dec_val s" for k
    by (induction k) (simp_all add: dec_val_def digit_val_def)
  then show ?thesis by (simp add: pad_def)
qed

lemma pad_digits_inj: "pad w (nat_digits m) = pad w (nat_digits n) \<Longrightarrow> m = n"
  by (metis dec_val_digits dec_val_pad)

lemma set_pad: "set (pad w (nat_digits n)) \<subseteq> decimal_chars"
  using nat_digits_decimal [of n] by (auto simp: pad_def decimal_chars_def)

lemma minus_no_pad: "CHR ''-'' # xs \<noteq> pad w (nat_digits n)"
proof
  assume "CHR ''-'' # xs = pad w (nat_digits n)"
  then have "CHR ''-'' \<in> set (pad w (nat_digits n))" by (metis list.set_intros(1))
  with set_pad have "CHR ''-'' \<in> decimal_chars" by blast
  then show False by (simp add: decimal_chars_def)
qed

lemma pad_int_inj: "pad_int w i = pad_int w j \<Longrightarrow> i = j"
  using minus_no_pad minus_no_pad [symmetric]
  by (auto simp: pad_int_def split: if_splits dest!: pad_digits_inj)

lemma pad_int_nonempty: "pad_int w i \<noteq> []"
  by (simp add: pad_int_def pad_def nat_digits_nonempty)

lemma length_pad2:
  assumes "0 \<le> i" and "i < 100"
  shows "length (pad_int 2 i) = 2"
proof -
  have "nat i < 100" using assms by simp
  then have "length (nat_digits (nat i)) \<le> 2"
    by (subst nat_digits.simps, subst nat_digits.simps) simp
  then show ?thesis using assms by (simp add: pad_int_def pad_def)
qed

section \<open>The format\<close>

definition format14 :: "(go_time \<Rightarrow> int) \<Rightarrow> go_time \<Rightarrow> string" where
  "format14 tz t =
     (let l = t div Second + tz t;
          (y, m, d) = civil_from_days (l div 86400);
          s = l mod 86400
      in pad_int 4 y @ pad_int 2 m @ pad_int 2 d
           @ pad_int 2 (s div 3600) @ pad_int 2 (s mod 3600 div 60) @ pad_int 2 (s mod 60))"

lemma format14_nonempty: "format14 tz t \<noteq> []"
  by (cases "civil_from_days ((t div Second + tz t) div 86400)")
    (simp add: format14_def Let_def pad_int_nonempty)

lemma day_seconds_inj:
  fixes s :: int
  assumes "s div 3600 = s' div 3600" "s mod 3600 div 60 = s' mod 3600 div 60" "s mod 60 = s' mod 60"
  shows "s = s'"
proof -
  have "s mod 3600 mod 60 = s' mod 3600 mod 60" using assms(3) by (simp add: mod_mod_cancel)
  with assms(2) have "s mod 3600 = s' mod 3600" by (metis div_mult_mod_eq)
  with assms(1) show ?thesis by (metis div_mult_mod_eq)
qed

lemma format14_inj:
  assumes "tz t = tz u" and "format14 tz t = format14 tz u"
  shows "t div Second = u div Second"
proof -
  define l where "l t = t div Second + tz t" for t
  obtain y m d where c: "civil_from_days (l t div 86400) = (y, m, d)" by (metis prod_cases3)
  obtain y' m' d' where c': "civil_from_days (l u div 86400) = (y', m', d')" by (metis prod_cases3)
  note b = civil_from_days_bounds [OF c] civil_from_days_bounds [OF c']
  have s: "0 \<le> l v mod 86400" "l v mod 86400 < 86400" for v by simp_all
  have len: "length (pad_int 2 m) = 2" "length (pad_int 2 d) = 2"
    "length (pad_int 2 m') = 2" "length (pad_int 2 d') = 2"
    "length (pad_int 2 (l v mod 86400 div 3600)) = 2"
    "length (pad_int 2 (l v mod 86400 mod 3600 div 60)) = 2"
    "length (pad_int 2 (l v mod 86400 mod 60)) = 2" for v
    using b s [of v] by (auto intro!: length_pad2)
  have "pad_int 4 y @ pad_int 2 m @ pad_int 2 d @ pad_int 2 (l t mod 86400 div 3600)
      @ pad_int 2 (l t mod 86400 mod 3600 div 60) @ pad_int 2 (l t mod 86400 mod 60) =
    pad_int 4 y' @ pad_int 2 m' @ pad_int 2 d' @ pad_int 2 (l u mod 86400 div 3600)
      @ pad_int 2 (l u mod 86400 mod 3600 div 60) @ pad_int 2 (l u mod 86400 mod 60)"
    using assms(2) c c' by (simp add: format14_def l_def Let_def)
  then have "pad_int 4 y = pad_int 4 y'" "pad_int 2 m = pad_int 2 m'" "pad_int 2 d = pad_int 2 d'"
    "pad_int 2 (l t mod 86400 div 3600) = pad_int 2 (l u mod 86400 div 3600)"
    "pad_int 2 (l t mod 86400 mod 3600 div 60) = pad_int 2 (l u mod 86400 mod 3600 div 60)"
    "pad_int 2 (l t mod 86400 mod 60) = pad_int 2 (l u mod 86400 mod 60)"
    using len by (simp_all add: append_eq_append_conv)
  then have "(y, m, d) = (y', m', d')" and sod: "l t mod 86400 = l u mod 86400"
    by (auto dest!: pad_int_inj intro: day_seconds_inj)
  then have "l t div 86400 = l u div 86400"
    using days_from_civil_inverse c c' by metis
  with sod have "l t = l u" by (metis div_mult_mod_eq)
  with assms(1) show ?thesis by (simp add: l_def)
qed

text \<open>\<^verbatim>\<open>t.Format(time.RFC3339)\<close> for a time in a zone with offset \<open>tz\<close>; the zone is printed in minutes, or as
  \<^verbatim>\<open>Z\<close>.\<close>

definition zone_string :: "int \<Rightarrow> string" where
  "zone_string offset =
     (if offset = 0 then ''Z''
      else let zone = sgn offset * (\<bar>offset\<bar> div 60)
           in (if zone < 0 then ''-'' else ''+'') @ pad_int 2 (\<bar>zone\<bar> div 60) @ '':'' @ pad_int 2 (\<bar>zone\<bar> mod 60))"

definition rfc3339 :: "(go_time \<Rightarrow> int) \<Rightarrow> go_time \<Rightarrow> string" where
  "rfc3339 tz t =
     (let l = t div Second + tz t;
          (y, m, d) = civil_from_days (l div 86400);
          s = l mod 86400
      in pad_int 4 y @ ''-'' @ pad_int 2 m @ ''-'' @ pad_int 2 d @ ''T''
           @ pad_int 2 (s div 3600) @ '':'' @ pad_int 2 (s mod 3600 div 60) @ '':'' @ pad_int 2 (s mod 60)
           @ zone_string (tz t))"

definition local_year :: "(go_time \<Rightarrow> int) \<Rightarrow> go_time \<Rightarrow> int" where
  "local_year tz t = fst (civil_from_days ((t div Second + tz t) div 86400))"

end
