(* ===== verification/Proto.thy ===== *)
theory Proto
  imports Go_Base
begin

text \<open>
  The messages of \<^verbatim>\<open>shared/proto\<close> that the modules exchange.  The enums are open, as in
  the generated Go (\<^verbatim>\<open>type ColorGameReward int32\<close>): any 32-bit value can arrive over the
  wire, the named constants are the known ones.  \<open>reward_String\<close> and \<open>state_String\<close> print a
  known value by its name and any other one in decimal.
\<close>

section \<open>Enums\<close>

type_synonym ColorGameState = int32
type_synonym ColorGameReward = int32
type_synonym ErrorCode = int32

abbreviation (input) GAME_STATE_UNSPECIFIED :: ColorGameState where "GAME_STATE_UNSPECIFIED \<equiv> 0"
abbreviation (input) GAME_STATE_ROUND_STARTED :: ColorGameState where "GAME_STATE_ROUND_STARTED \<equiv> 1"
abbreviation (input) GAME_STATE_BETTING :: ColorGameState where "GAME_STATE_BETTING \<equiv> 2"
abbreviation (input) GAME_STATE_DRAWING :: ColorGameState where "GAME_STATE_DRAWING \<equiv> 3"
abbreviation (input) GAME_STATE_RESULT :: ColorGameState where "GAME_STATE_RESULT \<equiv> 4"
abbreviation (input) GAME_STATE_ROUND_ENDED :: ColorGameState where "GAME_STATE_ROUND_ENDED \<equiv> 5"
abbreviation (input) GAME_STATE_STOPPED :: ColorGameState where "GAME_STATE_STOPPED \<equiv> 6"

abbreviation (input) REWARD_UNSPECIFIED :: ColorGameReward where "REWARD_UNSPECIFIED \<equiv> 0"
abbreviation (input) REWARD_RED :: ColorGameReward where "REWARD_RED \<equiv> 1"
abbreviation (input) REWARD_GREEN :: ColorGameReward where "REWARD_GREEN \<equiv> 2"
abbreviation (input) REWARD_BLUE :: ColorGameReward where "REWARD_BLUE \<equiv> 3"
abbreviation (input) REWARD_YELLOW :: ColorGameReward where "REWARD_YELLOW \<equiv> 4"

abbreviation (input) SUCCESS :: ErrorCode where "SUCCESS \<equiv> 0"
abbreviation (input) UNAUTHORIZED :: ErrorCode where "UNAUTHORIZED \<equiv> 3"
abbreviation (input) INTERNAL_ERROR :: ErrorCode where "INTERNAL_ERROR \<equiv> 5"
abbreviation (input) INVALID_BET_OPTION :: ErrorCode where "INVALID_BET_OPTION \<equiv> 303"

definition ColorGameState_name :: "(ColorGameState \<times> string) list" where
  "ColorGameState_name =
     [(0, ''GAME_STATE_UNSPECIFIED''), (1, ''GAME_STATE_ROUND_STARTED''), (2, ''GAME_STATE_BETTING''),
      (3, ''GAME_STATE_DRAWING''), (4, ''GAME_STATE_RESULT''), (5, ''GAME_STATE_ROUND_ENDED''),
      (6, ''GAME_STATE_STOPPED'')]"

definition ColorGameReward_name :: "(ColorGameReward \<times> string) list" where
  "ColorGameReward_name =
     [(0, ''REWARD_UNSPECIFIED''), (1, ''REWARD_RED''), (2, ''REWARD_GREEN''), (3, ''REWARD_BLUE''),
      (4, ''REWARD_YELLOW'')]"

definition ColorGameReward_value :: "(string \<times> ColorGameReward) list" where
  "ColorGameReward_value =
     [(''REWARD_UNSPECIFIED'', 0), (''REWARD_RED'', 1), (''REWARD_GREEN'', 2), (''REWARD_BLUE'', 3),
      (''REWARD_YELLOW'', 4)]"

definition enum_String :: "(int32 \<times> string) list \<Rightarrow> int32 \<Rightarrow> string" where
  "enum_String names x = (case map_of names x of Some n \<Rightarrow> n | None \<Rightarrow> itoa (sint x))"

definition state_String :: "ColorGameState \<Rightarrow> string" where
  "state_String = enum_String ColorGameState_name"

definition reward_String :: "ColorGameReward \<Rightarrow> string" where
  "reward_String = enum_String ColorGameReward_name"

text \<open>Different values print differently when the names are distinct and none is a number,
  which makes the printed color usable as a key.\<close>

lemma enum_String_inj:
  assumes dist: "distinct (map snd names)"
    and alpha: "\<And>n. n \<in> snd ` set names \<Longrightarrow> n \<noteq> [] \<and> hd n \<notin> insert (CHR ''-'') decimal_chars"
  shows "enum_String names x = enum_String names y \<longleftrightarrow> x = y"
proof
  assume eq: "enum_String names x = enum_String names y"
  have hd_itoa: "hd (itoa i) \<in> insert (CHR ''-'') decimal_chars" for i
    using itoa_decimal [of i] nat_digits_nonempty
    by (metis hd_in_set itoa_def list.discI subsetD)
  have named: "n \<noteq> itoa i" if "map_of names v = Some n" for n i v
    using alpha [of n] map_of_SomeD [OF that] hd_itoa [of i] by force
  show "x = y"
  proof (cases "map_of names x")
    case None
    with eq named [of y] have "map_of names y = None"
      by (cases "map_of names y") (auto simp: enum_String_def)
    with None eq show ?thesis by (simp add: enum_String_def signed_word_eqI)
  next
    case (Some n)
    with eq named [of x n] have "map_of names y = Some n"
      by (cases "map_of names y") (auto simp: enum_String_def)
    with Some show ?thesis
      using map_of_SomeD [of names x n] map_of_SomeD [of names y n] dist
      by (metis (no_types, lifting) distinct_map inj_onD prod.inject snd_conv)
  qed
qed simp

lemma reward_String_inj [simp]: "reward_String x = reward_String y \<longleftrightarrow> x = y"
  unfolding reward_String_def
  by (rule enum_String_inj) (auto simp: ColorGameReward_name_def decimal_chars_def)

lemma state_String_inj [simp]: "state_String x = state_String y \<longleftrightarrow> x = y"
  unfolding state_String_def
  by (rule enum_String_inj) (auto simp: ColorGameState_name_def decimal_chars_def)

section \<open>Messages\<close>

record ColorGamePlaceBetReq =
  pbq_UserId :: int64
  pbq_Color :: ColorGameReward
  pbq_Amount :: int64

record ColorGamePlaceBetRsp =
  pbs_ErrorCode :: ErrorCode
  pbs_BetId :: string
  pbs_Error :: string

record ColorGameRecordBetReq =
  rbq_RoundId :: string
  rbq_UserId :: int64
  rbq_Color :: ColorGameReward
  rbq_Amount :: int64

record ColorGameRecordBetRsp =
  rbs_ErrorCode :: ErrorCode
  rbs_Error :: string

record ColorGameGetCurrentRoundReq =
  crq_UserId :: int64

record ColorGamePlayerBet =
  cpb_Color :: ColorGameReward
  cpb_Amount :: int64

record ColorGameGetCurrentRoundRsp =
  crs_ErrorCode :: ErrorCode
  crs_RoundId :: string
  crs_State :: ColorGameState
  crs_BettingEndTimestamp :: int64
  crs_PlayerBets :: "ColorGamePlayerBet list"
  crs_LeftTime :: int64

record ColorGameRoundStateBRC =
  brc_RoundId :: string
  brc_State :: ColorGameState
  brc_BettingEndTimestamp :: int64
  brc_LeftTime :: int64

record ColorGameSettlementBRC =
  sbr_RoundId :: string
  sbr_WinningColor :: ColorGameReward
  sbr_BetId :: string
  sbr_BetColor :: ColorGameReward
  sbr_BetAmount :: int64
  sbr_WinAmount :: int64
  sbr_IsWinner :: bool

record ColorGameRoundResultReq =
  rrq_RoundId :: string
  rrq_Result :: ColorGameReward

record ColorGameRoundResultRsp =
  rrs_ErrorCode :: ErrorCode
  rrs_Error :: string

text \<open>The events a \<^verbatim>\<open>proto.Message\<close> argument can carry: the two broadcasts the modules send,
  and any other message by its type name.\<close>

datatype proto_message =
    RoundStateMsg ColorGameRoundStateBRC
  | SettlementMsg ColorGameSettlementBRC
  | OtherMsg string

end
