(* ===== verification/Gms_Machine.thy ===== *)
theory Gms_Machine
  imports Go_Time Proto
begin

text \<open>
  The game machine: the round of \<^verbatim>\<open>gms/domain/round.go\<close> and the state machine of
  \<^verbatim>\<open>gms/machine/state_machine.go\<close>.
  One definition per method.  A method that reads the clock takes the instant as an argument;
  \<open>runRound\<close> takes all readings of one round, the random draw and the state of the context after
  each sleep as a record.  An event handler is a number; a job is a handler with the event it is
  to receive.  The goroutine of \<^verbatim>\<open>Start\<close>, its worker pool and their interleavings are in the theory
  \<^verbatim>\<open>Gms_Run\<close>.
\<close>

section \<open>Rounds\<close>

record Round =
  r_RoundID :: string
  r_State :: ColorGameState
  r_Result :: ColorGameReward
  r_StartTime :: go_time
  r_BettingEnd :: go_time
  r_TotalBets :: go_int
  r_LeftTime :: int64

definition NewRound :: "go_time \<Rightarrow> string \<Rightarrow> Round" where
  "NewRound now roundID =
     \<lparr>r_RoundID = roundID, r_State = GAME_STATE_ROUND_STARTED, r_Result = 0, r_StartTime = now,
      r_BettingEnd = zero_time, r_TotalBets = 0, r_LeftTime = 0\<rparr>"

definition StartBetting :: "go_time \<Rightarrow> go_duration \<Rightarrow> Round \<Rightarrow> Round" where
  "StartBetting now duration r =
     r\<lparr>r_State := GAME_STATE_BETTING, r_BettingEnd := now + duration\<rparr>"

definition round_CanAcceptBet :: "go_time \<Rightarrow> Round \<Rightarrow> bool" where
  "round_CanAcceptBet now r \<longleftrightarrow> r_State r = GAME_STATE_BETTING \<and> now < r_BettingEnd r"

definition Draw :: "ColorGameReward \<Rightarrow> Round \<Rightarrow> Round" where
  "Draw result r = r\<lparr>r_State := GAME_STATE_DRAWING, r_Result := result\<rparr>"

definition ShowResult :: "Round \<Rightarrow> Round" where
  "ShowResult r = r\<lparr>r_State := GAME_STATE_RESULT\<rparr>"

definition IsFinished :: "Round \<Rightarrow> bool" where
  "IsFinished r \<longleftrightarrow> r_State r = GAME_STATE_RESULT"

lemmas round_defs = NewRound_def StartBetting_def round_CanAcceptBet_def Draw_def ShowResult_def
  IsFinished_def

section \<open>Events and the state machine\<close>

datatype event_data = NoData | TimeData go_time | ColorData ColorGameReward

record GameEvent =
  ev_Type :: ColorGameState
  ev_RoundID :: string
  ev_Data :: event_data
  ev_LeftTime :: int64
  ev_BettingEndTimestamp :: int64

record RoundView =
  rv_RoundID :: string
  rv_State :: ColorGameState
  rv_Result :: ColorGameReward
  rv_StartTime :: go_time
  rv_BettingEnd :: go_time
  rv_TotalBets :: go_int
  rv_LeftTime :: int64

type_synonym job = "nat \<times> GameEvent"

text \<open>\<open>degraded\<close> holds the goroutines started because the queue was full.\<close>

record StateMachine =
  currentRound :: "Round option"
  roundCounter :: go_int
  eventHandlers :: "nat list"
  jobQueue :: "job list"
  queueClosed :: bool
  degraded :: "job list"
  BettingDuration :: go_duration
  DrawingDuration :: go_duration
  ResultDuration :: go_duration
  WaitDuration :: go_duration
  RestDuration :: go_duration
  phaseEndTime :: go_time
  stopping :: bool
  doneClosed :: bool

definition jobQueueCap :: nat where
  "jobQueueCap = 100"

definition NewStateMachine :: StateMachine where
  "NewStateMachine =
     \<lparr>currentRound = None, roundCounter = 0, eventHandlers = [], jobQueue = [], queueClosed = False,
      degraded = [], BettingDuration = 10 * Second, DrawingDuration = 2 * Second,
      ResultDuration = 5 * Second, WaitDuration = 2 * Second, RestDuration = 3 * Second,
      phaseEndTime = zero_time, stopping = False, doneClosed = False\<rparr>"

definition Stop :: "StateMachine \<Rightarrow> StateMachine" where
  "Stop sm = sm\<lparr>stopping := True\<rparr>"

text \<open>\<open>doneInTime\<close>: the done channel was closed before the timeout.\<close>

definition GracefulShutdown :: "bool \<Rightarrow> StateMachine \<Rightarrow> go_error option \<times> StateMachine" where
  "GracefulShutdown doneInTime sm =
     (if doneInTime then None else Some ''state machine shutdown timed out'', Stop sm)"

definition RegisterEventHandler :: "nat \<Rightarrow> StateMachine \<Rightarrow> StateMachine" where
  "RegisterEventHandler handler sm = sm\<lparr>eventHandlers := eventHandlers sm @ [handler]\<rparr>"

definition submitJob :: "GameEvent \<Rightarrow> nat \<Rightarrow> StateMachine \<Rightarrow> StateMachine" where
  "submitJob event h sm =
     (if length (jobQueue sm) < jobQueueCap
      then sm\<lparr>jobQueue := jobQueue sm @ [(h, event)]\<rparr>
      else sm\<lparr>degraded := degraded sm @ [(h, event)]\<rparr>)"

definition emitEvent :: "GameEvent \<Rightarrow> StateMachine \<Rightarrow> StateMachine" where
  "emitEvent event sm = fold (submitJob event) (eventHandlers sm) sm"

definition drawColors :: "ColorGameReward list" where
  "drawColors = [REWARD_RED, REWARD_GREEN, REWARD_BLUE, REWARD_YELLOW]"

text \<open>\<^verbatim>\<open>rnd.Intn(n)\<close> gives some index below \<open>n\<close>: the random number is reduced modulo \<open>n\<close>.\<close>

definition drawResult :: "nat \<Rightarrow> ColorGameReward" where
  "drawResult rnd = drawColors ! (rnd mod length drawColors)"

definition generateRoundID :: "(go_time \<Rightarrow> int) \<Rightarrow> go_time \<Rightarrow> string" where
  "generateRoundID tz now = format14 tz now"

definition GetCurrentRound :: "go_time \<Rightarrow> StateMachine \<Rightarrow> RoundView" where
  "GetCurrentRound now sm =
     (case currentRound sm of
        None \<Rightarrow> \<lparr>rv_RoundID = [], rv_State = 0, rv_Result = 0, rv_StartTime = zero_time,
                 rv_BettingEnd = zero_time, rv_TotalBets = 0, rv_LeftTime = 0\<rparr>
      | Some r \<Rightarrow>
          let leftTime = seconds_of (phaseEndTime sm - now);
              leftTime = (if sint leftTime < 0 then 0 else leftTime)
          in \<lparr>rv_RoundID = r_RoundID r, rv_State = r_State r, rv_Result = r_Result r,
              rv_StartTime = r_StartTime r, rv_BettingEnd = r_BettingEnd r,
              rv_TotalBets = r_TotalBets r, rv_LeftTime = leftTime\<rparr>)"

definition CanAcceptBet :: "go_time \<Rightarrow> StateMachine \<Rightarrow> bool" where
  "CanAcceptBet now sm =
     (case currentRound sm of None \<Rightarrow> False | Some r \<Rightarrow> round_CanAcceptBet now r)"

section \<open>One round\<close>

text \<open>The lock sections of \<^verbatim>\<open>runRound\<close>.  The local \<^verbatim>\<open>round\<close> is the object \<^verbatim>\<open>sm.currentRound\<close>
  points to for the whole round: only the next \<^verbatim>\<open>runRound\<close> replaces it.\<close>

definition updRound :: "(Round \<Rightarrow> Round) \<Rightarrow> StateMachine \<Rightarrow> StateMachine" where
  "updRound f sm = sm\<lparr>currentRound := map_option f (currentRound sm)\<rparr>"

definition roundBettingEnd :: "StateMachine \<Rightarrow> go_time" where
  "roundBettingEnd sm = (case currentRound sm of None \<Rightarrow> zero_time | Some r \<Rightarrow> r_BettingEnd r)"

definition beginRound :: "string \<Rightarrow> go_time \<Rightarrow> StateMachine \<Rightarrow> StateMachine" where
  "beginRound roundID now sm =
     sm\<lparr>roundCounter := roundCounter sm + 1, currentRound := Some (NewRound now roundID)\<rparr>"

definition beginBetting :: "go_time \<Rightarrow> StateMachine \<Rightarrow> StateMachine" where
  "beginBetting now sm =
     (let sm = updRound (StartBetting now (BettingDuration sm)) sm
      in sm\<lparr>phaseEndTime := roundBettingEnd sm\<rparr>)"

definition beginDrawing :: "go_time \<Rightarrow> ColorGameReward \<Rightarrow> StateMachine \<Rightarrow> StateMachine" where
  "beginDrawing now result sm =
     (updRound (Draw result) sm)\<lparr>phaseEndTime := now + DrawingDuration sm\<rparr>"

definition beginResult :: "go_time \<Rightarrow> StateMachine \<Rightarrow> StateMachine" where
  "beginResult now sm = (updRound ShowResult sm)\<lparr>phaseEndTime := now + ResultDuration sm\<rparr>"

definition beginRest :: "go_time \<Rightarrow> StateMachine \<Rightarrow> StateMachine" where
  "beginRest now sm = sm\<lparr>phaseEndTime := now + RestDuration sm\<rparr>"

datatype phase = Wait | Betting | Drawing | Result | Rest

text \<open>The events of the five phases, and the sleeps after them.\<close>

fun phaseEvent :: "phase \<Rightarrow> string \<Rightarrow> ColorGameReward \<Rightarrow> StateMachine \<Rightarrow> GameEvent" where
  "phaseEvent Wait roundID result sm =
     \<lparr>ev_Type = GAME_STATE_ROUND_STARTED, ev_RoundID = roundID, ev_Data = NoData,
      ev_LeftTime = seconds_of (WaitDuration sm), ev_BettingEndTimestamp = 0\<rparr>"
| "phaseEvent Betting roundID result sm =
     \<lparr>ev_Type = GAME_STATE_BETTING, ev_RoundID = roundID, ev_Data = TimeData (roundBettingEnd sm),
      ev_LeftTime = seconds_of (BettingDuration sm), ev_BettingEndTimestamp = Unix (roundBettingEnd sm)\<rparr>"
| "phaseEvent Drawing roundID result sm =
     \<lparr>ev_Type = GAME_STATE_DRAWING, ev_RoundID = roundID, ev_Data = ColorData result,
      ev_LeftTime = seconds_of (DrawingDuration sm), ev_BettingEndTimestamp = Unix (roundBettingEnd sm)\<rparr>"
| "phaseEvent Result roundID result sm =
     \<lparr>ev_Type = GAME_STATE_RESULT, ev_RoundID = roundID, ev_Data = ColorData result,
      ev_LeftTime = seconds_of (ResultDuration sm), ev_BettingEndTimestamp = Unix (roundBettingEnd sm)\<rparr>"
| "phaseEvent Rest roundID result sm =
     \<lparr>ev_Type = GAME_STATE_ROUND_ENDED, ev_RoundID = roundID, ev_Data = NoData,
      ev_LeftTime = seconds_of (RestDuration sm), ev_BettingEndTimestamp = Unix (roundBettingEnd sm)\<rparr>"

fun phaseDuration :: "phase \<Rightarrow> StateMachine \<Rightarrow> go_duration" where
  "phaseDuration Wait sm = WaitDuration sm"
| "phaseDuration Betting sm = BettingDuration sm"
| "phaseDuration Drawing sm = DrawingDuration sm"
| "phaseDuration Result sm = ResultDuration sm"
| "phaseDuration Rest sm = RestDuration sm"

definition stoppedEvent :: GameEvent where
  "stoppedEvent =
     \<lparr>ev_Type = GAME_STATE_STOPPED, ev_RoundID = [], ev_Data = NoData, ev_LeftTime = 0,
      ev_BettingEndTimestamp = 0\<rparr>"

text \<open>What one round reads from its environment: the clock at each \<^verbatim>\<open>time.Now()\<close>, the random number,
  and whether the context was cancelled when each sleep ended.\<close>

record round_env =
  env_id :: go_time
  env_start :: go_time
  env_betting :: go_time
  env_rnd :: nat
  env_drawing :: go_time
  env_result :: go_time
  env_rest :: go_time
  env_cancelled :: "phase \<Rightarrow> bool"

definition runRound :: "(go_time \<Rightarrow> int) \<Rightarrow> round_env \<Rightarrow> StateMachine \<Rightarrow> StateMachine" where
  "runRound tz env sm =
     (let roundID = generateRoundID tz (env_id env);
          sm = beginRound roundID (env_start env) sm;
          sm = emitEvent (phaseEvent Wait roundID 0 sm) sm
      in if env_cancelled env Wait then sm else
      let sm = beginBetting (env_betting env) sm;
          sm = emitEvent (phaseEvent Betting roundID 0 sm) sm
      in if env_cancelled env Betting then sm else
      let result = drawResult (env_rnd env);
          sm = beginDrawing (env_drawing env) result sm;
          sm = emitEvent (phaseEvent Drawing roundID result sm) sm
      in if env_cancelled env Drawing then sm else
      let sm = beginResult (env_result env) sm;
          sm = emitEvent (phaseEvent Result roundID result sm) sm
      in if env_cancelled env Result then sm else
      let sm = emitEvent (phaseEvent Rest roundID result sm) sm
      in beginRest (env_rest env) sm)"

section \<open>Emission\<close>

lemma fold_submitJob:
  "fold (submitJob e) hs sm =
     (let k = jobQueueCap - length (jobQueue sm)
      in sm\<lparr>jobQueue := jobQueue sm @ map (\<lambda>h. (h, e)) (take k hs),
            degraded := degraded sm @ map (\<lambda>h. (h, e)) (drop k hs)\<rparr>)"
proof (induction hs arbitrary: sm)
  case Nil
  then show ?case by simp
next
  case (Cons h hs)
  show ?case
  proof (cases "length (jobQueue sm) < jobQueueCap")
    case True
    then obtain k where k: "jobQueueCap - length (jobQueue sm) = Suc k"
      by (metis Suc_diff_Suc)
    with True have "jobQueueCap - Suc (length (jobQueue sm)) = k" by simp
    moreover from True have "submitJob e h sm = sm\<lparr>jobQueue := jobQueue sm @ [(h, e)]\<rparr>"
      by (simp add: submitJob_def)
    ultimately show ?thesis using k by (simp add: Cons.IH Let_def)
  next
    case False
    then have "submitJob e h sm = sm\<lparr>degraded := degraded sm @ [(h, e)]\<rparr>"
      by (simp add: submitJob_def)
    with False show ?thesis by (simp add: Cons.IH Let_def)
  qed
qed

lemma emitEvent_eq:
  "emitEvent e sm =
     (let k = jobQueueCap - length (jobQueue sm); hs = eventHandlers sm
      in sm\<lparr>jobQueue := jobQueue sm @ map (\<lambda>h. (h, e)) (take k hs),
            degraded := degraded sm @ map (\<lambda>h. (h, e)) (drop k hs)\<rparr>)"
  by (simp add: emitEvent_def fold_submitJob Let_def)

lemma emitEvent_frame [simp]:
  "currentRound (emitEvent e sm) = currentRound sm"
  "roundCounter (emitEvent e sm) = roundCounter sm"
  "eventHandlers (emitEvent e sm) = eventHandlers sm"
  "queueClosed (emitEvent e sm) = queueClosed sm"
  "BettingDuration (emitEvent e sm) = BettingDuration sm"
  "DrawingDuration (emitEvent e sm) = DrawingDuration sm"
  "ResultDuration (emitEvent e sm) = ResultDuration sm"
  "WaitDuration (emitEvent e sm) = WaitDuration sm"
  "RestDuration (emitEvent e sm) = RestDuration sm"
  "phaseEndTime (emitEvent e sm) = phaseEndTime sm"
  "stopping (emitEvent e sm) = stopping sm"
  "doneClosed (emitEvent e sm) = doneClosed sm"
  by (simp_all add: emitEvent_eq Let_def)

text \<open>Every handler gets the event, once, through the queue or through a goroutine of its own.\<close>

lemma emitEvent_jobs:
  "mset (jobQueue (emitEvent e sm)) + mset (degraded (emitEvent e sm)) =
     mset (jobQueue sm) + mset (degraded sm) + mset (map (\<lambda>h. (h, e)) (eventHandlers sm))"
proof -
  let ?k = "jobQueueCap - length (jobQueue sm)"
  have "mset (map (\<lambda>h. (h, e)) (take ?k (eventHandlers sm)))
      + mset (map (\<lambda>h. (h, e)) (drop ?k (eventHandlers sm)))
    = mset (map (\<lambda>h. (h, e)) (eventHandlers sm))"
    by (metis append_take_drop_id map_append mset_append)
  then show ?thesis by (simp add: emitEvent_eq Let_def ac_simps)
qed

lemma emitEvent_queue_bound:
  "length (jobQueue sm) \<le> jobQueueCap \<Longrightarrow> length (jobQueue (emitEvent e sm)) \<le> jobQueueCap"
  by (simp add: emitEvent_eq Let_def)

text \<open>With room in the queue nothing is degraded.\<close>

lemma emitEvent_room:
  "length (jobQueue sm) + length (eventHandlers sm) \<le> jobQueueCap \<Longrightarrow>
   emitEvent e sm = sm\<lparr>jobQueue := jobQueue sm @ map (\<lambda>h. (h, e)) (eventHandlers sm)\<rparr>"
  by (simp add: emitEvent_eq Let_def)

end
