(* ===== verification/Gms_Run.thy ===== *)
theory Gms_Run
  imports Gms_Machine
begin

text \<open>
  The state machine as it runs.  \<open>main_step\<close> is the goroutine of \<^verbatim>\<open>Start\<close>: it has a program
  point before each lock section, each emission and each sleep, so that the other goroutines can run
  between any two of them.  \<open>env_step\<close> is everything else: the clock, the cancellation of the context,
  \<^verbatim>\<open>Stop\<close> and \<^verbatim>\<open>RegisterEventHandler\<close>, the five workers and the goroutines of a full queue.
  \<open>emitted\<close> is a log of the emissions, each with the handlers registered at that moment, and
  \<open>finished\<close> a log of the jobs whose handler has returned; the program does not read them.
\<close>

section \<open>The system\<close>

datatype pc =
    AtStart
  | AtTop
  | AtCheck
  | AtStopEmit
  | AtBegin
  | AtLock phase string ColorGameReward
  | AtEmit phase string ColorGameReward
  | AtSleep phase string ColorGameReward
  | AtClose
  | AtJoin
  | AtDone

record gms_sys =
  mach :: StateMachine
  ctl :: pc
  clock :: go_time
  wake :: go_time
  ctxDone :: bool
  workers :: nat
  running :: "job list"
  finished :: "job list"
  emitted :: "(GameEvent \<times> nat list) list"

definition workerCount :: nat where
  "workerCount = 5"

definition emit :: "GameEvent \<Rightarrow> gms_sys \<Rightarrow> gms_sys" where
  "emit e s = s\<lparr>mach := emitEvent e (mach s),
                emitted := emitted s @ [(e, eventHandlers (mach s))]\<rparr>"

inductive main_step :: "(go_time \<Rightarrow> int) \<Rightarrow> gms_sys \<Rightarrow> gms_sys \<Rightarrow> bool" for tz where
  start_workers: "ctl s = AtStart \<Longrightarrow> main_step tz s (s\<lparr>workers := workerCount, ctl := AtTop\<rparr>)"
| force_stop: "ctl s = AtTop \<Longrightarrow> ctxDone s \<Longrightarrow> main_step tz s (s\<lparr>ctl := AtClose\<rparr>)"
| not_cancelled: "ctl s = AtTop \<Longrightarrow> \<not> ctxDone s \<Longrightarrow> main_step tz s (s\<lparr>ctl := AtCheck\<rparr>)"
| check_stopping:
    "ctl s = AtCheck \<Longrightarrow>
     main_step tz s (s\<lparr>ctl := (if stopping (mach s) then AtStopEmit else AtBegin)\<rparr>)"
| emit_stopped:
    "ctl s = AtStopEmit \<Longrightarrow> main_step tz s ((emit stoppedEvent s)\<lparr>ctl := AtClose\<rparr>)"
| lock_begin:
    "ctl s = AtBegin \<Longrightarrow> clock s \<le> t1 \<Longrightarrow> t1 \<le> t2 \<Longrightarrow>
     main_step tz s (s\<lparr>mach := beginRound (generateRoundID tz t1) t2 (mach s), clock := t2,
                       ctl := AtEmit Wait (generateRoundID tz t1) 0\<rparr>)"
| emit_phase:
    "ctl s = AtEmit p rid res \<Longrightarrow> p \<noteq> Rest \<Longrightarrow>
     main_step tz s ((emit (phaseEvent p rid res (mach s)) s)\<lparr>
       wake := clock s + phaseDuration p (mach s), ctl := AtSleep p rid res\<rparr>)"
| emit_ended:
    "ctl s = AtEmit Rest rid res \<Longrightarrow>
     main_step tz s ((emit (phaseEvent Rest rid res (mach s)) s)\<lparr>ctl := AtLock Rest rid res\<rparr>)"
| sleep_cancelled:
    "ctl s = AtSleep p rid res \<Longrightarrow> ctxDone s \<Longrightarrow> main_step tz s (s\<lparr>ctl := AtTop\<rparr>)"
| sleep_wait:
    "ctl s = AtSleep Wait rid res \<Longrightarrow> wake s \<le> clock s \<Longrightarrow> \<not> ctxDone s \<Longrightarrow>
     main_step tz s (s\<lparr>ctl := AtLock Betting rid res\<rparr>)"
| lock_betting:
    "ctl s = AtLock Betting rid res \<Longrightarrow>
     main_step tz s (s\<lparr>mach := beginBetting (clock s) (mach s), ctl := AtEmit Betting rid res\<rparr>)"
| sleep_betting:
    "ctl s = AtSleep Betting rid res \<Longrightarrow> wake s \<le> clock s \<Longrightarrow> \<not> ctxDone s \<Longrightarrow>
     main_step tz s (s\<lparr>ctl := AtLock Drawing rid (drawResult rnd)\<rparr>)"
| lock_drawing:
    "ctl s = AtLock Drawing rid res \<Longrightarrow>
     main_step tz s (s\<lparr>mach := beginDrawing (clock s) res (mach s), ctl := AtEmit Drawing rid res\<rparr>)"
| sleep_drawing:
    "ctl s = AtSleep Drawing rid res \<Longrightarrow> wake s \<le> clock s \<Longrightarrow> \<not> ctxDone s \<Longrightarrow>
     main_step tz s (s\<lparr>ctl := AtLock Result rid res\<rparr>)"
| lock_result:
    "ctl s = AtLock Result rid res \<Longrightarrow>
     main_step tz s (s\<lparr>mach := beginResult (clock s) (mach s), ctl := AtEmit Result rid res\<rparr>)"
| sleep_result:
    "ctl s = AtSleep Result rid res \<Longrightarrow> wake s \<le> clock s \<Longrightarrow> \<not> ctxDone s \<Longrightarrow>
     main_step tz s (s\<lparr>ctl := AtEmit Rest rid res\<rparr>)"
| lock_rest:
    "ctl s = AtLock Rest rid res \<Longrightarrow>
     main_step tz s (s\<lparr>mach := beginRest (clock s) (mach s),
       wake := clock s + phaseDuration Rest (mach s), ctl := AtSleep Rest rid res\<rparr>)"
| sleep_rest:
    "ctl s = AtSleep Rest rid res \<Longrightarrow> wake s \<le> clock s \<Longrightarrow> main_step tz s (s\<lparr>ctl := AtTop\<rparr>)"
| close_queue:
    "ctl s = AtClose \<Longrightarrow>
     main_step tz s (s\<lparr>mach := (mach s)\<lparr>queueClosed := True\<rparr>, ctl := AtJoin\<rparr>)"
| join_workers:
    "ctl s = AtJoin \<Longrightarrow> jobQueue (mach s) = [] \<Longrightarrow> running s = [] \<Longrightarrow>
     main_step tz s (s\<lparr>mach := (mach s)\<lparr>doneClosed := True\<rparr>, ctl := AtDone\<rparr>)"

inductive env_step :: "gms_sys \<Rightarrow> gms_sys \<Rightarrow> bool" where
  tick: "clock s \<le> t \<Longrightarrow> env_step s (s\<lparr>clock := t\<rparr>)"
| cancel: "env_step s (s\<lparr>ctxDone := True\<rparr>)"
| stop: "env_step s (s\<lparr>mach := Stop (mach s)\<rparr>)"
| register: "env_step s (s\<lparr>mach := RegisterEventHandler h (mach s)\<rparr>)"
| take_job:
    "jobQueue (mach s) = j # js \<Longrightarrow> length (running s) < workers s \<Longrightarrow>
     env_step s (s\<lparr>mach := (mach s)\<lparr>jobQueue := js\<rparr>, running := running s @ [j]\<rparr>)"
| finish_job:
    "j \<in> set (running s) \<Longrightarrow>
     env_step s (s\<lparr>running := remove1 j (running s), finished := finished s @ [j]\<rparr>)"
| finish_degraded:
    "j \<in> set (degraded (mach s)) \<Longrightarrow>
     env_step s (s\<lparr>mach := (mach s)\<lparr>degraded := remove1 j (degraded (mach s))\<rparr>,
                   finished := finished s @ [j]\<rparr>)"

definition gms_step :: "(go_time \<Rightarrow> int) \<Rightarrow> gms_sys \<Rightarrow> gms_sys \<Rightarrow> bool" where
  "gms_step tz s t \<longleftrightarrow> main_step tz s t \<or> env_step s t"

text \<open>A machine before \<^verbatim>\<open>Start\<close>: as \<^verbatim>\<open>NewStateMachine\<close> made it, up to the durations, which the
  caller may have changed, and the handlers already registered.\<close>

definition gms_init :: "gms_sys \<Rightarrow> bool" where
  "gms_init s \<longleftrightarrow>
     ctl s = AtStart \<and> currentRound (mach s) = None \<and> jobQueue (mach s) = [] \<and>
     degraded (mach s) = [] \<and> \<not> queueClosed (mach s) \<and> \<not> doneClosed (mach s) \<and>
     \<not> stopping (mach s) \<and> workers s = 0 \<and> running s = [] \<and> finished s = [] \<and> emitted s = []"

inductive gms_reach :: "(go_time \<Rightarrow> int) \<Rightarrow> gms_sys \<Rightarrow> bool" for tz where
  reach_init: "gms_init s \<Longrightarrow> gms_reach tz s"
| reach_step: "gms_reach tz s \<Longrightarrow> gms_step tz s t \<Longrightarrow> gms_reach tz t"

lemma gms_reach_induct [consumes 1, case_names init main env]:
  assumes "gms_reach tz s"
    and "\<And>s. gms_init s \<Longrightarrow> P s"
    and "\<And>s t. gms_reach tz s \<Longrightarrow> P s \<Longrightarrow> main_step tz s t \<Longrightarrow> P t"
    and "\<And>s t. gms_reach tz s \<Longrightarrow> P s \<Longrightarrow> env_step s t \<Longrightarrow> P t"
  shows "P s"
  using assms(1)
  by (induction rule: gms_reach.induct) (auto simp: gms_step_def intro: assms)

lemmas machine_defs = emit_def beginRound_def beginBetting_def beginDrawing_def beginResult_def
  beginRest_def updRound_def roundBettingEnd_def Stop_def RegisterEventHandler_def round_defs Let_def

section \<open>The round the goroutine is in\<close>

text \<open>What a program point inside a round says about the current round: its ID, its state and,
  once drawn, its result.\<close>

fun pc_round :: "pc \<Rightarrow> (string \<times> ColorGameState \<times> ColorGameReward) option" where
  "pc_round (AtEmit Wait rid res) = Some (rid, GAME_STATE_ROUND_STARTED, 0)"
| "pc_round (AtSleep Wait rid res) = Some (rid, GAME_STATE_ROUND_STARTED, 0)"
| "pc_round (AtLock Betting rid res) = Some (rid, GAME_STATE_ROUND_STARTED, 0)"
| "pc_round (AtEmit Betting rid res) = Some (rid, GAME_STATE_BETTING, 0)"
| "pc_round (AtSleep Betting rid res) = Some (rid, GAME_STATE_BETTING, 0)"
| "pc_round (AtLock Drawing rid res) = Some (rid, GAME_STATE_BETTING, 0)"
| "pc_round (AtEmit Drawing rid res) = Some (rid, GAME_STATE_DRAWING, res)"
| "pc_round (AtSleep Drawing rid res) = Some (rid, GAME_STATE_DRAWING, res)"
| "pc_round (AtLock Result rid res) = Some (rid, GAME_STATE_DRAWING, res)"
| "pc_round (AtEmit Result rid res) = Some (rid, GAME_STATE_RESULT, res)"
| "pc_round (AtSleep Result rid res) = Some (rid, GAME_STATE_RESULT, res)"
| "pc_round (AtEmit Rest rid res) = Some (rid, GAME_STATE_RESULT, res)"
| "pc_round (AtLock Rest rid res) = Some (rid, GAME_STATE_RESULT, res)"
| "pc_round (AtSleep Rest rid res) = Some (rid, GAME_STATE_RESULT, res)"
| "pc_round _ = None"

text \<open>Between rounds the previous round is finished, unless the context was cancelled in it.\<close>

definition round_inv :: "gms_sys \<Rightarrow> bool" where
  "round_inv s \<longleftrightarrow>
     (\<forall>rid st res. pc_round (ctl s) = Some (rid, st, res) \<longrightarrow>
        (\<exists>r. currentRound (mach s) = Some r \<and> r_RoundID r = rid \<and> r_State r = st \<and> r_Result r = res)) \<and>
     (pc_round (ctl s) = None \<and> \<not> ctxDone s \<longrightarrow>
        (\<forall>r. currentRound (mach s) = Some r \<longrightarrow> r_State r = GAME_STATE_RESULT))"

lemma pc_round_sleep [simp]: "pc_round (AtSleep p rid res) = pc_round (AtEmit p rid res)"
  by (cases p) simp_all

lemma round_inv_main: "main_step tz s t \<Longrightarrow> round_inv s \<Longrightarrow> round_inv t"
  by (induction rule: main_step.induct) (auto simp: round_inv_def machine_defs)

lemma round_inv_env: "env_step s t \<Longrightarrow> round_inv s \<Longrightarrow> round_inv t"
  by (induction rule: env_step.induct) (auto simp: round_inv_def machine_defs)

lemma reach_round_inv: "gms_reach tz s \<Longrightarrow> round_inv s"
proof (induction rule: gms_reach_induct)
  case (init s)
  then show ?case by (simp add: round_inv_def gms_init_def)
qed (auto intro: round_inv_main round_inv_env)

section \<open>The jobs of the worker pool\<close>

text \<open>The jobs an emission log stands for: one per event and handler registered at the emission.\<close>

definition jobs_of :: "(GameEvent \<times> nat list) list \<Rightarrow> job multiset" where
  "jobs_of es = mset (concat (map (\<lambda>(e, hs). map (\<lambda>h. (h, e)) hs) es))"

definition jobs_inv :: "gms_sys \<Rightarrow> bool" where
  "jobs_inv s \<longleftrightarrow>
     mset (jobQueue (mach s)) + mset (degraded (mach s)) + mset (running s) + mset (finished s)
       = jobs_of (emitted s)"

lemma jobs_of_emit: "jobs_of (es @ [(e, hs)]) = jobs_of es + mset (map (\<lambda>h. (h, e)) hs)"
  by (simp add: jobs_of_def)

lemma jobs_inv_emit: "jobs_inv s \<Longrightarrow> jobs_inv (emit e s)"
  using emitEvent_jobs [of e "mach s"]
  by (simp add: jobs_inv_def emit_def jobs_of_emit) (metis (no_types, lifting) union_assoc union_commute)

lemma jobs_inv_ctl [simp]:
  "jobs_inv (s\<lparr>ctl := c\<rparr>) = jobs_inv s" "jobs_inv (s\<lparr>wake := w\<rparr>) = jobs_inv s"
  by (simp_all add: jobs_inv_def)

lemma jobs_inv_main: "main_step tz s t \<Longrightarrow> jobs_inv s \<Longrightarrow> jobs_inv t"
proof (induction rule: main_step.induct)
  case (emit_phase s p rid res)
  then show ?case by (simp add: jobs_inv_emit)
next
  case (emit_ended s rid res)
  then show ?case by (simp add: jobs_inv_emit)
next
  case (emit_stopped s)
  then show ?case by (simp add: jobs_inv_emit)
qed (simp_all add: jobs_inv_def machine_defs)

lemma jobs_inv_env: "env_step s t \<Longrightarrow> jobs_inv s \<Longrightarrow> jobs_inv t"
proof (induction rule: env_step.induct)
  case (finish_job j s)
  then obtain M where "mset (running s) = add_mset j M" by (metis mset_add set_mset_mset)
  with finish_job show ?case by (simp add: jobs_inv_def)
next
  case (finish_degraded j s)
  then obtain M where "mset (degraded (mach s)) = add_mset j M" by (metis mset_add set_mset_mset)
  with finish_degraded show ?case by (simp add: jobs_inv_def)
qed (simp_all add: jobs_inv_def machine_defs)

lemma reach_jobs_inv: "gms_reach tz s \<Longrightarrow> jobs_inv s"
proof (induction rule: gms_reach_induct)
  case (init s)
  then show ?case by (simp add: jobs_inv_def jobs_of_def gms_init_def)
qed (auto intro: jobs_inv_main jobs_inv_env)

text \<open>The queue never holds more than its capacity, no more than five handlers run on the pool, and
  the goroutine is past the workers exactly when the channels say so.\<close>

definition pool_inv :: "gms_sys \<Rightarrow> bool" where
  "pool_inv s \<longleftrightarrow>
     length (jobQueue (mach s)) \<le> jobQueueCap \<and> length (running s) \<le> workers s \<and>
     workers s = (if ctl s = AtStart then 0 else workerCount) \<and>
     (queueClosed (mach s) \<longleftrightarrow> ctl s = AtJoin \<or> ctl s = AtDone) \<and>
     (doneClosed (mach s) \<longleftrightarrow> ctl s = AtDone) \<and>
     (ctl s = AtDone \<longrightarrow> jobQueue (mach s) = [] \<and> running s = [])"

lemma pool_inv_main: "main_step tz s t \<Longrightarrow> pool_inv s \<Longrightarrow> pool_inv t"
  by (induction rule: main_step.induct)
    (auto simp: pool_inv_def machine_defs emitEvent_queue_bound)

lemma pool_inv_env: "env_step s t \<Longrightarrow> pool_inv s \<Longrightarrow> pool_inv t"
  by (induction rule: env_step.induct) (auto simp: pool_inv_def machine_defs length_remove1)

lemma reach_pool_inv: "gms_reach tz s \<Longrightarrow> pool_inv s"
proof (induction rule: gms_reach_induct)
  case (init s)
  then show ?case by (simp add: pool_inv_def gms_init_def)
qed (auto intro: pool_inv_main pool_inv_env)

section \<open>The order of the events\<close>

text \<open>\<open>follows d e\<close>: the event \<open>e\<close> may come right after \<open>d\<close>.  Inside a round the phases come in
  their order, with one round ID, and the result shown is the one drawn; after the end of a round
  comes a new round or the stop.  Nothing follows the stop.\<close>

definition follows :: "GameEvent \<Rightarrow> GameEvent \<Rightarrow> bool" where
  "follows d e \<longleftrightarrow>
     (if ev_Type d = GAME_STATE_ROUND_ENDED
      then ev_Type e = GAME_STATE_ROUND_STARTED \<or> ev_Type e = GAME_STATE_STOPPED
      else ev_RoundID e = ev_RoundID d \<and>
        ((ev_Type d, ev_Type e) = (GAME_STATE_ROUND_STARTED, GAME_STATE_BETTING) \<or>
         (ev_Type d, ev_Type e) = (GAME_STATE_BETTING, GAME_STATE_DRAWING) \<or>
         (ev_Type d, ev_Type e) = (GAME_STATE_DRAWING, GAME_STATE_RESULT) \<and> ev_Data e = ev_Data d \<or>
         (ev_Type d, ev_Type e) = (GAME_STATE_RESULT, GAME_STATE_ROUND_ENDED)))"

definition legal_log :: "GameEvent list \<Rightarrow> bool" where
  "legal_log es \<longleftrightarrow>
     (es = [] \<or> ev_Type (hd es) = GAME_STATE_ROUND_STARTED \<or> ev_Type (hd es) = GAME_STATE_STOPPED) \<and>
     successively follows es"

lemma legal_log_snoc:
  "legal_log (es @ [e]) \<longleftrightarrow>
     (if es = [] then ev_Type e = GAME_STATE_ROUND_STARTED \<or> ev_Type e = GAME_STATE_STOPPED
      else legal_log es \<and> follows (last es) e)"
  by (auto simp: legal_log_def successively_append_iff)

lemma legal_log_single:
  "legal_log [e] \<longleftrightarrow> ev_Type e = GAME_STATE_ROUND_STARTED \<or> ev_Type e = GAME_STATE_STOPPED"
  by (simp add: legal_log_def)

text \<open>The last event emitted when the goroutine is at a program point inside a round: its type, its
  round, and the color it carries once one is drawn.\<close>

fun pc_last :: "pc \<Rightarrow> (ColorGameState \<times> string \<times> event_data option) option" where
  "pc_last (AtSleep Wait rid res) = Some (GAME_STATE_ROUND_STARTED, rid, None)"
| "pc_last (AtLock Betting rid res) = Some (GAME_STATE_ROUND_STARTED, rid, None)"
| "pc_last (AtEmit Betting rid res) = Some (GAME_STATE_ROUND_STARTED, rid, None)"
| "pc_last (AtSleep Betting rid res) = Some (GAME_STATE_BETTING, rid, None)"
| "pc_last (AtLock Drawing rid res) = Some (GAME_STATE_BETTING, rid, None)"
| "pc_last (AtEmit Drawing rid res) = Some (GAME_STATE_BETTING, rid, None)"
| "pc_last (AtSleep Drawing rid res) = Some (GAME_STATE_DRAWING, rid, Some (ColorData res))"
| "pc_last (AtLock Result rid res) = Some (GAME_STATE_DRAWING, rid, Some (ColorData res))"
| "pc_last (AtEmit Result rid res) = Some (GAME_STATE_DRAWING, rid, Some (ColorData res))"
| "pc_last (AtSleep Result rid res) = Some (GAME_STATE_RESULT, rid, None)"
| "pc_last (AtEmit Rest rid res) = Some (GAME_STATE_RESULT, rid, None)"
| "pc_last (AtLock Rest rid res) = Some (GAME_STATE_ROUND_ENDED, rid, None)"
| "pc_last (AtSleep Rest rid res) = Some (GAME_STATE_ROUND_ENDED, rid, None)"
| "pc_last _ = None"

text \<open>Program points at which a round may begin.\<close>

fun pc_fresh :: "pc \<Rightarrow> bool \<Rightarrow> bool" where
  "pc_fresh AtStart c = True"
| "pc_fresh AtTop c = (\<not> c)"
| "pc_fresh AtCheck c = True"
| "pc_fresh AtBegin c = True"
| "pc_fresh AtStopEmit c = True"
| "pc_fresh (AtEmit Wait rid res) c = True"
| "pc_fresh _ c = False"

definition ends_round :: "GameEvent list \<Rightarrow> bool" where
  "ends_round es \<longleftrightarrow> es = [] \<or> ev_Type (last es) = GAME_STATE_ROUND_ENDED"

definition log_inv :: "gms_sys \<Rightarrow> bool" where
  "log_inv s \<longleftrightarrow>
     legal_log (map fst (emitted s)) \<and>
     (pc_fresh (ctl s) (ctxDone s) \<longrightarrow> ends_round (map fst (emitted s))) \<and>
     (\<forall>ty rid d. pc_last (ctl s) = Some (ty, rid, d) \<longrightarrow>
        emitted s \<noteq> [] \<and> ev_Type (fst (last (emitted s))) = ty \<and>
        ev_RoundID (fst (last (emitted s))) = rid \<and>
        (\<forall>x. d = Some x \<longrightarrow> ev_Data (fst (last (emitted s))) = x))"

lemma log_inv_emit_phase:
  assumes inv: "log_inv s" and at: "ctl s = AtEmit p rid res"
  shows "legal_log (map fst (emitted (emit (phaseEvent p rid res (mach s)) s)))"
proof -
  let ?es = "map fst (emitted s)"
  have legal: "legal_log ?es" using inv by (simp add: log_inv_def)
  have "if ?es = [] then p = Wait else follows (last ?es) (phaseEvent p rid res (mach s))"
    using inv at
    by (cases "emitted s = []"; cases p)
      (auto simp: log_inv_def ends_round_def follows_def last_map)
  with legal show ?thesis
    by (auto simp: emit_def legal_log_snoc split: if_splits)
qed

lemma log_inv_main: "main_step tz s t \<Longrightarrow> log_inv s \<Longrightarrow> log_inv t"
proof (induction rule: main_step.induct)
  case (emit_phase s p rid res)
  from log_inv_emit_phase [OF emit_phase.prems emit_phase.hyps(1)] emit_phase.hyps(2) show ?case
    by (cases p) (auto simp: log_inv_def emit_def)
next
  case (emit_ended s rid res)
  from log_inv_emit_phase [OF emit_ended.prems emit_ended.hyps] show ?case
    by (auto simp: log_inv_def emit_def)
next
  case (emit_stopped s)
  then show ?case
    by (cases "emitted s = []")
      (auto simp: log_inv_def emit_def legal_log_snoc legal_log_single ends_round_def
        stoppedEvent_def follows_def last_map)
next
  case (sleep_rest s rid res)
  then show ?case by (auto simp: log_inv_def ends_round_def last_map)
qed (auto simp: log_inv_def)

lemma log_inv_env: "env_step s t \<Longrightarrow> log_inv s \<Longrightarrow> log_inv t"
proof (induction rule: env_step.induct)
  case (cancel s)
  then show ?case by (cases "ctl s") (auto simp: log_inv_def elim: pc_fresh.elims)
qed (auto simp: log_inv_def)

lemma reach_log_inv: "gms_reach tz s \<Longrightarrow> log_inv s"
proof (induction rule: gms_reach_induct)
  case (init s)
  then show ?case by (simp add: log_inv_def gms_init_def legal_log_def ends_round_def)
qed (auto intro: log_inv_main log_inv_env)

end
