(* ===== verification/Gms_Props.thy ===== *)
theory Gms_Props
  imports Gms_Run
begin

text \<open>
  What the running state machine guarantees: the order of its events, exactly-once delivery to the
  handlers, when bets are accepted, that \<^verbatim>\<open>runRound\<close> as one function is a run of the step relation,
  and that a graceful stop finishes the round in progress and ends.
\<close>

section \<open>Paths\<close>

abbreviation gms_steps :: "(go_time \<Rightarrow> int) \<Rightarrow> gms_sys \<Rightarrow> gms_sys \<Rightarrow> bool" where
  "gms_steps tz \<equiv> (gms_step tz)\<^sup>*\<^sup>*"

lemma steps_main: "gms_steps tz s t \<Longrightarrow> main_step tz t u \<Longrightarrow> gms_steps tz s u"
  by (rule rtranclp.rtrancl_into_rtrancl) (auto simp: gms_step_def)

lemma steps_env: "gms_steps tz s t \<Longrightarrow> env_step t u \<Longrightarrow> gms_steps tz s u"
  by (rule rtranclp.rtrancl_into_rtrancl) (auto simp: gms_step_def)

lemma reach_steps: "gms_reach tz s \<Longrightarrow> gms_steps tz s t \<Longrightarrow> gms_reach tz t"
  by (rotate_tac, induction rule: rtranclp_induct) (auto intro: reach_step)

lemma steps_lock_begin:
  assumes "ctl s = AtBegin" "clock s \<le> t1" "t1 \<le> t2"
  shows "gms_steps tz s (s\<lparr>mach := beginRound (generateRoundID tz t1) t2 (mach s), clock := t2,
                           ctl := AtEmit Wait (generateRoundID tz t1) 0\<rparr>)"
  using steps_main [OF rtranclp.rtrancl_refl lock_begin [OF assms]] .

lemma steps_cancel:
  assumes "ctl s = AtSleep p rid res"
  shows "gms_steps tz s (s\<lparr>ctxDone := True, ctl := AtTop\<rparr>)"
  using steps_main [OF steps_env [OF rtranclp.rtrancl_refl cancel] sleep_cancelled] assms
  by simp

text \<open>What follows a sleep that was not cut short; \<open>res\<close> is the color drawn when betting ends.\<close>

fun after_sleep :: "phase \<Rightarrow> string \<Rightarrow> ColorGameReward \<Rightarrow> nat \<Rightarrow> pc" where
  "after_sleep Wait rid res rnd = AtLock Betting rid res"
| "after_sleep Betting rid res rnd = AtLock Drawing rid (drawResult rnd)"
| "after_sleep Drawing rid res rnd = AtLock Result rid res"
| "after_sleep Result rid res rnd = AtEmit Rest rid res"
| "after_sleep Rest rid res rnd = AtTop"

lemma steps_sleep:
  assumes "ctl s = AtSleep p rid res" "wake s \<le> t" "clock s \<le> t" "\<not> ctxDone s"
  shows "gms_steps tz s (s\<lparr>clock := t, ctl := after_sleep p rid res rnd\<rparr>)"
proof -
  let ?u = "s\<lparr>clock := t\<rparr>"
  have "main_step tz ?u (?u\<lparr>ctl := after_sleep p rid res rnd\<rparr>)"
    using assms by (cases p) (auto intro: main_step.intros)
  then show ?thesis
    using steps_main [OF steps_env [OF rtranclp.rtrancl_refl tick [OF assms(3)]]] by simp
qed

lemma steps_emit:
  assumes "ctl s = AtEmit p rid res" "p \<noteq> Rest"
  shows "gms_steps tz s ((emit (phaseEvent p rid res (mach s)) s)\<lparr>
           wake := clock s + phaseDuration p (mach s), ctl := AtSleep p rid res\<rparr>)"
  using steps_main [OF rtranclp.rtrancl_refl emit_phase [OF assms]] .

text \<open>The lock section a phase begins with.\<close>

fun beginPhase :: "phase \<Rightarrow> go_time \<Rightarrow> ColorGameReward \<Rightarrow> StateMachine \<Rightarrow> StateMachine" where
  "beginPhase Betting now res sm = beginBetting now sm"
| "beginPhase Drawing now res sm = beginDrawing now res sm"
| "beginPhase Result now res sm = beginResult now sm"
| "beginPhase _ now res sm = sm"

lemma steps_lock:
  assumes "ctl s = AtLock p rid res" "p \<noteq> Wait" "p \<noteq> Rest"
  shows "gms_steps tz s (s\<lparr>mach := beginPhase p (clock s) res (mach s), ctl := AtEmit p rid res\<rparr>)"
proof -
  have "main_step tz s (s\<lparr>mach := beginPhase p (clock s) res (mach s), ctl := AtEmit p rid res\<rparr>)"
    using assms by (cases p) (auto intro: main_step.intros)
  then show ?thesis using steps_main [OF rtranclp.rtrancl_refl] by blast
qed

text \<open>The goroutine sleeps in phase \<open>p\<close>, since \<open>now\<close>, the machine is \<open>sm\<close>, and \<open>es\<close> was emitted.\<close>

definition asleep ::
    "phase \<Rightarrow> string \<Rightarrow> ColorGameReward \<Rightarrow> go_time \<Rightarrow> StateMachine \<Rightarrow> (GameEvent \<times> nat list) list \<Rightarrow> gms_sys \<Rightarrow> bool" where
  "asleep p rid res now sm es s \<longleftrightarrow>
     ctl s = AtSleep p rid res \<and> mach s = sm \<and> clock s = now \<and>
     wake s = now + phaseDuration p sm \<and> \<not> ctxDone s \<and> emitted s = es"

lemma phaseDuration_emitEvent [simp]: "phaseDuration p (emitEvent e sm) = phaseDuration p sm"
  by (cases p) simp_all

lemma steps_to_sleep:
  assumes "gms_steps tz s u" "ctl u = AtEmit p rid res" "p \<noteq> Rest" "\<not> ctxDone u"
  shows "\<exists>t. gms_steps tz s t \<and>
           asleep p rid res (clock u) (emitEvent (phaseEvent p rid res (mach u)) (mach u))
             (emitted u @ [(phaseEvent p rid res (mach u), eventHandlers (mach u))]) t"
  by (intro exI conjI, rule rtranclp_trans [OF assms(1) steps_emit [OF assms(2,3)]])
    (use assms(4) in \<open>simp add: asleep_def emit_def\<close>)

lemma steps_next_phase:
  assumes s: "asleep p rid res now sm es s" and t: "now + phaseDuration p sm \<le> t'" "now \<le> t'"
    and q: "after_sleep p rid res rnd = AtLock q rid res'" "q \<noteq> Wait" "q \<noteq> Rest"
  shows "\<exists>t. gms_steps tz s t \<and>
           asleep q rid res' t'
             (emitEvent (phaseEvent q rid res' (beginPhase q t' res' sm)) (beginPhase q t' res' sm))
             (es @ [(phaseEvent q rid res' (beginPhase q t' res' sm), eventHandlers sm)]) t"
proof -
  let ?u = "s\<lparr>clock := t', ctl := AtLock q rid res'\<rparr>"
  have "gms_steps tz s ?u"
    using steps_sleep [of s p rid res t' tz rnd] s t q by (simp add: asleep_def)
  moreover have "gms_steps tz ?u
      (?u\<lparr>mach := beginPhase q t' res' (mach s), ctl := AtEmit q rid res'\<rparr>)" (is "gms_steps _ _ ?v")
    using steps_lock [of ?u q rid res' tz] q by simp
  ultimately have "gms_steps tz s ?v" by (rule rtranclp_trans)
  moreover have "eventHandlers (beginPhase q t' res' sm) = eventHandlers sm" by (cases q) (simp_all add: machine_defs)
  ultimately show ?thesis using steps_to_sleep [of tz s ?v q rid res'] q s by (simp add: asleep_def)
qed

section \<open>A round is a run\<close>

text \<open>The clock readings of a round respect its sleeps.\<close>

definition round_times :: "round_env \<Rightarrow> StateMachine \<Rightarrow> bool" where
  "round_times env sm \<longleftrightarrow>
     0 \<le> WaitDuration sm \<and> 0 \<le> BettingDuration sm \<and> 0 \<le> DrawingDuration sm \<and>
     0 \<le> ResultDuration sm \<and> 0 \<le> RestDuration sm \<and>
     env_id env \<le> env_start env \<and>
     env_start env + WaitDuration sm \<le> env_betting env \<and>
     env_betting env + BettingDuration sm \<le> env_drawing env \<and>
     env_drawing env + DrawingDuration sm \<le> env_result env \<and>
     env_result env + ResultDuration sm \<le> env_rest env"

lemma phaseDuration_begin [simp]:
  "phaseDuration p (beginRound rid now sm) = phaseDuration p sm"
  "phaseDuration p (beginBetting now sm) = phaseDuration p sm"
  "phaseDuration p (beginDrawing now res sm) = phaseDuration p sm"
  "phaseDuration p (beginResult now sm) = phaseDuration p sm"
  by (cases p; simp add: machine_defs)+

lemma steps_cut:
  assumes "gms_steps tz s t" "asleep p rid res now sm es t"
  shows "\<exists>u. gms_steps tz s u \<and> mach u = sm \<and> (ctl u = AtTop \<or> (\<exists>rid res. ctl u = AtSleep Rest rid res))"
proof -
  have "gms_steps tz t (t\<lparr>ctxDone := True, ctl := AtTop\<rparr>)"
    using assms(2) by (auto simp: asleep_def intro: steps_cancel)
  with assms show ?thesis
    by (intro exI [of _ "t\<lparr>ctxDone := True, ctl := AtTop\<rparr>"]) (auto simp: asleep_def)
qed

lemma steps_ended:
  assumes s: "asleep Result rid res now sm es s" and t: "now + ResultDuration sm \<le> t'" "now \<le> t'"
  shows "\<exists>u. gms_steps tz s u \<and>
     asleep Rest rid res t' (beginRest t' (emitEvent (phaseEvent Rest rid res sm) sm))
       (es @ [(phaseEvent Rest rid res sm, eventHandlers sm)]) u"
proof -
  let ?u = "s\<lparr>clock := t', ctl := AtEmit Rest rid res\<rparr>"
  let ?v = "(emit (phaseEvent Rest rid res sm) ?u)\<lparr>ctl := AtLock Rest rid res\<rparr>"
  have "gms_steps tz s ?u"
    using steps_sleep [of s Result rid res t' tz 0] s t by (simp add: asleep_def)
  moreover have "main_step tz ?u ?v"
    using main_step.emit_ended [of ?u rid res tz] s by (simp add: asleep_def)
  moreover have "main_step tz ?v (?v\<lparr>mach := beginRest (clock ?v) (mach ?v),
       wake := clock ?v + phaseDuration Rest (mach ?v), ctl := AtSleep Rest rid res\<rparr>)"
    (is "main_step tz ?v ?w")
    using main_step.lock_rest [of ?v rid res tz] by simp
  ultimately have "gms_steps tz s ?w" by (meson rtranclp_trans steps_main)
  then show ?thesis using s by (intro exI [of _ ?w]) (simp add: asleep_def emit_def beginRest_def)
qed

text \<open>The machine after the emission of each phase of a round.\<close>

fun phase_rank :: "phase \<Rightarrow> nat" where
  "phase_rank Wait = 0"
| "phase_rank Betting = 1"
| "phase_rank Drawing = 2"
| "phase_rank Result = 3"
| "phase_rank Rest = 4"

function afterPhase :: "(go_time \<Rightarrow> int) \<Rightarrow> round_env \<Rightarrow> StateMachine \<Rightarrow> phase \<Rightarrow> StateMachine" where
  "afterPhase tz env sm Wait =
     (let m = beginRound (generateRoundID tz (env_id env)) (env_start env) sm
      in emitEvent (phaseEvent Wait (generateRoundID tz (env_id env)) 0 m) m)"
| "afterPhase tz env sm Betting =
     (let m = beginBetting (env_betting env) (afterPhase tz env sm Wait)
      in emitEvent (phaseEvent Betting (generateRoundID tz (env_id env)) 0 m) m)"
| "afterPhase tz env sm Drawing =
     (let m = beginDrawing (env_drawing env) (drawResult (env_rnd env)) (afterPhase tz env sm Betting)
      in emitEvent (phaseEvent Drawing (generateRoundID tz (env_id env)) (drawResult (env_rnd env)) m) m)"
| "afterPhase tz env sm Result =
     (let m = beginResult (env_result env) (afterPhase tz env sm Drawing)
      in emitEvent (phaseEvent Result (generateRoundID tz (env_id env)) (drawResult (env_rnd env)) m) m)"
| "afterPhase tz env sm Rest =
     (let m = afterPhase tz env sm Result
      in beginRest (env_rest env)
           (emitEvent (phaseEvent Rest (generateRoundID tz (env_id env)) (drawResult (env_rnd env)) m) m))"
  by pat_completeness auto

termination
  by (relation "measure (\<lambda>(_, _, _, p). phase_rank p)") auto

lemma runRound_after:
  "runRound tz env sm =
     afterPhase tz env sm
       (if env_cancelled env Wait then Wait else if env_cancelled env Betting then Betting
        else if env_cancelled env Drawing then Drawing else if env_cancelled env Result then Result else Rest)"
  by (simp add: runRound_def Let_def)

lemma after_frame [simp]:
  "phaseDuration q (afterPhase tz env sm p) = phaseDuration q sm"
  "eventHandlers (afterPhase tz env sm p) = eventHandlers sm"
proof -
  have "phaseDuration q (afterPhase tz env sm p) = phaseDuration q sm \<and>
      eventHandlers (afterPhase tz env sm p) = eventHandlers sm"
    by (cases p; cases q) (simp_all add: machine_defs)
  then show "phaseDuration q (afterPhase tz env sm p) = phaseDuration q sm"
    "eventHandlers (afterPhase tz env sm p) = eventHandlers sm" by simp_all
qed



definition phase_shows :: "(go_time \<Rightarrow> int) \<Rightarrow> round_env \<Rightarrow> StateMachine \<Rightarrow> phase \<Rightarrow> GameEvent" where
  "phase_shows tz env sm p =
     (let rid = generateRoundID tz (env_id env); col = drawResult (env_rnd env);
          bettingEnd = env_betting env + BettingDuration sm;
          event = (\<lambda>st data secs stamp. \<lparr>ev_Type = st, ev_RoundID = rid, ev_Data = data, ev_LeftTime = seconds_of secs,
             ev_BettingEndTimestamp = stamp\<rparr>)
      in case p of
           Wait \<Rightarrow> event GAME_STATE_ROUND_STARTED NoData (WaitDuration sm) 0
         | Betting \<Rightarrow> event GAME_STATE_BETTING (TimeData bettingEnd) (BettingDuration sm) (Unix bettingEnd)
         | Drawing \<Rightarrow> event GAME_STATE_DRAWING (ColorData col) (DrawingDuration sm) (Unix bettingEnd)
         | Result \<Rightarrow> event GAME_STATE_RESULT (ColorData col) (ResultDuration sm) (Unix bettingEnd)
         | Rest \<Rightarrow> event GAME_STATE_ROUND_ENDED NoData (RestDuration sm) (Unix bettingEnd))"



text \<open>The state of the goroutine in phase \<open>p\<close> of a round that began in \<open>s\<close>.\<close>

definition in_round :: "(go_time \<Rightarrow> int) \<Rightarrow> round_env \<Rightarrow> gms_sys \<Rightarrow> phase \<Rightarrow> gms_sys \<Rightarrow> bool" where
  "in_round tz env s p t \<longleftrightarrow>
     asleep p (generateRoundID tz (env_id env)) (if phase_rank p < 2 then 0 else drawResult (env_rnd env))
       (case p of Wait \<Rightarrow> env_start env | Betting \<Rightarrow> env_betting env | Drawing \<Rightarrow> env_drawing env
          | Result \<Rightarrow> env_result env | Rest \<Rightarrow> env_rest env)
       (afterPhase tz env (mach s) p)
       (emitted s @ map (\<lambda>q. (phase_shows tz env (mach s) q, eventHandlers (mach s)))
          (take (Suc (phase_rank p)) [Wait, Betting, Drawing, Result, Rest])) t"

lemma round_path:
  assumes at: "ctl s = AtBegin" "\<not> ctxDone s" "clock s \<le> env_id env"
    and times: "round_times env (mach s)"
  shows "\<exists>s1 s2 s3 s4 s5. gms_steps tz s s1 \<and> gms_steps tz s1 s2 \<and> gms_steps tz s2 s3 \<and> gms_steps tz s3 s4 \<and>
     gms_steps tz s4 s5 \<and> in_round tz env s Wait s1 \<and> in_round tz env s Betting s2 \<and> in_round tz env s Drawing s3 \<and>
     in_round tz env s Result s4 \<and> in_round tz env s Rest s5"
proof -
  let ?rid = "generateRoundID tz (env_id env)" and ?res = "drawResult (env_rnd env)"
  let ?m = "afterPhase tz env (mach s)"
  note defs = machine_defs phase_shows_def in_round_def
  have dur: "WaitDuration (?m p) = WaitDuration (mach s)" "BettingDuration (?m p) = BettingDuration (mach s)"
    "DrawingDuration (?m p) = DrawingDuration (mach s)" "ResultDuration (?m p) = ResultDuration (mach s)" for p
    using after_frame(1) [of Wait tz env "mach s" p] after_frame(1) [of Betting tz env "mach s" p]
      after_frame(1) [of Drawing tz env "mach s" p] after_frame(1) [of Result tz env "mach s" p]
    by (simp_all del: after_frame)
  have "gms_steps tz s (s\<lparr>mach := beginRound ?rid (env_start env) (mach s), clock := env_start env, ctl := AtEmit Wait ?rid 0\<rparr>)"
    using steps_lock_begin [OF at(1,3), of "env_start env" tz] times by (simp add: round_times_def)
  from steps_to_sleep [OF this, of Wait ?rid 0] at(2) obtain s1 where s1: "gms_steps tz s s1" "in_round tz env s Wait s1"
    by (auto simp: defs)
  from steps_next_phase [OF s1(2) [unfolded in_round_def], of "env_betting env" 0 Betting 0 tz] times obtain s2
    where s2: "gms_steps tz s1 s2" "in_round tz env s Betting s2"
    by (auto simp: round_times_def dur defs)
  from steps_next_phase [OF s2(2) [unfolded in_round_def], of "env_drawing env" "env_rnd env" Drawing ?res tz] times obtain s3
    where s3: "gms_steps tz s2 s3" "in_round tz env s Drawing s3"
    by (auto simp: round_times_def dur defs)
  from steps_next_phase [OF s3(2) [unfolded in_round_def], of "env_result env" 0 Result ?res tz] times obtain s4
    where s4: "gms_steps tz s3 s4" "in_round tz env s Result s4"
    by (auto simp: round_times_def dur defs)
  have "asleep Result ?rid ?res (env_result env) (?m Result) (emitted s4) s4"
    using s4(2) by (simp add: in_round_def asleep_def)
  from steps_ended [OF this, of "env_rest env" tz] times s4(2) obtain s5
    where "gms_steps tz s4 s5" "in_round tz env s Rest s5"
    by (auto simp: round_times_def dur defs asleep_def)
  with s1 s2 s3 s4 show ?thesis by blast
qed

lemma runRound_steps:
  assumes "ctl s = AtBegin" "\<not> ctxDone s" "clock s \<le> env_id env" "round_times env (mach s)"
  shows "\<exists>t. gms_steps tz s t \<and> mach t = runRound tz env (mach s) \<and>
           (ctl t = AtTop \<or> (\<exists>rid res. ctl t = AtSleep Rest rid res))"
proof -
  from round_path [OF assms, of tz] obtain s1 s2 s3 s4 s5 where s:
    "gms_steps tz s s1" "gms_steps tz s1 s2" "gms_steps tz s2 s3" "gms_steps tz s3 s4" "gms_steps tz s4 s5"
    "in_round tz env s Wait s1" "in_round tz env s Betting s2" "in_round tz env s Drawing s3"
    "in_round tz env s Result s4" "in_round tz env s Rest s5" by blast
  let ?at = "\<lambda>p. case p of Wait \<Rightarrow> s1 | Betting \<Rightarrow> s2 | Drawing \<Rightarrow> s3 | Result \<Rightarrow> s4 | Rest \<Rightarrow> s5"
  have "gms_steps tz s (?at p) \<and> in_round tz env s p (?at p)" for p
    using s by (cases p) (auto intro: rtranclp_trans)
  then have "\<exists>t. gms_steps tz s t \<and> mach t = afterPhase tz env (mach s) p \<and>
      (ctl t = AtTop \<or> (\<exists>rid res. ctl t = AtSleep Rest rid res))" for p
    using steps_cut unfolding in_round_def by blast
  then show ?thesis by (simp only: runRound_after)
qed

section \<open>Stopping\<close>

text \<open>The distance of a program point from the end once the machine is stopping.\<close>

fun pc_rank :: "pc \<Rightarrow> nat" where
  "pc_rank AtDone = 0"
| "pc_rank AtJoin = 1"
| "pc_rank AtClose = 2"
| "pc_rank AtStopEmit = 3"
| "pc_rank AtCheck = 4"
| "pc_rank AtTop = 5"
| "pc_rank AtStart = 6"
| "pc_rank (AtSleep Rest _ _) = 7"
| "pc_rank (AtLock Rest _ _) = 8"
| "pc_rank (AtEmit Rest _ _) = 9"
| "pc_rank (AtSleep Result _ _) = 10"
| "pc_rank (AtEmit Result _ _) = 11"
| "pc_rank (AtLock Result _ _) = 12"
| "pc_rank (AtSleep Drawing _ _) = 13"
| "pc_rank (AtEmit Drawing _ _) = 14"
| "pc_rank (AtLock Drawing _ _) = 15"
| "pc_rank (AtSleep Betting _ _) = 16"
| "pc_rank (AtEmit Betting _ _) = 17"
| "pc_rank (AtLock Betting _ _) = 18"
| "pc_rank (AtSleep Wait _ _) = 19"
| "pc_rank (AtEmit Wait _ _) = 20"
| "pc_rank (AtLock Wait _ _) = 21"
| "pc_rank AtBegin = 22"

text \<open>When the machine is stopping, every step of the goroutine brings it closer to the end, and no
  other step moves it.\<close>

lemma stopping_main: "main_step tz s t \<Longrightarrow> stopping (mach s) \<Longrightarrow>
    pc_rank (ctl t) < pc_rank (ctl s) \<and> stopping (mach t)"
proof (induction rule: main_step.induct)
  case (emit_phase s p rid res)
  then show ?case by (cases p) (auto simp: machine_defs)
next
  case (sleep_cancelled s p rid res)
  then show ?case by (cases p) auto
qed (auto simp: machine_defs)

lemma stopping_env:
  "env_step s t \<Longrightarrow> ctl t = ctl s \<and> (stopping (mach s) \<longrightarrow> stopping (mach t)) \<and>
     roundCounter (mach t) = roundCounter (mach s)"
  by (induction rule: env_step.induct) (auto simp: machine_defs)

lemma reach_pc_ok: "gms_reach tz s \<Longrightarrow> ctl s \<noteq> AtLock Wait rid res"
proof (induction rule: gms_reach_induct)
  case (main s t)
  from main(2,3) show ?case by (induction rule: main_step.induct) auto
qed (auto simp: gms_init_def dest: stopping_env)

lemma main_step_frame: "main_step tz s t \<Longrightarrow> ctxDone t = ctxDone s"
  by (induction rule: main_step.induct) (auto simp: emit_def)

text \<open>The workers empty the queue.\<close>

lemma steps_drain:
  "0 < workers s \<Longrightarrow> \<exists>t. gms_steps tz s t \<and> jobQueue (mach t) = [] \<and> running t = [] \<and>
     ctl t = ctl s \<and> stopping (mach t) = stopping (mach s) \<and> ctxDone t = ctxDone s"
proof (induction "2 * length (jobQueue (mach s)) + length (running s)" arbitrary: s rule: less_induct)
  case less
  show ?case
  proof (cases "running s")
    case Nil
    show ?thesis
    proof (cases "jobQueue (mach s)")
      case (Cons j js)
      let ?t = "s\<lparr>mach := (mach s)\<lparr>jobQueue := js\<rparr>, running := [j]\<rparr>"
      have "gms_steps tz s ?t"
        using steps_env [OF rtranclp.rtrancl_refl take_job [OF Cons]] Nil less.prems by simp
      with less.hyps [of ?t] Cons less.prems Nil show ?thesis
        by (auto intro: rtranclp_trans)
    qed (use Nil in blast)
  next
    case (Cons j js)
    let ?t = "s\<lparr>running := js, finished := finished s @ [j]\<rparr>"
    have "gms_steps tz s ?t"
      using steps_env [OF rtranclp.rtrancl_refl finish_job [of j s]] Cons by simp
    with less.hyps [of ?t] Cons less.prems show ?thesis
      by (auto intro: rtranclp_trans)
  qed
qed

lemma steps_next:
  assumes reach: "gms_reach tz s" and "ctl s \<noteq> AtDone" "stopping (mach s)"
  shows "\<exists>t u. gms_steps tz s t \<and> ctl t = ctl s \<and> stopping (mach t) \<and> ctxDone t = ctxDone s \<and>
           main_step tz t u"
proof (cases "ctl s")
  case (AtLock p rid res)
  with reach_pc_ok [OF reach] show ?thesis
    using assms(3) by (cases p) (blast intro: main_step.intros)+
next
  case (AtEmit p rid res)
  with assms(3) show ?thesis by (cases "p = Rest") (blast intro: main_step.intros)+
next
  case (AtSleep p rid res)
  let ?t = "s\<lparr>clock := max (wake s) (clock s)\<rparr>"
  have "gms_steps tz s ?t" by (rule steps_env [OF rtranclp.rtrancl_refl tick]) simp
  moreover have "\<exists>u. main_step tz ?t u"
  proof (cases "ctxDone s")
    case True
    with AtSleep have "main_step tz ?t (?t\<lparr>ctl := AtTop\<rparr>)" by (intro sleep_cancelled) auto
    then show ?thesis ..
  next
    case False
    then have "main_step tz ?t (?t\<lparr>ctl := after_sleep p rid res 0\<rparr>)"
      using AtSleep by (cases p) (auto intro: main_step.intros)
    then show ?thesis ..
  qed
  ultimately show ?thesis using assms(3) by - (rule exI [of _ ?t], simp)
next
  case AtJoin
  with reach_pool_inv [OF reach] have "0 < workers s" by (simp add: pool_inv_def workerCount_def)
  from steps_drain [OF this, of tz] AtJoin assms(3) show ?thesis by (metis join_workers)
next
  case AtTop
  then show ?thesis using assms(3) by (cases "ctxDone s") (blast intro: main_step.intros)+
qed (use assms in \<open>blast intro: main_step.intros order_refl\<close>)+

lemma stopping_completes:
  "gms_reach tz s \<Longrightarrow> stopping (mach s) \<Longrightarrow>
   \<exists>t. gms_steps tz s t \<and> ctl t = AtDone \<and> ctxDone t = ctxDone s"
proof (induction "pc_rank (ctl s)" arbitrary: s rule: less_induct)
  case less
  show ?case
  proof (cases "ctl s = AtDone")
    case False
    from steps_next [OF less.prems(1) False less.prems(2)] obtain t u
      where t: "gms_steps tz s t" "ctl t = ctl s" "stopping (mach t)" "ctxDone t = ctxDone s"
        "main_step tz t u" by blast
    then have u: "gms_steps tz s u" by (metis steps_main)
    from stopping_main [OF t(5,3)] main_step_frame [OF t(5)] t less.hyps [of u]
      reach_steps [OF less.prems(1) u]
    show ?thesis by (metis rtranclp_trans u)
  qed blast
qed

text \<open>At most the round that was already past the check is still run.\<close>

lemma stopping_rounds:
  assumes "gms_steps tz s t" "stopping (mach s)"
  shows "stopping (mach t) \<and>
    (if ctl s = AtBegin \<and> ctl t \<noteq> AtBegin then roundCounter (mach t) = roundCounter (mach s) + 1
     else roundCounter (mach t) = roundCounter (mach s)) \<and>
    (ctl s \<noteq> AtBegin \<longrightarrow> ctl t \<noteq> AtBegin)"
  using assms
proof (induction rule: rtranclp_induct)
  case (step t u)
  then have IH: "stopping (mach t)" by simp
  from step(2) show ?case unfolding gms_step_def
  proof
    assume "main_step tz t u"
    then show ?thesis using step(3) step.prems IH
      by (induction rule: main_step.induct) (auto simp: machine_defs)
  next
    assume "env_step t u"
    from stopping_env [OF this] step(3) step.prems show ?thesis by auto
  qed
qed simp

text \<open>Without a forced stop, the last event of a machine that is shutting down is the stop.\<close>

lemma reach_stopped_last:
  "gms_reach tz s \<Longrightarrow> ctl s \<in> {AtClose, AtJoin, AtDone} \<Longrightarrow> \<not> ctxDone s \<Longrightarrow>
   emitted s \<noteq> [] \<and> fst (last (emitted s)) = stoppedEvent"
proof (induction rule: gms_reach_induct)
  case (main s t)
  from main(2,3,4,5) show ?case by (induction rule: main_step.induct) (auto simp: emit_def split: if_splits)
next
  case (env s t)
  from env(2,3,4,5) show ?case by (induction rule: env_step.induct) auto
qed (auto simp: gms_init_def)

section \<open>When bets are accepted\<close>

fun pc_betting :: "pc \<Rightarrow> bool" where
  "pc_betting (AtEmit Betting rid res) = True"
| "pc_betting (AtSleep Betting rid res) = True"
| "pc_betting (AtLock Drawing rid res) = True"
| "pc_betting _ = False"

lemma pc_betting_iff:
  "pc_betting c \<longleftrightarrow> (\<exists>rid res. pc_round c = Some (rid, GAME_STATE_BETTING, res))"
  by (cases c rule: pc_round.cases) simp_all

lemma pc_round_betting:
  "pc_round c = Some (rid, GAME_STATE_BETTING, res) \<Longrightarrow>
   res = 0 \<and> (\<exists>ty d. pc_last c = Some (ty, rid, d) \<and>
     (ty = GAME_STATE_ROUND_STARTED \<or> ty = GAME_STATE_BETTING))"
  by (cases c rule: pc_round.cases) auto

lemma accept_iff:
  assumes "round_inv s" "\<not> ctxDone s"
  shows "CanAcceptBet now (mach s) \<longleftrightarrow> pc_betting (ctl s) \<and> now < roundBettingEnd (mach s)"
proof (cases "pc_round (ctl s)")
  case None
  with assms show ?thesis
    by (auto simp: pc_betting_iff round_inv_def CanAcceptBet_def round_defs split: option.splits)
next
  case (Some x)
  obtain rid st res where x: "x = (rid, st, res)" by (cases x)
  with Some assms obtain r where "currentRound (mach s) = Some r" "r_State r = st"
    by (auto simp: round_inv_def)
  with Some x show ?thesis
    by (auto simp: pc_betting_iff CanAcceptBet_def round_defs roundBettingEnd_def)
qed

section \<open>A sample run\<close>

text \<open>A machine with one handler, started at the epoch, up to the sleep of its first betting phase.\<close>

definition sample_begin :: gms_sys where
  "sample_begin =
     \<lparr>mach = RegisterEventHandler 1 NewStateMachine, ctl = AtBegin, clock = 0, wake = 0,
      ctxDone = False, workers = workerCount, running = [], finished = [], emitted = []\<rparr>"

definition sample_id :: string where
  "sample_id = generateRoundID (\<lambda>_. 0) 0"

definition sample_wait :: gms_sys where
  "sample_wait =
     (let u = sample_begin\<lparr>mach := beginRound sample_id 0 (mach sample_begin), clock := 0,
                           ctl := AtEmit Wait sample_id 0\<rparr>
      in (emit (phaseEvent Wait sample_id 0 (mach u)) u)\<lparr>
           wake := clock u + phaseDuration Wait (mach u), ctl := AtSleep Wait sample_id 0\<rparr>)"

definition sample_betting :: gms_sys where
  "sample_betting =
     (let u = sample_wait\<lparr>clock := 2 * Second, ctl := AtLock Betting sample_id 0\<rparr>;
          v = u\<lparr>mach := beginBetting (clock u) (mach u), ctl := AtEmit Betting sample_id 0\<rparr>
      in (emit (phaseEvent Betting sample_id 0 (mach v)) v)\<lparr>
           wake := clock v + phaseDuration Betting (mach v), ctl := AtSleep Betting sample_id 0\<rparr>)"

lemmas sample_defs = sample_begin_def sample_wait_def sample_betting_def machine_defs
  NewStateMachine_def Second_def emitEvent_def submitJob_def jobQueueCap_def

lemma sample_begin_reach: "gms_reach tz sample_begin"
proof -
  let ?a = "sample_begin\<lparr>ctl := AtStart, workers := 0\<rparr>"
  have "gms_reach tz ?a"
    by (rule reach_init) (simp add: gms_init_def sample_begin_def RegisterEventHandler_def NewStateMachine_def)
  moreover have "gms_steps tz ?a (?a\<lparr>workers := workerCount, ctl := AtBegin\<rparr>)"
    using steps_main [OF steps_main [OF steps_main [OF rtranclp.rtrancl_refl start_workers]
        not_cancelled] check_stopping, of ?a tz]
    by (simp add: sample_begin_def RegisterEventHandler_def NewStateMachine_def)
  ultimately show ?thesis
    by (metis (no_types, lifting) reach_steps sample_begin_def gms_sys.update_convs)
qed

lemma sample_betting_reach: "gms_reach (\<lambda>_. 0) sample_betting"
proof -
  let ?tz = "\<lambda>_::go_time. 0::int"
  let ?u = "sample_begin\<lparr>mach := beginRound sample_id 0 (mach sample_begin), clock := 0,
                         ctl := AtEmit Wait sample_id 0\<rparr>"
  have "gms_steps ?tz sample_begin ?u"
    using steps_lock_begin [of sample_begin 0 0 ?tz] by (simp add: sample_begin_def sample_id_def)
  also have "gms_steps ?tz ?u sample_wait"
    using steps_emit [of ?u Wait sample_id 0 ?tz] 
    by (simp add: sample_wait_def Let_def del: phaseDuration.simps phaseEvent.simps)
  also have "gms_steps ?tz sample_wait (sample_wait\<lparr>clock := 2 * Second, ctl := AtLock Betting sample_id 0\<rparr>)"
    (is "gms_steps _ _ ?v")
    using steps_sleep [of sample_wait Wait sample_id 0 "2 * Second" ?tz 0]
    by (simp add: sample_defs)
  also have "gms_steps ?tz ?v (?v\<lparr>mach := beginBetting (clock ?v) (mach ?v), ctl := AtEmit Betting sample_id 0\<rparr>)"
    (is "gms_steps _ _ ?w")
    using steps_lock [of ?v Betting sample_id 0 ?tz] by simp
  also have "gms_steps ?tz ?w sample_betting"
    using steps_emit [of ?w Betting sample_id 0 ?tz] 
    by (simp add: sample_betting_def Let_def del: phaseDuration.simps phaseEvent.simps)
  finally show ?thesis by (rule reach_steps [OF sample_begin_reach])
qed

section \<open>Properties\<close>

text \<open>C6. In every interleaving the events come in the order of the phases: rounds one after the
  other, each with one round ID from start to end, the color shown being the color drawn, and
  nothing after the stop.\<close>

theorem gms_event_order:
  "gms_reach tz s \<Longrightarrow> legal_log (map fst (emitted s))"
  using reach_log_inv by (simp add: log_inv_def)

theorem gms_event_order_witness:
  "legal_log (map fst (emitted sample_betting)) \<and> length (emitted sample_betting) = 2"
  using gms_event_order [OF sample_betting_reach]
  by (simp add: sample_betting_def sample_wait_def sample_begin_def emit_def Let_def)

text \<open>C7. Every event reaches every handler registered when it was emitted exactly once: each such job
  is queued, running, run by a goroutine of its own or finished, and none is lost or doubled.  Once
  the done channel is closed the pool holds none of them.\<close>

theorem gms_exactly_once:
  assumes "gms_reach tz s"
  shows "mset (jobQueue (mach s)) + mset (degraded (mach s)) + mset (running s) + mset (finished s)
           = jobs_of (emitted s)
       \<and> (doneClosed (mach s) \<longrightarrow> mset (degraded (mach s)) + mset (finished s) = jobs_of (emitted s))"
  using reach_jobs_inv [OF assms] reach_pool_inv [OF assms]
  by (auto simp: jobs_inv_def pool_inv_def)

theorem gms_exactly_once_witness:
  "mset (jobQueue (mach sample_betting)) + mset (degraded (mach sample_betting))
     + mset (running sample_betting) + mset (finished sample_betting) = jobs_of (emitted sample_betting)
   \<and> length (jobQueue (mach sample_betting)) = 2"
  using gms_exactly_once [OF sample_betting_reach]
  by (simp add: sample_defs)

text \<open>The queue never exceeds its capacity and never more than five handlers run on the pool.\<close>

theorem gms_pool_bounds:
  assumes "gms_reach tz s"
  shows "length (jobQueue (mach s)) \<le> 100 \<and> length (running s) \<le> 5"
  using reach_pool_inv [OF assms]
  by (auto simp: pool_inv_def jobQueueCap_def workerCount_def split: if_splits)

theorem gms_pool_bounds_witness:
  "length (jobQueue (mach sample_betting)) \<le> 100 \<and> length (running sample_betting) \<le> 5"
  by (rule gms_pool_bounds [OF sample_betting_reach])

text \<open>C10. Unless the context was cancelled, the machine accepts bets exactly while the goroutine is in
  the betting phase and the clock is before the betting end; then no color is drawn yet and the
  last event belongs to the current round and is its start or its betting event.\<close>

theorem gms_accepts_only_betting:
  assumes reach: "gms_reach tz s" and "\<not> ctxDone s"
  shows "(CanAcceptBet (clock s) (mach s) \<longleftrightarrow>
            pc_betting (ctl s) \<and> clock s < roundBettingEnd (mach s))
       \<and> (CanAcceptBet (clock s) (mach s) \<longrightarrow>
            rv_Result (GetCurrentRound (clock s) (mach s)) = 0 \<and> emitted s \<noteq> [] \<and>
            ev_RoundID (fst (last (emitted s))) = rv_RoundID (GetCurrentRound (clock s) (mach s)) \<and>
            ev_Type (fst (last (emitted s))) \<in> {GAME_STATE_ROUND_STARTED, GAME_STATE_BETTING})"
proof -
  note inv = reach_round_inv [OF reach]
  note iff = accept_iff [OF inv assms(2), of "clock s"]
  moreover have ?thesis if acc: "pc_betting (ctl s)"
  proof -
    from acc obtain rid res where pc: "pc_round (ctl s) = Some (rid, GAME_STATE_BETTING, res)"
      by (auto simp: pc_betting_iff)
    with inv obtain r where r: "currentRound (mach s) = Some r" "r_RoundID r = rid" "r_Result r = res"
      by (auto simp: round_inv_def)
    with pc_round_betting [OF pc] reach_log_inv [OF reach] iff show ?thesis
      by (auto simp: log_inv_def GetCurrentRound_def Let_def)
  qed
  ultimately show ?thesis by blast
qed

theorem gms_accepts_only_betting_witness:
  "CanAcceptBet (clock sample_betting) (mach sample_betting) \<and>
   ev_RoundID (fst (last (emitted sample_betting))) =
     rv_RoundID (GetCurrentRound (clock sample_betting) (mach sample_betting))"
proof -
  have "\<not> ctxDone sample_betting" "pc_betting (ctl sample_betting)"
    "clock sample_betting < roundBettingEnd (mach sample_betting)"
    by (simp_all add: sample_defs)
  with gms_accepts_only_betting [OF sample_betting_reach] show ?thesis by blast
qed




text \<open>C12. A graceful stop ends.  From every reachable state of a machine that is stopping the done
  channel can be closed without cancelling the context, every step the goroutine takes meanwhile
  lowers \<open>pc_rank\<close>, so that it takes at most 22, and it begins no further round, except that a goroutine
  that had just passed the check of the flag (it is at \<open>AtBegin\<close>) still plays one whole round.\<close>

theorem graceful_stop_completes:
  assumes "gms_reach tz s" "stopping (mach s)"
  shows "(\<exists>t. gms_steps tz s t \<and> doneClosed (mach t) \<and> ctxDone t = ctxDone s)
       \<and> (\<forall>t u. gms_steps tz s t \<longrightarrow> main_step tz t u \<longrightarrow> pc_rank (ctl u) < pc_rank (ctl t))
       \<and> (\<forall>t. gms_steps tz s t \<longrightarrow>
            roundCounter (mach t) = roundCounter (mach s) + (if ctl s = AtBegin \<and> ctl t \<noteq> AtBegin then 1 else 0))"
proof (intro conjI allI impI)
  from stopping_completes [OF assms] obtain t
    where t: "gms_steps tz s t" "ctl t = AtDone" "ctxDone t = ctxDone s" by blast
  with reach_pool_inv [OF reach_steps [OF assms(1) t(1)]]
  show "\<exists>t. gms_steps tz s t \<and> doneClosed (mach t) \<and> ctxDone t = ctxDone s"
    by (auto simp: pool_inv_def)
next
  fix t u
  assume "gms_steps tz s t" "main_step tz t u"
  with stopping_rounds [OF _ assms(2)] stopping_main show "pc_rank (ctl u) < pc_rank (ctl t)" by blast
next
  fix t
  assume "gms_steps tz s t"
  from stopping_rounds [OF this assms(2)]
  show "roundCounter (mach t) = roundCounter (mach s) + (if ctl s = AtBegin \<and> ctl t \<noteq> AtBegin then 1 else 0)"
    by (auto split: if_splits)
qed

theorem graceful_stop_completes_witness:
  "\<exists>t. gms_steps (\<lambda>_. 0) (sample_betting\<lparr>mach := Stop (mach sample_betting)\<rparr>) t \<and>
       doneClosed (mach t) \<and> \<not> ctxDone t"
proof -
  have "gms_reach (\<lambda>_. 0) (sample_betting\<lparr>mach := Stop (mach sample_betting)\<rparr>)"
    using reach_steps [OF sample_betting_reach steps_env [OF rtranclp.rtrancl_refl stop]] .
  from graceful_stop_completes [OF this] show ?thesis
    by (simp add: Stop_def sample_defs)
qed

text \<open>A machine that has shut down without a forced stop announced it: the stop is its last event.\<close>

theorem graceful_stop_announced:
  assumes "gms_reach tz s" "doneClosed (mach s)" "\<not> ctxDone s"
  shows "emitted s \<noteq> [] \<and> fst (last (emitted s)) = stoppedEvent"
  using reach_stopped_last [OF assms(1) _ assms(3)] reach_pool_inv [OF assms(1)] assms(2)
  by (auto simp: pool_inv_def)

theorem graceful_stop_announced_witness:
  "\<exists>t. gms_reach (\<lambda>_. 0) t \<and> doneClosed (mach t) \<and> emitted t \<noteq> [] \<and> fst (last (emitted t)) = stoppedEvent"
proof -
  let ?s = "sample_betting\<lparr>mach := Stop (mach sample_betting)\<rparr>"
  have s: "gms_reach (\<lambda>_. 0) ?s"
    using reach_steps [OF sample_betting_reach steps_env [OF rtranclp.rtrancl_refl stop]] .
  have "stopping (mach ?s)" "\<not> ctxDone ?s" by (simp_all add: Stop_def sample_defs)
  with stopping_completes [OF s] obtain t
    where t: "gms_reach (\<lambda>_. 0) t" "ctl t = AtDone" "\<not> ctxDone t" using reach_steps [OF s] by auto
  with reach_pool_inv [OF t(1)] have "doneClosed (mach t)" by (simp add: pool_inv_def)
  with graceful_stop_announced [OF t(1) this t(3)] t(1) show ?thesis by blast
qed

text \<open>Rounds that begin in different seconds have different IDs as long as the zone offset is the
  same.\<close>

theorem round_ids_distinct:
  assumes "tz t = tz u" "t div Second \<noteq> u div Second"
  shows "generateRoundID tz t \<noteq> generateRoundID tz u"
  using format14_inj [of tz t u] assms by (auto simp: generateRoundID_def)

theorem round_ids_distinct_witness:
  "generateRoundID (\<lambda>_. 28800) 0 \<noteq> generateRoundID (\<lambda>_. 28800) (22 * Second)"
  by (rule round_ids_distinct) (simp_all add: Second_def)

end
