(* ===== verification/Gms_UseCase.thy ===== *)
theory Gms_UseCase
  imports Gms_Machine
begin

text \<open>
  The use case of the game machine service, \<^verbatim>\<open>gms/usecase/gms_uc.go\<close>, its local and gRPC adapters
  and its repository.
  The use case shares the state machine with the goroutine that runs it: every call it makes on the
  machine sees the machine as it is at that moment.  The model keeps the machine's future as a trace
  of instants and machines; a call reads the next one.  The handler of game events returns the calls
  it makes on the gateway, the database and the game service, whose results it ignores, in order.
\<close>

section \<open>Round history\<close>

type_synonym RoundStatus = go_int

abbreviation (input) RoundStatusInProgress :: RoundStatus where "RoundStatusInProgress \<equiv> 0"
abbreviation (input) RoundStatusEnded :: RoundStatus where "RoundStatusEnded \<equiv> 1"

record GameRound =
  gr_RoundID :: string
  gr_GameCode :: string
  gr_Status :: RoundStatus
  gr_StartTime :: go_time
  gr_EndTime :: "go_time option"
  gr_Result :: string
  gr_TotalBets :: go_int
  gr_TotalPlayers :: go_int
  gr_TotalBetAmount :: float64
  gr_CreatedAt :: go_time
  gr_UpdatedAt :: go_time

definition GameRound_TableName :: string where
  "GameRound_TableName = ''game_rounds''"

text \<open>The columns of an update.\<close>

datatype column = ColString string | ColInt go_int | ColFloat float64 | ColTime go_time

text \<open>What the repository uses of gorm: inserting a record and updating the columns of the rows of
  one round; both are parameters, over the state \<open>'d\<close> of the database.\<close>

record 'd GormRounds =
  gorm_Create :: "'d \<Rightarrow> GameRound \<Rightarrow> go_error option \<times> 'd"
  gorm_Updates :: "'d \<Rightarrow> string \<Rightarrow> (string \<times> column) list \<Rightarrow> go_error option \<times> 'd"

definition roundRepo_Create ::
    "'d GormRounds \<Rightarrow> go_time \<Rightarrow> GameRound \<Rightarrow> 'd \<Rightarrow> go_error option \<times> 'd" where
  "roundRepo_Create G now round d =
     gorm_Create G d (round\<lparr>gr_CreatedAt := now, gr_UpdatedAt := now\<rparr>)"

definition roundRepo_UpdateResult ::
    "'d GormRounds \<Rightarrow> go_time \<Rightarrow> string \<Rightarrow> string \<Rightarrow> go_time option \<Rightarrow> go_int \<Rightarrow> go_int \<Rightarrow> float64 \<Rightarrow> 'd
      \<Rightarrow> go_error option \<times> 'd" where
  "roundRepo_UpdateResult G now roundID result endTime totalBets totalPlayers totalAmount d =
     (let updates =
        [(''result'', ColString result),
         (''status'', ColInt RoundStatusEnded),
         (''total_bets'', ColInt totalBets),
         (''total_players'', ColInt totalPlayers),
         (''total_bet_amount'', ColFloat totalAmount),
         (''updated_at'', ColTime now)];
        updates = (case endTime of None \<Rightarrow> updates | Some t \<Rightarrow> updates @ [(''end_time'', ColTime t)])
      in gorm_Updates G d roundID updates)"

section \<open>The use case\<close>

text \<open>The three services of the use case may be nil: a field says whether it is set.\<close>

record GMSUseCase =
  betCount :: "string \<rightharpoonup> go_int"
  betPlayers :: "string \<rightharpoonup> int64 set"
  betAmount :: "string \<rightharpoonup> float64"
  gatewayBroadcaster :: bool
  gsBroadcaster :: bool
  gameRoundRepo :: bool
  stateMachine :: "nat \<Rightarrow> go_time \<times> StateMachine"
  machinePos :: nat

definition NewGMSUseCase ::
    "nat \<Rightarrow> (nat \<Rightarrow> go_time \<times> StateMachine) \<Rightarrow> bool \<Rightarrow> bool \<Rightarrow> bool \<Rightarrow> StateMachine
      \<Rightarrow> GMSUseCase \<times> StateMachine" where
  "NewGMSUseCase handler trace gateway gs repo sm =
     (\<lparr>betCount = Map.empty, betPlayers = Map.empty, betAmount = Map.empty,
       gatewayBroadcaster = gateway, gsBroadcaster = gs, gameRoundRepo = repo,
       stateMachine = trace, machinePos = 0\<rparr>,
      RegisterEventHandler handler sm)"

definition SetGSService :: "bool \<Rightarrow> GMSUseCase \<Rightarrow> GMSUseCase" where
  "SetGSService gsService uc = uc\<lparr>gsBroadcaster := gsService\<rparr>"

definition readMachine :: "GMSUseCase \<Rightarrow> (go_time \<times> StateMachine) \<times> GMSUseCase" where
  "readMachine uc = (stateMachine uc (machinePos uc), uc\<lparr>machinePos := Suc (machinePos uc)\<rparr>)"

datatype gms_call =
    GatewayBroadcast string proto_message
  | RoundCreate GameRound
  | RoundUpdateResult string string "go_time option" go_int go_int float64
  | GSRoundResult ColorGameRoundResultReq

definition newGameRound :: "string \<Rightarrow> go_time \<Rightarrow> GameRound" where
  "newGameRound roundID now =
     \<lparr>gr_RoundID = roundID, gr_GameCode = ''color_game'', gr_Status = RoundStatusInProgress,
      gr_StartTime = now, gr_EndTime = None, gr_Result = [], gr_TotalBets = 0, gr_TotalPlayers = 0,
      gr_TotalBetAmount = 0, gr_CreatedAt = zero_time, gr_UpdatedAt = zero_time\<rparr>"

text \<open>A type assertion on the data of an event that carries no color panics.  The result is the calls
  made and whether the handler panicked after them.\<close>

definition eventBroadcast :: "GMSUseCase \<Rightarrow> GameEvent \<Rightarrow> gms_call list" where
  "eventBroadcast uc event =
     (if ev_Type event \<in> {GAME_STATE_ROUND_STARTED, GAME_STATE_BETTING, GAME_STATE_DRAWING,
                          GAME_STATE_RESULT, GAME_STATE_ROUND_ENDED, GAME_STATE_STOPPED}
         \<and> gatewayBroadcaster uc
      then [GatewayBroadcast ''color_game''
              (RoundStateMsg \<lparr>brc_RoundId = ev_RoundID event, brc_State = ev_Type event,
                 brc_BettingEndTimestamp = ev_BettingEndTimestamp event,
                 brc_LeftTime = ev_LeftTime event\<rparr>)]
      else [])"

definition handleGameEvent :: "go_time \<Rightarrow> GMSUseCase \<Rightarrow> GameEvent \<Rightarrow> gms_call list \<times> bool" where
  "handleGameEvent now uc event =
     (let calls = eventBroadcast uc event;
          (db, panicked) =
            (if \<not> gameRoundRepo uc then ([], False)
             else if ev_Type event = GAME_STATE_ROUND_STARTED
             then ([RoundCreate (newGameRound (ev_RoundID event) now)], False)
             else if ev_Type event = GAME_STATE_RESULT
             then (let totalBets = mget (betCount uc) (ev_RoundID event) 0;
                       totalPlayers = of_nat (card (mget (betPlayers uc) (ev_RoundID event) {}));
                       totalAmount = mget (betAmount uc) (ev_RoundID event) 0
                   in case ev_Data event of
                        ColorData c \<Rightarrow>
                          ([RoundUpdateResult (ev_RoundID event) (reward_String c) (Some now)
                              totalBets totalPlayers totalAmount], False)
                      | _ \<Rightarrow> ([], True))
             else ([], False))
      in if panicked then (calls @ db, True)
         else if ev_Type event = GAME_STATE_RESULT \<and> gsBroadcaster uc
         then (case ev_Data event of
                 ColorData c \<Rightarrow>
                   (calls @ db @ [GSRoundResult \<lparr>rrq_RoundId = ev_RoundID event, rrq_Result = c\<rparr>], False)
               | _ \<Rightarrow> (calls @ db, True))
         else (calls @ db, False))"

definition addBet :: "string \<Rightarrow> int64 \<Rightarrow> float64 \<Rightarrow> GMSUseCase \<Rightarrow> GMSUseCase" where
  "addBet roundID userID amount uc =
     uc\<lparr>betCount := (betCount uc)(roundID \<mapsto> mget (betCount uc) roundID 0 + 1),
        betPlayers := (betPlayers uc)(roundID \<mapsto> insert userID (mget (betPlayers uc) roundID {})),
        betAmount := (betAmount uc)(roundID \<mapsto> float_add (mget (betAmount uc) roundID 0) amount)\<rparr>"

definition IncrementBetCount ::
    "string \<Rightarrow> int64 \<Rightarrow> float64 \<Rightarrow> GMSUseCase \<Rightarrow> go_error option \<times> GMSUseCase" where
  "IncrementBetCount roundID userID amount uc =
     (let ((now, sm), uc) = readMachine uc
      in if \<not> CanAcceptBet now sm then (Some ''betting not allowed in current state'', uc) else
      let ((now, sm), uc) = readMachine uc;
          currentRound = GetCurrentRound now sm
      in if rv_RoundID currentRound = [] \<or> rv_RoundID currentRound \<noteq> roundID
         then (Some ''invalid round ID'', uc)
         else (None, addBet roundID userID amount uc))"

definition uc_GetCurrentRound :: "GMSUseCase \<Rightarrow> Round go_result \<times> GMSUseCase" where
  "uc_GetCurrentRound uc =
     (let ((now, sm), uc) = readMachine uc;
          roundView = GetCurrentRound now sm
      in if rv_RoundID roundView = [] then (Inl ''no active round'', uc)
         else (Inr \<lparr>r_RoundID = rv_RoundID roundView, r_State = rv_State roundView, r_Result = 0,
                    r_StartTime = zero_time, r_BettingEnd = rv_BettingEnd roundView,
                    r_TotalBets = 0, r_LeftTime = rv_LeftTime roundView\<rparr>, uc))"

definition uc_RecordBet ::
    "string \<Rightarrow> int64 \<Rightarrow> ColorGameReward \<Rightarrow> int64 \<Rightarrow> GMSUseCase \<Rightarrow> go_error option \<times> GMSUseCase" where
  "uc_RecordBet roundID userID color amount uc =
     IncrementBetCount roundID userID (float_of_int64 amount) uc"

definition GetPlayerBets :: "string \<Rightarrow> int64 \<Rightarrow> ColorGamePlayerBet list go_result" where
  "GetPlayerBets roundID userID = Inr []"

section \<open>The service interface and its adapters\<close>

record 'm GMSService =
  svc_RecordBet :: "'m \<Rightarrow> ColorGameRecordBetReq \<Rightarrow> ColorGameRecordBetRsp go_result \<times> 'm"
  svc_GetCurrentRound ::
    "'m \<Rightarrow> ColorGameGetCurrentRoundReq \<Rightarrow> ColorGameGetCurrentRoundRsp go_result \<times> 'm"

definition local_RecordBet ::
    "GMSUseCase \<Rightarrow> ColorGameRecordBetReq \<Rightarrow> ColorGameRecordBetRsp go_result \<times> GMSUseCase" where
  "local_RecordBet uc req =
     (case IncrementBetCount (rbq_RoundId req) (rbq_UserId req) (float_of_int64 (rbq_Amount req)) uc of
        (Some err, uc) \<Rightarrow> (Inl err, uc)
      | (None, uc) \<Rightarrow> (Inr \<lparr>rbs_ErrorCode = 0, rbs_Error = []\<rparr>, uc))"

definition local_GetCurrentRound ::
    "GMSUseCase \<Rightarrow> ColorGameGetCurrentRoundReq \<Rightarrow> ColorGameGetCurrentRoundRsp go_result \<times> GMSUseCase" where
  "local_GetCurrentRound uc req =
     (case uc_GetCurrentRound uc of
        (Inl err, uc) \<Rightarrow> (Inl err, uc)
      | (Inr round, uc) \<Rightarrow>
          (Inr \<lparr>crs_ErrorCode = 0, crs_RoundId = r_RoundID round, crs_State = r_State round,
                crs_BettingEndTimestamp = Unix (r_BettingEnd round), crs_PlayerBets = [],
                crs_LeftTime = 0\<rparr>, uc))"

definition grpc_RecordBet ::
    "GMSUseCase \<Rightarrow> ColorGameRecordBetReq \<Rightarrow> ColorGameRecordBetRsp go_result \<times> GMSUseCase" where
  "grpc_RecordBet uc req =
     (case uc_RecordBet (rbq_RoundId req) (rbq_UserId req) (rbq_Color req) (rbq_Amount req) uc of
        (Some err, uc) \<Rightarrow> (Inr \<lparr>rbs_ErrorCode = INTERNAL_ERROR, rbs_Error = err\<rparr>, uc)
      | (None, uc) \<Rightarrow> (Inr \<lparr>rbs_ErrorCode = SUCCESS, rbs_Error = []\<rparr>, uc))"

definition grpc_GetCurrentRound ::
    "GMSUseCase \<Rightarrow> ColorGameGetCurrentRoundReq \<Rightarrow> ColorGameGetCurrentRoundRsp go_result \<times> GMSUseCase" where
  "grpc_GetCurrentRound uc req =
     (case uc_GetCurrentRound uc of
        (Inl err, uc) \<Rightarrow>
          (Inr \<lparr>crs_ErrorCode = INTERNAL_ERROR, crs_RoundId = [], crs_State = 0,
                crs_BettingEndTimestamp = 0, crs_PlayerBets = [], crs_LeftTime = 0\<rparr>, uc)
      | (Inr round, uc) \<Rightarrow>
          let playerBets =
            (if 0 < sint (crq_UserId req)
             then case GetPlayerBets (r_RoundID round) (crq_UserId req) of Inl _ \<Rightarrow> [] | Inr bets \<Rightarrow> bets
             else [])
          in (Inr \<lparr>crs_ErrorCode = SUCCESS, crs_RoundId = r_RoundID round, crs_State = r_State round,
                   crs_BettingEndTimestamp = Unix (r_BettingEnd round), crs_PlayerBets = playerBets,
                   crs_LeftTime = r_LeftTime round\<rparr>, uc))"

definition gmsLocal :: "GMSUseCase GMSService" where
  "gmsLocal = \<lparr>svc_RecordBet = local_RecordBet, svc_GetCurrentRound = local_GetCurrentRound\<rparr>"

definition gmsGrpc :: "GMSUseCase GMSService" where
  "gmsGrpc = \<lparr>svc_RecordBet = grpc_RecordBet, svc_GetCurrentRound = grpc_GetCurrentRound\<rparr>"

lemmas gms_uc_defs = IncrementBetCount_def uc_RecordBet_def uc_GetCurrentRound_def readMachine_def
  addBet_def Let_def
lemmas gms_svc_defs = local_RecordBet_def local_GetCurrentRound_def grpc_RecordBet_def
  grpc_GetCurrentRound_def gmsLocal_def gmsGrpc_def

section \<open>The contract of the service\<close>

text \<open>The statistics of a round: how many bets, which players, what amount.\<close>

type_synonym round_stats = "go_int \<times> int64 set \<times> float64"

definition uc_stats :: "GMSUseCase \<Rightarrow> string \<Rightarrow> round_stats" where
  "uc_stats uc r = (mget (betCount uc) r 0, mget (betPlayers uc) r {}, mget (betAmount uc) r 0)"

fun bump :: "ColorGameRecordBetReq \<Rightarrow> round_stats \<Rightarrow> round_stats" where
  "bump q (c, p, a) = (c + 1, insert (rbq_UserId q) p, float_add a (float_of_int64 (rbq_Amount q)))"

definition record_ok :: "ColorGameRecordBetRsp go_result \<Rightarrow> bool" where
  "record_ok r = (case r of Inl _ \<Rightarrow> False | Inr rsp \<Rightarrow> rbs_ErrorCode rsp = SUCCESS)"

text \<open>A sequence of calls, and those among its requests for round \<open>r\<close> that were accepted.\<close>

fun recordAll ::
    "'m GMSService \<Rightarrow> ColorGameRecordBetReq list \<Rightarrow> 'm \<Rightarrow> ColorGameRecordBetRsp go_result list \<times> 'm" where
  "recordAll M [] m = ([], m)"
| "recordAll M (q # qs) m =
     (let (s, m) = svc_RecordBet M m q; (ss, m) = recordAll M qs m in (s # ss, m))"

definition acceptedFor ::
    "string \<Rightarrow> (ColorGameRecordBetReq \<times> ColorGameRecordBetRsp go_result) list \<Rightarrow> ColorGameRecordBetReq list" where
  "acceptedFor r qs = map fst (filter (\<lambda>(q, s). record_ok s \<and> rbq_RoundId q = r) qs)"

text \<open>A bet is counted for its round exactly when the response says so, in the local and in the gRPC
  deployment; no other call changes the statistics.\<close>

locale gms_service =
  fixes M :: "'m GMSService"
    and stats :: "'m \<Rightarrow> string \<Rightarrow> round_stats"
    and accepts :: "'m \<Rightarrow> string \<Rightarrow> bool"
  assumes record_accepts: "record_ok (fst (svc_RecordBet M m q)) \<longleftrightarrow> accepts m (rbq_RoundId q)"
    and record_stats:
      "stats (snd (svc_RecordBet M m q)) r =
         (if accepts m (rbq_RoundId q) \<and> rbq_RoundId q = r then bump q (stats m r) else stats m r)"
    and round_stats: "stats (snd (svc_GetCurrentRound M m c)) r = stats m r"
begin

lemma recordAll_stats:
  "stats (snd (recordAll M qs m)) r =
     fold bump (acceptedFor r (zip qs (fst (recordAll M qs m)))) (stats m r)"
proof (induction qs arbitrary: m)
  case Nil
  then show ?case by (simp add: acceptedFor_def)
next
  case (Cons q qs)
  let ?m = "snd (svc_RecordBet M m q)"
  from Cons [of ?m] show ?case
    using record_accepts [of m q] record_stats [of m q r]
    by (cases "accepts m (rbq_RoundId q) \<and> rbq_RoundId q = r")
      (auto simp: acceptedFor_def split_beta Let_def)
qed

end

definition uc_accepts :: "GMSUseCase \<Rightarrow> string \<Rightarrow> bool" where
  "uc_accepts uc roundID =
     (let (now, sm) = stateMachine uc (machinePos uc);
          (now', sm') = stateMachine uc (Suc (machinePos uc))
      in CanAcceptBet now sm \<and> roundID \<noteq> [] \<and> rv_RoundID (GetCurrentRound now' sm') = roundID)"

lemma IncrementBetCount_accepted:
  "uc_accepts uc r \<Longrightarrow>
   IncrementBetCount r u a uc = (None, addBet r u a (uc\<lparr>machinePos := machinePos uc + 2\<rparr>))"
  by (auto simp: IncrementBetCount_def readMachine_def uc_accepts_def Let_def split: prod.splits)

lemma IncrementBetCount_rejected:
  "\<not> uc_accepts uc r \<Longrightarrow> \<exists>e n. IncrementBetCount r u a uc = (Some e, uc\<lparr>machinePos := n\<rparr>)"
  by (cases "stateMachine uc (machinePos uc)"; cases "stateMachine uc (Suc (machinePos uc))")
    (auto simp: IncrementBetCount_def readMachine_def uc_accepts_def)

lemma uc_stats_pos [simp]: "uc_stats (uc\<lparr>machinePos := n\<rparr>) = uc_stats uc"
  by (simp add: uc_stats_def fun_eq_iff)

lemma uc_stats_addBet:
  "uc_stats (addBet (rbq_RoundId q) (rbq_UserId q) (float_of_int64 (rbq_Amount q)) uc) r =
     (if rbq_RoundId q = r then bump q (uc_stats uc r) else uc_stats uc r)"
  by (simp add: uc_stats_def addBet_def)

lemma uc_stats_round: "uc_stats (snd (uc_GetCurrentRound uc)) = uc_stats uc"
  by (simp add: uc_GetCurrentRound_def readMachine_def Let_def split: prod.splits)

interpretation gms_local: gms_service gmsLocal uc_stats uc_accepts
proof
  fix m r and q :: ColorGameRecordBetReq and c :: ColorGameGetCurrentRoundReq
  have rej: "\<not> uc_accepts m (rbq_RoundId q) \<Longrightarrow> \<exists>e n. IncrementBetCount (rbq_RoundId q) (rbq_UserId q)
      (float_of_int64 (rbq_Amount q)) m = (Some e, m\<lparr>machinePos := n\<rparr>)"
    by (rule IncrementBetCount_rejected)
  show "record_ok (fst (svc_RecordBet gmsLocal m q)) \<longleftrightarrow> uc_accepts m (rbq_RoundId q)"
    using rej by (cases "uc_accepts m (rbq_RoundId q)")
      (auto simp: gms_svc_defs IncrementBetCount_accepted record_ok_def)
  show "uc_stats (snd (svc_RecordBet gmsLocal m q)) r =
      (if uc_accepts m (rbq_RoundId q) \<and> rbq_RoundId q = r then bump q (uc_stats m r) else uc_stats m r)"
    using rej by (cases "uc_accepts m (rbq_RoundId q)")
      (auto simp: gms_svc_defs IncrementBetCount_accepted uc_stats_addBet)
  show "uc_stats (snd (svc_GetCurrentRound gmsLocal m c)) r = uc_stats m r"
    using uc_stats_round [of m] by (auto simp: gms_svc_defs split: prod.splits sum.splits)
qed

interpretation gms_grpc: gms_service gmsGrpc uc_stats uc_accepts
proof
  fix m r and q :: ColorGameRecordBetReq and c :: ColorGameGetCurrentRoundReq
  have rej: "\<not> uc_accepts m (rbq_RoundId q) \<Longrightarrow> \<exists>e n. IncrementBetCount (rbq_RoundId q) (rbq_UserId q)
      (float_of_int64 (rbq_Amount q)) m = (Some e, m\<lparr>machinePos := n\<rparr>)"
    by (rule IncrementBetCount_rejected)
  show "record_ok (fst (svc_RecordBet gmsGrpc m q)) \<longleftrightarrow> uc_accepts m (rbq_RoundId q)"
    using rej by (cases "uc_accepts m (rbq_RoundId q)")
      (auto simp: gms_svc_defs uc_RecordBet_def IncrementBetCount_accepted record_ok_def
       )
  show "uc_stats (snd (svc_RecordBet gmsGrpc m q)) r =
      (if uc_accepts m (rbq_RoundId q) \<and> rbq_RoundId q = r then bump q (uc_stats m r) else uc_stats m r)"
    using rej by (cases "uc_accepts m (rbq_RoundId q)")
      (auto simp: gms_svc_defs uc_RecordBet_def IncrementBetCount_accepted uc_stats_addBet
       )
  show "uc_stats (snd (svc_GetCurrentRound gmsGrpc m c)) r = uc_stats m r"
    using uc_stats_round [of m] by (auto simp: gms_svc_defs Let_def split: prod.splits sum.splits)
qed

section \<open>Totals\<close>

lemma fold_bump:
  "fold bump qs (c, p, a) =
     (c + of_nat (length qs), p \<union> rbq_UserId ` set qs,
      foldl float_add a (map (float_of_int64 \<circ> rbq_Amount) qs))"
  by (induction qs arbitrary: c p a) auto

text \<open>Amounts that add up to at most \<open>2\<^sup>5\<^sup>3\<close> are added without rounding.\<close>

lemma float_sum_exact:
  assumes "\<forall>x \<in> set xs. 0 \<le> sint x" "0 \<le> a" "a + sum_list (map sint xs) \<le> 2 ^ 53"
  shows "foldl float_add a (map float_of_int64 xs) = a + sum_list (map sint xs)"
  using assms
proof (induction xs arbitrary: a)
  case (Cons x xs)
  have "0 \<le> sum_list (map sint xs)" using Cons.prems(1) by (intro sum_list_nonneg) auto
  with Cons.prems have "0 \<le> sint x" "sint x \<le> 2 ^ 53" "a + sint x \<le> 2 ^ 53" by auto
  then have "float_add a (float_of_int64 x) = a + sint x"
    using Cons.prems(2) by (simp add: float_add_def float_of_int64_def round53_exact)
  with Cons.IH [of "a + sint x"] Cons.prems show ?case by (simp add: add.assoc)
qed simp

section \<open>Properties\<close>

text \<open>C9. The totals written to the round history are those of the accepted bets.  After any sequence of
  bet recordings, accepted and rejected, in either deployment, the handler of the result event
  updates the round with the number of accepted bets for it, the number of distinct players among
  them and the sum of their amounts, and asks the game service once to settle the round with the
  color the event carries.\<close>

theorem round_totals_recorded:
  assumes run: "M \<in> {gmsLocal, gmsGrpc}" "recordAll M qs uc = (rs, uc')"
    and fresh: "betCount uc r = None" "betPlayers uc r = None" "betAmount uc r = None"
    and services: "gatewayBroadcaster uc'" "gameRoundRepo uc'" "gsBroadcaster uc'"
    and amounts: "\<forall>q \<in> set (acceptedFor r (zip qs rs)). 0 \<le> sint (rbq_Amount q)"
      "sum_list (map (sint \<circ> rbq_Amount) (acceptedFor r (zip qs rs))) \<le> 2 ^ 53"
    and event: "ev_Type e = GAME_STATE_RESULT" "ev_RoundID e = r" "ev_Data e = ColorData c"
  shows "\<exists>b. handleGameEvent now uc' e =
    ([GatewayBroadcast ''color_game'' b,
      RoundUpdateResult r (reward_String c) (Some now)
        (of_nat (length (acceptedFor r (zip qs rs))))
        (of_nat (card (rbq_UserId ` set (acceptedFor r (zip qs rs)))))
        (sum_list (map (sint \<circ> rbq_Amount) (acceptedFor r (zip qs rs)))),
      GSRoundResult \<lparr>rrq_RoundId = r, rrq_Result = c\<rparr>], False)"
proof -
  let ?acc = "acceptedFor r (zip qs rs)"
  have "uc_stats uc' r = fold bump ?acc (uc_stats uc r)"
    using run gms_local.recordAll_stats [of qs uc r] gms_grpc.recordAll_stats [of qs uc r] by auto
  moreover have "uc_stats uc r = (0, {}, 0)" using fresh by (simp add: uc_stats_def)
  ultimately have "uc_stats uc' r = (of_nat (length ?acc), rbq_UserId ` set ?acc,
      foldl float_add 0 (map (float_of_int64 \<circ> rbq_Amount) ?acc))"
    by (simp add: fold_bump)
  moreover have "foldl float_add 0 (map float_of_int64 (map rbq_Amount ?acc)) =
      0 + sum_list (map sint (map rbq_Amount ?acc))"
    using amounts by (intro float_sum_exact) (auto simp: o_def)
  ultimately show ?thesis
    using services event
    by (auto simp: handleGameEvent_def eventBroadcast_def uc_stats_def o_def Let_def)
qed

definition sample_machine :: StateMachine where
  "sample_machine = beginBetting 0 (beginRound ''R1'' 0 NewStateMachine)"

definition sample_uc :: GMSUseCase where
  "sample_uc = fst (NewGMSUseCase 1 (\<lambda>n. if n < 4 then (0, sample_machine) else (11 * Second, sample_machine))
                      True True True NewStateMachine)"

definition sample_req :: "int64 \<Rightarrow> int64 \<Rightarrow> ColorGameRecordBetReq" where
  "sample_req u a = \<lparr>rbq_RoundId = ''R1'', rbq_UserId = u, rbq_Color = REWARD_RED, rbq_Amount = a\<rparr>"

definition sample_result :: GameEvent where
  "sample_result = phaseEvent Result ''R1'' REWARD_BLUE sample_machine"

text \<open>Two bets of user 7 in time, one of user 8 too late.\<close>

theorem round_totals_recorded_witness:
  "\<exists>b. handleGameEvent 0 (snd (recordAll gmsGrpc [sample_req 7 100, sample_req 7 50, sample_req 8 1] sample_uc))
         sample_result =
    ([GatewayBroadcast ''color_game'' b,
      RoundUpdateResult ''R1'' ''REWARD_BLUE'' (Some 0) 2 1 150,
      GSRoundResult \<lparr>rrq_RoundId = ''R1'', rrq_Result = REWARD_BLUE\<rparr>], False)"
proof -
  note evals = sample_uc_def sample_machine_def sample_req_def sample_result_def NewGMSUseCase_def
    NewStateMachine_def beginBetting_def beginRound_def updRound_def roundBettingEnd_def round_defs
    gms_svc_defs gms_uc_defs CanAcceptBet_def GetCurrentRound_def Second_def zero_time_def
  let ?qs = "[sample_req 7 100, sample_req 7 50, sample_req 8 1]"
  have accepted: "acceptedFor ''R1'' (zip ?qs (fst (recordAll gmsGrpc ?qs sample_uc))) =
      [sample_req 7 100, sample_req 7 50]"
    by (simp add: evals acceptedFor_def record_ok_def)
  have "reward_String REWARD_BLUE = ''REWARD_BLUE''"
    by (simp add: reward_String_def enum_String_def ColorGameReward_name_def)
  moreover have "gatewayBroadcaster (snd (recordAll gmsGrpc ?qs sample_uc))"
    "gameRoundRepo (snd (recordAll gmsGrpc ?qs sample_uc))"
    "gsBroadcaster (snd (recordAll gmsGrpc ?qs sample_uc))"
    by (simp_all add: evals)
  moreover have "betCount sample_uc ''R1'' = None" "betPlayers sample_uc ''R1'' = None"
    "betAmount sample_uc ''R1'' = None" by (simp_all add: sample_uc_def NewGMSUseCase_def)
  ultimately show ?thesis
    using round_totals_recorded [where M = gmsGrpc and qs = ?qs and uc = sample_uc and r = "''R1''"
        and e = sample_result and c = REWARD_BLUE and now = 0, OF _ prod.collapse [symmetric]]
      accepted
    by (simp add: sample_result_def sample_req_def)
qed

end
