(* ===== verification/Bets.thy ===== *)
theory Bets
  imports Proto
begin

text \<open>
  Bets and their repositories: \<^verbatim>\<open>gs/domain/bet.go\<close>, \<^verbatim>\<open>bet_order.go\<close>, \<^verbatim>\<open>bet_repository.go\<close> and
  the memory repository \<^verbatim>\<open>gs/repository/memory/bet_repo.go\<close>.
  The repositories hand out pointers, and the memory repository keeps the very pointers it hands out
  in two maps, so that updating an amount through one is seen through the other.  The model keeps
  that: a store is a heap of bets, the next free address and the state of the repository.
\<close>

section \<open>Bets\<close>

type_synonym Color = ColorGameReward

record Bet =
  BetID :: string
  RoundID :: string
  UserID :: int64
  bet_Color :: Color
  Amount :: int64
  Time :: go_time

text \<open>\<^verbatim>\<open>generateBetID\<close> is the snowflake library; the ID and the clock are arguments.\<close>

definition NewBet :: "string \<Rightarrow> go_time \<Rightarrow> string \<Rightarrow> int64 \<Rightarrow> Color \<Rightarrow> int64 \<Rightarrow> Bet" where
  "NewBet betID now roundID userID color amount =
     \<lparr>BetID = betID, RoundID = roundID, UserID = userID, bet_Color = color, Amount = amount,
      Time = now\<rparr>"

type_synonym BetOrderStatus = go_int

abbreviation (input) BetOrderStatusPending :: BetOrderStatus where "BetOrderStatusPending \<equiv> 0"
abbreviation (input) BetOrderStatusSettled :: BetOrderStatus where "BetOrderStatusSettled \<equiv> 1"

record BetOrder =
  bo_OrderID :: string
  bo_UserID :: int64
  bo_RoundID :: string
  bo_GameCode :: string
  bo_BetArea :: string
  bo_Amount :: float64
  bo_Payout :: float64
  bo_Status :: BetOrderStatus
  bo_CreatedAt :: go_time
  bo_SettledAt :: "go_time option"

definition BetOrder_TableName :: string where
  "BetOrder_TableName = ''bet_orders''"

text \<open>\<^verbatim>\<open>gs/repository/db/bet_order_repo.go\<close>: one gorm insert of all orders, a parameter.\<close>

definition orderRepo_BatchCreate ::
    "('d \<Rightarrow> BetOrder list \<Rightarrow> go_error option \<times> 'd) \<Rightarrow> 'd \<Rightarrow> BetOrder list \<Rightarrow> go_error option \<times> 'd" where
  "orderRepo_BatchCreate gormCreate d orders = (if orders = [] then (None, d) else gormCreate d orders)"

section \<open>Stores and the repository interface\<close>

type_synonym ptr = nat

record 'r store =
  heap :: "ptr \<Rightarrow> Bet"
  nextPtr :: ptr
  repo :: 'r

definition alloc :: "Bet \<Rightarrow> 'r store \<Rightarrow> ptr \<times> 'r store" where
  "alloc b s = (nextPtr s, s\<lparr>heap := (heap s)(nextPtr s := b), nextPtr := Suc (nextPtr s)\<rparr>)"

record 'r BetRepository =
  repo_SaveBet :: "'r store \<Rightarrow> ptr \<Rightarrow> go_error option \<times> 'r store"
  repo_GetBets :: "'r store \<Rightarrow> string \<Rightarrow> ptr list go_result \<times> 'r store"
  repo_GetUserBets :: "'r store \<Rightarrow> string \<Rightarrow> int64 \<Rightarrow> ptr list go_result \<times> 'r store"
  repo_ClearBets :: "'r store \<Rightarrow> string \<Rightarrow> go_error option \<times> 'r store"
  repo_GetBetsForSettlement :: "'r store \<Rightarrow> string \<Rightarrow> ptr list go_result \<times> 'r store"
  repo_GetUserBet :: "'r store \<Rightarrow> string \<Rightarrow> int64 \<Rightarrow> Color \<Rightarrow> ptr option go_result \<times> 'r store"
  repo_UpdateBetAmount :: "'r store \<Rightarrow> ptr \<Rightarrow> int64 \<Rightarrow> go_error option \<times> 'r store"

section \<open>The memory repository\<close>

record MemBets =
  memBets :: "string \<rightharpoonup> ptr list"
  settlementQueue :: "string \<rightharpoonup> ptr list"

definition NewMemBets :: MemBets where
  "NewMemBets = \<lparr>memBets = Map.empty, settlementQueue = Map.empty\<rparr>"

definition mem_SaveBet :: "MemBets store \<Rightarrow> ptr \<Rightarrow> go_error option \<times> MemBets store" where
  "mem_SaveBet s bet =
     (let r = repo s; rid = RoundID (heap s bet);
          r = r\<lparr>memBets := (memBets r)(rid \<mapsto> mget (memBets r) rid [] @ [bet])\<rparr>;
          r = r\<lparr>settlementQueue := (settlementQueue r)(rid \<mapsto> mget (settlementQueue r) rid [] @ [bet])\<rparr>
      in (None, s\<lparr>repo := r\<rparr>))"

definition mem_GetBets :: "MemBets store \<Rightarrow> string \<Rightarrow> ptr list go_result \<times> MemBets store" where
  "mem_GetBets s roundID = (Inr (mget (memBets (repo s)) roundID []), s)"

definition mem_GetUserBets :: "MemBets store \<Rightarrow> string \<Rightarrow> int64 \<Rightarrow> ptr list go_result \<times> MemBets store" where
  "mem_GetUserBets s roundID userID =
     (Inr (filter (\<lambda>p. UserID (heap s p) = userID) (mget (memBets (repo s)) roundID [])), s)"

definition mem_ClearBets :: "MemBets store \<Rightarrow> string \<Rightarrow> go_error option \<times> MemBets store" where
  "mem_ClearBets s roundID =
     (None, s\<lparr>repo := (repo s)\<lparr>memBets := (memBets (repo s))(roundID := None),
                              settlementQueue := (settlementQueue (repo s))(roundID := None)\<rparr>\<rparr>)"

definition mem_GetBetsForSettlement :: "MemBets store \<Rightarrow> string \<Rightarrow> ptr list go_result \<times> MemBets store" where
  "mem_GetBetsForSettlement s roundID =
     (let q = mget (settlementQueue (repo s)) roundID []
      in if q = [] then (Inr [], s)
         else (Inr q, s\<lparr>repo := (repo s)\<lparr>settlementQueue := (settlementQueue (repo s))(roundID := None)\<rparr>\<rparr>))"

definition mem_GetUserBet :: "MemBets store \<Rightarrow> string \<Rightarrow> int64 \<Rightarrow> Color \<Rightarrow> ptr option go_result \<times> MemBets store" where
  "mem_GetUserBet s roundID userID color =
     (Inr (find (\<lambda>p. UserID (heap s p) = userID \<and> bet_Color (heap s p) = color)
             (mget (memBets (repo s)) roundID [])), s)"

definition mem_UpdateBetAmount :: "MemBets store \<Rightarrow> ptr \<Rightarrow> int64 \<Rightarrow> go_error option \<times> MemBets store" where
  "mem_UpdateBetAmount s bet additionalAmount =
     (None, s\<lparr>heap := (heap s)(bet := (heap s bet)\<lparr>Amount := Amount (heap s bet) + additionalAmount\<rparr>)\<rparr>)"

definition memRepo :: "MemBets BetRepository" where
  "memRepo =
     \<lparr>repo_SaveBet = mem_SaveBet, repo_GetBets = mem_GetBets, repo_GetUserBets = mem_GetUserBets,
      repo_ClearBets = mem_ClearBets, repo_GetBetsForSettlement = mem_GetBetsForSettlement,
      repo_GetUserBet = mem_GetUserBet, repo_UpdateBetAmount = mem_UpdateBetAmount\<rparr>"

lemmas mem_repo_defs = mem_SaveBet_def mem_GetBets_def mem_GetUserBets_def mem_ClearBets_def
  mem_GetBetsForSettlement_def mem_GetUserBet_def mem_UpdateBetAmount_def memRepo_def Let_def

section \<open>The contract\<close>

text \<open>
  \<open>pending s r\<close> is the multiset of bets of round \<open>r\<close> still to be settled, \<open>intake s r\<close> says that the
  settlement of \<open>r\<close> has not begun.  While it has not, a lookup finds the pending bet of a user on a
  color, an update changes its amount, and a new bet becomes pending; a settlement call takes some
  of the pending bets, and none only when none is left.  No operation on one round touches another.
  A new bet has an ID that is not in use in its round and a user ID that is not negative, and is
  \<open>storable\<close>: the repository can write it down.
\<close>

definition bet_matches :: "string \<Rightarrow> int64 \<Rightarrow> Color \<Rightarrow> Bet \<Rightarrow> bool" where
  "bet_matches r u c b \<longleftrightarrow> RoundID b = r \<and> UserID b = u \<and> bet_Color b = c"

locale bet_repository =
  fixes R :: "'r BetRepository"
    and inv :: "'r store \<Rightarrow> bool"
    and pending :: "'r store \<Rightarrow> string \<Rightarrow> Bet multiset"
    and intake :: "'r store \<Rightarrow> string \<Rightarrow> bool"
    and handle :: "'r store \<Rightarrow> ptr \<Rightarrow> Bet \<Rightarrow> bool"
    and storable :: "Bet \<Rightarrow> bool"
  assumes pending_round: "inv s \<Longrightarrow> b \<in># pending s r \<Longrightarrow> RoundID b = r"
    and find_bet:
      "inv s \<Longrightarrow> intake s r \<Longrightarrow> repo_GetUserBet R s r u c = (x, s') \<Longrightarrow>
         inv s' \<and> pending s' = pending s \<and> intake s' = intake s \<and>
         (case x of Inl _ \<Rightarrow> False
          | Inr None \<Rightarrow> \<forall>b \<in># pending s r. \<not> bet_matches r u c b
          | Inr (Some p) \<Rightarrow> bet_matches r u c (heap s' p) \<and> heap s' p \<in># pending s r \<and> handle s' p (heap s' p))"
    and update_bet:
      "inv s \<Longrightarrow> handle s p b \<Longrightarrow> intake s (RoundID b) \<Longrightarrow> repo_UpdateBetAmount R s p a = (e, s') \<Longrightarrow>
         inv s' \<and> e = None \<and> intake s' = intake s \<and> heap s' p = b\<lparr>Amount := Amount b + a\<rparr> \<and>
         pending s' = (pending s)(RoundID b :=
           add_mset (b\<lparr>Amount := Amount b + a\<rparr>) (pending s (RoundID b) - {#b#}))"
    and save_bet:
      "inv s \<Longrightarrow> intake s (RoundID b) \<Longrightarrow> BetID b \<notin> BetID ` set_mset (pending s (RoundID b)) \<Longrightarrow>
       0 \<le> sint (UserID b) \<Longrightarrow> storable b \<Longrightarrow> alloc b s = (p, s1) \<Longrightarrow> repo_SaveBet R s1 p = (e, s') \<Longrightarrow>
         inv s' \<and> e = None \<and> intake s' = intake s \<and> heap s' p = b \<and>
         pending s' = (pending s)(RoundID b := add_mset b (pending s (RoundID b)))"
    and take_bets:
      "inv s \<Longrightarrow> repo_GetBetsForSettlement R s r = (y, s') \<Longrightarrow>
         inv s' \<and> (\<forall>q. q \<noteq> r \<longrightarrow> intake s' q = intake s q) \<and>
         (\<exists>ps. y = Inr ps \<and> mset (map (heap s') ps) \<subseteq># pending s r \<and>
            pending s' = (pending s)(r := pending s r - mset (map (heap s') ps)) \<and>
            (ps = [] \<longrightarrow> pending s r = {#}))"
    and clear_bets:
      "inv s \<Longrightarrow> repo_ClearBets R s r = (e, s') \<Longrightarrow>
         inv s' \<and> (\<forall>q. q \<noteq> r \<longrightarrow> intake s' q = intake s q) \<and> pending s' = (pending s)(r := {#})"

section \<open>The memory repository keeps the contract\<close>

definition mem_inv :: "MemBets store \<Rightarrow> bool" where
  "mem_inv s \<longleftrightarrow>
     (\<forall>r. distinct (mget (memBets (repo s)) r []) \<and>
          (\<forall>p \<in> set (mget (memBets (repo s)) r []). p < nextPtr s \<and> RoundID (heap s p) = r) \<and>
          mget (settlementQueue (repo s)) r [] \<in> {[], mget (memBets (repo s)) r []})"

definition mem_pending :: "MemBets store \<Rightarrow> string \<Rightarrow> Bet multiset" where
  "mem_pending s r = mset (map (heap s) (mget (settlementQueue (repo s)) r []))"

definition mem_intake :: "MemBets store \<Rightarrow> string \<Rightarrow> bool" where
  "mem_intake s r \<longleftrightarrow> mget (settlementQueue (repo s)) r [] = mget (memBets (repo s)) r []"

definition mem_handle :: "MemBets store \<Rightarrow> ptr \<Rightarrow> Bet \<Rightarrow> bool" where
  "mem_handle s p b \<longleftrightarrow> b = heap s p \<and> p \<in> set (mget (memBets (repo s)) (RoundID b) [])"

lemmas mem_abs_defs = mem_inv_def mem_pending_def mem_intake_def mem_handle_def

lemma mset_map_update:
  "distinct xs \<Longrightarrow> x \<in> set xs \<Longrightarrow>
   mset (map (f(x := y)) xs) = add_mset y (mset (map f xs) - {#f x#})"
  unfolding fun_upd_def
proof (induction xs)
  case (Cons z zs)
  show ?case
  proof (cases "z = x")
    case True
    with Cons.prems have "{#if a = x then y else f a. a \<in># mset zs#} = image_mset f (mset zs)"
      by (intro image_mset_cong) auto
    with True show ?thesis by simp
  next
    case False
    with Cons have "mset (map (\<lambda>a. if a = x then y else f a) zs) = add_mset y (mset (map f zs) - {#f x#})"
      and "f x \<in># mset (map f zs)" by auto
    with False show ?thesis by simp
  qed
qed simp

lemma map_heap_other: "x \<notin> set xs \<Longrightarrow> map (f(x := y)) xs = map f xs"
  by auto

lemma mem_inv_bets:
  "mem_inv s \<Longrightarrow> p \<in> set (mget (memBets (repo s)) r []) \<Longrightarrow> p < nextPtr s \<and> RoundID (heap s p) = r"
  by (simp add: mem_inv_def)

lemma mem_inv_queue:
  assumes "mem_inv s" "p \<in> set (mget (settlementQueue (repo s)) r [])"
  shows "p < nextPtr s \<and> RoundID (heap s p) = r"
proof -
  from assms(1) have "mget (settlementQueue (repo s)) r [] \<in> {[], mget (memBets (repo s)) r []}"
    by (simp add: mem_inv_def)
  with assms(2) have "p \<in> set (mget (memBets (repo s)) r [])" by (metis empty_iff insert_iff list.set(1))
  with assms(1) show ?thesis by (rule mem_inv_bets)
qed

lemma mem_inv_fresh:
  assumes "mem_inv s"
  shows "nextPtr s \<notin> set (mget (memBets (repo s)) r [])"
    and "nextPtr s \<notin> set (mget (settlementQueue (repo s)) r [])"
  using mem_inv_bets [OF assms, of "nextPtr s" r] mem_inv_queue [OF assms, of "nextPtr s" r] by auto

lemma mem_find:
  assumes "mem_inv s" "mem_intake s r" "mem_GetUserBet s r u c = (x, s')"
  shows "mem_inv s' \<and> mem_pending s' = mem_pending s \<and> mem_intake s' = mem_intake s \<and>
         (case x of Inl _ \<Rightarrow> False
          | Inr None \<Rightarrow> \<forall>b \<in># mem_pending s r. \<not> bet_matches r u c b
          | Inr (Some p) \<Rightarrow> bet_matches r u c (heap s' p) \<and> heap s' p \<in># mem_pending s r \<and>
              mem_handle s' p (heap s' p))"
proof -
  let ?l = "mget (memBets (repo s)) r []"
  let ?P = "\<lambda>p. UserID (heap s p) = u \<and> bet_Color (heap s p) = c"
  have x: "x = Inr (find ?P ?l)" and s': "s' = s" using assms(3) by (auto simp: mem_GetUserBet_def)
  show ?thesis
  proof (cases "find ?P ?l")
    case None
    then have "\<forall>p \<in> set ?l. \<not> ?P p" by (simp add: find_None_iff)
    with None assms(1,2) x s' show ?thesis
      by (auto simp: mem_pending_def mem_intake_def bet_matches_def)
  next
    case (Some p)
    then have "p \<in> set ?l" "?P p" by (auto simp: find_Some_iff in_set_conv_nth)
    moreover from this assms(1) have "RoundID (heap s p) = r" by (auto simp: mem_inv_def)
    ultimately show ?thesis using Some assms(1,2) x s'
      by (auto simp: mem_pending_def mem_intake_def bet_matches_def mem_handle_def)
  qed
qed

lemma mem_update:
  assumes "mem_inv s" "mem_handle s p b" "mem_intake s (RoundID b)"
    "mem_UpdateBetAmount s p a = (e, s')"
  shows "mem_inv s' \<and> e = None \<and> mem_intake s' = mem_intake s \<and> heap s' p = b\<lparr>Amount := Amount b + a\<rparr> \<and>
         mem_pending s' = (mem_pending s)(RoundID b :=
           add_mset (b\<lparr>Amount := Amount b + a\<rparr>) (mem_pending s (RoundID b) - {#b#}))"
proof -
  let ?q = "\<lambda>r. mget (settlementQueue (repo s)) r []"
  have b: "b = heap s p" "p \<in> set (mget (memBets (repo s)) (RoundID b) [])"
    using assms(2) by (auto simp: mem_handle_def)
  have s': "s' = s\<lparr>heap := (heap s)(p := b\<lparr>Amount := Amount b + a\<rparr>)\<rparr>" "e = None"
    using assms(4) b(1) by (auto simp: mem_UpdateBetAmount_def)
  have "p \<notin> set (?q r)" if "r \<noteq> RoundID b" for r
    using mem_inv_queue [OF assms(1), of p r] that b(1) by auto
  then have other: "mem_pending s' r = mem_pending s r" if "r \<noteq> RoundID b" for r
    using that by (simp add: s' mem_pending_def)
  have "?q (RoundID b) = mget (memBets (repo s)) (RoundID b) []"
    using assms(3) by (simp add: mem_intake_def)
  with b(2) assms(1) have "distinct (?q (RoundID b))" "p \<in> set (?q (RoundID b))"
    by (simp_all add: mem_inv_def)
  from mset_map_update [OF this] have same: "mem_pending s' (RoundID b) =
      add_mset (b\<lparr>Amount := Amount b + a\<rparr>) (mem_pending s (RoundID b) - {#b#})"
    using b(1) by (simp add: s' mem_pending_def)
  have "mem_inv s'" using assms(1) b(1) by (simp add: s'(1) mem_inv_def)
  moreover have "mem_intake s' = mem_intake s" by (simp add: s'(1) mem_intake_def fun_eq_iff)
  ultimately show ?thesis using same other s' by (simp add: fun_eq_iff)
qed

lemma mem_save:
  assumes "mem_inv s" "mem_intake s (RoundID b)" "alloc b s = (p, s1)" "mem_SaveBet s1 p = (e, s')"
  shows "mem_inv s' \<and> e = None \<and> mem_intake s' = mem_intake s \<and> heap s' p = b \<and>
         mem_pending s' = (mem_pending s)(RoundID b := add_mset b (mem_pending s (RoundID b)))"
proof -
  let ?q = "\<lambda>r. mget (settlementQueue (repo s)) r []" and ?l = "\<lambda>r. mget (memBets (repo s)) r []"
  have p: "p = nextPtr s" and e: "e = None" and h: "heap s' = (heap s)(p := b)"
    and n: "nextPtr s' = Suc p"
    and q': "mget (settlementQueue (repo s')) r [] = (if r = RoundID b then ?q r @ [p] else ?q r)"
    and l': "mget (memBets (repo s')) r [] = (if r = RoundID b then ?l r @ [p] else ?l r)" for r
    using assms(3,4) by (auto simp: alloc_def mem_SaveBet_def Let_def)
  note fresh = mem_inv_fresh [OF assms(1), folded p]
  have "mem_intake s' = mem_intake s"
    by (auto simp: mem_intake_def q' l' fun_eq_iff)
  moreover have "mem_pending s' = (mem_pending s)(RoundID b := add_mset b (mem_pending s (RoundID b)))"
    using fresh(2) by (simp add: mem_pending_def q' h fun_eq_iff map_heap_other del: mset_map)
  moreover have "mem_inv s'"
    unfolding mem_inv_def
  proof (intro allI conjI)
    fix r
    show "distinct (mget (memBets (repo s')) r [])"
      using assms(1) fresh(1) by (simp add: l' mem_inv_def)
    show "\<forall>x \<in> set (mget (memBets (repo s')) r []). x < nextPtr s' \<and> RoundID (heap s' x) = r"
      using mem_inv_bets [OF assms(1), of _ r] fresh(1) p by (auto simp: l' h n less_Suc_eq)
    show "mget (settlementQueue (repo s')) r [] \<in> {[], mget (memBets (repo s')) r []}"
      using assms(1,2) by (simp add: q' l' mem_inv_def mem_intake_def)
  qed
  ultimately show ?thesis by (simp add: e h)
qed

lemma mem_take:
  assumes "mem_inv s" "mem_GetBetsForSettlement s r = (y, s')"
  shows "mem_inv s' \<and> (\<forall>q. q \<noteq> r \<longrightarrow> mem_intake s' q = mem_intake s q) \<and>
         (\<exists>ps. y = Inr ps \<and> mset (map (heap s') ps) \<subseteq># mem_pending s r \<and>
            mem_pending s' = (mem_pending s)(r := mem_pending s r - mset (map (heap s') ps)) \<and>
            (ps = [] \<longrightarrow> mem_pending s r = {#}))"
proof (cases "mget (settlementQueue (repo s)) r [] = []")
  case True
  with assms show ?thesis
    by (simp add: mem_GetBetsForSettlement_def mem_pending_def fun_eq_iff)
next
  case False
  with assms(2) have y: "y = Inr (mget (settlementQueue (repo s)) r [])"
    and s': "s' = s\<lparr>repo := (repo s)\<lparr>settlementQueue := (settlementQueue (repo s))(r := None)\<rparr>\<rparr>"
    by (auto simp: mem_GetBetsForSettlement_def Let_def)
  have "mem_inv s'" using assms(1) by (simp add: s' mem_inv_def)
  then show ?thesis using False
    by (simp add: y s' mem_pending_def mem_intake_def fun_eq_iff)
qed

lemma mem_clear:
  assumes "mem_inv s" "mem_ClearBets s r = (e, s')"
  shows "mem_inv s' \<and> (\<forall>q. q \<noteq> r \<longrightarrow> mem_intake s' q = mem_intake s q) \<and>
         mem_pending s' = (mem_pending s)(r := {#})"
proof -
  have s': "s' = s\<lparr>repo := (repo s)\<lparr>memBets := (memBets (repo s))(r := None),
      settlementQueue := (settlementQueue (repo s))(r := None)\<rparr>\<rparr>"
    using assms(2) by (simp add: mem_ClearBets_def)
  have "mem_inv s'" using assms(1) by (simp add: s' mem_inv_def)
  then show ?thesis by (simp add: s' mem_pending_def mem_intake_def fun_eq_iff)
qed

interpretation mem_bets: bet_repository memRepo mem_inv mem_pending mem_intake mem_handle "\<lambda>_. True"
proof (unfold_locales, goal_cases)
  case (1 s b r)
  then show ?case using mem_inv_queue [OF 1(1)] by (auto simp: mem_pending_def)
next
  case (2 s r u c x s')
  from 2(3) show ?case by (intro mem_find [OF 2(1,2)]) (simp add: memRepo_def)
next
  case (3 s p b a e s')
  from 3(4) show ?case by (intro mem_update [OF 3(1-3)]) (simp add: memRepo_def)
next
  case (4 s b p s1 e s')
  from 4(7) show ?case by (intro mem_save [OF 4(1,2,6)]) (simp add: memRepo_def)
next
  case (5 s r y s')
  from 5(2) show ?case by (intro mem_take [OF 5(1)]) (simp add: memRepo_def)
next
  case (6 s r e s')
  from 6(2) show ?case by (intro mem_clear [OF 6(1)]) (simp add: memRepo_def)
qed

end
