(* ===== verification/Gs_UseCase.thy ===== *)
theory Gs_UseCase
  imports Bets Wallet Gms_UseCase
begin

text \<open>
  The use case of the game service, \<^verbatim>\<open>gs/usecase/gs_uc.go\<close>, and its adapters: placing bets, the
  player's view of the round, and the settlement of a round in batches.
  The use case is a record of the interfaces it was built with; the world holds the state of their
  implementations, the messages handed to the gateway, and what the calls read from outside: the
  clock (one entry per \<^verbatim>\<open>time.Now()\<close>) and the bet IDs (one per \<^verbatim>\<open>generateBetID\<close>).
\<close>

section \<open>The world and the use case\<close>

datatype gs_message =
    Broadcast string proto_message
  | SendToUser int64 string proto_message

record ('r, 'm, 'w, 'd) gs_world =
  gs_store :: "'r store"
  gs_gms :: 'm
  gs_wallet :: 'w
  gs_orders :: 'd
  gs_sent :: "gs_message list"
  gs_clock :: "nat \<Rightarrow> go_time"
  gs_reads :: nat
  gs_ids :: "nat \<Rightarrow> string"
  gs_nextId :: nat

text \<open>The order repository and the gateway may be nil.  \<open>floatOverflow\<close> is what the platform makes of
  a float outside the range of \<^verbatim>\<open>int64\<close>.\<close>

record ('r, 'm, 'w, 'd) GSUseCase =
  betRepo :: "'r BetRepository"
  betOrderRepo :: "('d \<Rightarrow> BetOrder list \<Rightarrow> go_error option \<times> 'd) option"
  gmsService :: "'m GMSService"
  walletSvc :: "'w WalletService"
  gs_gateway :: bool
  floatOverflow :: "float64 \<Rightarrow> int64"

definition NewGSUseCase ::
    "'r BetRepository \<Rightarrow> ('d \<Rightarrow> BetOrder list \<Rightarrow> go_error option \<times> 'd) option \<Rightarrow> 'm GMSService
      \<Rightarrow> 'w WalletService \<Rightarrow> bool \<Rightarrow> (float64 \<Rightarrow> int64) \<Rightarrow> ('r, 'm, 'w, 'd) GSUseCase" where
  "NewGSUseCase bets orders gms wallet gateway overflow =
     \<lparr>betRepo = bets, betOrderRepo = orders, gmsService = gms, walletSvc = wallet,
      gs_gateway = gateway, floatOverflow = overflow\<rparr>"

definition readClock :: "('r, 'm, 'w, 'd) gs_world \<Rightarrow> go_time \<times> ('r, 'm, 'w, 'd) gs_world" where
  "readClock w = (gs_clock w (gs_reads w), w\<lparr>gs_reads := Suc (gs_reads w)\<rparr>)"

definition generateBetID :: "('r, 'm, 'w, 'd) gs_world \<Rightarrow> string \<times> ('r, 'm, 'w, 'd) gs_world" where
  "generateBetID w = (gs_ids w (gs_nextId w), w\<lparr>gs_nextId := Suc (gs_nextId w)\<rparr>)"

definition isValidColor :: "Color \<Rightarrow> bool" where
  "isValidColor color \<longleftrightarrow>
     color = REWARD_RED \<or> color = REWARD_GREEN \<or> color = REWARD_BLUE \<or> color = REWARD_YELLOW"

definition calculateWin :: "Bet \<Rightarrow> Color \<Rightarrow> int64" where
  "calculateWin bet winningColor = (if bet_Color bet = winningColor then Amount bet * 2 else 0)"

section \<open>Placing a bet\<close>

text \<open>Steps 5 and 6 of \<^verbatim>\<open>PlaceBet\<close>: the bet of the user on this color is raised, or a new one saved.\<close>

definition saveOrUpdateBet ::
    "('r, 'm, 'w, 'd) GSUseCase \<Rightarrow> string \<Rightarrow> int64 \<Rightarrow> Color \<Rightarrow> int64 \<Rightarrow> ('r, 'm, 'w, 'd) gs_world
      \<Rightarrow> ptr go_result \<times> ('r, 'm, 'w, 'd) gs_world" where
  "saveOrUpdateBet uc roundID userID color amount w =
     (case repo_GetUserBet (betRepo uc) (gs_store w) roundID userID color of
        (Inl err, s) \<Rightarrow> (Inl (''failed to check existing bet: '' @ err), w\<lparr>gs_store := s\<rparr>)
      | (Inr (Some existingBet), s) \<Rightarrow>
          (case repo_UpdateBetAmount (betRepo uc) s existingBet amount of
             (Some err, s) \<Rightarrow> (Inl (''failed to update bet amount: '' @ err), w\<lparr>gs_store := s\<rparr>)
           | (None, s) \<Rightarrow> (Inr existingBet, w\<lparr>gs_store := s\<rparr>))
      | (Inr None, s) \<Rightarrow>
          (let (betID, w) = generateBetID (w\<lparr>gs_store := s\<rparr>);
               (now, w) = readClock w;
               (bet, s) = alloc (NewBet betID now roundID userID color amount) (gs_store w)
           in case repo_SaveBet (betRepo uc) s bet of
                (Some err, s) \<Rightarrow> (Inl (''failed to save bet: '' @ err), w\<lparr>gs_store := s\<rparr>)
              | (None, s) \<Rightarrow> (Inr bet, w\<lparr>gs_store := s\<rparr>)))"

definition gs_PlaceBet ::
    "('r, 'm, 'w, 'd) GSUseCase \<Rightarrow> int64 \<Rightarrow> Color \<Rightarrow> int64 \<Rightarrow> ('r, 'm, 'w, 'd) gs_world
      \<Rightarrow> ptr go_result \<times> ('r, 'm, 'w, 'd) gs_world" where
  "gs_PlaceBet uc userID color amount w =
     (case svc_GetCurrentRound (gmsService uc) (gs_gms w) \<lparr>crq_UserId = 0\<rparr> of
        (Inl err, g) \<Rightarrow> (Inl (''failed to get current round: '' @ err), w\<lparr>gs_gms := g\<rparr>)
      | (Inr roundRsp, g) \<Rightarrow>
      if \<not> isValidColor color
      then (Inl (''invalid color: '' @ reward_String color), w\<lparr>gs_gms := g\<rparr>)
      else
      (case wallet_PlaceBet (walletSvc uc) (gs_wallet w) userID amount (crs_RoundId roundRsp) of
         (Inl err, wl) \<Rightarrow>
           (Inl (''failed to deduct from wallet: '' @ err), w\<lparr>gs_gms := g, gs_wallet := wl\<rparr>)
       | (Inr _, wl) \<Rightarrow>
      (case svc_RecordBet (gmsService uc) g
              \<lparr>rbq_RoundId = crs_RoundId roundRsp, rbq_UserId = userID, rbq_Color = color,
               rbq_Amount = amount\<rparr> of
         (Inl err, g) \<Rightarrow>
           (Inl (''failed to record bet in GMS: '' @ err), w\<lparr>gs_gms := g, gs_wallet := wl\<rparr>)
       | (Inr _, g) \<Rightarrow>
           saveOrUpdateBet uc (crs_RoundId roundRsp) userID color amount
             (w\<lparr>gs_gms := g, gs_wallet := wl\<rparr>))))"

section \<open>The current round of a player\<close>

text \<open>The \<^verbatim>\<open>map[string]interface{}\<close> of \<^verbatim>\<open>GetCurrentRound\<close>, by its four keys.\<close>

record round_info =
  ri_round_id :: string
  ri_state :: string
  ri_betting_end :: go_time
  ri_player_bets :: "(string \<times> int64) list"

definition gs_GetCurrentRound ::
    "('r, 'm, 'w, 'd) GSUseCase \<Rightarrow> int64 \<Rightarrow> ('r, 'm, 'w, 'd) gs_world
      \<Rightarrow> round_info go_result \<times> ('r, 'm, 'w, 'd) gs_world" where
  "gs_GetCurrentRound uc userID w =
     (case svc_GetCurrentRound (gmsService uc) (gs_gms w) \<lparr>crq_UserId = userID\<rparr> of
        (Inl err, g) \<Rightarrow> (Inl err, w\<lparr>gs_gms := g\<rparr>)
      | (Inr roundRsp, g) \<Rightarrow>
          (let (res, s) = repo_GetUserBets (betRepo uc) (gs_store w) (crs_RoundId roundRsp) userID;
               playerBets = (case res of Inl _ \<Rightarrow> [] | Inr ps \<Rightarrow> ps)
           in (Inr \<lparr>ri_round_id = crs_RoundId roundRsp, ri_state = state_String (crs_State roundRsp),
                    ri_betting_end = sint (crs_BettingEndTimestamp roundRsp) * Second,
                    ri_player_bets =
                      map (\<lambda>p. (reward_String (bet_Color (heap s p)), Amount (heap s p))) playerBets\<rparr>,
               w\<lparr>gs_gms := g, gs_store := s\<rparr>)))"

section \<open>Settlement\<close>

definition newBetOrder :: "string \<Rightarrow> Color \<Rightarrow> go_time \<Rightarrow> Bet \<Rightarrow> BetOrder" where
  "newBetOrder roundID winningColor now bet =
     \<lparr>bo_OrderID = BetID bet, bo_UserID = UserID bet, bo_RoundID = roundID,
      bo_GameCode = ''color_game'', bo_BetArea = reward_String (bet_Color bet),
      bo_Amount = float_of_int64 (Amount bet),
      bo_Payout = float_of_int64 (calculateWin bet winningColor),
      bo_Status = BetOrderStatusSettled, bo_CreatedAt = Time bet, bo_SettledAt = Some now\<rparr>"

text \<open>The second part of \<^verbatim>\<open>processBatch\<close> for one bet and its order.\<close>

definition payBet ::
    "('r, 'm, 'w, 'd) GSUseCase \<Rightarrow> string \<Rightarrow> Color \<Rightarrow> Bet \<times> BetOrder \<Rightarrow> ('r, 'm, 'w, 'd) gs_world
      \<Rightarrow> ('r, 'm, 'w, 'd) gs_world" where
  "payBet uc roundID winningColor x w =
     (let (bet, betOrder) = x;
          winAmount = int64_of_float (floatOverflow uc) (bo_Payout betOrder);
          (shouldNotify, w) =
            (if 0 < sint winAmount
             then (case wallet_AddBalance (walletSvc uc) (gs_wallet w) (UserID bet) winAmount
                           (''win:'' @ roundID) of
                     (Inl _, wl) \<Rightarrow> (False, w\<lparr>gs_wallet := wl\<rparr>)
                   | (Inr _, wl) \<Rightarrow> (True, w\<lparr>gs_wallet := wl\<rparr>))
             else (True, w))
      in if shouldNotify \<and> gs_gateway uc
         then w\<lparr>gs_sent := gs_sent w @
                [SendToUser (UserID bet) ''color_game''
                   (SettlementMsg \<lparr>sbr_RoundId = roundID, sbr_WinningColor = winningColor,
                      sbr_BetId = BetID bet, sbr_BetColor = bet_Color bet, sbr_BetAmount = Amount bet,
                      sbr_WinAmount = winAmount, sbr_IsWinner = 0 < sint winAmount\<rparr>)]\<rparr>
         else w)"

text \<open>The elapsed time of the insert is only logged: the two clock readings around it are made when
  the insert is, and leave no other trace.\<close>

definition processBatch ::
    "('r, 'm, 'w, 'd) GSUseCase \<Rightarrow> string \<Rightarrow> Color \<Rightarrow> BetOrder list \<Rightarrow> ptr list \<Rightarrow> nat
      \<Rightarrow> ('r, 'm, 'w, 'd) gs_world \<Rightarrow> go_error option \<times> ('r, 'm, 'w, 'd) gs_world" where
  "processBatch uc roundID winningColor betOrders bets batchNum w =
     (let pay = (\<lambda>w. fold (payBet uc roundID winningColor)
                       (zip (map (heap (gs_store w)) bets) betOrders) w)
      in case betOrderRepo uc of
           Some batchCreate \<Rightarrow>
             if betOrders \<noteq> []
             then (case batchCreate (gs_orders w) betOrders of
                     (Some err, d) \<Rightarrow>
                       (Some (''failed to persist bet orders batch '' @ itoa (int batchNum) @ '': '' @ err),
                        w\<lparr>gs_orders := d\<rparr>)
                   | (None, d) \<Rightarrow> (None, pay (w\<lparr>gs_orders := d\<rparr>)))
             else (None, pay w)
         | None \<Rightarrow> (None, pay w))"

definition batchSize :: nat where
  "batchSize = 500"

text \<open>The loop variables that outlive a settlement batch: \<^verbatim>\<open>allBetOrders\<close>, \<^verbatim>\<open>totalProcessed\<close> and
  \<^verbatim>\<open>batchNumber\<close>; counters of list lengths are natural numbers.\<close>

record settle_acc =
  allBetOrders :: "BetOrder list"
  totalProcessed :: nat
  batchNumber :: nat

text \<open>The inner loop over one list of bets, and what follows it for a last, smaller batch.\<close>

fun settleBets ::
    "('r, 'm, 'w, 'd) GSUseCase \<Rightarrow> string \<Rightarrow> Color \<Rightarrow> go_time \<Rightarrow> ptr list \<Rightarrow> BetOrder list \<Rightarrow> ptr list
      \<Rightarrow> settle_acc \<Rightarrow> ('r, 'm, 'w, 'd) gs_world \<Rightarrow> settle_acc go_result \<times> ('r, 'm, 'w, 'd) gs_world" where
  "settleBets uc roundID winningColor now [] currentBatch currentBets acc w =
     (if currentBatch \<noteq> [] then
        (let batchNum = Suc (batchNumber acc)
         in case processBatch uc roundID winningColor currentBatch currentBets batchNum w of
              (Some err, w) \<Rightarrow> (Inl err, w)
            | (None, w) \<Rightarrow>
                (Inr (acc\<lparr>batchNumber := batchNum,
                          totalProcessed := totalProcessed acc + length currentBatch\<rparr>), w))
      else (Inr acc, w))"
| "settleBets uc roundID winningColor now (bet # bets) currentBatch currentBets acc w =
     (let betOrder = newBetOrder roundID winningColor now (heap (gs_store w) bet);
          currentBatch = currentBatch @ [betOrder];
          currentBets = currentBets @ [bet];
          acc = acc\<lparr>allBetOrders := allBetOrders acc @ [betOrder]\<rparr>
      in if length currentBatch \<ge> batchSize then
           (let batchNum = Suc (batchNumber acc)
            in case processBatch uc roundID winningColor currentBatch currentBets batchNum w of
                 (Some err, w) \<Rightarrow> (Inl err, w)
               | (None, w) \<Rightarrow>
                   settleBets uc roundID winningColor now bets [] []
                     (acc\<lparr>batchNumber := batchNum,
                          totalProcessed := totalProcessed acc + length currentBatch\<rparr>) w)
         else settleBets uc roundID winningColor now bets currentBatch currentBets acc w)"

text \<open>The outer loop runs until the repository has no more bets: nothing in the code bounds it.\<close>

partial_function (option) settleLoop ::
    "('r, 'm, 'w, 'd) GSUseCase \<Rightarrow> string \<Rightarrow> Color \<Rightarrow> settle_acc \<Rightarrow> ('r, 'm, 'w, 'd) gs_world
      \<Rightarrow> (settle_acc go_result \<times> ('r, 'm, 'w, 'd) gs_world) option" where
  "settleLoop uc roundID winningColor acc w =
     (case repo_GetBetsForSettlement (betRepo uc) (gs_store w) roundID of
        (Inl err, s) \<Rightarrow>
          Some (Inl (''failed to get bets for settlement: '' @ err), w\<lparr>gs_store := s\<rparr>)
      | (Inr bets, s) \<Rightarrow>
          if bets = [] then Some (Inr acc, w\<lparr>gs_store := s\<rparr>)
          else
            (case readClock (w\<lparr>gs_store := s\<rparr>) of
               (now, w) \<Rightarrow>
            (case settleBets uc roundID winningColor now bets [] [] acc w of
               (Inl err, w) \<Rightarrow> Some (Inl err, w)
             | (Inr acc, w) \<Rightarrow> settleLoop uc roundID winningColor acc w)))"

text \<open>The figures of the closing log line: bets, winners and total payout.\<close>

definition settleSummary :: "(float64 \<Rightarrow> int64) \<Rightarrow> BetOrder list \<Rightarrow> nat \<times> nat \<times> int64" where
  "settleSummary overflow orders =
     (length orders, length (filter (\<lambda>order. bo_Payout order > 0) orders),
      foldl (\<lambda>totalPayout order. totalPayout + int64_of_float overflow (bo_Payout order)) 0 orders)"

definition SettleRound ::
    "('r, 'm, 'w, 'd) GSUseCase \<Rightarrow> string \<Rightarrow> Color \<Rightarrow> ('r, 'm, 'w, 'd) gs_world
      \<Rightarrow> (((nat \<times> nat \<times> int64) go_result) \<times> ('r, 'm, 'w, 'd) gs_world) option" where
  "SettleRound uc roundID winningColor w =
     (let (startTime, w) = readClock w
      in case settleLoop uc roundID winningColor
                \<lparr>allBetOrders = [], totalProcessed = 0, batchNumber = 0\<rparr> w of
           None \<Rightarrow> None
         | Some (Inl err, w) \<Rightarrow> Some (Inl err, w)
         | Some (Inr acc, w) \<Rightarrow>
             let (_, s) = repo_ClearBets (betRepo uc) (gs_store w) roundID;
                 w = w\<lparr>gs_store := s\<rparr>;
                 w = (if gs_gateway uc
                      then w\<lparr>gs_sent := gs_sent w @
                             [Broadcast ''color_game''
                                (SettlementMsg \<lparr>sbr_RoundId = roundID, sbr_WinningColor = winningColor,
                                   sbr_BetId = [], sbr_BetColor = REWARD_UNSPECIFIED, sbr_BetAmount = 0,
                                   sbr_WinAmount = 0, sbr_IsWinner = False\<rparr>)]\<rparr>
                      else w)
             in Some (Inr (settleSummary (floatOverflow uc) (allBetOrders acc)), w))"

section \<open>Adapters\<close>

text \<open>\<^verbatim>\<open>PlaceBet\<close> of the local adapter.  \<^verbatim>\<open>RoundResult\<close> answers at once and leaves the
  settlement to a goroutine; the local adapter gives it a background context, the gRPC adapter the
  context of the request, which is cancelled when the call returns: \<open>settlement_task\<close> is what the
  goroutine is to do.\<close>

definition handler_PlaceBet ::
    "('r, 'm, 'w, 'd) GSUseCase \<Rightarrow> ColorGamePlaceBetReq \<Rightarrow> ('r, 'm, 'w, 'd) gs_world
      \<Rightarrow> ColorGamePlaceBetRsp \<times> ('r, 'm, 'w, 'd) gs_world" where
  "handler_PlaceBet uc req w =
     (case gs_PlaceBet uc (pbq_UserId req) (pbq_Color req) (pbq_Amount req) w of
        (Inl err, w) \<Rightarrow> (\<lparr>pbs_ErrorCode = INTERNAL_ERROR, pbs_BetId = [], pbs_Error = err\<rparr>, w)
      | (Inr bet, w) \<Rightarrow>
          (\<lparr>pbs_ErrorCode = SUCCESS, pbs_BetId = BetID (heap (gs_store w) bet), pbs_Error = []\<rparr>, w))"

datatype settlement_task = SettleWith (detached: bool) (task_round: string) (task_color: Color)

definition local_RoundResult :: "ColorGameRoundResultReq \<Rightarrow> ColorGameRoundResultRsp \<times> settlement_task" where
  "local_RoundResult req =
     (\<lparr>rrs_ErrorCode = SUCCESS, rrs_Error = []\<rparr>, SettleWith True (rrq_RoundId req) (rrq_Result req))"

definition grpc_RoundResult :: "ColorGameRoundResultReq \<Rightarrow> ColorGameRoundResultRsp \<times> settlement_task" where
  "grpc_RoundResult req =
     (\<lparr>rrs_ErrorCode = SUCCESS, rrs_Error = []\<rparr>, SettleWith False (rrq_RoundId req) (rrq_Result req))"

end
