(* ===== verification/Gs_Settle.thy ===== *)
theory Gs_Settle
  imports Gs_UseCase
begin

text \<open>
  The correctness of the game service: what placing a bet does to the wallet and to the pending
  stakes, and that settling a round ends, pays every pending bet once and leaves none.
  The lemmas are proved in the locale \<open>game_service\<close> from the contracts of the wallet and of the bet
  repository alone, and instantiated for the services the program is built with.
\<close>

section \<open>Amounts\<close>

text \<open>A stake whose double is exact in a \<^verbatim>\<open>float64\<close>.\<close>

definition fair_amount :: "int64 \<Rightarrow> bool" where
  "fair_amount a \<longleftrightarrow> 0 \<le> sint a \<and> sint a \<le> 2 ^ 52"

lemma sint_double:
  assumes "fair_amount a"
  shows "sint (a * 2) = 2 * sint a"
proof -
  have "sint (a * 2) = signed_take_bit 63 (sint a * sint (2 :: int64))"
    by (simp add: sint_word_ariths)
  also have "\<dots> = sint a * 2"
    using assms by (simp add: fair_amount_def signed_take_bit_int_eq_self)
  finally show ?thesis by simp
qed

lemma win_sint:
  "fair_amount (Amount b) \<Longrightarrow>
   sint (calculateWin b c) = (if bet_Color b = c then 2 * sint (Amount b) else 0)"
  by (simp add: calculateWin_def sint_double)

lemma win_exact:
  assumes "fair_amount (Amount b)"
  shows "int64_of_float oor (bo_Payout (newBetOrder r c now b)) = calculateWin b c"
    and "0 \<le> sint (calculateWin b c)"
  using assms
  by (auto simp: newBetOrder_def win_sint fair_amount_def intro!: int64_float_roundtrip)

section \<open>The service on top of its contracts\<close>

text \<open>The order repository stores what it is given: \<open>rows\<close> are the orders in the database.\<close>

definition orders_persist ::
    "('r, 'm, 'w, 'd) GSUseCase \<Rightarrow> ('d \<Rightarrow> BetOrder multiset) \<Rightarrow> bool" where
  "orders_persist uc rows \<longleftrightarrow>
     (\<forall>bc d os. betOrderRepo uc = Some bc \<longrightarrow> os \<noteq> [] \<longrightarrow>
        fst (bc d os) = None \<and> rows (snd (bc d os)) = rows d + mset os)"

text \<open>An order without the instant of its settlement.\<close>

definition undated :: "BetOrder \<Rightarrow> BetOrder" where
  "undated o' = o'\<lparr>bo_SettledAt := None\<rparr>"

lemma undated_newBetOrder: "undated (newBetOrder r c now b) = undated (newBetOrder r c 0 b)"
  by (simp add: undated_def newBetOrder_def)

text \<open>The personal message about a bet.\<close>

definition settleNote :: "string \<Rightarrow> Color \<Rightarrow> Bet \<Rightarrow> gs_message" where
  "settleNote r c b =
     SendToUser (UserID b) ''color_game''
       (SettlementMsg \<lparr>sbr_RoundId = r, sbr_WinningColor = c, sbr_BetId = BetID b,
          sbr_BetColor = bet_Color b, sbr_BetAmount = Amount b, sbr_WinAmount = calculateWin b c,
          sbr_IsWinner = 0 < sint (calculateWin b c)\<rparr>)"

text \<open>The message about the round to everyone.\<close>

definition settleBroadcast :: "string \<Rightarrow> Color \<Rightarrow> gs_message" where
  "settleBroadcast r c =
     Broadcast ''color_game''
       (SettlementMsg \<lparr>sbr_RoundId = r, sbr_WinningColor = c, sbr_BetId = [], sbr_BetColor = 0,
          sbr_BetAmount = 0, sbr_WinAmount = 0, sbr_IsWinner = False\<rparr>)"

text \<open>What a user wins with a collection of bets.\<close>

definition winnings :: "Bet list \<Rightarrow> Color \<Rightarrow> int64 \<Rightarrow> int64" where
  "winnings bs c u = sum_list (map (\<lambda>b. if UserID b = u then calculateWin b c else 0) bs)"

lemma winnings_simps [simp]:
  "winnings [] c u = 0"
  "winnings (b # bs) c u = (if UserID b = u then calculateWin b c else 0) + winnings bs c u"
  "winnings (as @ bs) c u = winnings as c u + winnings bs c u"
  by (simp_all add: winnings_def)

text \<open>The stake of a user on a color.\<close>

definition stake :: "Bet multiset \<Rightarrow> int64 \<Rightarrow> Color \<Rightarrow> int64" where
  "stake B u c = (\<Sum>b \<in># B. if UserID b = u \<and> bet_Color b = c then Amount b else 0)"

lemma stake_simps [simp]:
  "stake {#} u c = 0"
  "stake (add_mset b B) u c = (if UserID b = u \<and> bet_Color b = c then Amount b else 0) + stake B u c"
  by (simp_all add: stake_def)

lemma stake_diff:
  "b \<in># B \<Longrightarrow>
   stake (B - {#b#}) u c = stake B u c - (if UserID b = u \<and> bet_Color b = c then Amount b else 0)"
  by (metis add_diff_cancel_left' insert_DiffM stake_simps(2))

text \<open>Winnings are twice the stake on the winning color.\<close>

lemma winnings_stake: "winnings bs c u = 2 * stake (mset bs) u c"
  by (induction bs) (auto simp: calculateWin_def algebra_simps)

section \<open>Bets, abstractly\<close>

text \<open>\<open>raised_or_added r u c a B B'\<close>: the pending bets \<open>B\<close> become \<open>B'\<close> when user \<open>u\<close> puts \<open>a\<close> on
  color \<open>c\<close>: the bet on that color grows, or a new one is added if there is none.\<close>

definition raised_or_added ::
    "string \<Rightarrow> int64 \<Rightarrow> Color \<Rightarrow> int64 \<Rightarrow> string \<Rightarrow> Bet multiset \<Rightarrow> Bet multiset \<Rightarrow> bool" where
  "raised_or_added r u c a betID B B' \<longleftrightarrow>
     (\<exists>b \<in># B. bet_matches r u c b \<and> B' = add_mset (b\<lparr>Amount := Amount b + a\<rparr>) (B - {#b#})) \<or>
     (\<forall>b \<in># B. \<not> bet_matches r u c b) \<and> (\<exists>now. B' = add_mset (NewBet betID now r u c a) B)"

lemma raised_stake:
  "raised_or_added r u c a betID B B' \<Longrightarrow>
   stake B' v d = stake B v d + (if v = u \<and> d = c then a else 0)"
  by (auto simp: raised_or_added_def bet_matches_def NewBet_def stake_diff)

lemma raised_set:
  assumes "raised_or_added r u c a betID B B'" "b' \<in># B'"
  shows "UserID b' = u \<or> (\<exists>b \<in># B. UserID b' = UserID b)"
  using assms by (fastforce simp: raised_or_added_def bet_matches_def NewBet_def dest: in_diffD)

text \<open>The pot: no negative stakes, and their sum within a bound.\<close>

definition pot :: "int \<Rightarrow> Bet multiset \<Rightarrow> bool" where
  "pot T B \<longleftrightarrow> (\<forall>b \<in># B. 0 \<le> sint (Amount b)) \<and> (\<Sum>b \<in># B. sint (Amount b)) \<le> T"

lemma sum_mset_nonneg_int: "(\<And>b. b \<in># B \<Longrightarrow> 0 \<le> (f b :: int)) \<Longrightarrow> 0 \<le> (\<Sum>b \<in># B. f b)"
  by (induction B) auto

lemma pot_member:
  assumes "pot T B" "b \<in># B"
  shows "sint (Amount b) \<le> T"
proof -
  obtain C where C: "B = add_mset b C" using assms(2) by (metis insert_DiffM)
  have "0 \<le> (\<Sum>b \<in># C. sint (Amount b))"
    using assms(1) C by (intro sum_mset_nonneg_int) (auto simp: pot_def)
  with assms(1) C show ?thesis by (simp add: pot_def)
qed

lemma pot_mono: "pot T B \<Longrightarrow> T \<le> T' \<Longrightarrow> pot T' B"
  by (simp add: pot_def)

lemma pot_fair: "pot T B \<Longrightarrow> T \<le> 2 ^ 52 \<Longrightarrow> b \<in># B \<Longrightarrow> fair_amount (Amount b)"
  using pot_member [of T B b] by (auto simp: pot_def fair_amount_def)

lemma sint_plus_fair:
  fixes x y :: int64
  assumes "0 \<le> sint x" "0 \<le> sint y" "sint x + sint y \<le> 2 ^ 52"
  shows "sint (x + y) = sint x + sint y"
proof -
  have "sint (x + y) = signed_take_bit 63 (sint x + sint y)" by (simp add: sint_word_ariths)
  then show ?thesis using assms by (simp add: signed_take_bit_int_eq_self)
qed

lemma pot_raised:
  assumes "pot T B" "raised_or_added r u c a betID B B'" "0 \<le> sint a" "T + sint a \<le> 2 ^ 52"
  shows "pot (T + sint a) B'"
  using assms(2) unfolding raised_or_added_def
proof
  assume "\<exists>b \<in># B. bet_matches r u c b \<and> B' = add_mset (b\<lparr>Amount := Amount b + a\<rparr>) (B - {#b#})"
  then obtain b C where b: "B = add_mset b C" "B' = add_mset (b\<lparr>Amount := Amount b + a\<rparr>) C"
    by (metis add_mset_remove_trivial insert_DiffM)
  have "sint (Amount b + a) = sint (Amount b) + sint a"
    using assms pot_member [OF assms(1), of b] b(1) by (intro sint_plus_fair) (auto simp: pot_def)
  with assms(1,3) b show ?thesis by (auto simp: pot_def)
next
  assume "(\<forall>b \<in># B. \<not> bet_matches r u c b) \<and> (\<exists>now. B' = add_mset (NewBet betID now r u c a) B)"
  with assms(1,3) show ?thesis by (auto simp: pot_def NewBet_def)
qed

text \<open>What the game machine service decides of an attempt to bet: whether the wallet is charged, and
  the round the bet is recorded for, if it is.\<close>

definition bet_outcome ::
    "'m GMSService \<Rightarrow> 'm \<Rightarrow> int64 \<Rightarrow> Color \<Rightarrow> int64 \<Rightarrow> bool \<times> string option \<times> 'm" where
  "bet_outcome M g u c a =
     (case svc_GetCurrentRound M g \<lparr>crq_UserId = 0\<rparr> of
        (Inl _, g) \<Rightarrow> (False, None, g)
      | (Inr rsp, g) \<Rightarrow>
          if \<not> isValidColor c then (False, None, g)
          else case svc_RecordBet M g \<lparr>rbq_RoundId = crs_RoundId rsp, rbq_UserId = u, rbq_Color = c,
                                       rbq_Amount = a\<rparr> of
                 (Inl _, g) \<Rightarrow> (True, None, g)
               | (Inr _, g) \<Rightarrow> (True, Some (crs_RoundId rsp), g))"

type_synonym bet_try = "int64 \<times> Color \<times> int64"

fun outcomes ::
    "'m GMSService \<Rightarrow> bet_try list \<Rightarrow> 'm \<Rightarrow> (bet_try \<times> bool \<times> string option) list" where
  "outcomes M [] g = []"
| "outcomes M ((u, c, a) # ts) g =
     (let (ch, acc, g) = bet_outcome M g u c a in ((u, c, a), ch, acc) # outcomes M ts g)"

fun placeBets ::
    "('r, 'm, 'w, 'd) GSUseCase \<Rightarrow> bet_try list \<Rightarrow> ('r, 'm, 'w, 'd) gs_world
      \<Rightarrow> ('r, 'm, 'w, 'd) gs_world" where
  "placeBets uc [] w = w"
| "placeBets uc ((u, c, a) # ts) w = placeBets uc ts (snd (gs_PlaceBet uc u c a w))"

text \<open>What a user was charged, and what of it was recorded on a color of a round.\<close>

definition charged :: "int64 \<Rightarrow> (bet_try \<times> bool \<times> string option) list \<Rightarrow> int64" where
  "charged v xs = sum_list (map (\<lambda>((u, c, a), ch, acc). if ch \<and> u = v then a else 0) xs)"

definition recorded :: "string \<Rightarrow> int64 \<Rightarrow> Color \<Rightarrow> (bet_try \<times> bool \<times> string option) list \<Rightarrow> int64" where
  "recorded r v d xs =
     sum_list (map (\<lambda>((u, c, a), ch, acc). if acc = Some r \<and> u = v \<and> c = d then a else 0) xs)"

section \<open>The settlement returns\<close>

text \<open>Paying touches no bet, whatever the wallet and the order database answer.\<close>

lemma payBet_store: "gs_store (payBet uc r c bo w) = gs_store w"
  by (cases bo) (simp add: payBet_def Let_def split: prod.split sum.split)

lemma payBets_store: "gs_store (fold (payBet uc r c) xs w) = gs_store w"
  by (induction xs arbitrary: w) (simp_all add: payBet_store)

lemma processBatch_store: "processBatch uc r c os ps n w = (e, w') \<Longrightarrow> gs_store w' = gs_store w"
  by (auto simp: processBatch_def Let_def payBets_store split: option.splits if_splits prod.splits)

lemma settleBets_store: "settleBets uc r c now ps os cur acc w = (y, w') \<Longrightarrow> gs_store w' = gs_store w"
proof (induction ps arbitrary: os cur acc w)
  case Nil
  then show ?case by (auto simp: Let_def processBatch_store split: if_splits prod.splits option.splits)
next
  case (Cons p ps)
  show ?case
  proof (cases "length os + 1 \<ge> batchSize")
    case True
    obtain e v where v: "processBatch uc r c (os @ [newBetOrder r c now (heap (gs_store w) p)]) (cur @ [p])
        (Suc (batchNumber acc)) w = (e, v)" by fastforce
    from processBatch_store [OF v] Cons.prems True v show ?thesis
      by (cases e) (auto simp: Let_def dest: Cons.IH)
  next
    case False
    with Cons.prems show ?thesis by (auto simp: Let_def dest: Cons.IH)
  qed
qed

lemma mset_diff_less: "M \<subseteq># P \<Longrightarrow> M \<noteq> {#} \<Longrightarrow> P - M \<subset># P"
  by (auto simp: mset_subset_eq_exists_conv subset_mset_def)

context bet_repository
begin

text \<open>Every list of bets the repository hands out that is not empty makes the pending bets fewer.\<close>

lemma settleLoop_returns:
  assumes "betRepo uc = R" "inv (gs_store w)"
  shows "\<exists>res w'. settleLoop uc r c acc w = Some (res, w') \<and> inv (gs_store w') \<and>
     (\<exists>B. B \<subseteq># pending (gs_store w) r \<and> pending (gs_store w') = (pending (gs_store w))(r := B) \<and>
        (isl res \<or> B = {#}))"
  using assms(2)
proof (induction "size (pending (gs_store w) r)" arbitrary: w acc rule: less_induct)
  case less
  obtain y s where take: "repo_GetBetsForSettlement R (gs_store w) r = (y, s)" by fastforce
  from take_bets [OF less.prems take] obtain ps where y: "y = Inr ps" and s: "inv s"
    and sub: "mset (map (heap s) ps) \<subseteq># pending (gs_store w) r"
    and pend: "pending s = (pending (gs_store w))(r := pending (gs_store w) r - mset (map (heap s) ps))"
    and empty: "ps = [] \<longrightarrow> pending (gs_store w) r = {#}" by blast
  show ?case
  proof (cases "ps = []")
    case True
    then show ?thesis using empty s pend
      by (subst settleLoop.simps) (auto simp: assms(1) take y)
  next
    case False
    let ?v = "w\<lparr>gs_store := s, gs_reads := Suc (gs_reads w)\<rparr>"
    obtain z u where u: "settleBets uc r c (gs_clock w (gs_reads w)) ps [] [] acc ?v = (z, u)" by fastforce
    have us: "gs_store u = s" using settleBets_store [OF u] by simp
    have run: "settleLoop uc r c acc w =
        (case z of Inl err \<Rightarrow> Some (Inl err, u) | Inr acc \<Rightarrow> settleLoop uc r c acc u)"
      by (subst settleLoop.simps) (simp add: assms(1) take y False readClock_def u)
    obtain B0 where B0: "pending s = (pending (gs_store w))(r := B0)" "B0 \<subset># pending (gs_store w) r"
      using mset_diff_less [OF sub] pend False by simp
    show ?thesis
    proof (cases z)
      case (Inl err)
      then show ?thesis using us s B0 run by (intro exI [of _ "Inl err"] exI [of _ u]) (auto intro!: exI [of _ B0])
    next
      case (Inr acc1)
      from less.hyps [of u acc1] mset_subset_size [OF B0(2)] us s B0(1) obtain res w' B where
        IH: "settleLoop uc r c acc1 u = Some (res, w')" "inv (gs_store w')" "B \<subseteq># pending s r"
          "pending (gs_store w') = (pending s)(r := B)" "isl res \<or> B = {#}" by auto
      with run Inr B0 show ?thesis
        by (intro exI [of _ res] exI [of _ w']) (auto intro!: exI [of _ B] dest: subset_mset.order_trans)
    qed
  qed
qed

lemma SettleRound_returns:
  assumes "betRepo uc = R" "inv (gs_store w)"
  shows "\<exists>res w'. SettleRound uc r c w = Some (res, w') \<and> inv (gs_store w') \<and>
     (\<exists>B. B \<subseteq># pending (gs_store w) r \<and> pending (gs_store w') = (pending (gs_store w))(r := B) \<and>
        (isl res \<or> B = {#}))"
proof -
  let ?w = "w\<lparr>gs_reads := Suc (gs_reads w)\<rparr>"
  let ?acc = "\<lparr>allBetOrders = [], totalProcessed = 0, batchNumber = 0\<rparr>"
  from settleLoop_returns [of uc ?w r c ?acc] assms obtain res v B where
    v: "settleLoop uc r c ?acc ?w = Some (res, v)" "inv (gs_store v)" "B \<subseteq># pending (gs_store w) r"
      "pending (gs_store v) = (pending (gs_store w))(r := B)" "isl res \<or> B = {#}" by auto
  show ?thesis
  proof (cases res)
    case (Inl err)
    with v show ?thesis by (auto simp: SettleRound_def readClock_def Let_def)
  next
    case (Inr acc)
    obtain e s where "repo_ClearBets R (gs_store v) r = (e, s)" by fastforce
    with v Inr clear_bets [OF v(2) this] show ?thesis
      by (auto simp: SettleRound_def readClock_def Let_def assms(1))
  qed
qed

end

section \<open>The service on top of its contracts, continued\<close>

locale game_service = wallet_service W known + bet_repository R inv pending intake handle storable
  for W :: "'w WalletService" and known :: "'w \<Rightarrow> int64 \<Rightarrow> bool"
    and R :: "'r BetRepository" and inv :: "'r store \<Rightarrow> bool"
    and pending :: "'r store \<Rightarrow> string \<Rightarrow> Bet multiset" and intake :: "'r store \<Rightarrow> string \<Rightarrow> bool"
    and handle :: "'r store \<Rightarrow> ptr \<Rightarrow> Bet \<Rightarrow> bool" and storable :: "Bet \<Rightarrow> bool" +
  fixes uc :: "('r, 'm, 'w, 'd) GSUseCase" and good_round :: "string \<Rightarrow> bool"
  assumes uc_repo: "betRepo uc = R"
    and uc_wallet: "walletSvc uc = W"
begin

text \<open>From \<open>w\<close> to \<open>w'\<close> exactly the bets \<open>bs\<close> were settled.\<close>

definition settled ::
    "('d \<Rightarrow> BetOrder multiset) \<Rightarrow> string \<Rightarrow> Color \<Rightarrow> Bet list
      \<Rightarrow> ('r, 'm, 'w, 'd) gs_world \<Rightarrow> ('r, 'm, 'w, 'd) gs_world \<Rightarrow> bool" where
  "settled rows r c bs w w' \<longleftrightarrow>
     (\<forall>u. wallet_balance W (gs_wallet w') u = wallet_balance W (gs_wallet w) u + winnings bs c u) \<and>
     (\<forall>u. known (gs_wallet w) u \<longrightarrow> known (gs_wallet w') u) \<and>
     gs_sent w' = gs_sent w @ (if gs_gateway uc then map (settleNote r c) bs else []) \<and>
     image_mset undated (rows (gs_orders w')) = image_mset undated (rows (gs_orders w)) +
       (if betOrderRepo uc = None then {#} else image_mset (undated \<circ> newBetOrder r c 0) (mset bs)) \<and>
     gs_gms w' = gs_gms w"

lemma settled_refl: "settled rows r c [] w w"
  by (simp add: settled_def)

lemma settled_trans:
  "settled rows r c as w w' \<Longrightarrow> settled rows r c bs w' w'' \<Longrightarrow> settled rows r c (as @ bs) w w''"
  by (auto simp: settled_def)

lemma settled_same:
  assumes "gs_wallet v = gs_wallet w" "gs_sent v = gs_sent w" "gs_orders v = gs_orders w"
    "gs_gms v = gs_gms w" "settled rows r c bs v w'"
  shows "settled rows r c bs w w'"
  using assms by (simp add: settled_def)

text \<open>A bet that can be settled: the wallet knows its user and its amount is fair.\<close>

definition payable :: "'w \<Rightarrow> Bet \<Rightarrow> bool" where
  "payable wl b \<longleftrightarrow> known wl (UserID b) \<and> fair_amount (Amount b)"

lemma settled_payable: "settled rows r c bs w w' \<Longrightarrow> payable (gs_wallet w) b \<Longrightarrow> payable (gs_wallet w') b"
  by (simp add: settled_def payable_def)

lemma payBet_effect:
  assumes "payable (gs_wallet w) b" and w'_def: "w' = payBet uc r c (b, newBetOrder r c now b) w"
  shows "gs_store w' = gs_store w \<and> gs_orders w' = gs_orders w \<and> gs_gms w' = gs_gms w \<and>
     gs_sent w' = gs_sent w @ (if gs_gateway uc then [settleNote r c b] else []) \<and>
     (\<forall>u. wallet_balance W (gs_wallet w') u = wallet_balance W (gs_wallet w) u +
            (if UserID b = u then calculateWin b c else 0)) \<and>
     (\<forall>u. known (gs_wallet w) u \<longrightarrow> known (gs_wallet w') u)"
proof -
  have fair: "fair_amount (Amount b)" and kn: "known (gs_wallet w) (UserID b)"
    using assms(1) by (auto simp: payable_def)
  note win = win_exact [OF fair]
  show ?thesis
  proof (cases "0 < sint (calculateWin b c)")
    case True
    obtain x wl where add: "wallet_AddBalance W (gs_wallet w) (UserID b) (calculateWin b c) (''win:'' @ r)
        = (Inr x, wl)"
      using add_returns [of "gs_wallet w" "UserID b" "calculateWin b c" "''win:'' @ r"]
      by (metis prod.collapse)
    with add_balance [OF kn, of "calculateWin b c" "''win:'' @ r"]
      add_known [of "gs_wallet w" "UserID b" "calculateWin b c" "''win:'' @ r"] True
    show ?thesis by (auto simp: w'_def payBet_def win uc_wallet settleNote_def)
  next
    case False
    with win(2) [of c] have "sint (calculateWin b c) = 0" by simp
    then have "calculateWin b c = 0" by (intro signed_word_eqI) simp
    with False show ?thesis by (auto simp: w'_def payBet_def win settleNote_def)
  qed
qed

lemma payBets_effect:
  assumes "\<forall>b \<in> set bs. payable (gs_wallet w) b"
    and "w' = fold (payBet uc r c) (map (\<lambda>b. (b, newBetOrder r c now b)) bs) w"
  shows "gs_store w' = gs_store w \<and> gs_orders w' = gs_orders w \<and> gs_gms w' = gs_gms w \<and>
     gs_sent w' = gs_sent w @ (if gs_gateway uc then map (settleNote r c) bs else []) \<and>
     (\<forall>u. wallet_balance W (gs_wallet w') u = wallet_balance W (gs_wallet w) u + winnings bs c u) \<and>
     (\<forall>u. known (gs_wallet w) u \<longrightarrow> known (gs_wallet w') u)"
  using assms
proof (induction bs arbitrary: w)
  case Nil
  then show ?case by simp
next
  case (Cons b bs)
  let ?v = "payBet uc r c (b, newBetOrder r c now b) w"
  note v = payBet_effect [of w b ?v r c now]
  have "\<forall>b \<in> set bs. payable (gs_wallet ?v) b"
    using Cons.prems(1) v by (auto simp: payable_def)
  from Cons.IH [OF this] Cons.prems v show ?case by auto
qed

text \<open>One batch.\<close>

lemma processBatch_effect:
  assumes "\<forall>p \<in> set ps. payable (gs_wallet w) (heap (gs_store w) p)" "orders_persist uc rows" "ps \<noteq> []"
    and os: "os = map (\<lambda>p. newBetOrder r c now (heap (gs_store w) p)) ps"
  shows "\<exists>w'. processBatch uc r c os ps n w = (None, w') \<and> gs_store w' = gs_store w \<and>
           settled rows r c (map (heap (gs_store w)) ps) w w'"
proof -
  let ?bs = "map (heap (gs_store w)) ps"
  have zip: "zip ?bs os = map (\<lambda>b. (b, newBetOrder r c now b)) ?bs"
    by (simp add: os zip_map_map zip_same_conv_map comp_def)
  have "os \<noteq> []" using assms(3) os by simp
  show ?thesis
  proof (cases "betOrderRepo uc")
    case None
    let ?w = "fold (payBet uc r c) (zip ?bs os) w"
    have "processBatch uc r c os ps n w = (None, ?w)" by (simp add: processBatch_def None)
    with payBets_effect [of ?bs w ?w r c now] assms(1) zip None show ?thesis
      by (auto simp: settled_def)
  next
    case (Some bc)
    with assms(2) \<open>os \<noteq> []\<close> obtain d where d: "bc (gs_orders w) os = (None, d)"
      "rows d = rows (gs_orders w) + mset os"
      by (metis orders_persist_def prod.collapse)
    let ?v = "w\<lparr>gs_orders := d\<rparr>"
    let ?w = "fold (payBet uc r c) (zip ?bs os) ?v"
    have "processBatch uc r c os ps n w = (None, ?w)"
      using \<open>os \<noteq> []\<close> by (simp add: processBatch_def Some d)
    moreover have "image_mset undated (mset os) = image_mset (undated \<circ> newBetOrder r c 0) (mset ?bs)"
      unfolding os by (simp add: multiset.map_comp comp_def undated_newBetOrder [of r c now])
    ultimately show ?thesis
      using payBets_effect [of ?bs ?v ?w r c now] assms(1) zip Some d(2)
      by (auto simp: settled_def)
  qed
qed

text \<open>The inner loop: whatever the sizes, all bets are settled, those carried over first.\<close>

lemma settleBets_effect:
  assumes "\<forall>p \<in> set (cur @ ps). payable (gs_wallet w) (heap (gs_store w) p)" "orders_persist uc rows"
  shows "\<exists>acc' w'. settleBets uc r c now ps (map (\<lambda>p. newBetOrder r c now (heap (gs_store w) p)) cur) cur acc w
             = (Inr acc', w') \<and> gs_store w' = gs_store w \<and>
           settled rows r c (map (heap (gs_store w)) (cur @ ps)) w w' \<and>
           totalProcessed acc' = totalProcessed acc + length cur + length ps \<and>
           allBetOrders acc' = allBetOrders acc @ map (\<lambda>p. newBetOrder r c now (heap (gs_store w) p)) ps"
  using assms(1)
proof (induction ps arbitrary: cur acc w)
  case Nil
  show ?case
  proof (cases "cur = []")
    case True
    then show ?thesis by (simp add: settled_refl)
  next
    case False
    from processBatch_effect [OF _ assms(2) this refl, of w r c now "Suc (batchNumber acc)"] Nil
    obtain w' where "processBatch uc r c (map (\<lambda>p. newBetOrder r c now (heap (gs_store w) p)) cur) cur
        (Suc (batchNumber acc)) w = (None, w')" "gs_store w' = gs_store w"
      "settled rows r c (map (heap (gs_store w)) cur) w w'" by auto
    with False show ?thesis by simp
  qed
next
  case (Cons p ps)
  let ?o = "\<lambda>p. newBetOrder r c now (heap (gs_store w) p)"
  let ?acc = "acc\<lparr>allBetOrders := allBetOrders acc @ [?o p]\<rparr>"
  have cur: "map ?o cur @ [newBetOrder r c now (heap (gs_store w) p)] = map ?o (cur @ [p])" by simp
  show ?case
  proof (cases "length (cur @ [p]) \<ge> batchSize")
    case True
    from processBatch_effect [OF _ assms(2), of "cur @ [p]" w _ r c now "Suc (batchNumber acc)"] Cons.prems
    obtain v where v: "processBatch uc r c (map ?o (cur @ [p])) (cur @ [p]) (Suc (batchNumber acc)) w = (None, v)"
      "gs_store v = gs_store w" "settled rows r c (map (heap (gs_store w)) (cur @ [p])) w v" by auto
    have "\<forall>q \<in> set ([] @ ps). payable (gs_wallet v) (heap (gs_store v) q)"
      using Cons.prems settled_payable [OF v(3)] v(2) by auto
    from Cons.IH [OF this, of "?acc\<lparr>batchNumber := Suc (batchNumber acc),
        totalProcessed := totalProcessed acc + length (cur @ [p])\<rparr>"]
    show ?thesis using True v(1,2) settled_trans [OF v(3)]
      by (simp add: cur del: map_append append_assoc) (force simp: append_assoc)
  next
    case False
    with Cons.IH [of "cur @ [p]" w ?acc] Cons.prems show ?thesis by (simp add: cur del: map_append)
  qed
qed

text \<open>The outer loop ends: every pass takes bets from the pending ones until none is left.\<close>

lemma settleLoop_effect:
  assumes "inv (gs_store w)" "\<forall>b \<in># pending (gs_store w) r. payable (gs_wallet w) b"
    "orders_persist uc rows"
  shows "\<exists>acc' w' bs. settleLoop uc r c acc w = Some (Inr acc', w') \<and>
     mset bs = pending (gs_store w) r \<and> settled rows r c bs w w' \<and> inv (gs_store w') \<and>
     pending (gs_store w') = (pending (gs_store w))(r := {#}) \<and>
     (\<forall>q. q \<noteq> r \<longrightarrow> intake (gs_store w') q = intake (gs_store w) q) \<and>
     totalProcessed acc' = totalProcessed acc + length bs \<and>
     map undated (allBetOrders acc') = map undated (allBetOrders acc) @ map (undated \<circ> newBetOrder r c 0) bs"
  using assms(1,2)
proof (induction "size (pending (gs_store w) r)" arbitrary: w acc rule: less_induct)
  case less
  obtain y s where take: "repo_GetBetsForSettlement R (gs_store w) r = (y, s)" by fastforce
  from take_bets [OF less.prems(1) take] obtain ps where y: "y = Inr ps" and s: "inv s"
    "\<forall>q. q \<noteq> r \<longrightarrow> intake s q = intake (gs_store w) q"
    and sub: "mset (map (heap s) ps) \<subseteq># pending (gs_store w) r"
    and pend: "pending s = (pending (gs_store w))(r := pending (gs_store w) r - mset (map (heap s) ps))"
    and empty: "ps = [] \<longrightarrow> pending (gs_store w) r = {#}" by blast
  show ?case
  proof (cases "ps = []")
    case True
    let ?w = "w\<lparr>gs_store := s\<rparr>"
    have "settleLoop uc r c acc w = Some (Inr acc, ?w)"
      by (subst settleLoop.simps) (simp add: uc_repo take y True)
    moreover have "settled rows r c [] w ?w" by (simp add: settled_def)
    ultimately show ?thesis using True empty s pend
      by (intro exI [of _ acc] exI [of _ ?w] exI [of _ "[]"]) simp
  next
    case False
    let ?v = "w\<lparr>gs_store := s, gs_reads := Suc (gs_reads w)\<rparr>"
    let ?now = "gs_clock w (gs_reads w)"
    have "\<forall>p \<in> set ([] @ ps). payable (gs_wallet ?v) (heap (gs_store ?v) p)"
      using less.prems(2) mset_subset_eqD [OF sub] by auto
    from settleBets_effect [OF this assms(3), of r c ?now acc] obtain acc1 u where
      u: "settleBets uc r c ?now ps [] [] acc ?v = (Inr acc1, u)" "gs_store u = s"
        "settled rows r c (map (heap s) ps) ?v u"
        "totalProcessed acc1 = totalProcessed acc + length ps"
        "allBetOrders acc1 = allBetOrders acc @ map (\<lambda>p. newBetOrder r c ?now (heap s p)) ps"
      by auto
    have wu: "settled rows r c (map (heap s) ps) w u"
      by (rule settled_same [OF _ _ _ _ u(3)]) simp_all
    have "mset (map (heap s) ps) \<noteq> {#}" using False by simp
    then have "size (pending (gs_store u) r) < size (pending (gs_store w) r)"
      using sub u(2) pend by (simp add: size_Diff_submset) (metis size_mset_mono less_le_trans diff_less
          length_greater_0_conv size_mset mset_map length_map mset_zero_iff_right)
    moreover have "\<forall>b \<in># pending (gs_store u) r. payable (gs_wallet u) b"
      using less.prems(2) settled_payable [OF wu] u(2) pend by (auto dest: in_diffD)
    ultimately obtain acc' w' bs where
      IH: "settleLoop uc r c acc1 u = Some (Inr acc', w')" "mset bs = pending (gs_store u) r"
        "settled rows r c bs u w'" "inv (gs_store w')"
        "pending (gs_store w') = (pending (gs_store u))(r := {#})"
        "\<forall>q. q \<noteq> r \<longrightarrow> intake (gs_store w') q = intake (gs_store u) q"
        "totalProcessed acc' = totalProcessed acc1 + length bs"
        "map undated (allBetOrders acc') = map undated (allBetOrders acc1) @ map (undated \<circ> newBetOrder r c 0) bs"
      using less.hyps [of u acc1] s(1) u(2) by auto
    let ?bs = "map (heap s) ps @ bs"
    have "settleLoop uc r c acc w = Some (Inr acc', w')"
      by (subst settleLoop.simps) (simp add: uc_repo take y False readClock_def u(1) IH(1))
    moreover have "mset ?bs = pending (gs_store w) r"
      using IH(2) u(2) pend sub by (simp add: subset_mset.add_diff_inverse)
    moreover have "settled rows r c ?bs w w'" by (rule settled_trans [OF wu IH(3)])
    ultimately show ?thesis using IH(4-8) u(2,4,5) s(2) pend
      by (intro exI [of _ acc'] exI [of _ w'] exI [of _ ?bs])
        (simp add: comp_def undated_newBetOrder [of r c ?now])
  qed
qed

lemma SettleRound_effect:
  assumes "inv (gs_store w)" "\<forall>b \<in># pending (gs_store w) r. payable (gs_wallet w) b"
    "orders_persist uc rows"
  shows "\<exists>sum w' bs. SettleRound uc r c w = Some (Inr sum, w') \<and>
     mset bs = pending (gs_store w) r \<and>
     (\<forall>u. wallet_balance W (gs_wallet w') u = wallet_balance W (gs_wallet w) u + winnings bs c u) \<and>
     (\<forall>u. known (gs_wallet w) u \<longrightarrow> known (gs_wallet w') u) \<and>
     gs_sent w' = gs_sent w @
       (if gs_gateway uc then map (settleNote r c) bs @ [settleBroadcast r c] else []) \<and>
     image_mset undated (rows (gs_orders w')) = image_mset undated (rows (gs_orders w)) +
       (if betOrderRepo uc = None then {#} else image_mset (undated \<circ> newBetOrder r c 0) (mset bs)) \<and>
     inv (gs_store w') \<and> pending (gs_store w') = (pending (gs_store w))(r := {#}) \<and>
     (\<forall>q. q \<noteq> r \<longrightarrow> intake (gs_store w') q = intake (gs_store w) q) \<and>
     fst sum = length bs \<and> gs_gms w' = gs_gms w"
proof -
  let ?w = "w\<lparr>gs_reads := Suc (gs_reads w)\<rparr>"
  let ?acc = "\<lparr>allBetOrders = [], totalProcessed = 0, batchNumber = 0\<rparr>"
  from settleLoop_effect [of ?w r rows c ?acc] assms obtain acc v bs where
    v: "settleLoop uc r c ?acc ?w = Some (Inr acc, v)" "mset bs = pending (gs_store w) r"
      "settled rows r c bs ?w v" "inv (gs_store v)" "pending (gs_store v) = (pending (gs_store w))(r := {#})"
      "\<forall>q. q \<noteq> r \<longrightarrow> intake (gs_store v) q = intake (gs_store w) q"
      "map undated (allBetOrders acc) = map (undated \<circ> newBetOrder r c 0) bs" by auto
  have wv: "settled rows r c bs w v" by (rule settled_same [OF _ _ _ _ v(3)]) simp_all
  obtain e s where cl: "repo_ClearBets R (gs_store v) r = (e, s)" by fastforce
  note s = clear_bets [OF v(4) cl]
  have "length (allBetOrders acc) = size (pending (gs_store w) r)"
    using arg_cong [OF v(7), of length] arg_cong [OF v(2), of size] by simp
  then have run: "\<exists>sum w'. SettleRound uc r c w = Some (Inr sum, w') \<and> fst sum = length bs \<and>
      gs_store w' = s \<and> gs_wallet w' = gs_wallet v \<and> gs_orders w' = gs_orders v \<and> gs_gms w' = gs_gms v \<and>
      gs_sent w' = gs_sent v @ (if gs_gateway uc then [settleBroadcast r c] else [])"
    using v(1) cl arg_cong [OF v(2), of size]
    by (simp add: SettleRound_def readClock_def uc_repo settleSummary_def settleBroadcast_def Let_def)
  then obtain sum w' where "SettleRound uc r c w = Some (Inr sum, w')" "fst sum = length bs"
      "gs_store w' = s" "gs_wallet w' = gs_wallet v" "gs_orders w' = gs_orders v" "gs_gms w' = gs_gms v"
      "gs_sent w' = gs_sent v @ (if gs_gateway uc then [settleBroadcast r c] else [])" by blast
  with v(2,5,6) wv s show ?thesis
    by (intro exI [of _ sum] exI [of _ w'] exI [of _ bs]) (auto simp: settled_def)
qed

text \<open>The bet IDs are fresh: the snowflake IDs differ, and only drawn ones are in use.\<close>

definition ids_fresh :: "('r, 'm, 'w, 'd) gs_world \<Rightarrow> bool" where
  "ids_fresh w \<longleftrightarrow> inj (gs_ids w) \<and>
     (\<forall>q. \<forall>b \<in># pending (gs_store w) q. BetID b \<in> gs_ids w ` {..< gs_nextId w})"

lemma saveOrUpdateBet_effect:
  assumes "inv (gs_store w)" "intake (gs_store w) r" "ids_fresh w" "0 \<le> sint u"
    and ok: "storable (NewBet (gs_ids w (gs_nextId w)) (gs_clock w (gs_reads w)) r u c a)"
  shows "\<exists>p w' B'. saveOrUpdateBet uc r u c a w = (Inr p, w') \<and> inv (gs_store w') \<and>
     intake (gs_store w') = intake (gs_store w) \<and>
     pending (gs_store w') = (pending (gs_store w))(r := B') \<and>
     raised_or_added r u c a (gs_ids w (gs_nextId w)) (pending (gs_store w) r) B' \<and> ids_fresh w' \<and>
     gs_wallet w' = gs_wallet w \<and> gs_gms w' = gs_gms w \<and> gs_sent w' = gs_sent w \<and>
     gs_orders w' = gs_orders w \<and> gs_ids w' = gs_ids w \<and> gs_clock w' = gs_clock w \<and>
     bet_matches r u c (heap (gs_store w') p) \<and> heap (gs_store w') p \<in># B'"
proof -
  obtain x s where f: "repo_GetUserBet R (gs_store w) r u c = (x, s)" by fastforce
  note find = find_bet [OF assms(1,2) f]
  from find obtain y where x: "x = Inr y" by (cases x) auto
  show ?thesis
  proof (cases y)
    case None
    let ?id = "gs_ids w (gs_nextId w)"
    let ?b = "NewBet ?id (gs_clock w (gs_reads w)) r u c a"
    have b: "RoundID ?b = r" "BetID ?b = ?id" "UserID ?b = u" "bet_Color ?b = c" by (auto simp: NewBet_def)
    obtain p s1 where al: "alloc ?b s = (p, s1)" by fastforce
    obtain e s2 where sv: "repo_SaveBet R s1 p = (e, s2)" by fastforce
    have "?id \<notin> BetID ` set_mset (pending s r)"
    proof
      assume "?id \<in> BetID ` set_mset (pending s r)"
      then obtain b where "b \<in># pending (gs_store w) r" "BetID b = ?id" using find by auto
      with assms(3) obtain i where "i < gs_nextId w" "gs_ids w i = ?id"
        by (auto simp: ids_fresh_def) (metis imageE lessThan_iff)
      with assms(3) show False by (auto simp: ids_fresh_def inj_def)
    qed
    with save_bet [of s ?b p s1 e s2] b find assms(2,4) ok al sv
    have s2: "inv s2" "e = None" "intake s2 = intake (gs_store w)" "heap s2 p = ?b"
      "pending s2 = (pending (gs_store w))(r := add_mset ?b (pending (gs_store w) r))" by auto
    let ?w = "w\<lparr>gs_store := s2, gs_nextId := Suc (gs_nextId w), gs_reads := Suc (gs_reads w)\<rparr>"
    have "saveOrUpdateBet uc r u c a w = (Inr p, ?w)"
      using f x None al sv s2(2)
      by (simp add: saveOrUpdateBet_def uc_repo generateBetID_def readClock_def)
    moreover have "ids_fresh ?w"
      using assms(3) s2(5) b(2) by (auto simp: ids_fresh_def lessThan_Suc)
    moreover have "raised_or_added r u c a ?id (pending (gs_store w) r) (add_mset ?b (pending (gs_store w) r))"
      using find x None by (auto simp: raised_or_added_def)
    ultimately show ?thesis using s2 b
      by (intro exI [of _ p] exI [of _ ?w] exI) (auto simp: bet_matches_def)
  next
    case (Some p)
    let ?b = "heap s p"
    let ?B = "add_mset (?b\<lparr>Amount := Amount ?b + a\<rparr>) (pending (gs_store w) r - {#?b#})"
    from find x Some have m: "inv s" "pending s = pending (gs_store w)" "intake s = intake (gs_store w)"
      "bet_matches r u c ?b" "?b \<in># pending (gs_store w) r" "handle s p ?b" by auto
    obtain e s2 where up: "repo_UpdateBetAmount R s p a = (e, s2)" by fastforce
    have rid: "RoundID ?b = r" using m(4) by (simp add: bet_matches_def)
    with update_bet [OF m(1,6) _ up] assms(2) m
    have s2: "inv s2" "e = None" "intake s2 = intake (gs_store w)"
      "heap s2 p = ?b\<lparr>Amount := Amount ?b + a\<rparr>" "pending s2 = (pending (gs_store w))(r := ?B)" by auto
    have "saveOrUpdateBet uc r u c a w = (Inr p, w\<lparr>gs_store := s2\<rparr>)"
      using f x Some up s2(2) by (simp add: saveOrUpdateBet_def uc_repo)
    moreover have "ids_fresh (w\<lparr>gs_store := s2\<rparr>)"
      using assms(3) s2(5) m(5) by (auto simp: ids_fresh_def dest: in_diffD)
    moreover have "raised_or_added r u c a (gs_ids w (gs_nextId w)) (pending (gs_store w) r) ?B"
      using m(4,5) by (auto simp: raised_or_added_def)
    ultimately show ?thesis using s2 m(4)
      by (intro exI [of _ p] exI [of _ "w\<lparr>gs_store := s2\<rparr>"] exI [of _ ?B]) (auto simp: bet_matches_def)
  qed
qed

text \<open>The repository can write down every bet on a good round the world can still make, and the machine
  service accepts bets for good rounds only.\<close>

definition can_store :: "('r, 'm, 'w, 'd) gs_world \<Rightarrow> bool" where
  "can_store w \<longleftrightarrow> (\<forall>i n r u c a. good_round r \<longrightarrow> 0 \<le> sint u \<longrightarrow> storable (NewBet (gs_ids w i) (gs_clock w n) r u c a))"

definition good_rounds :: "(bet_try \<times> bool \<times> string option) list \<Rightarrow> bool" where
  "good_rounds xs \<longleftrightarrow> (\<forall>(t, ch, acc) \<in> set xs. \<forall>r. acc = Some r \<longrightarrow> good_round r)"

text \<open>The table while bets are taken: no settlement has begun, the pots are within \<open>T\<close>, and the wallet
  knows everyone who has a bet.\<close>

definition table :: "int \<Rightarrow> ('r, 'm, 'w, 'd) gs_world \<Rightarrow> bool" where
  "table T w \<longleftrightarrow> inv (gs_store w) \<and> (\<forall>q. intake (gs_store w) q) \<and> ids_fresh w \<and> can_store w \<and>
     (\<forall>q. pot T (pending (gs_store w) q)) \<and>
     (\<forall>q. \<forall>b \<in># pending (gs_store w) q. known (gs_wallet w) (UserID b))"

lemma table_same:
  assumes "table T w" "gs_store w' = gs_store w" "gs_ids w' = gs_ids w" "gs_nextId w' = gs_nextId w"
    "gs_clock w' = gs_clock w"
    "\<And>u. known (gs_wallet w) u \<Longrightarrow> known (gs_wallet w') u" "T \<le> T'"
  shows "table T' w'"
  using assms pot_mono [OF _ assms(7)] by (auto simp: table_def ids_fresh_def can_store_def)

lemma table_payable:
  "table T w \<Longrightarrow> T \<le> 2 ^ 52 \<Longrightarrow> \<forall>b \<in># pending (gs_store w) q. payable (gs_wallet w) b"
  using pot_fair [of T "pending (gs_store w) q"] by (auto simp: table_def payable_def)

lemma table_saved:
  assumes "table T w" "known (gs_wallet w) u" "0 \<le> sint u" "0 \<le> sint a" "T + sint a \<le> 2 ^ 52" "good_round r"
  shows "\<exists>p w'. saveOrUpdateBet uc r u c a w = (Inr p, w') \<and> table (T + sint a) w' \<and>
     (\<forall>q v d. stake (pending (gs_store w') q) v d = stake (pending (gs_store w) q) v d +
        (if r = q \<and> v = u \<and> d = c then a else 0)) \<and>
     gs_wallet w' = gs_wallet w \<and> gs_gms w' = gs_gms w \<and> gs_sent w' = gs_sent w \<and>
     gs_orders w' = gs_orders w"
proof -
  from assms(1) have t: "inv (gs_store w)" "intake (gs_store w) r" "ids_fresh w"
    by (auto simp: table_def)
  have ok: "storable (NewBet (gs_ids w (gs_nextId w)) (gs_clock w (gs_reads w)) r u c a)"
    using assms(1,3,6) by (simp add: table_def can_store_def)
  from saveOrUpdateBet_effect [OF t assms(3) ok] obtain p w' B' where
    p: "saveOrUpdateBet uc r u c a w = (Inr p, w')" "inv (gs_store w')"
      "intake (gs_store w') = intake (gs_store w)"
      "pending (gs_store w') = (pending (gs_store w))(r := B')" "ids_fresh w'"
      "gs_wallet w' = gs_wallet w" "gs_gms w' = gs_gms w" "gs_sent w' = gs_sent w"
      "gs_orders w' = gs_orders w" "gs_ids w' = gs_ids w" "gs_clock w' = gs_clock w"
    and B: "raised_or_added r u c a (gs_ids w (gs_nextId w)) (pending (gs_store w) r) B'" by blast
  have "pot (T + sint a) B'"
    using pot_raised [OF _ B assms(4,5)] assms(1) by (simp add: table_def)
  moreover have "pot (T + sint a) (pending (gs_store w) q)" for q
    using assms(1,4) pot_mono [of T _ "T + sint a"] by (simp add: table_def)
  moreover have "known (gs_wallet w) (UserID b')" if "b' \<in># B'" for b'
    using raised_set [OF B that] assms(1,2) by (auto simp: table_def)
  ultimately have "table (T + sint a) w'"
    using p assms(1) by (auto simp: table_def can_store_def)
  with p raised_stake [OF B] show ?thesis by auto
qed

lemma PlaceBet_effect:
  assumes "table T w" "0 \<le> sint u" "0 \<le> sint a" "T + sint a \<le> 2 ^ 52"
    and out: "bet_outcome (gmsService uc) (gs_gms w) u c a = (ch, acc, g)"
    and good: "\<And>r. acc = Some r \<Longrightarrow> good_round r"
  shows "\<exists>res w'. gs_PlaceBet uc u c a w = (res, w') \<and> table (T + sint a) w' \<and> gs_gms w' = g \<and>
     (\<forall>v. wallet_balance W (gs_wallet w') v =
        wallet_balance W (gs_wallet w) v - (if ch \<and> u = v then a else 0)) \<and>
     (\<forall>q v d. stake (pending (gs_store w') q) v d = stake (pending (gs_store w) q) v d +
        (if acc = Some q \<and> v = u \<and> d = c then a else 0)) \<and>
     ((\<exists>p. res = Inr p) \<longleftrightarrow> acc \<noteq> None) \<and> gs_sent w' = gs_sent w \<and> gs_orders w' = gs_orders w"
proof -
  have le: "T \<le> T + sint a" using assms(3) by simp
  obtain x g1 where x: "svc_GetCurrentRound (gmsService uc) (gs_gms w) \<lparr>crq_UserId = 0\<rparr> = (x, g1)"
    by fastforce
  show ?thesis
  proof (cases "\<exists>rsp. x = Inr rsp \<and> isValidColor c")
    case False
    then have "\<exists>e. gs_PlaceBet uc u c a w = (Inl e, w\<lparr>gs_gms := g1\<rparr>)" "\<not> ch" "acc = None" "g = g1"
      using x out by (auto simp: gs_PlaceBet_def bet_outcome_def split: sum.splits)
    moreover have "table (T + sint a) (w\<lparr>gs_gms := g1\<rparr>)"
      by (rule table_same [OF assms(1) _ _ _ _ _ le]) auto
    ultimately show ?thesis by auto
  next
    case True
    then obtain rsp where rsp: "x = Inr rsp" and col: "isValidColor c" by blast
    let ?r = "crs_RoundId rsp"
    obtain b wl where wl: "wallet_PlaceBet W (gs_wallet w) u a ?r = (Inr b, wl)"
      using bet_returns [of "gs_wallet w" u a ?r] by (metis prod.collapse)
    note bal = bet_balance [of "gs_wallet w" u a ?r, unfolded wl, simplified]
    note kn = bet_known [of "gs_wallet w" u a ?r, unfolded wl, simplified]
    obtain y g2 where y: "svc_RecordBet (gmsService uc) g1
        \<lparr>rbq_RoundId = ?r, rbq_UserId = u, rbq_Color = c, rbq_Amount = a\<rparr> = (y, g2)" by fastforce
    let ?w = "w\<lparr>gs_gms := g2, gs_wallet := wl\<rparr>"
    have tw: "table T ?w" by (rule table_same [OF assms(1)]) (auto simp: kn)
    show ?thesis
    proof (cases y)
      case (Inl e)
      then have "\<exists>e. gs_PlaceBet uc u c a w = (Inl e, ?w)" "ch" "acc = None" "g = g2"
        using x rsp col wl y out by (auto simp: gs_PlaceBet_def bet_outcome_def uc_wallet)
      moreover have "table (T + sint a) ?w" by (rule table_same [OF tw _ _ _ _ _ le]) auto
      ultimately show ?thesis using bal by auto
    next
      case (Inr z)
      then have run: "gs_PlaceBet uc u c a w = saveOrUpdateBet uc ?r u c a ?w"
        and "ch" "acc = Some ?r" "g = g2"
        using x rsp col wl y out by (auto simp: gs_PlaceBet_def bet_outcome_def uc_wallet)
      moreover have "known (gs_wallet ?w) u" by (simp add: kn)
      moreover have "good_round ?r" using good \<open>acc = Some ?r\<close> by simp
      ultimately show ?thesis
        using table_saved [OF tw _ assms(2-4), of ?r c] bal by auto
    qed
  qed
qed

text \<open>The pending bets after an accepted attempt.\<close>

lemma PlaceBet_accepted:
  assumes "table T w" "0 \<le> sint u" "good_round r"
    and out: "bet_outcome (gmsService uc) (gs_gms w) u c a = (True, Some r, g)"
  shows "\<exists>p w' B'. gs_PlaceBet uc u c a w = (Inr p, w') \<and>
     pending (gs_store w') = (pending (gs_store w))(r := B') \<and>
     raised_or_added r u c a (gs_ids w (gs_nextId w)) (pending (gs_store w) r) B' \<and>
     bet_matches r u c (heap (gs_store w') p) \<and> heap (gs_store w') p \<in># B' \<and> gs_ids w' = gs_ids w"
proof -
  obtain rsp g1 where x: "svc_GetCurrentRound (gmsService uc) (gs_gms w) \<lparr>crq_UserId = 0\<rparr> = (Inr rsp, g1)"
    and col: "isValidColor c"
    using out by (auto simp: bet_outcome_def split: prod.splits sum.splits if_splits)
  obtain z g2 where y: "svc_RecordBet (gmsService uc) g1 \<lparr>rbq_RoundId = crs_RoundId rsp, rbq_UserId = u,
      rbq_Color = c, rbq_Amount = a\<rparr> = (Inr z, g2)" and r: "crs_RoundId rsp = r"
    using out x col by (auto simp: bet_outcome_def split: prod.splits sum.splits)
  obtain b wl where wl: "wallet_PlaceBet W (gs_wallet w) u a r = (Inr b, wl)"
    using bet_returns [of "gs_wallet w" u a r] by (metis prod.collapse)
  note kn = bet_known [of "gs_wallet w" u a r, unfolded wl, simplified]
  let ?w = "w\<lparr>gs_gms := g2, gs_wallet := wl\<rparr>"
  have tw: "table T ?w" by (rule table_same [OF assms(1)]) (auto simp: kn)
  then have t: "inv (gs_store ?w)" "intake (gs_store ?w) r" "ids_fresh ?w" by (auto simp: table_def)
  have ok: "storable (NewBet (gs_ids ?w (gs_nextId ?w)) (gs_clock ?w (gs_reads ?w)) r u c a)"
    using tw assms(2,3) by (simp add: table_def can_store_def)
  have "gs_PlaceBet uc u c a w = saveOrUpdateBet uc r u c a ?w"
    using x y r wl col by (simp add: gs_PlaceBet_def uc_wallet)
  with saveOrUpdateBet_effect [OF t assms(2) ok] show ?thesis by auto
qed

text \<open>A sequence of attempts, whatever the game machine service makes of each.\<close>

lemma placeBets_effect:
  assumes "table T w" "\<forall>(u, c, a) \<in> set ts. 0 \<le> sint u \<and> 0 \<le> sint a"
    "T + (\<Sum>(u, c, a) \<leftarrow> ts. sint a) \<le> 2 ^ 52" "good_rounds (outcomes (gmsService uc) ts (gs_gms w))"
  shows "table (T + (\<Sum>(u, c, a) \<leftarrow> ts. sint a)) (placeBets uc ts w) \<and>
     (\<forall>v. wallet_balance W (gs_wallet (placeBets uc ts w)) v =
        wallet_balance W (gs_wallet w) v - charged v (outcomes (gmsService uc) ts (gs_gms w))) \<and>
     (\<forall>q v d. stake (pending (gs_store (placeBets uc ts w)) q) v d =
        stake (pending (gs_store w) q) v d + recorded q v d (outcomes (gmsService uc) ts (gs_gms w))) \<and>
     gs_sent (placeBets uc ts w) = gs_sent w \<and> gs_orders (placeBets uc ts w) = gs_orders w"
  using assms
proof (induction ts arbitrary: T w)
  case Nil
  then show ?case by (simp add: charged_def recorded_def)
next
  case (Cons t ts)
  obtain u c a where t: "t = (u, c, a)" by (cases t)
  obtain ch acc g where out: "bet_outcome (gmsService uc) (gs_gms w) u c a = (ch, acc, g)"
    by (metis prod_cases3)
  have "0 \<le> (\<Sum>(u, c, a) \<leftarrow> ts. sint a)" using Cons.prems(2) by (intro sum_list_nonneg) auto
  with Cons.prems t have a: "0 \<le> sint u" "0 \<le> sint a" "T + sint a \<le> 2 ^ 52" by auto
  have good: "good_round r" if "acc = Some r" for r using Cons.prems(4) that by (simp add: t out good_rounds_def)
  from PlaceBet_effect [OF Cons.prems(1) a out good] obtain res w1 where
    w1: "gs_PlaceBet uc u c a w = (res, w1)" "table (T + sint a) w1" "gs_gms w1 = g"
      "\<forall>v. wallet_balance W (gs_wallet w1) v =
        wallet_balance W (gs_wallet w) v - (if ch \<and> u = v then a else 0)"
      "\<forall>q v d. stake (pending (gs_store w1) q) v d = stake (pending (gs_store w) q) v d +
        (if acc = Some q \<and> v = u \<and> d = c then a else 0)"
      "gs_sent w1 = gs_sent w" "gs_orders w1 = gs_orders w" by blast
  have goods: "good_rounds (outcomes (gmsService uc) ts (gs_gms w1))"
    using Cons.prems(4) by (simp add: t out w1(3) good_rounds_def)
  have run: "placeBets uc (t # ts) w = placeBets uc ts w1" by (simp add: t w1(1))
  have outs: "outcomes (gmsService uc) (t # ts) (gs_gms w) =
      ((u, c, a), ch, acc) # outcomes (gmsService uc) ts (gs_gms w1)"
    by (simp add: t out w1(3))
  from Cons.IH [OF w1(2) _ _ goods] Cons.prems t
  have IH: "table (T + sint a + (\<Sum>(u, c, a) \<leftarrow> ts. sint a)) (placeBets uc ts w1)"
    "\<forall>v. wallet_balance W (gs_wallet (placeBets uc ts w1)) v =
        wallet_balance W (gs_wallet w1) v - charged v (outcomes (gmsService uc) ts (gs_gms w1))"
    "\<forall>q v d. stake (pending (gs_store (placeBets uc ts w1)) q) v d =
        stake (pending (gs_store w1) q) v d + recorded q v d (outcomes (gmsService uc) ts (gs_gms w1))"
    "gs_sent (placeBets uc ts w1) = gs_sent w1 \<and> gs_orders (placeBets uc ts w1) = gs_orders w1"
    by (auto simp: add.assoc)
  show ?case unfolding run outs
    using IH w1(4-7) t by (auto simp: charged_def recorded_def add.assoc algebra_simps)
qed

text \<open>A whole round: any attempts to bet on an empty table, and the settlement.\<close>

lemma round_flow:
  assumes start: "table 0 w" "\<And>q. pending (gs_store w) q = {#}"
    and tries: "\<forall>(u, c, a) \<in> set ts. 0 \<le> sint u \<and> 0 \<le> sint a" "(\<Sum>(u, c, a) \<leftarrow> ts. sint a) \<le> 2 ^ 52"
    and good: "good_rounds (outcomes (gmsService uc) ts (gs_gms w))"
    and persist: "orders_persist uc rows"
  shows "\<exists>sum w'. SettleRound uc r win (placeBets uc ts w) = Some (Inr sum, w') \<and>
     (\<forall>u. wallet_balance W (gs_wallet w') u =
        wallet_balance W (gs_wallet w) u - charged u (outcomes (gmsService uc) ts (gs_gms w))
          + 2 * recorded r u win (outcomes (gmsService uc) ts (gs_gms w))) \<and>
     pending (gs_store w') r = {#}"
proof -
  let ?v = "placeBets uc ts w"
  have le: "0 + (\<Sum>(u, c, a) \<leftarrow> ts. sint a) \<le> 2 ^ 52" using tries(2) by simp
  note bets = placeBets_effect [OF start(1) tries(1) le good]
  have v: "table (\<Sum>(u, c, a) \<leftarrow> ts. sint a) ?v"
    "wallet_balance W (gs_wallet ?v) u = wallet_balance W (gs_wallet w) u
       - charged u (outcomes (gmsService uc) ts (gs_gms w))"
    "stake (pending (gs_store ?v) r) u win = recorded r u win (outcomes (gmsService uc) ts (gs_gms w))" for u
    using bets start(2) by simp_all
  from v(1) have "inv (gs_store ?v)" by (simp add: table_def)
  from SettleRound_effect [OF this table_payable [OF v(1) tries(2)] persist]
  obtain sum w' bs where "SettleRound uc r win ?v = Some (Inr sum, w')" "mset bs = pending (gs_store ?v) r"
    "\<forall>u. wallet_balance W (gs_wallet w') u = wallet_balance W (gs_wallet ?v) u + winnings bs win u"
    "pending (gs_store w') = (pending (gs_store ?v))(r := {#})" by blast
  then show ?thesis using v by (intro exI [of _ sum] exI [of _ w']) (simp add: winnings_stake)
qed

end

section \<open>The service with the memory repository and the mock wallet\<close>

interpretation monolith: game_service mockWallet "\<lambda>w u. u \<in> dom (balances w)"
    memRepo mem_inv mem_pending mem_intake mem_handle "\<lambda>_. True"
    "NewGSUseCase memRepo orders gms mockWallet gateway overflow" "\<lambda>_. True"
  for orders :: "('d \<Rightarrow> BetOrder list \<Rightarrow> go_error option \<times> 'd) option"
    and gms :: "'m GMSService" and gateway overflow
  by unfold_locales (simp_all add: NewGSUseCase_def)

lemma all_rounds_good [simp]: "monolith.good_rounds xs"
  by (simp add: monolith.good_rounds_def)

end
