(* ===== verification/Gs_Props.thy ===== *)
theory Gs_Props
  imports Gs_Settle
begin

text \<open>
  The properties of the game service as it is built in the monolith: the memory repository and the
  mock wallet, any game machine service, any order database.
\<close>

section \<open>Samples\<close>

text \<open>A betting phase that stays open, and an order table that is a list.\<close>

definition sample_gms :: GMSUseCase where
  "sample_gms = fst (NewGMSUseCase 1 (\<lambda>_. (0, sample_machine)) True True True NewStateMachine)"

definition sample_orders :: "BetOrder list \<Rightarrow> BetOrder list \<Rightarrow> go_error option \<times> BetOrder list" where
  "sample_orders = orderRepo_BatchCreate (\<lambda>d os. (None, d @ os))"

definition sample_id_of :: "nat \<Rightarrow> string" where
  "sample_id_of n = itoa (int n)"

definition sample_world :: "'m \<Rightarrow> (MemBets, 'm, MockService, BetOrder list) gs_world" where
  "sample_world g =
     \<lparr>gs_store = \<lparr>heap = \<lambda>_. NewBet [] 0 [] 0 0 0, nextPtr = 0, repo = NewMemBets\<rparr>, gs_gms = g,
      gs_wallet = NewMockService, gs_orders = [], gs_sent = [], gs_clock = \<lambda>_. 0, gs_reads = 0,
      gs_ids = sample_id_of, gs_nextId = 0\<rparr>"

definition sample_gs :: "'m GMSService \<Rightarrow> (MemBets, 'm, MockService, BetOrder list) GSUseCase" where
  "sample_gs M = NewGSUseCase memRepo (Some sample_orders) M mockWallet True (\<lambda>_. 0)"

lemma sample_orders_persist: "orders_persist (sample_gs M) mset"
  by (simp add: orders_persist_def sample_gs_def NewGSUseCase_def sample_orders_def
      orderRepo_BatchCreate_def)

text \<open>A store into which no bet was saved yet.\<close>

definition no_bets :: "MemBets store \<Rightarrow> bool" where
  "no_bets s \<longleftrightarrow> memBets (repo s) = Map.empty \<and> settlementQueue (repo s) = Map.empty"

lemma no_bets_abs: "no_bets s \<Longrightarrow> mem_inv s \<and> mem_pending s = (\<lambda>_. {#}) \<and> (\<forall>q. mem_intake s q)"
  by (simp add: no_bets_def mem_inv_def mem_pending_def mem_intake_def fun_eq_iff)

lemma sample_ids_inj: "inj sample_id_of"
  by (simp add: inj_def sample_id_of_def)

lemma sample_world_start [simp]: "no_bets (gs_store (sample_world g))" "inj (gs_ids (sample_world g))"
  using sample_ids_inj by (simp_all add: sample_world_def no_bets_def NewMemBets_def)

lemma sample_world_empty [simp]:
  "mem_inv (gs_store (sample_world g))" "mem_pending (gs_store (sample_world g)) = (\<lambda>_. {#})"
  "mem_intake (gs_store (sample_world g)) q"
  using no_bets_abs [OF sample_world_start(1), of g] by simp_all

lemmas sample_gms_evals = sample_gms_def sample_machine_def NewGMSUseCase_def NewStateMachine_def
  beginBetting_def beginRound_def updRound_def roundBettingEnd_def round_defs gms_svc_defs gms_uc_defs
  CanAcceptBet_def GetCurrentRound_def Second_def zero_time_def

section \<open>The money of a round\<close>

lemma memory_flow:
  fixes w :: "(MemBets, 'm, MockService, 'd) gs_world"
  assumes "uc = NewGSUseCase memRepo orders gms mockWallet gateway overflow"
    and "no_bets (gs_store w)" "inj (gs_ids w)"
    and "\<forall>(u, c, a) \<in> set ts. 0 \<le> sint u \<and> 0 \<le> sint a" "(\<Sum>(u, c, a) \<leftarrow> ts. sint a) \<le> 2 ^ 52"
    and "orders_persist uc rows"
  shows "\<exists>sum w'. SettleRound uc r win (placeBets uc ts w) = Some (Inr sum, w') \<and>
     (\<forall>u. wallet_balance mockWallet (gs_wallet w') u =
        wallet_balance mockWallet (gs_wallet w) u - charged u (outcomes gms ts (gs_gms w))
          + 2 * recorded r u win (outcomes gms ts (gs_gms w))) \<and>
     mem_pending (gs_store w') r = {#}"
proof -
  note start = no_bets_abs [OF assms(2)]
  have table: "monolith.table 0 w" using start assms(3)
    by (simp add: monolith.table_def monolith.ids_fresh_def monolith.can_store_def pot_def)
  have gms: "gmsService uc = gms" by (simp add: assms(1) NewGSUseCase_def)
  have none: "mem_pending (gs_store w) q = {#}" for q using start by simp
  from monolith.round_flow [where orders = orders and gms = gms and gateway = gateway and overflow = overflow,
      folded assms(1), OF table none assms(4,5) all_rounds_good assms(6)]
  show ?thesis unfolding gms .
qed

text \<open>C2. The money of a round, for honest bets.  Let no bet be pending, identifiers be distinct, and the order
  database store what it is given.  Then whatever attempts to bet are made, by users and with amounts that are not
  negative and sum up to at most \<open>2 ^ 52\<close>, and whatever the game machine service answers to each, settling
  the round ends, and then every user's balance is the balance before, less what the wallet was charged, plus
  twice what of it was recorded on the winning color in this round; and no bet of the round is pending any
  more.  (For a negative amount this is false: \<open>negative_bet_pays\<close>.)\<close>

theorem round_money_flow:
  fixes w :: "(MemBets, 'm, MockService, 'd) gs_world"
  assumes "uc = NewGSUseCase memRepo orders gms mockWallet gateway overflow"
    and "no_bets (gs_store w)" "inj (gs_ids w)"
    and "\<forall>(u, c, a) \<in> set ts. 0 \<le> sint u \<and> 0 \<le> sint a" "(\<Sum>(u, c, a) \<leftarrow> ts. sint a) \<le> 2 ^ 52"
    and "orders_persist uc rows"
  shows "\<exists>sum w'. SettleRound uc r win (placeBets uc ts w) = Some (Inr sum, w') \<and>
     (\<forall>u. wallet_balance mockWallet (gs_wallet w') u =
        wallet_balance mockWallet (gs_wallet w) u - charged u (outcomes gms ts (gs_gms w))
          + 2 * recorded r u win (outcomes gms ts (gs_gms w))) \<and>
     mem_pending (gs_store w') r = {#}"
  by (rule memory_flow [OF assms])

text \<open>User 7 stakes 100 and 50 on red and 20 on green, user 8 stakes 30 on blue; red wins.\<close>

definition sample_tries :: "bet_try list" where
  "sample_tries = [(7, REWARD_RED, 100), (8, REWARD_BLUE, 30), (7, REWARD_RED, 50), (7, REWARD_GREEN, 20)]"

theorem round_money_flow_witness:
  "\<exists>sum w'. SettleRound (sample_gs gmsLocal) ''R1'' REWARD_RED
       (placeBets (sample_gs gmsLocal) sample_tries (sample_world sample_gms)) = Some (Inr sum, w') \<and>
     wallet_balance mockWallet (gs_wallet w') 7 = 1000130 \<and>
     wallet_balance mockWallet (gs_wallet w') 8 = 999970"
proof -
  have outs: "outcomes gmsLocal sample_tries (gs_gms (sample_world sample_gms)) =
      [((7, 1, 100), True, Some ''R1''), ((8, 3, 30), True, Some ''R1''),
       ((7, 1, 50), True, Some ''R1''), ((7, 2, 20), True, Some ''R1'')]"
    by (simp add: sample_tries_def sample_world_def sample_gms_evals bet_outcome_def isValidColor_def)
  have bal: "wallet_balance mockWallet (gs_wallet (sample_world sample_gms)) u = 1000000" for u
    by (simp add: sample_world_def mock_balance NewMockService_def)
  from round_money_flow [OF sample_gs_def sample_world_start(1,2) _ _ sample_orders_persist,
      of sample_tries gmsLocal "''R1''" REWARD_RED sample_gms]
  show ?thesis
    by (simp only: outs bal) (force simp: sample_tries_def charged_def recorded_def)
qed

section \<open>Settlement\<close>


text \<open>The world after the sample bets.\<close>

definition sample_bets_placed :: "(MemBets, GMSUseCase, MockService, BetOrder list) gs_world" where
  "sample_bets_placed = placeBets (sample_gs gmsLocal) sample_tries (sample_world sample_gms)"

lemma sample_effect:
  "monolith.table 200 sample_bets_placed \<and>
   stake (mem_pending (gs_store sample_bets_placed) q) u c =
     recorded q u c (outcomes gmsLocal sample_tries sample_gms)"
proof -
  let ?w = "sample_world sample_gms"
  have table: "monolith.table 0 ?w"
    by (simp add: monolith.table_def monolith.ids_fresh_def monolith.can_store_def pot_def)
  have tries: "\<forall>(u, c, a) \<in> set sample_tries. 0 \<le> sint u \<and> 0 \<le> sint a"
    "0 + (\<Sum>(u, c, a) \<leftarrow> sample_tries. sint a) \<le> 2 ^ 52"
    by (simp_all add: sample_tries_def)
  have gms: "gmsService (sample_gs gmsLocal) = gmsLocal" "gs_gms ?w = sample_gms"
    by (simp_all add: sample_gs_def NewGSUseCase_def sample_world_def)
  have "0 + (\<Sum>(u, c, a) \<leftarrow> sample_tries. sint a) = 200" by (simp add: sample_tries_def)
  with monolith.placeBets_effect [OF table tries all_rounds_good, where orders = "Some sample_orders"
      and gms = gmsLocal and gateway = True and overflow = "\<lambda>_. 0", folded sample_gs_def sample_bets_placed_def]
  show ?thesis using gms by simp
qed

lemmas sample_table = sample_effect [THEN conjunct1] and sample_stake = sample_effect [THEN conjunct2]


text \<open>C15. The settlement always returns.  Nothing in its outer loop bounds it, but with the memory repository
  it ends from every consistent state, whatever the wallet answers to the payments and whatever the order
  database answers to the batches; it takes bets of its round only, and if it does not end in an error it
  has taken them all.\<close>

theorem settle_terminates:
  fixes w :: "(MemBets, 'm, 'w, 'd) gs_world"
  assumes "betRepo uc = memRepo" "mem_inv (gs_store w)"
  shows "\<exists>res w'. SettleRound uc r c w = Some (res, w') \<and> mem_inv (gs_store w') \<and>
     (\<exists>B. B \<subseteq># mem_pending (gs_store w) r \<and> mem_pending (gs_store w') = (mem_pending (gs_store w))(r := B) \<and>
        (isl res \<or> B = {#}))"
  using mem_bets.SettleRound_returns [OF assms] .

definition down_orders :: "BetOrder list \<Rightarrow> BetOrder list \<Rightarrow> go_error option \<times> BetOrder list" where
  "down_orders d os = (Some ''down'', d)"

theorem settle_terminates_witness:
  "\<exists>res w'. SettleRound (NewGSUseCase memRepo (Some down_orders) gmsLocal mockWallet True (\<lambda>_. 0)) ''R1'' REWARD_RED
     sample_bets_placed = Some (res, w') \<and> mem_inv (gs_store w')"
proof -
  have "mem_inv (gs_store sample_bets_placed)" using sample_table by (simp add: monolith.table_def)
  from settle_terminates [OF _ this, of "NewGSUseCase memRepo (Some down_orders) gmsLocal mockWallet True (\<lambda>_. 0)"]
  show ?thesis by (simp add: NewGSUseCase_def) blast
qed

text \<open>A round that was settled can be settled again without effect on any balance or order: a repeated
  result notification pays nothing.\<close>

theorem second_settlement_pays_nothing:
  fixes w :: "(MemBets, 'm, MockService, 'd) gs_world"
  assumes "uc = NewGSUseCase memRepo orders gms mockWallet gateway overflow"
    and "mem_inv (gs_store w)"
    and "\<forall>b \<in># mem_pending (gs_store w) r. UserID b \<in> dom (balances (gs_wallet w)) \<and> fair_amount (Amount b)"
    and "orders_persist uc rows"
    and "SettleRound uc r c w = Some (Inr figures, w')"
  shows "\<exists>w''. SettleRound uc r d w' = Some (Inr (0, 0, 0), w'') \<and>
     (\<forall>u. wallet_balance mockWallet (gs_wallet w'') u = wallet_balance mockWallet (gs_wallet w') u) \<and>
     image_mset undated (rows (gs_orders w'')) = image_mset undated (rows (gs_orders w'))"
proof -
  have pay: "\<forall>b \<in># mem_pending (gs_store w) r. monolith.payable (gs_wallet w) b"
    using assms(3) by (simp add: monolith.payable_def)
  note settle = monolith.SettleRound_effect [where orders = orders and gms = gms and gateway = gateway
      and overflow = overflow, folded assms(1), OF _ _ assms(4)]
  from settle [OF assms(2) pay, of c] assms(5)
  have first: "mem_inv (gs_store w')" "mem_pending (gs_store w') r = {#}" by auto
  then have "\<forall>b \<in># mem_pending (gs_store w') r. monolith.payable (gs_wallet w') b" by simp
  from settle [OF first(1) this, of d] first(2) obtain sum' w'' where
    second: "SettleRound uc r d w' = Some (Inr sum', w'')" "fst sum' = 0"
      "\<forall>u. wallet_balance mockWallet (gs_wallet w'') u = wallet_balance mockWallet (gs_wallet w') u"
      "image_mset undated (rows (gs_orders w'')) = image_mset undated (rows (gs_orders w'))"
    by (auto split: if_splits)
  have "sum' = (0, 0, 0)"
  proof -
    from second(1) obtain os where "sum' = settleSummary (floatOverflow uc) os"
      by (auto simp: SettleRound_def Let_def split: option.splits prod.splits sum.splits if_splits)
    with second(2) show ?thesis by (simp add: settleSummary_def)
  qed
  with second show ?thesis by blast
qed

theorem second_settlement_pays_nothing_witness:
  "\<exists>w' w''. SettleRound (sample_gs gmsLocal) ''R1'' REWARD_BLUE w' = Some (Inr (0, 0, 0), w'') \<and>
     (\<exists>sum. SettleRound (sample_gs gmsLocal) ''R1'' REWARD_RED sample_bets_placed = Some (Inr sum, w')) \<and>
     (\<forall>u. wallet_balance mockWallet (gs_wallet w'') u = wallet_balance mockWallet (gs_wallet w') u)"
proof -
  have inv: "mem_inv (gs_store sample_bets_placed)"
    using sample_table by (simp add: monolith.table_def)
  have pay: "\<forall>b \<in># mem_pending (gs_store sample_bets_placed) ''R1''.
      UserID b \<in> dom (balances (gs_wallet sample_bets_placed)) \<and> fair_amount (Amount b)"
    using monolith.table_payable [OF sample_table] by (simp add: monolith.payable_def)
  have pay': "\<forall>b \<in># mem_pending (gs_store sample_bets_placed) ''R1''.
      monolith.payable (gs_wallet sample_bets_placed) b"
    by (rule monolith.table_payable [OF sample_table]) simp
  from monolith.SettleRound_effect [where orders = "Some sample_orders" and gms = gmsLocal and gateway = True
      and overflow = "\<lambda>_. 0", folded sample_gs_def, OF inv pay' sample_orders_persist, of REWARD_RED]
  obtain sum w' where run: "SettleRound (sample_gs gmsLocal) ''R1'' REWARD_RED sample_bets_placed
      = Some (Inr sum, w')" by (elim exE conjE) (rule that)
  from second_settlement_pays_nothing [OF sample_gs_def inv pay sample_orders_persist this, of REWARD_BLUE]
  show ?thesis using run by blast
qed

lemma settleBets_db_error:
  assumes "betOrderRepo uc = Some bc" "\<And>d os. os \<noteq> [] \<Longrightarrow> \<exists>e d'. bc d os = (Some e, d')"
    and "length os = length cur" "cur @ ps \<noteq> []"
  shows "\<exists>e d. settleBets uc r c now ps os cur acc w = (Inl e, w\<lparr>gs_orders := d\<rparr>)"
  using assms(3,4)
proof (induction ps arbitrary: os cur acc)
  case Nil
  then have "os \<noteq> []" by auto
  with assms(2) [OF this, of "gs_orders w"] assms(1) show ?case by (auto simp: processBatch_def)
next
  case (Cons p ps)
  let ?o = "newBetOrder r c now (heap (gs_store w) p)"
  show ?case
  proof (cases "batchSize \<le> length (os @ [?o])")
    case True
    with assms(2) [of "os @ [?o]" "gs_orders w"] assms(1) show ?thesis by (auto simp: processBatch_def)
  next
    case False
    with Cons.IH [of "os @ [?o]" "cur @ [p]"] Cons.prems show ?thesis by (simp add: Let_def)
  qed
qed

text \<open>C17. When the order database refuses a batch, the settlement stops with the error, no balance changes
  and nobody is notified, but the bets are no longer queued: settling the round again finds none.\<close>

theorem db_failure_drops_bets:
  fixes w :: "(MemBets, 'm, MockService, 'd) gs_world"
  assumes "uc = NewGSUseCase memRepo (Some bc) gms mockWallet gateway overflow"
    and "\<And>d os. os \<noteq> [] \<Longrightarrow> \<exists>e d'. bc d os = (Some e, d')"
    and "mem_inv (gs_store w)" "mem_pending (gs_store w) r \<noteq> {#}"
  shows "\<exists>e w'. SettleRound uc r c w = Some (Inl e, w') \<and>
     gs_wallet w' = gs_wallet w \<and> gs_sent w' = gs_sent w \<and> mem_pending (gs_store w') r = {#}"
proof -
  let ?q = "mget (settlementQueue (repo (gs_store w))) r []"
  have q: "?q \<noteq> []" using assms(4) by (auto simp: mem_pending_def)
  obtain s where take: "mem_GetBetsForSettlement (gs_store w) r = (Inr ?q, s)" "mem_pending s r = {#}"
    using q by (simp add: mem_GetBetsForSettlement_def mem_pending_def)
  have uc: "betRepo uc = memRepo" "betOrderRepo uc = Some bc" by (simp_all add: assms(1) NewGSUseCase_def)
  let ?w = "w\<lparr>gs_reads := Suc (gs_reads w)\<rparr>"
  let ?v = "w\<lparr>gs_store := s, gs_reads := Suc (Suc (gs_reads w))\<rparr>"
  let ?acc = "\<lparr>allBetOrders = [], totalProcessed = 0, batchNumber = 0\<rparr>"
  obtain e d where "settleBets uc r c (gs_clock w (Suc (gs_reads w))) ?q [] [] ?acc ?v
      = (Inl e, ?v\<lparr>gs_orders := d\<rparr>)"
    using settleBets_db_error [OF uc(2) assms(2), where os = "[]" and cur = "[]" and ps = ?q
        and r = r and c = c and now = "gs_clock w (Suc (gs_reads w))" and acc = ?acc and w = ?v] q by auto
  then have "settleLoop uc r c ?acc ?w = Some (Inl e, ?v\<lparr>gs_orders := d\<rparr>)"
    using q take(1) by (subst settleLoop.simps) (simp add: uc memRepo_def readClock_def)
  then show ?thesis using take(2) by (simp add: SettleRound_def readClock_def)
qed

theorem db_failure_drops_bets_witness:
  "\<exists>e w'. SettleRound (NewGSUseCase memRepo (Some (\<lambda>(d :: BetOrder list) os. (Some ''disk full'', d)))
        gmsLocal mockWallet True (\<lambda>_. 0)) ''R1'' REWARD_RED sample_bets_placed = Some (Inl e, w') \<and>
     gs_wallet w' = gs_wallet sample_bets_placed \<and> mem_pending (gs_store w') ''R1'' = {#}"
proof -
  have "mem_inv (gs_store sample_bets_placed)" using sample_table by (simp add: monolith.table_def)
  moreover
  have "stake (mem_pending (gs_store sample_bets_placed) ''R1'') 7 REWARD_RED = 150"
    by (simp add: sample_stake recorded_def sample_tries_def sample_gms_evals bet_outcome_def isValidColor_def)
  then have "mem_pending (gs_store sample_bets_placed) ''R1'' \<noteq> {#}" by auto
  ultimately show ?thesis
    using db_failure_drops_bets [OF refl, of "\<lambda>d os. (Some ''disk full'', d)" sample_bets_placed "''R1''"
        gmsLocal True "\<lambda>_. 0" REWARD_RED] by auto
qed

section \<open>Placing bets\<close>

text \<open>The table of the monolith while bets are taken: no settlement has begun, bet IDs are fresh, the
  pots are within \<open>T\<close> and everyone with a bet has an account.\<close>

definition mem_table :: "int \<Rightarrow> (MemBets, 'm, MockService, 'd) gs_world \<Rightarrow> bool" where
  "mem_table T w \<longleftrightarrow> mem_inv (gs_store w) \<and> (\<forall>q. mem_intake (gs_store w) q) \<and> inj (gs_ids w) \<and>
     (\<forall>q. \<forall>b \<in># mem_pending (gs_store w) q. BetID b \<in> gs_ids w ` {..< gs_nextId w}) \<and>
     (\<forall>q. pot T (mem_pending (gs_store w) q)) \<and>
     (\<forall>q. \<forall>b \<in># mem_pending (gs_store w) q. UserID b \<in> dom (balances (gs_wallet w)))"

lemma mem_table_iff: "mem_table T w \<longleftrightarrow> monolith.table T w"
  by (auto simp: mem_table_def monolith.table_def monolith.ids_fresh_def monolith.can_store_def)

text \<open>C8. What an attempt to bet does, on every path.  The outcome is decided by the game machine service
  and the color: the wallet of the player is charged exactly when the round is known and the color
  valid; the call succeeds exactly when the service then records the bet, and only then the
  player's stake on that color in that round grows by the amount, and no other stake changes.\<close>

theorem place_bet_spec:
  fixes w :: "(MemBets, 'm, MockService, 'd) gs_world"
  assumes "uc = NewGSUseCase memRepo orders gms mockWallet gateway overflow"
    and "mem_table T w" "0 \<le> sint u" "0 \<le> sint a" "T + sint a \<le> 2 ^ 52"
    and "bet_outcome gms (gs_gms w) u c a = (ch, acc, g)"
  shows "\<exists>res w'. gs_PlaceBet uc u c a w = (res, w') \<and> mem_table (T + sint a) w' \<and> gs_gms w' = g \<and>
     (\<forall>v. wallet_balance mockWallet (gs_wallet w') v =
        wallet_balance mockWallet (gs_wallet w) v - (if ch \<and> u = v then a else 0)) \<and>
     (\<forall>q v d. stake (mem_pending (gs_store w') q) v d = stake (mem_pending (gs_store w) q) v d +
        (if acc = Some q \<and> v = u \<and> d = c then a else 0)) \<and>
     ((\<exists>p. res = Inr p) \<longleftrightarrow> acc \<noteq> None) \<and> gs_sent w' = gs_sent w \<and> gs_orders w' = gs_orders w"
proof -
  have "bet_outcome (gmsService (NewGSUseCase memRepo orders gms mockWallet gateway overflow)) (gs_gms w) u c a
      = (ch, acc, g)"
    using assms(6) by (simp add: NewGSUseCase_def)
  from monolith.PlaceBet_effect [OF assms(2) [unfolded mem_table_iff] assms(3-5) this TrueI] assms(1)
  show ?thesis by (simp only: mem_table_iff)
qed

lemma sample_world_table: "mem_table 0 (sample_world g)"
  by (simp add: mem_table_def pot_def)

theorem place_bet_spec_witness:
  "\<exists>res w'. gs_PlaceBet (sample_gs gmsLocal) 7 REWARD_RED 100 (sample_world sample_gms) = (Inr res, w') \<and>
     wallet_balance mockWallet (gs_wallet w') 7 = 999900 \<and>
     stake (mem_pending (gs_store w') ''R1'') 7 REWARD_RED = 100"
proof -
  have out: "bet_outcome gmsLocal (gs_gms (sample_world sample_gms)) 7 REWARD_RED 100 =
      (True, Some ''R1'', sample_gms\<lparr>machinePos := 3,
         betCount := [''R1'' \<mapsto> 1], betPlayers := [''R1'' \<mapsto> {7}], betAmount := [''R1'' \<mapsto> 100]\<rparr>)"
    by (simp add: sample_world_def sample_gms_evals bet_outcome_def isValidColor_def float_add_def
        float_of_int64_def round53_exact)
  have bal: "wallet_balance mockWallet (gs_wallet (sample_world sample_gms)) 7 = 1000000"
    by (simp add: sample_world_def mock_balance NewMockService_def)
  have "mem_pending (gs_store (sample_world sample_gms)) = (\<lambda>_. {#})" by simp
  then show ?thesis
    using place_bet_spec [OF sample_gs_def sample_world_table _ _ _ out] bal by auto
qed

text \<open>C18. A bet that the game machine refuses is charged all the same.  In the monolith, when the round is
  known but no longer accepts bets, the call fails, no bet is stored, and the player's balance is
  lower by the amount.\<close>

theorem refused_bet_is_charged:
  fixes w :: "(MemBets, GMSUseCase, MockService, 'd) gs_world"
  assumes "uc = NewGSUseCase memRepo orders gmsLocal mockWallet gateway overflow"
    and "local_GetCurrentRound (gs_gms w) \<lparr>crq_UserId = 0\<rparr> = (Inr rsp, g)"
    and "\<not> uc_accepts g (crs_RoundId rsp)" "isValidColor c"
  shows "\<exists>e w'. gs_PlaceBet uc u c a w = (Inl (''failed to record bet in GMS: '' @ e), w') \<and>
     gs_store w' = gs_store w \<and>
     wallet_balance mockWallet (gs_wallet w') u = wallet_balance mockWallet (gs_wallet w) u - a"
proof -
  from IncrementBetCount_rejected [OF assms(3)] obtain e n where
    "IncrementBetCount (crs_RoundId rsp) u (float_of_int64 a) g = (Some e, g\<lparr>machinePos := n\<rparr>)" by blast
  moreover obtain b wl where wl: "wallet_PlaceBet mockWallet (gs_wallet w) u a (crs_RoundId rsp) = (Inr b, wl)"
    using mock_wallet.bet_returns by (metis prod.collapse)
  moreover have "wallet_balance mockWallet wl u = wallet_balance mockWallet (gs_wallet w) u - a"
    using mock_wallet.bet_balance [of "gs_wallet w" u a "crs_RoundId rsp" u] wl by simp
  ultimately show ?thesis
    using assms(2,4)
    by (simp add: assms(1) NewGSUseCase_def gs_PlaceBet_def gmsLocal_def local_RecordBet_def)
qed

text \<open>A machine whose betting phase is over at every read but the first.\<close>

definition sample_closed :: GMSUseCase where
  "sample_closed = fst (NewGMSUseCase 1 (\<lambda>n. (int n * 11 * Second, sample_machine)) True True True NewStateMachine)"

lemmas sample_closed_evals = sample_closed_def sample_gms_evals

theorem refused_bet_is_charged_witness:
  "\<exists>e w'. gs_PlaceBet (sample_gs gmsLocal) 7 REWARD_RED 100 (sample_world sample_closed)
       = (Inl (''failed to record bet in GMS: '' @ e), w') \<and>
     wallet_balance mockWallet (gs_wallet w') 7 = 999900"
proof -
  obtain rsp where rsp: "local_GetCurrentRound sample_closed \<lparr>crq_UserId = 0\<rparr>
      = (Inr rsp, sample_closed\<lparr>machinePos := 1\<rparr>)"
    by (simp add: sample_closed_evals)
  moreover have "\<not> uc_accepts (sample_closed\<lparr>machinePos := 1\<rparr>) r" for r
    by (simp add: uc_accepts_def sample_closed_evals)
  moreover have "wallet_balance mockWallet (gs_wallet (sample_world sample_closed)) 7 = 1000000"
    by (simp add: sample_world_def mock_balance NewMockService_def)
  ultimately show ?thesis
    using refused_bet_is_charged [OF sample_gs_def, of "sample_world sample_closed" rsp _ REWARD_RED 7 100]
    by (auto simp: isValidColor_def sample_world_def)
qed

text \<open>C19. Behind the gRPC adapter the refusal is not seen at all.  The adapter answers a refused bet with an
  error code and no error, the game service looks at the error only, and so the bet is charged,
  stored and settled although the game machine did not count it.\<close>

theorem refused_bet_is_taken_over_grpc:
  fixes w :: "(MemBets, GMSUseCase, MockService, 'd) gs_world"
  assumes "uc = NewGSUseCase memRepo orders gmsGrpc mockWallet gateway overflow"
    and "grpc_GetCurrentRound (gs_gms w) \<lparr>crq_UserId = 0\<rparr> = (Inr rsp, g)"
    and "\<not> uc_accepts g (crs_RoundId rsp)" "isValidColor c"
    and "mem_table T w" "0 \<le> sint u" "0 \<le> sint a" "T + sint a \<le> 2 ^ 52"
  shows "\<exists>p w'. gs_PlaceBet uc u c a w = (Inr p, w') \<and>
     uc_stats (gs_gms w') (crs_RoundId rsp) = uc_stats g (crs_RoundId rsp) \<and>
     stake (mem_pending (gs_store w') (crs_RoundId rsp)) u c =
       stake (mem_pending (gs_store w) (crs_RoundId rsp)) u c + a"
proof -
  from IncrementBetCount_rejected [OF assms(3)] obtain e n where
    "IncrementBetCount (crs_RoundId rsp) u (float_of_int64 a) g = (Some e, g\<lparr>machinePos := n\<rparr>)" by blast
  then have out: "bet_outcome (gmsService (NewGSUseCase memRepo orders gmsGrpc mockWallet gateway overflow))
      (gs_gms w) u c a = (True, Some (crs_RoundId rsp), g\<lparr>machinePos := n\<rparr>)"
    using assms(2,4)
    by (simp add: bet_outcome_def NewGSUseCase_def gmsGrpc_def grpc_RecordBet_def uc_RecordBet_def)
  from monolith.PlaceBet_effect [OF assms(5) [unfolded mem_table_iff] assms(6-8) out TrueI]
  show ?thesis by (auto simp: assms(1))
qed

theorem refused_bet_is_taken_over_grpc_witness:
  "\<exists>p w'. gs_PlaceBet (sample_gs gmsGrpc) 7 REWARD_RED 100 (sample_world sample_closed) = (Inr p, w') \<and>
     stake (mem_pending (gs_store w') ''R1'') 7 REWARD_RED = 100"
proof -
  obtain rsp where rsp: "grpc_GetCurrentRound sample_closed \<lparr>crq_UserId = 0\<rparr>
      = (Inr rsp, sample_closed\<lparr>machinePos := 1\<rparr>)" "crs_RoundId rsp = ''R1''"
    by (simp add: sample_closed_evals)
  have "\<not> uc_accepts (sample_closed\<lparr>machinePos := 1\<rparr>) r" for r
    by (simp add: uc_accepts_def sample_closed_evals)
  moreover have "mem_pending (gs_store (sample_world sample_closed)) = (\<lambda>_. {#})" by simp
  moreover have "gs_gms (sample_world sample_closed) = sample_closed" by (simp add: sample_world_def)
  ultimately show ?thesis
    using refused_bet_is_taken_over_grpc [OF sample_gs_def, of "sample_world sample_closed" rsp _ REWARD_RED 0 7 100]
      sample_world_table [of sample_closed] rsp by (auto simp: isValidColor_def)
qed

text \<open>The amount is not checked: a negative bet is accepted and pays the player.\<close>

theorem negative_bet_pays:
  "\<exists>p w'. gs_PlaceBet (sample_gs gmsLocal) 7 REWARD_RED (- 500) (sample_world sample_gms) = (Inr p, w') \<and>
     wallet_balance mockWallet (gs_wallet w') 7 = 1000500"
  by (simp add: gs_PlaceBet_def sample_gs_def NewGSUseCase_def sample_world_def sample_gms_evals
      isValidColor_def saveOrUpdateBet_def mem_repo_defs NewMemBets_def generateBetID_def readClock_def
      alloc_def wallet_balance_def GetBalance_def mockWallet_def PlaceBet_def DeductBalance_def NewMockService_def)

end
