(* ===== verification/Ws_Manager.thy ===== *)
theory Ws_Manager
  imports Go_Base "HOL-Library.AList"
begin

text \<open>
  The connection manager of the gateway, \<^verbatim>\<open>gateway/ws/manager.go\<close>.  A connection is an object with an
  identity, since the map of clients and the pumps share it; the manager holds the objects in a
  table.  The client map is an association list, which \<^verbatim>\<open>Broadcast\<close> iterates.  What the websocket
  library and the other goroutines do is an argument: whether a write or a read succeeds, and the
  state of the manager when a blocked send wakes up.  \<open>enqueued\<close> and \<open>written\<close> log what was put into
  a send channel and what was handed to the websocket; the program does not read them.
\<close>

section \<open>Connections and the manager\<close>

datatype CloseReason =
    ReasonWriteError | ReasonPingError | ReasonReadError | ReasonSendChanClosed | ReasonReplaced
  | ReasonShutdown | ReasonBufferFull | ReasonTimeout

record Connection =
  conn_UserID :: int64
  Send :: "string list"
  closed :: "CloseReason option"
  writing :: bool
  reading :: bool
  enqueued :: "string list"
  written :: "string list"

record Manager =
  clients :: "(int64 \<times> nat) list"
  conns :: "nat \<Rightarrow> Connection"
  nextConn :: nat

definition sendCap :: nat where
  "sendCap = 1024"

definition newConnection :: "int64 \<Rightarrow> Connection" where
  "newConnection userID =
     \<lparr>conn_UserID = userID, Send = [], closed = None, writing = True, reading = True, enqueued = [],
      written = []\<rparr>"

definition NewManager :: Manager where
  "NewManager = \<lparr>clients = [], conns = \<lambda>_. newConnection 0, nextConn = 0\<rparr>"

definition onConn :: "nat \<Rightarrow> (Connection \<Rightarrow> Connection) \<Rightarrow> Manager \<Rightarrow> Manager" where
  "onConn c f m = m\<lparr>conns := (conns m)(c := f (conns m c))\<rparr>"

text \<open>\<^verbatim>\<open>closeOnce\<close>: the first reason stays.\<close>

definition CloseWithReason :: "CloseReason \<Rightarrow> nat \<Rightarrow> Manager \<Rightarrow> Manager" where
  "CloseWithReason r c m =
     onConn c (\<lambda>x. case closed x of None \<Rightarrow> x\<lparr>closed := Some r\<rparr> | Some _ \<Rightarrow> x) m"

definition hasRoom :: "nat \<Rightarrow> Manager \<Rightarrow> bool" where
  "hasRoom c m \<longleftrightarrow> length (Send (conns m c)) < sendCap"

definition push :: "string \<Rightarrow> nat \<Rightarrow> Manager \<Rightarrow> Manager" where
  "push message c m =
     onConn c (\<lambda>x. x\<lparr>Send := Send x @ [message], enqueued := enqueued x @ [message]\<rparr>) m"

text \<open>\<^verbatim>\<open>Register\<close> makes the connection and hands it to the loop of \<^verbatim>\<open>Run\<close>.\<close>

definition Register :: "int64 \<Rightarrow> Manager \<Rightarrow> nat \<times> Manager" where
  "Register userID m =
     (nextConn m, m\<lparr>conns := (conns m)(nextConn m := newConnection userID), nextConn := Suc (nextConn m)\<rparr>)"

definition run_register :: "nat \<Rightarrow> Manager \<Rightarrow> Manager" where
  "run_register client m =
     (let u = conn_UserID (conns m client);
          m = (case map_of (clients m) u of
                 Some old \<Rightarrow> CloseWithReason ReasonReplaced old m
               | None \<Rightarrow> m)
      in m\<lparr>clients := AList.update u client (clients m)\<rparr>)"

definition run_unregister :: "nat \<Rightarrow> Manager \<Rightarrow> Manager" where
  "run_unregister client m =
     (let u = conn_UserID (conns m client)
      in case map_of (clients m) u of
           Some _ \<Rightarrow>
             CloseWithReason ReasonShutdown client (m\<lparr>clients := AList.delete u (clients m)\<rparr>)
         | None \<Rightarrow> m)"

definition offer :: "string \<Rightarrow> nat \<Rightarrow> Manager \<Rightarrow> Manager" where
  "offer message c m = (if hasRoom c m then push message c m else CloseWithReason ReasonBufferFull c m)"

definition Broadcast :: "string \<Rightarrow> Manager \<Rightarrow> Manager" where
  "Broadcast message m = fold (\<lambda>(u, c). offer message c) (clients m) m"

text \<open>When the channel is full the send blocks for up to five seconds; \<open>later\<close> is the manager when it
  wakes up.\<close>

definition SendToUser :: "int64 \<Rightarrow> string \<Rightarrow> Manager \<Rightarrow> Manager \<Rightarrow> Manager" where
  "SendToUser userID message later m =
     (case map_of (clients m) userID of
        None \<Rightarrow> m
      | Some client \<Rightarrow>
          if hasRoom client m then push message client m
          else if hasRoom client later then push message client later
          else CloseWithReason ReasonTimeout client later)"

definition Shutdown :: "Manager \<Rightarrow> Manager" where
  "Shutdown m = fold (\<lambda>(u, c). CloseWithReason ReasonShutdown c) (clients m) m"

text \<open>One turn of \<^verbatim>\<open>WritePump\<close>: the next message is written or the write fails; or the ticker fires and
  the ping succeeds or fails.  A failure closes the connection and ends the pump.\<close>

definition pump_write :: "bool \<Rightarrow> nat \<Rightarrow> Manager \<Rightarrow> Manager" where
  "pump_write ok c m =
     (case Send (conns m c) of
        [] \<Rightarrow> m
      | message # rest \<Rightarrow>
          let m = onConn c (\<lambda>x. x\<lparr>Send := rest\<rparr>) m
          in if ok then onConn c (\<lambda>x. x\<lparr>written := written x @ [message]\<rparr>) m
             else onConn c (\<lambda>x. x\<lparr>writing := False\<rparr>) (CloseWithReason ReasonWriteError c m))"

definition pump_ping :: "bool \<Rightarrow> nat \<Rightarrow> Manager \<Rightarrow> Manager" where
  "pump_ping ok c m =
     (if ok then m else onConn c (\<lambda>x. x\<lparr>writing := False\<rparr>) (CloseWithReason ReasonPingError c m))"

text \<open>The end of \<^verbatim>\<open>ReadPump\<close>: the connection is handed to \<^verbatim>\<open>Run\<close> for removal, then closed.\<close>

definition pump_read_end :: "nat \<Rightarrow> Manager \<Rightarrow> Manager" where
  "pump_read_end c m =
     CloseWithReason ReasonReadError c (run_unregister c (onConn c (\<lambda>x. x\<lparr>reading := False\<rparr>) m))"

lemmas ws_defs = onConn_def CloseWithReason_def hasRoom_def push_def Register_def run_register_def
  run_unregister_def offer_def Shutdown_def pump_write_def pump_ping_def
  pump_read_end_def Let_def

section \<open>The running manager\<close>

text \<open>The goroutines of the gateway: \<^verbatim>\<open>Run\<close>, the pumps of every connection and the callers that broadcast
  and send.  Each step is one critical section or one channel operation.\<close>

inductive ws_step :: "Manager \<Rightarrow> Manager \<Rightarrow> bool" where
  connect: "Register u m = (c, m') \<Longrightarrow> ws_step m (run_register c m')"
| broadcast: "ws_step m (Broadcast msg m)"
| send: "hasRoom c m \<Longrightarrow> map_of (clients m) u = Some c \<Longrightarrow> ws_step m (push msg c m)"
| send_late: "hasRoom c m \<Longrightarrow> c < nextConn m \<Longrightarrow> ws_step m (push msg c m)"
| send_timeout: "c < nextConn m \<Longrightarrow> ws_step m (CloseWithReason ReasonTimeout c m)"
| shutdown: "ws_step m (Shutdown m)"
| write_ok: "c < nextConn m \<Longrightarrow> writing (conns m c) \<Longrightarrow> closed (conns m c) = None \<Longrightarrow> ws_step m (pump_write True c m)"
| write_fail: "c < nextConn m \<Longrightarrow> writing (conns m c) \<Longrightarrow> ws_step m (pump_write False c m)"
| ping: "c < nextConn m \<Longrightarrow> writing (conns m c) \<Longrightarrow> ws_step m (pump_ping ok c m)"
| read_end: "c < nextConn m \<Longrightarrow> reading (conns m c) \<Longrightarrow> ws_step m (pump_read_end c m)"

inductive ws_reach :: "Manager \<Rightarrow> bool" where
  start: "ws_reach NewManager"
| step: "ws_reach m \<Longrightarrow> ws_step m m' \<Longrightarrow> ws_reach m'"

section \<open>One connection at a time\<close>

text \<open>The effect of each operation on one connection.\<close>

definition closeConn :: "CloseReason \<Rightarrow> Connection \<Rightarrow> Connection" where
  "closeConn r x = (case closed x of None \<Rightarrow> x\<lparr>closed := Some r\<rparr> | Some _ \<Rightarrow> x)"

definition pushConn :: "string \<Rightarrow> Connection \<Rightarrow> Connection" where
  "pushConn msg x = x\<lparr>Send := Send x @ [msg], enqueued := enqueued x @ [msg]\<rparr>"

definition offerConn :: "string \<Rightarrow> Connection \<Rightarrow> Connection" where
  "offerConn msg x = (if length (Send x) < sendCap then pushConn msg x else closeConn ReasonBufferFull x)"

definition writeConn :: "bool \<Rightarrow> Connection \<Rightarrow> Connection" where
  "writeConn ok x =
     (case Send x of
        [] \<Rightarrow> x
      | msg # rest \<Rightarrow>
          if ok then x\<lparr>Send := rest, written := written x @ [msg]\<rparr>
          else (closeConn ReasonWriteError (x\<lparr>Send := rest\<rparr>))\<lparr>writing := False\<rparr>)"

lemma onConn_onConn [simp]: "onConn c f (onConn c g m) = onConn c (\<lambda>x. f (g x)) m"
  by (simp add: onConn_def)

lemma onConn_frame [simp]:
  "clients (onConn c f m) = clients m" "nextConn (onConn c f m) = nextConn m"
  "conns (onConn c f m) d = (if d = c then f (conns m c) else conns m d)"
  by (simp_all add: onConn_def)

lemma CloseWithReason_onConn: "CloseWithReason r c = onConn c (closeConn r)"
  by (simp add: CloseWithReason_def closeConn_def [abs_def] fun_eq_iff)

lemma push_onConn: "push msg c = onConn c (pushConn msg)"
  by (simp add: push_def pushConn_def [abs_def] fun_eq_iff)

lemma offer_onConn: "offer msg c = onConn c (offerConn msg)"
  by (simp add: offer_def hasRoom_def push_onConn CloseWithReason_onConn offerConn_def onConn_def fun_eq_iff)

lemma pump_write_onConn: "pump_write ok c = onConn c (writeConn ok)"
proof
  fix m
  show "pump_write ok c m = onConn c (writeConn ok) m"
    by (cases "Send (conns m c)"; cases ok; cases "closed (conns m c)")
      (simp_all add: pump_write_def CloseWithReason_onConn writeConn_def closeConn_def onConn_def)
qed

lemma fold_onConn:
  assumes "distinct (map snd xs)"
  shows "clients (fold (\<lambda>(u, c). onConn c f) xs m) = clients m \<and>
     nextConn (fold (\<lambda>(u, c). onConn c f) xs m) = nextConn m \<and>
     conns (fold (\<lambda>(u, c). onConn c f) xs m) d =
       (if d \<in> snd ` set xs then f (conns m d) else conns m d)"
  using assms
proof (induction xs arbitrary: m)
  case (Cons x xs)
  obtain u c where x: "x = (u, c)" by (cases x)
  from Cons.IH [of "onConn c f m"] Cons.prems x show ?case by (auto simp: rev_image_eqI)
qed simp

section \<open>Invariants\<close>

definition conn_ok :: "Connection \<Rightarrow> bool" where
  "conn_ok x \<longleftrightarrow> length (Send x) \<le> sendCap \<and>
     (\<exists>lost. enqueued x = written x @ lost @ Send x \<and> (writing x \<longrightarrow> lost = []))"

definition ws_inv :: "Manager \<Rightarrow> bool" where
  "ws_inv m \<longleftrightarrow> distinct (map fst (clients m)) \<and>
     (\<forall>(u, c) \<in> set (clients m). c < nextConn m \<and> conn_UserID (conns m c) = u) \<and>
     (\<forall>c. conn_ok (conns m c))"

lemma conn_user [simp]:
  "conn_UserID (closeConn r x) = conn_UserID x" "conn_UserID (pushConn msg x) = conn_UserID x"
  "conn_UserID (offerConn msg x) = conn_UserID x" "conn_UserID (writeConn ok x) = conn_UserID x"
  by (auto simp: closeConn_def pushConn_def offerConn_def writeConn_def split: option.splits list.splits)

lemma conn_ok_close [simp]: "conn_ok (closeConn r x) = conn_ok x"
  by (auto simp: conn_ok_def closeConn_def split: option.splits)

lemma conn_ok_push: "conn_ok x \<Longrightarrow> length (Send x) < sendCap \<Longrightarrow> conn_ok (pushConn msg x)"
  by (auto simp: conn_ok_def pushConn_def)

lemma conn_ok_offer: "conn_ok x \<Longrightarrow> conn_ok (offerConn msg x)"
  by (simp add: offerConn_def conn_ok_push)

lemma conn_ok_write: "conn_ok x \<Longrightarrow> writing x \<Longrightarrow> conn_ok (writeConn ok x)"
  by (auto simp: conn_ok_def writeConn_def closeConn_def split: list.splits option.splits)

lemma conn_ok_flags:
  "conn_ok x \<Longrightarrow> conn_ok (x\<lparr>writing := False\<rparr>)" "conn_ok (x\<lparr>reading := b\<rparr>) = conn_ok x"
  by (auto simp: conn_ok_def)

lemma ws_inv_onConn:
  assumes "ws_inv m" "\<And>x. conn_UserID (f x) = conn_UserID x" "conn_ok (f (conns m c))"
  shows "ws_inv (onConn c f m)"
  using assms by (auto simp: ws_inv_def)

lemma ws_invD: "ws_inv m \<Longrightarrow> (u, c) \<in> set (clients m) \<Longrightarrow> c < nextConn m \<and> conn_UserID (conns m c) = u"
  by (auto simp: ws_inv_def)

lemma ws_inv_clients_distinct:
  assumes "ws_inv m"
  shows "distinct (map snd (clients m))"
proof -
  have "map fst (clients m) = map (\<lambda>x. conn_UserID (conns m (snd x))) (clients m)"
    using ws_invD [OF assms] by (intro map_cong) auto
  moreover have "distinct (map fst (clients m))" using assms by (simp add: ws_inv_def)
  ultimately have "distinct (map (\<lambda>x. conn_UserID (conns m (snd x))) (clients m))" by (rule subst)
  then have "distinct (map (\<lambda>c. conn_UserID (conns m c)) (map snd (clients m)))" by (simp add: comp_def)
  then show ?thesis by (simp only: distinct_map)
qed

lemma ws_inv_fold:
  assumes "ws_inv m" "\<And>x. conn_UserID (f x) = conn_UserID x" "\<And>x. conn_ok x \<Longrightarrow> conn_ok (f x)"
  shows "ws_inv (fold (\<lambda>(u, c). onConn c f) (clients m) m)"
  using assms fold_onConn [OF ws_inv_clients_distinct [OF assms(1)], of f m]
  by (auto simp: ws_inv_def)

lemma ws_inv_delete: "ws_inv m \<Longrightarrow> ws_inv (m\<lparr>clients := AList.delete u (clients m)\<rparr>)"
  using AList.distinct_delete [of "clients m" u] by (auto simp: ws_inv_def AList.delete_eq)

lemma ws_inv_close: "ws_inv m \<Longrightarrow> ws_inv (onConn c (closeConn r) m)"
  by (rule ws_inv_onConn) (simp_all add: ws_inv_def)

lemma ws_inv_unregister: "ws_inv m \<Longrightarrow> ws_inv (run_unregister c m)"
  using ws_inv_close [OF ws_inv_delete]
  by (simp add: run_unregister_def CloseWithReason_onConn Let_def split: option.splits)

lemma ws_inv_update:
  assumes "ws_inv m" "c < nextConn m"
  shows "ws_inv (m\<lparr>clients := AList.update (conn_UserID (conns m c)) c (clients m)\<rparr>)"
proof -
  have "(u, d) \<in> set (AList.update (conn_UserID (conns m c)) c (clients m)) \<Longrightarrow>
      (u, d) \<in> set (clients m) \<or> (u, d) = (conn_UserID (conns m c), c)" for u d
    using AList.update_Some_unfold [of "conn_UserID (conns m c)" c "clients m" u d] assms(1)
    by (metis (no_types, lifting) AList.distinct_update map_of_SomeD map_of_is_SomeI ws_inv_def)
  then have "\<forall>(u, d) \<in> set (AList.update (conn_UserID (conns m c)) c (clients m)).
      d < nextConn m \<and> conn_UserID (conns m d) = u"
    using ws_invD [OF assms(1)] assms(2) by blast
  with assms(1) show ?thesis by (simp add: ws_inv_def AList.distinct_update)
qed

lemma ws_inv_step: "ws_step m m' \<Longrightarrow> ws_inv m \<Longrightarrow> ws_inv m'"
proof (induction rule: ws_step.induct)
  case (connect u m c m')
  have m': "ws_inv m'" "c < nextConn m'"
    using connect by (auto simp: Register_def ws_inv_def conn_ok_def newConnection_def less_Suc_eq)
  let ?o = "map_of (clients m') (conn_UserID (conns m' c))"
  let ?m = "case ?o of Some old \<Rightarrow> onConn old (closeConn ReasonReplaced) m' | None \<Rightarrow> m'"
  have "ws_inv ?m"
    using m' by (cases ?o) (auto intro!: ws_inv_onConn simp: ws_inv_def)
  moreover have "c < nextConn ?m" "conn_UserID (conns ?m c) = conn_UserID (conns m' c)"
    using m'(2) by (cases ?o; simp)+
  ultimately show ?case
    using ws_inv_update [of ?m c]
    by (cases ?o) (simp_all add: run_register_def CloseWithReason_onConn Let_def)
next
  case (broadcast m msg)
  then show ?case by (simp add: Broadcast_def offer_onConn ws_inv_fold conn_ok_offer)
next
  case (shutdown m)
  then show ?case by (simp add: Shutdown_def CloseWithReason_onConn ws_inv_fold)
next
  case (read_end c m)
  let ?m = "onConn c (\<lambda>x. x\<lparr>reading := False\<rparr>) m"
  have "ws_inv ?m" using read_end by (intro ws_inv_onConn) (auto simp: ws_inv_def conn_ok_flags)
  then show ?case by (simp add: pump_read_end_def CloseWithReason_onConn ws_inv_close ws_inv_unregister)
next
  case (ping c m ok)
  then show ?case
    by (auto simp: pump_ping_def CloseWithReason_onConn ws_inv_def conn_ok_flags intro!: ws_inv_onConn)
qed (auto simp: push_onConn CloseWithReason_onConn pump_write_onConn hasRoom_def ws_inv_def
    conn_ok_push conn_ok_write intro!: ws_inv_onConn)

lemma ws_reach_inv: "ws_reach m \<Longrightarrow> ws_inv m"
proof (induction rule: ws_reach.induct)
  case start
  then show ?case by (simp add: ws_inv_def NewManager_def conn_ok_def newConnection_def)
qed (rule ws_inv_step)

section \<open>Properties\<close>

text \<open>C20. In every interleaving of connects, broadcasts, sends, pumps and disconnects, each connection
  hands its messages to the websocket in the order they were queued, without duplicates or gaps, and
  never queues more than 1024; and a user is only ever mapped to a connection of that user.\<close>

theorem ws_fifo_delivery:
  assumes "ws_reach m"
  shows "(\<exists>rest. enqueued (conns m c) = written (conns m c) @ rest) \<and>
     (writing (conns m c) \<longrightarrow> enqueued (conns m c) = written (conns m c) @ Send (conns m c)) \<and>
     length (Send (conns m c)) \<le> 1024 \<and>
     (map_of (clients m) u = Some d \<longrightarrow> conn_UserID (conns m d) = u)"
proof -
  note inv = ws_reach_inv [OF assms]
  then have "conn_ok (conns m c)" by (simp add: ws_inv_def)
  moreover have "map_of (clients m) u = Some d \<Longrightarrow> conn_UserID (conns m d) = u"
    using ws_invD [OF inv] by (blast dest: map_of_SomeD)
  ultimately show ?thesis by (auto simp: conn_ok_def sendCap_def)
qed

text \<open>User 7 connects and is sent two messages, of which one is written.\<close>

definition sample_ws :: Manager where
  "sample_ws = pump_write True 0 (push ''b'' 0 (push ''a'' 0 (run_register 0 (snd (Register 7 NewManager)))))"

lemma sample_ws_reach: "ws_reach sample_ws"
proof -
  let ?m0 = "run_register 0 (snd (Register 7 NewManager))"
  have "ws_step NewManager ?m0" by (rule connect) (simp add: Register_def NewManager_def)
  moreover have "ws_step ?m0 (push ''a'' 0 ?m0)"
    by (rule send [where u = 7]) (simp_all add: ws_defs NewManager_def newConnection_def sendCap_def)
  moreover have "ws_step (push ''a'' 0 ?m0) (push ''b'' 0 (push ''a'' 0 ?m0))"
    by (rule send [where u = 7]) (simp_all add: ws_defs NewManager_def newConnection_def sendCap_def)
  moreover have "ws_step (push ''b'' 0 (push ''a'' 0 ?m0)) sample_ws"
    unfolding sample_ws_def
    by (rule write_ok) (simp_all add: ws_defs NewManager_def newConnection_def)
  ultimately show ?thesis by (meson ws_reach.start ws_reach.step)
qed

theorem ws_fifo_delivery_witness:
  "enqueued (conns sample_ws 0) = written (conns sample_ws 0) @ Send (conns sample_ws 0) \<and>
   written (conns sample_ws 0) = [''a''] \<and> Send (conns sample_ws 0) = [''b'']"
proof -
  have "writing (conns sample_ws 0)" "written (conns sample_ws 0) = [''a'']" "Send (conns sample_ws 0) = [''b'']"
    by (simp_all add: sample_ws_def ws_defs NewManager_def newConnection_def)
  with ws_fifo_delivery [OF sample_ws_reach, of 0] show ?thesis by blast
qed

text \<open>A broadcast offers the message once to every registered connection and to no other: it is queued
  where there is room, and a connection without room is closed.\<close>

theorem broadcast_offers_once:
  assumes "ws_reach m"
  shows "conns (Broadcast msg m) c =
     (if c \<in> snd ` set (clients m)
      then (if length (Send (conns m c)) < 1024
            then (conns m c)\<lparr>Send := Send (conns m c) @ [msg], enqueued := enqueued (conns m c) @ [msg]\<rparr>
            else closeConn ReasonBufferFull (conns m c))
      else conns m c)
   \<and> clients (Broadcast msg m) = clients m"
  using fold_onConn [OF ws_inv_clients_distinct [OF ws_reach_inv [OF assms]], of "offerConn msg" m c]
  by (simp add: Broadcast_def offer_onConn offerConn_def pushConn_def sendCap_def)

theorem broadcast_offers_once_witness:
  "Send (conns (Broadcast ''c'' sample_ws) 0) = [''b'', ''c'']"
proof -
  have "0 \<in> snd ` set (clients sample_ws)" "Send (conns sample_ws 0) = [''b'']"
    by (simp_all add: sample_ws_def ws_defs NewManager_def newConnection_def)
  with broadcast_offers_once [OF sample_ws_reach, of "''c''" 0] show ?thesis by simp
qed

text \<open>C21. A user who reconnects is lost when the old connection ends.  The new connection closes the old one,
  whose read pump then fails and unregisters; the removal goes by the user alone and takes the entry
  of the new connection with it, which stays open and cannot be reached any more.\<close>

theorem reconnect_is_unregistered:
  assumes "ws_reach m" "map_of (clients m) u = Some old" "reading (conns m old)"
  shows "\<exists>new m1 m2. ws_step m m1 \<and> ws_step m1 m2 \<and> m2 = pump_read_end old m1 \<and>
     map_of (clients m1) u = Some new \<and> closed (conns m1 old) \<noteq> None \<and>
     map_of (clients m2) u = None \<and> closed (conns m2 new) = None \<and>
     (\<forall>msg later. SendToUser u msg later m2 = m2)"
proof -
  let ?new = "nextConn m"
  let ?m' = "snd (Register u m)"
  let ?m1 = "run_register ?new ?m'"
  let ?m2 = "pump_read_end old ?m1"
  have old: "old < ?new" "conn_UserID (conns m old) = u"
    using ws_invD [OF ws_reach_inv [OF assms(1)] map_of_SomeD [OF assms(2)]] by auto
  have m1: "clients ?m1 = AList.update u ?new (clients m)" "nextConn ?m1 = Suc ?new"
    "conns ?m1 old = closeConn ReasonReplaced (conns m old)" "conns ?m1 ?new = newConnection u"
    using assms(2) old(1)
    by (simp_all add: Register_def run_register_def newConnection_def CloseWithReason_onConn Let_def)
  have user: "conn_UserID (conns ?m1 old) = u" "reading (conns ?m1 old)"
    using old(2) assms(3) m1(3) by (auto simp: closeConn_def split: option.splits)
  have m2: "clients ?m2 = AList.delete u (clients ?m1)" "conns ?m2 ?new = newConnection u"
    using m1 old user by (simp_all add: pump_read_end_def run_unregister_def CloseWithReason_onConn
        AList.update_conv Let_def)
  have "ws_step m ?m1" by (rule connect) (simp add: Register_def)
  moreover have "ws_step ?m1 ?m2" using old(1) m1(2) user(2) by (intro read_end) simp_all
  moreover have "closed (conns ?m1 old) \<noteq> None" using m1(3) by (simp add: closeConn_def split: option.splits)
  ultimately show ?thesis
    using m1(1) m2
    by (intro exI [of _ ?new] exI [of _ ?m1] exI [of _ ?m2])
      (simp add: AList.update_conv AList.delete_conv SendToUser_def newConnection_def)
qed

theorem reconnect_is_unregistered_witness:
  "\<exists>new m1 m2. ws_step sample_ws m1 \<and> ws_step m1 m2 \<and> map_of (clients m1) 7 = Some new \<and>
     map_of (clients m2) 7 = None \<and> closed (conns m2 new) = None"
proof -
  have "map_of (clients sample_ws) 7 = Some 0" "reading (conns sample_ws 0)"
    by (simp_all add: sample_ws_def ws_defs NewManager_def newConnection_def)
  from reconnect_is_unregistered [OF sample_ws_reach this] show ?thesis by blast
qed

end
