(* ===== verification/Utf8_Json.thy ===== *)
theory Utf8_Json
  imports Go_Base
begin

text \<open>
  The part of Go's \<^verbatim>\<open>encoding/json\<close> the program uses.  Strings are byte strings, as in Go.
  \<open>quote\<close> writes a string the way \<^verbatim>\<open>json.Marshal\<close> does: control characters, quotes, backslashes and
  the three HTML characters escaped, invalid UTF-8 replaced, \<^verbatim>\<open>U+2028\<close> and \<^verbatim>\<open>U+2029\<close> escaped.
  \<open>unquote\<close> reads a string literal with every escape, surrogate pairs included.  Numbers stay
  literals until a field of a definite type reads them.
\<close>

section \<open>UTF-8\<close>

definition byte :: "char \<Rightarrow> nat" where
  "byte c = of_char c"

definition byte_char :: "nat \<Rightarrow> char" where
  "byte_char n = char_of n"

text \<open>The byte at position \<open>i\<close> exists and lies between two bounds.\<close>

definition byte_at :: "nat \<Rightarrow> nat \<Rightarrow> string \<Rightarrow> nat \<Rightarrow> bool" where
  "byte_at lo hi cs i \<longleftrightarrow> i < length cs \<and> lo \<le> byte (cs ! i) \<and> byte (cs ! i) \<le> hi"

text \<open>The UTF-8 sequences of one to four bytes a string may begin with (\<^verbatim>\<open>utf8.DecodeRune\<close>, with its
  accept ranges for the second byte).\<close>

definition utf8_seq1 :: "string \<Rightarrow> bool" where
  "utf8_seq1 cs \<longleftrightarrow> byte_at 0 127 cs 0"

definition utf8_seq2 :: "string \<Rightarrow> bool" where
  "utf8_seq2 cs \<longleftrightarrow> byte_at 194 223 cs 0 \<and> byte_at 128 191 cs 1"

definition utf8_seq3 :: "string \<Rightarrow> bool" where
  "utf8_seq3 cs \<longleftrightarrow>
     (byte_at 224 224 cs 0 \<and> byte_at 160 191 cs 1 \<or>
      byte_at 225 236 cs 0 \<and> byte_at 128 191 cs 1 \<or>
      byte_at 237 237 cs 0 \<and> byte_at 128 159 cs 1 \<or>
      byte_at 238 239 cs 0 \<and> byte_at 128 191 cs 1) \<and> byte_at 128 191 cs 2"

definition utf8_seq4 :: "string \<Rightarrow> bool" where
  "utf8_seq4 cs \<longleftrightarrow>
     (byte_at 240 240 cs 0 \<and> byte_at 144 191 cs 1 \<or>
      byte_at 241 243 cs 0 \<and> byte_at 128 191 cs 1 \<or>
      byte_at 244 244 cs 0 \<and> byte_at 128 143 cs 1) \<and>
     byte_at 128 191 cs 2 \<and> byte_at 128 191 cs 3"

text \<open>The length of the sequence a string begins with, 0 if it begins with none.\<close>

definition utf8_len :: "string \<Rightarrow> nat" where
  "utf8_len cs =
     (if utf8_seq1 cs then 1 else if utf8_seq2 cs then 2 else if utf8_seq3 cs then 3
      else if utf8_seq4 cs then 4 else 0)"

lemma byte_at_length: "byte_at lo hi cs i \<Longrightarrow> Suc i \<le> length cs"
  by (simp add: byte_at_def)

lemma byte_at_0 [simp]: "byte_at lo hi (c # cs) 0 \<longleftrightarrow> lo \<le> byte c \<and> byte c \<le> hi"
  by (simp add: byte_at_def)

lemma utf8_seq_length:
  "utf8_seq1 cs \<Longrightarrow> 1 \<le> length cs" "utf8_seq2 cs \<Longrightarrow> 2 \<le> length cs"
  "utf8_seq3 cs \<Longrightarrow> 3 \<le> length cs" "utf8_seq4 cs \<Longrightarrow> 4 \<le> length cs"
  by (auto simp: utf8_seq1_def utf8_seq2_def utf8_seq3_def utf8_seq4_def dest: byte_at_length)

lemma utf8_len_le: "utf8_len cs \<le> length cs"
  using utf8_seq_length [of cs] by (simp add: utf8_len_def)

text \<open>Whether a string begins with a sequence does not depend on what follows the sequence.\<close>

lemma utf8_seq_cong:
  assumes "\<And>lo hi i. i < n \<Longrightarrow> byte_at lo hi xs i = byte_at lo hi ys i"
  shows "1 \<le> n \<Longrightarrow> utf8_seq1 xs = utf8_seq1 ys" "2 \<le> n \<Longrightarrow> utf8_seq2 xs = utf8_seq2 ys"
    "3 \<le> n \<Longrightarrow> utf8_seq3 xs = utf8_seq3 ys" "4 \<le> n \<Longrightarrow> utf8_seq4 xs = utf8_seq4 ys"
  using assms by (simp_all add: utf8_seq1_def utf8_seq2_def utf8_seq3_def utf8_seq4_def)

lemma utf8_len_prefix:
  assumes "utf8_len cs = n" "0 < n"
  shows "utf8_len (take n cs @ r) = n"
proof -
  have len: "n \<le> length cs" using assms utf8_len_le by blast
  have eq: "byte_at lo hi (take n cs @ r) i = byte_at lo hi cs i" if "i < n" for lo hi i
    using that len by (auto simp: byte_at_def nth_append)
  note same = utf8_seq_cong [of n "take n cs @ r" cs, OF eq]
  show ?thesis
    using assms same by (auto simp: utf8_len_def split: if_splits)
qed

text \<open>\<^verbatim>\<open>U+FFFD\<close>, and the encoding of a code point.\<close>

definition replacement :: string where
  "replacement = map byte_char [239, 191, 189]"

definition utf8_enc :: "nat \<Rightarrow> string" where
  "utf8_enc u =
     map byte_char
       (if u < 128 then [u]
        else if u < 2048 then [192 + u div 64, 128 + u mod 64]
        else if u < 65536 then [224 + u div 4096, 128 + u div 64 mod 64, 128 + u mod 64]
        else [240 + u div 262144, 128 + u div 4096 mod 64, 128 + u div 64 mod 64, 128 + u mod 64])"

section \<open>String literals\<close>

definition hex_digits :: string where
  "hex_digits = ''0123456789abcdef''"

definition line_seps :: "(string \<times> string) list" where
  "line_seps = [(map byte_char [226, 128, 168], CHR 0x5C # ''u2028''), (map byte_char [226, 128, 169], CHR 0x5C # ''u2029'')]"

definition escape_ascii :: "char \<Rightarrow> string" where
  "escape_ascii c =
     (if c = CHR 0x22 then [CHR 0x5C, CHR 0x22]
      else if c = CHR 0x5C then [CHR 0x5C, CHR 0x5C]
      else if byte c = 8 then CHR 0x5C # ''b''
      else if byte c = 12 then CHR 0x5C # ''f''
      else if byte c = 10 then CHR 0x5C # ''n''
      else if byte c = 13 then CHR 0x5C # ''r''
      else if byte c = 9 then CHR 0x5C # ''t''
      else if byte c < 32 \<or> c = CHR ''<'' \<or> c = CHR ''>'' \<or> c = CHR ''&''
      then (CHR 0x5C # ''u00'') @ [hex_digits ! (byte c div 16), hex_digits ! (byte c mod 16)]
      else [c])"

function quote_body :: "string \<Rightarrow> string" where
  "quote_body [] = []"
| "quote_body (c # cs) =
     (let n = utf8_len (c # cs); r = take n (c # cs)
      in if byte c < 128 then escape_ascii c @ quote_body cs
         else if n = 0 then (CHR 0x5C # ''ufffd'') @ quote_body cs
         else (case map_of line_seps r of Some e \<Rightarrow> e | None \<Rightarrow> r) @ quote_body (drop n (c # cs)))"
  by pat_completeness auto
termination by (relation "measure length") auto

definition quote :: "string \<Rightarrow> string" where
  "quote s = CHR 0x22 # quote_body s @ [CHR 0x22]"

definition hex_val :: "char \<Rightarrow> nat option" where
  "hex_val c =
     (let b = byte c
      in if 48 \<le> b \<and> b \<le> 57 then Some (b - 48)
         else if 97 \<le> b \<and> b \<le> 102 then Some (b - 87)
         else if 65 \<le> b \<and> b \<le> 70 then Some (b - 55)
         else None)"

fun hex4 :: "string \<Rightarrow> (nat \<times> string) option" where
  "hex4 (a # b # c # d # cs) =
     (case (hex_val a, hex_val b, hex_val c, hex_val d) of
        (Some a, Some b, Some c, Some d) \<Rightarrow> Some (((a * 16 + b) * 16 + c) * 16 + d, cs)
      | _ \<Rightarrow> None)"
| "hex4 _ = None"

lemma hex4_length: "hex4 cs = Some (u, r) \<Longrightarrow> length r < length cs"
  by (cases cs rule: hex4.cases) (auto split: option.splits)

text \<open>The code point of \<^verbatim>\<open>\uXXXX\<close> and the input after it: a surrogate pair takes both halves, a single
  surrogate is replaced.\<close>

fun escaped_rune :: "nat \<Rightarrow> string \<Rightarrow> nat \<times> string" where
  "escaped_rune u cs =
     (if 55296 \<le> u \<and> u < 57344
      then (case cs of
              b # e # ds \<Rightarrow>
                if u < 56320 \<and> b = CHR 0x5C \<and> e = CHR ''u''
                then (case hex4 ds of
                        Some (v, r) \<Rightarrow>
                          if 56320 \<le> v \<and> v < 57344
                          then (65536 + (u - 55296) * 1024 + (v - 56320), r)
                          else (65533, cs)
                      | None \<Rightarrow> (65533, cs))
                else (65533, cs)
            | _ \<Rightarrow> (65533, cs))
      else (u, cs))"

declare escaped_rune.simps [simp del]

lemma escaped_rune_length: "length (snd (escaped_rune u cs)) \<le> length cs"
  using hex4_length by (fastforce simp: escaped_rune.simps split: list.splits option.splits)

definition simple_escapes :: "(char \<times> char) list" where
  "simple_escapes =
     [(CHR 0x22, CHR 0x22), (CHR 0x5C, CHR 0x5C), (CHR ''/'', CHR ''/''), (CHR ''b'', byte_char 8),
      (CHR ''f'', byte_char 12), (CHR ''n'', byte_char 10), (CHR ''r'', byte_char 13),
      (CHR ''t'', byte_char 9)]"

definition prepend :: "string \<Rightarrow> (string \<times> string) option \<Rightarrow> (string \<times> string) option" where
  "prepend s = map_option (\<lambda>(v, r). (s @ v, r))"

function unquote :: "string \<Rightarrow> (string \<times> string) option" where
  "unquote [] = None"
| "unquote (c # cs) =
     (if c = CHR 0x22 then Some ([], cs)
      else if c = CHR 0x5C then
        (case cs of
           [] \<Rightarrow> None
         | e # es \<Rightarrow>
             (case map_of simple_escapes e of
                Some x \<Rightarrow> prepend [x] (unquote es)
              | None \<Rightarrow>
                  if e = CHR ''u''
                  then (case hex4 es of
                          None \<Rightarrow> None
                        | Some (u, r) \<Rightarrow>
                            prepend (utf8_enc (fst (escaped_rune u r))) (unquote (snd (escaped_rune u r))))
                  else None))
      else if byte c < 32 then None
      else if byte c < 128 then prepend [c] (unquote cs)
      else if utf8_len (c # cs) = 0 then prepend replacement (unquote cs)
      else prepend (take (utf8_len (c # cs)) (c # cs)) (unquote (drop (utf8_len (c # cs)) (c # cs))))"
  by pat_completeness auto
termination
proof (relation "measure length")
  fix c :: char and cs e es x u r
  assume "hex4 es = Some x" "(u, r) = x" "cs = e # es"
  then have "length r < length es" by (auto dest: hex4_length)
  with escaped_rune_length [of u r] \<open>cs = e # es\<close>
  show "(snd (escaped_rune u r), c # cs) \<in> measure length" by simp
qed auto

declare unquote.simps [simp del]
declare quote_body.simps [simp del]

text \<open>Strings made of UTF-8 sequences only.\<close>

function valid_utf8 :: "string \<Rightarrow> bool" where
  "valid_utf8 [] = True"
| "valid_utf8 (c # cs) =
     (utf8_len (c # cs) \<noteq> 0 \<and> valid_utf8 (drop (max 1 (utf8_len (c # cs))) (c # cs)))"
  by pat_completeness auto
termination by (relation "measure length") auto

declare valid_utf8.simps [simp del]

section \<open>Reading back what was written\<close>

lemma byte_char_byte [simp]: "byte_char (byte c) = c"
  by (simp add: byte_char_def byte_def)

lemma byte_byte_char [simp]: "n < 256 \<Longrightarrow> byte (byte_char n) = n"
  by (simp add: byte_char_def byte_def)

lemma byte_eqI: "byte c = byte d \<Longrightarrow> c = d"
  by (metis byte_char_byte)

lemma hex_val_digit: "d < 16 \<Longrightarrow> hex_val (hex_digits ! d) = Some d"
proof -
  assume "d < 16"
  then have "d \<in> set [0..<16]" by simp
  moreover have "list_all (\<lambda>d. hex_val (hex_digits ! d) = Some d) [0..<16]" by code_simp
  ultimately show ?thesis by (simp add: list_all_iff)
qed

lemma unquote_u:
  assumes "hex4 (ds @ cs) = Some (u, cs)" "u < 55296 \<or> 57344 \<le> u"
  shows "unquote (CHR 0x5C # CHR ''u'' # ds @ cs) = prepend (utf8_enc u) (unquote cs)"
proof -
  have "map_of simple_escapes (CHR ''u'') = None" by (simp add: simple_escapes_def)
  moreover have "escaped_rune u cs = (u, cs)" using assms(2) by (auto simp: escaped_rune.simps)
  ultimately show ?thesis using assms(1) by (subst unquote.simps) simp
qed

lemma unquote_simple:
  "map_of simple_escapes e = Some x \<Longrightarrow> unquote (CHR 0x5C # e # cs) = prepend [x] (unquote cs)"
  by (subst unquote.simps) simp

lemma escape_ascii_cases:
  "c = CHR 0x22 \<or> c = CHR 0x5C \<or> byte c \<in> {8, 12, 10, 13, 9} \<or>
   escape_ascii c = (CHR 0x5C # ''u00'') @ [hex_digits ! (byte c div 16), hex_digits ! (byte c mod 16)] \<or>
   escape_ascii c = [c] \<and> c \<noteq> CHR 0x22 \<and> c \<noteq> CHR 0x5C \<and> \<not> byte c < 32"
  by (simp add: escape_ascii_def)

lemma escape_control:
  assumes "byte c \<in> {8, 12, 10, 13, 9}"
  shows "\<exists>e. escape_ascii c = [CHR 0x5C, e] \<and> map_of simple_escapes e = Some c"
proof -
  have "c \<noteq> CHR 0x22" "c \<noteq> CHR 0x5C" using assms by (auto simp: byte_def)
  moreover have "c = byte_char (byte c)" by simp
  ultimately show ?thesis using assms
    by (elim insertE emptyE) (simp_all add: escape_ascii_def simple_escapes_def)
qed

lemma unquote_escape:
  assumes "byte c < 128"
  shows "unquote (escape_ascii c @ cs) = prepend [c] (unquote cs)"
  using escape_ascii_cases [of c]
proof (elim disjE)
  assume hex: "escape_ascii c = (CHR 0x5C # ''u00'') @ [hex_digits ! (byte c div 16), hex_digits ! (byte c mod 16)]"
  have "hex_val (CHR ''0'') = Some 0" by code_simp
  then have "hex4 ([CHR ''0'', CHR ''0'', hex_digits ! (byte c div 16), hex_digits ! (byte c mod 16)] @ cs)
      = Some (byte c, cs)"
    using assms by (simp add: hex_val_digit)
  from unquote_u [OF this] assms show ?thesis
    by (simp add: hex utf8_enc_def)
next
  assume "escape_ascii c = [c] \<and> c \<noteq> CHR 0x22 \<and> c \<noteq> CHR 0x5C \<and> \<not> byte c < 32"
  then show ?thesis using assms by (simp, subst unquote.simps) simp
next
  assume "byte c \<in> {8, 12, 10, 13, 9}"
  from escape_control [OF this] show ?thesis by (auto simp: unquote_simple)
qed (simp_all add: escape_ascii_def unquote_simple simple_escapes_def)

lemma unquote_line_sep:
  assumes "map_of line_seps r = Some e"
  shows "unquote (e @ cs) = prepend r (unquote cs)"
proof -
  have "hex_val (CHR ''2'') = Some 2" "hex_val (CHR ''0'') = Some 0" "hex_val (CHR ''8'') = Some 8"
    "hex_val (CHR ''9'') = Some 9" by code_simp+
  then have u: "hex4 (''2028'' @ cs) = Some (8232, cs)" "hex4 (''2029'' @ cs) = Some (8233, cs)" by simp_all
  have "r = utf8_enc 8232 \<and> e = CHR 0x5C # CHR ''u'' # ''2028'' \<or>
      r = utf8_enc 8233 \<and> e = CHR 0x5C # CHR ''u'' # ''2029''"
    using assms by (auto simp: line_seps_def utf8_enc_def split: if_splits)
  then show ?thesis using unquote_u [OF u(1)] unquote_u [OF u(2)] by auto
qed

lemma unquote_sequence:
  assumes "utf8_len (c # cs) = n" "0 < n" "128 \<le> byte c"
  shows "unquote (take n (c # cs) @ r) = prepend (take n (c # cs)) (unquote r)"
proof -
  obtain m where m: "n = Suc m" using assms(2) by (cases n) auto
  have len: "utf8_len (c # take m cs @ r) = n" "length (take n (c # cs)) = n"
    using utf8_len_prefix [OF assms(1,2), of r] utf8_len_le [of "c # cs"] assms(1) m by simp_all
  have "c \<noteq> CHR 0x22" "c \<noteq> CHR 0x5C" using assms(3) by (auto simp: byte_def)
  with len assms(3) m show ?thesis by (simp, subst unquote.simps) simp
qed

lemma prepend_append: "prepend a (prepend b x) = prepend (a @ b) x"
  by (cases x) (auto simp: prepend_def)

lemma prepend_Some [simp]: "prepend a (Some (v, r)) = Some (a @ v, r)"
  by (simp add: prepend_def)

lemma unquote_quote_body:
  "valid_utf8 s \<Longrightarrow> unquote (quote_body s @ CHR 0x22 # r) = Some (s, r)"
proof (induction s rule: quote_body.induct)
  case 1
  show ?case by (simp add: quote_body.simps unquote.simps)
next
  case (2 c cs)
  let ?n = "utf8_len (c # cs)"
  have n: "0 < ?n" and rest: "valid_utf8 (drop ?n (c # cs))"
    using 2(4) by (simp_all add: valid_utf8.simps max_def split: if_splits)
  show ?case
  proof (cases "byte c < 128")
    case True
    then have "?n = 1" by (simp add: utf8_len_def utf8_seq1_def)
    with 2(1) [OF refl refl True] rest True show ?thesis
      by (simp add: quote_body.simps unquote_escape)
  next
    case False
    have IH: "unquote (quote_body (drop ?n (c # cs)) @ CHR 0x22 # r) = Some (drop ?n (c # cs), r)"
      using 2(3) [OF refl refl False] n rest by simp
    let ?r = "take ?n (c # cs)"
    have "unquote ((case map_of line_seps ?r of Some e \<Rightarrow> e | None \<Rightarrow> ?r) @ t) = prepend ?r (unquote t)" for t
      using unquote_sequence [OF refl n, of t] unquote_line_sep [of ?r _ t] False
      by (auto split: option.splits)
    with False n IH show ?thesis by (simp add: quote_body.simps Let_def append_assoc)
  qed
qed

text \<open>A string literal written by \<open>quote\<close> is read back.\<close>

lemma unquote_quote: "valid_utf8 s \<Longrightarrow> unquote (tl (quote s) @ r) = Some (s, r)"
  by (simp add: quote_def unquote_quote_body)

text \<open>Plain ASCII is UTF-8.\<close>

lemma ascii_valid_utf8: "\<forall>c \<in> set s. byte c < 128 \<Longrightarrow> valid_utf8 s"
proof (induction s)
  case (Cons c cs)
  then have "utf8_len (c # cs) = 1" by (simp add: utf8_len_def utf8_seq1_def)
  with Cons show ?case by (simp add: valid_utf8.simps)
qed (simp add: valid_utf8.simps)

lemma itoa_valid_utf8 [simp]: "valid_utf8 (itoa i)"
proof (rule ascii_valid_utf8)
  have "\<forall>c \<in> insert (CHR ''-'') decimal_chars. byte c < 128" by (simp add: decimal_chars_def byte_def)
  then show "\<forall>c \<in> set (itoa i). byte c < 128" using itoa_decimal [of i] by blast
qed

end
