(* ===== verification/Json.thy ===== *)
theory Json
  imports Utf8_Json
begin

text \<open>
  JSON values: writing as \<^verbatim>\<open>json.Marshal\<close> does, reading as \<^verbatim>\<open>json.Unmarshal\<close> does, and the reading of the
  fields of a struct.  The parser takes fuel, an upper bound of its recursion depth; \<open>json_parse\<close> gives
  it enough for the length of the input (\<open>pval_enough\<close>).
\<close>

section \<open>Values\<close>

datatype json =
    JNull
  | JBool bool
  | JNum string
  | JStr string
  | JArr "json list"
  | JObj "(string \<times> json) list"

definition json_int :: "int \<Rightarrow> json" where
  "json_int i = JNum (itoa i)"

fun commas :: "string list \<Rightarrow> string" where
  "commas [] = []"
| "commas [x] = x"
| "commas (x # y # ys) = x @ CHR '','' # commas (y # ys)"

fun json_enc :: "json \<Rightarrow> string" where
  "json_enc JNull = ''null''"
| "json_enc (JBool b) = (if b then ''true'' else ''false'')"
| "json_enc (JNum l) = l"
| "json_enc (JStr s) = quote s"
| "json_enc (JArr js) = CHR ''['' # commas (map json_enc js) @ '']''"
| "json_enc (JObj kvs) =
     CHR ''{'' # commas (map (\<lambda>(k, v). quote k @ CHR '':'' # json_enc v) kvs) @ ''}''"

text \<open>A Go map is written with its keys in order; the association list is given sorted.\<close>

section \<open>Reading\<close>

definition is_ws :: "char \<Rightarrow> bool" where
  "is_ws c \<longleftrightarrow> byte c = 32 \<or> byte c = 9 \<or> byte c = 10 \<or> byte c = 13"

definition skip :: "string \<Rightarrow> string" where
  "skip = dropWhile is_ws"

definition is_digit :: "char \<Rightarrow> bool" where
  "is_digit c \<longleftrightarrow> 48 \<le> byte c \<and> byte c \<le> 57"

definition strip_lit :: "string \<Rightarrow> string \<Rightarrow> string option" where
  "strip_lit l s = (if take (length l) s = l then Some (drop (length l) s) else None)"

text \<open>The parts of a number: integer, fraction, exponent; each gives the characters it took.\<close>

definition int_part :: "string \<Rightarrow> (string \<times> string) option" where
  "int_part s =
     (case s of
        [] \<Rightarrow> None
      | c # cs \<Rightarrow>
          if c = CHR ''0'' then Some ([c], cs)
          else if is_digit c then Some (c # takeWhile is_digit cs, dropWhile is_digit cs)
          else None)"

definition digits1 :: "string \<Rightarrow> (string \<times> string) option" where
  "digits1 s = (if takeWhile is_digit s = [] then None else Some (takeWhile is_digit s, dropWhile is_digit s))"

definition frac_part :: "string \<Rightarrow> (string \<times> string) option" where
  "frac_part s =
     (case s of
        c # cs \<Rightarrow> if c = CHR ''.'' then map_option (\<lambda>(d, r). (c # d, r)) (digits1 cs) else Some ([], s)
      | [] \<Rightarrow> Some ([], []))"

definition exp_part :: "string \<Rightarrow> (string \<times> string) option" where
  "exp_part s =
     (case s of
        e # cs \<Rightarrow>
          if e = CHR ''e'' \<or> e = CHR ''E''
          then (case cs of
                  sg # ds \<Rightarrow>
                    if sg = CHR ''+'' \<or> sg = CHR ''-''
                    then map_option (\<lambda>(d, r). (e # sg # d, r)) (digits1 ds)
                    else map_option (\<lambda>(d, r). (e # d, r)) (digits1 cs)
                | [] \<Rightarrow> None)
          else Some ([], s)
      | [] \<Rightarrow> Some ([], []))"

definition pnum :: "string \<Rightarrow> (string \<times> string) option" where
  "pnum s =
     (let (sign, t) = (case s of c # cs \<Rightarrow> if c = CHR ''-'' then ([c], cs) else ([], s) | [] \<Rightarrow> ([], []))
      in case int_part t of
           None \<Rightarrow> None
         | Some (i, t) \<Rightarrow>
             (case frac_part t of
                None \<Rightarrow> None
              | Some (f, t) \<Rightarrow>
                  (case exp_part t of
                     None \<Rightarrow> None
                   | Some (e, t) \<Rightarrow> Some (sign @ i @ f @ e, t))))"

fun pval :: "nat \<Rightarrow> string \<Rightarrow> (json \<times> string) option"
  and pelems :: "nat \<Rightarrow> string \<Rightarrow> (json list \<times> string) option"
  and pfields :: "nat \<Rightarrow> string \<Rightarrow> ((string \<times> json) list \<times> string) option" where
  "pval 0 s = None"
| "pval (Suc n) s =
     (case skip s of
        [] \<Rightarrow> None
      | c # cs \<Rightarrow>
          if c = CHR 0x22 then map_option (\<lambda>(v, r). (JStr v, r)) (unquote cs)
          else if c = CHR ''['' then
            (case skip cs of
               [] \<Rightarrow> None
             | d # ds \<Rightarrow>
                 if d = CHR '']'' then Some (JArr [], ds)
                 else map_option (\<lambda>(v, r). (JArr v, r)) (pelems n cs))
          else if c = CHR ''{'' then
            (case skip cs of
               [] \<Rightarrow> None
             | d # ds \<Rightarrow>
                 if d = CHR ''}'' then Some (JObj [], ds)
                 else map_option (\<lambda>(v, r). (JObj v, r)) (pfields n cs))
          else (case strip_lit ''null'' (c # cs) of
                  Some r \<Rightarrow> Some (JNull, r)
                | None \<Rightarrow>
               (case strip_lit ''true'' (c # cs) of
                  Some r \<Rightarrow> Some (JBool True, r)
                | None \<Rightarrow>
               (case strip_lit ''false'' (c # cs) of
                  Some r \<Rightarrow> Some (JBool False, r)
                | None \<Rightarrow> map_option (\<lambda>(l, r). (JNum l, r)) (pnum (c # cs))))))"
| "pelems 0 s = None"
| "pelems (Suc n) s =
     (case pval n s of
        None \<Rightarrow> None
      | Some (v, r) \<Rightarrow>
          (case skip r of
             [] \<Rightarrow> None
           | c # cs \<Rightarrow>
               if c = CHR '']'' then Some ([v], cs)
               else if c = CHR '','' then map_option (\<lambda>(vs, r). (v # vs, r)) (pelems n cs)
               else None))"
| "pfields 0 s = None"
| "pfields (Suc n) s =
     (case skip s of
        [] \<Rightarrow> None
      | c # cs \<Rightarrow>
          if c \<noteq> CHR 0x22 then None
          else (case unquote cs of
                  None \<Rightarrow> None
                | Some (k, r) \<Rightarrow>
                    (case skip r of
                       [] \<Rightarrow> None
                     | d # ds \<Rightarrow>
                         if d \<noteq> CHR '':'' then None
                         else (case pval n ds of
                                 None \<Rightarrow> None
                               | Some (v, r) \<Rightarrow>
                                   (case skip r of
                                      [] \<Rightarrow> None
                                    | e # es \<Rightarrow>
                                        if e = CHR ''}'' then Some ([(k, v)], es)
                                        else if e = CHR '','' then map_option (\<lambda>(fs, r). ((k, v) # fs, r)) (pfields n es)
                                        else None)))))"

definition json_parse :: "string \<Rightarrow> json option" where
  "json_parse s =
     (case pval (2 * length s + 2) s of
        Some (j, r) \<Rightarrow> if skip r = [] then Some j else None
      | None \<Rightarrow> None)"

declare pval.simps [simp del] pelems.simps [simp del] pfields.simps [simp del]

section \<open>Reading integers\<close>

definition digit_value :: "char \<Rightarrow> nat" where
  "digit_value c = byte c - 48"

fun digits_value :: "string \<Rightarrow> nat \<Rightarrow> nat" where
  "digits_value [] acc = acc"
| "digits_value (c # cs) acc = digits_value cs (acc * 10 + digit_value c)"

text \<open>\<^verbatim>\<open>strconv.ParseInt(s, 10, 64)\<close> on a number literal: no fraction, no exponent, in range.\<close>

definition parse_int :: "string \<Rightarrow> int option" where
  "parse_int l =
     (case l of
        [] \<Rightarrow> None
      | c # cs \<Rightarrow>
          if c = CHR ''-'' then
            (if cs \<noteq> [] \<and> list_all is_digit cs then Some (- int (digits_value cs 0)) else None)
          else if list_all is_digit l then Some (int (digits_value l 0)) else None)"

definition parse_int64 :: "string \<Rightarrow> int64 option" where
  "parse_int64 l =
     (case parse_int l of
        Some i \<Rightarrow> if - (2 ^ 63) \<le> i \<and> i < 2 ^ 63 then Some (word_of_int i) else None
      | None \<Rightarrow> None)"

section \<open>Fields of a struct\<close>

text \<open>A key matches a field by its name, or else up to the case of ASCII letters; \<open>null\<close> leaves a field as
  it is, a value of another type is an error.  \<open>'f\<close> is the type of the struct.\<close>

definition lower :: "char \<Rightarrow> char" where
  "lower c = (if 65 \<le> byte c \<and> byte c \<le> 90 then byte_char (byte c + 32) else c)"

definition upper :: "char \<Rightarrow> char" where
  "upper c = (if 97 \<le> byte c \<and> byte c \<le> 122 then byte_char (byte c - 32) else c)"

definition find_field :: "(string \<times> 'a) list \<Rightarrow> string \<Rightarrow> 'a option" where
  "find_field fields k =
     (case map_of fields k of
        Some f \<Rightarrow> Some f
      | None \<Rightarrow> map_option snd (find (\<lambda>(n, _). map lower n = map lower k) fields))"

definition str_field :: "(string \<Rightarrow> 'f \<Rightarrow> 'f) \<Rightarrow> json \<Rightarrow> 'f \<Rightarrow> 'f option" where
  "str_field upd j x = (case j of JStr s \<Rightarrow> Some (upd s x) | JNull \<Rightarrow> Some x | _ \<Rightarrow> None)"

definition int64_field :: "(int64 \<Rightarrow> 'f \<Rightarrow> 'f) \<Rightarrow> json \<Rightarrow> 'f \<Rightarrow> 'f option" where
  "int64_field upd j x =
     (case j of JNum l \<Rightarrow> map_option (\<lambda>w. upd w x) (parse_int64 l) | JNull \<Rightarrow> Some x | _ \<Rightarrow> None)"

fun set_fields :: "(string \<times> (json \<Rightarrow> 'f \<Rightarrow> 'f option)) list \<Rightarrow> (string \<times> json) list \<Rightarrow> 'f \<Rightarrow> 'f option" where
  "set_fields fields [] x = Some x"
| "set_fields fields ((k, v) # kvs) x =
     (case find_field fields k of
        None \<Rightarrow> set_fields fields kvs x
      | Some f \<Rightarrow> (case f v x of None \<Rightarrow> None | Some x \<Rightarrow> set_fields fields kvs x))"

text \<open>Reading a struct: an object sets its fields, \<open>null\<close> none, anything else is an error.\<close>

definition struct_of :: "(string \<times> (json \<Rightarrow> 'f \<Rightarrow> 'f option)) list \<Rightarrow> 'f \<Rightarrow> json \<Rightarrow> 'f option" where
  "struct_of fields zero j =
     (case j of JObj kvs \<Rightarrow> set_fields fields kvs zero | JNull \<Rightarrow> Some zero | _ \<Rightarrow> None)"

section \<open>Integers\<close>

lemma decimal_is_digit: "c \<in> decimal_chars \<Longrightarrow> is_digit c"
  by (auto simp: decimal_chars_def is_digit_def byte_def)

lemma nat_digits_is_digit: "list_all is_digit (nat_digits n)"
  using nat_digits_decimal [of n] decimal_is_digit by (auto simp: list_all_iff)

lemma digit_value_char: "d < 10 \<Longrightarrow> digit_value (digit_char d) = d"
proof -
  assume "d < 10"
  then have "d \<in> set [0..<10]" by simp
  moreover have "list_all (\<lambda>d. digit_value (digit_char d) = d) [0..<10]" by code_simp
  ultimately show ?thesis by (simp add: list_all_iff)
qed

lemma digits_value_snoc: "digits_value (cs @ [c]) acc = digits_value cs acc * 10 + digit_value c"
  by (induction cs arbitrary: acc) simp_all

lemma digits_value_nat_digits: "digits_value (nat_digits n) 0 = n"
proof (induction n rule: nat_digits.induct)
  case (1 n)
  show ?case
  proof (cases "n < 10")
    case True
    then show ?thesis by (simp add: nat_digits.simps [of n] digit_value_char)
  next
    case False
    with 1 have "digits_value (nat_digits (n div 10)) 0 = n div 10" by simp
    with False show ?thesis
      by (simp add: nat_digits.simps [of n] digits_value_snoc digit_value_char)
  qed
qed

lemma nat_digits_head: "hd (nat_digits n) \<noteq> CHR ''-''"
  using minus_no_digits [of "tl (nat_digits n)" n] nat_digits_nonempty [of n] by (metis list.collapse)

lemma parse_int_itoa [simp]: "parse_int (itoa i) = Some i"
proof (cases "i < 0")
  case True
  then show ?thesis
    using nat_digits_nonempty nat_digits_is_digit digits_value_nat_digits
    by (simp add: parse_int_def itoa_def)
next
  case False
  obtain c cs where c: "nat_digits (nat i) = c # cs"
    using nat_digits_nonempty by (meson list.exhaust)
  with nat_digits_head [of "nat i"] have "c \<noteq> CHR ''-''" by simp
  with False c nat_digits_is_digit [of "nat i"] digits_value_nat_digits [of "nat i"] show ?thesis
    by (simp add: parse_int_def itoa_def)
qed

lemma parse_int64_itoa [simp]: "parse_int64 (itoa (sint w)) = Some w"
  using sint_greater_eq [of w] sint_less [of w] by (simp add: parse_int64_def)

section \<open>Round trip\<close>

text \<open>What may follow a value: nothing, a delimiter, or the line feed an encoder writes after it.\<close>

definition delim :: "string \<Rightarrow> bool" where
  "delim r \<longleftrightarrow> r = [] \<or> hd r \<in> {CHR '','', CHR '']'', CHR ''}'', CHR 0x0A}"

lemma delim_facts:
  assumes "delim r"
  shows "takeWhile is_digit r = []" "dropWhile is_digit r = r"
    "frac_part r = Some ([], r)" "exp_part r = Some ([], r)"
  using assms by (cases r; auto simp: delim_def is_digit_def byte_def frac_part_def exp_part_def)+

lemma nat_digits_no_zero: "0 < n \<Longrightarrow> hd (nat_digits n) \<noteq> CHR ''0''"
proof (induction n rule: nat_digits.induct)
  case (1 n)
  show ?case
  proof (cases "n < 10")
    case True
    then have "digit_char n \<noteq> digit_char 0" using digit_char_inj [of n 0] 1 by auto
    with True show ?thesis by (simp add: nat_digits.simps [of n] digit_char_def)
  next
    case False
    with 1 show ?thesis using nat_digits_nonempty [of "n div 10"] by (simp add: nat_digits.simps [of n])
  qed
qed

lemma int_part_nat_digits:
  assumes "delim r"
  shows "int_part (nat_digits n @ r) = Some (nat_digits n, r)"
proof (cases "n = 0")
  case True
  then show ?thesis by (simp add: nat_digits.simps int_part_def digit_char_def)
next
  case False
  obtain c cs where c: "nat_digits n = c # cs" using nat_digits_nonempty by (meson list.exhaust)
  with nat_digits_no_zero [of n] False nat_digits_is_digit [of n]
  have "c \<noteq> CHR ''0''" "is_digit c" "list_all is_digit cs" by auto
  then show ?thesis using delim_facts [OF assms]
    by (simp add: c int_part_def takeWhile_append2 dropWhile_append2 list_all_iff)
qed

lemma pnum_itoa:
  assumes "delim r"
  shows "pnum (itoa i @ r) = Some (itoa i, r)"
proof -
  obtain c cs where c: "nat_digits (nat i) = c # cs" using nat_digits_nonempty by (meson list.exhaust)
  with nat_digits_head [of "nat i"] have "c \<noteq> CHR ''-''" by simp
  with c int_part_nat_digits [OF assms] int_part_nat_digits [OF assms, of "nat i"] delim_facts [OF assms]
  show ?thesis by (auto simp: pnum_def itoa_def Let_def)
qed

fun json_wf :: "json \<Rightarrow> bool" where
  "json_wf (JNum l) = (\<exists>i. l = itoa i)"
| "json_wf (JStr s) = valid_utf8 s"
| "json_wf (JArr js) = (\<forall>j \<in> set js. json_wf j)"
| "json_wf (JObj kvs) = (\<forall>(k, v) \<in> set kvs. valid_utf8 k \<and> json_wf v)"
| "json_wf _ = True"

text \<open>The first character of a value: no white space, no closing bracket.\<close>

definition opener :: "char \<Rightarrow> bool" where
  "opener c \<longleftrightarrow> \<not> is_ws c \<and> c \<noteq> CHR '']'' \<and> c \<noteq> CHR ''}''"

lemma itoa_head: "\<exists>c cs. itoa i = c # cs \<and> (c = CHR ''-'' \<or> is_digit c)"
proof -
  obtain c cs where "nat_digits (nat i) = c # cs" using nat_digits_nonempty by (meson list.exhaust)
  with nat_digits_is_digit [of "nat i"] show ?thesis by (auto simp: itoa_def)
qed

lemma number_head:
  "c = CHR ''-'' \<or> is_digit c \<Longrightarrow> opener c \<and> c \<noteq> CHR 0x22 \<and> c \<noteq> CHR ''['' \<and> c \<noteq> CHR ''{'' \<and>
     c \<noteq> CHR ''n'' \<and> c \<noteq> CHR ''t'' \<and> c \<noteq> CHR ''f''"
  by (auto simp: opener_def is_ws_def is_digit_def byte_def)

lemma json_enc_head: "json_wf j \<Longrightarrow> \<exists>c cs. json_enc j = c # cs \<and> opener c"
proof (cases j)
  case (JNum l)
  assume "json_wf j"
  with JNum obtain i where "l = itoa i" by auto
  moreover obtain c cs where "itoa i = c # cs" "c = CHR ''-'' \<or> is_digit c" using itoa_head by blast
  ultimately show ?thesis using JNum number_head [of c] by simp
qed (auto simp: opener_def is_ws_def byte_def quote_def)

lemma skip_opener [simp]: "opener c \<Longrightarrow> skip (c # cs) = c # cs"
  by (simp add: skip_def opener_def)

lemma openers [simp]:
  "opener (CHR 0x22)" "opener (CHR ''['')" "opener (CHR ''{'')" "opener (CHR ''n'')" "opener (CHR ''t'')"
  "opener (CHR ''f'')" "opener (CHR '','')" "opener (CHR '':'')"
  by (simp_all add: opener_def is_ws_def byte_def)

lemma skip_closers [simp]: "skip (CHR '']'' # cs) = CHR '']'' # cs" "skip (CHR ''}'' # cs) = CHR ''}'' # cs"
  by (simp_all add: skip_def is_ws_def byte_def)

lemma delim_closers [simp]: "delim (CHR '','' # r)" "delim (CHR '']'' # r)" "delim (CHR ''}'' # r)" "delim []"
  by (simp_all add: delim_def)

lemma commas_Cons: "ys \<noteq> [] \<Longrightarrow> commas (y # ys) = y @ CHR '','' # commas ys"
  by (cases ys) simp_all

text \<open>\<open>reads j\<close>: the parser reads \<open>j\<close> back from its text, whatever delimiter follows.\<close>

definition reads :: "json \<Rightarrow> bool" where
  "reads j \<longleftrightarrow> (\<forall>n r. delim r \<longrightarrow> 2 * length (json_enc j) \<le> n \<longrightarrow> pval n (json_enc j @ r) = Some (j, r))"

lemma readsD: "reads j \<Longrightarrow> delim r \<Longrightarrow> 2 * length (json_enc j) \<le> n \<Longrightarrow> pval n (json_enc j @ r) = Some (j, r)"
  by (simp add: reads_def)

lemma pelems_commas:
  "js \<noteq> [] \<Longrightarrow> \<forall>j \<in> set js. reads j \<Longrightarrow> 2 * length (commas (map json_enc js)) + 1 \<le> n \<Longrightarrow>
   pelems n (commas (map json_enc js) @ CHR '']'' # r) = Some (js, r)"
proof (induction js arbitrary: n)
  case (Cons j js)
  obtain m where n: "n = Suc m" using Cons.prems(3) by (cases n) auto
  show ?case
  proof (cases "js = []")
    case True
    with Cons.prems n readsD [of j "CHR '']'' # r" m] show ?thesis by (simp add: pelems.simps)
  next
    case False
    let ?t = "commas (map json_enc js) @ CHR '']'' # r"
    have "pval m (json_enc j @ CHR '','' # ?t) = Some (j, CHR '','' # ?t)"
      using readsD [of j "CHR '','' # ?t" m] Cons.prems n False by (simp add: commas_Cons)
    moreover have "pelems m ?t = Some (js, r)"
      using Cons.IH [OF False] Cons.prems n False by (simp add: commas_Cons)
    ultimately show ?thesis using n False by (simp add: pelems.simps commas_Cons)
  qed
qed simp

abbreviation field_enc :: "string \<times> json \<Rightarrow> string" where
  "field_enc \<equiv> \<lambda>(k, v). quote k @ CHR '':'' # json_enc v"

lemma pfields_commas:
  "kvs \<noteq> [] \<Longrightarrow> \<forall>(k, v) \<in> set kvs. valid_utf8 k \<and> reads v \<Longrightarrow>
   2 * length (commas (map field_enc kvs)) + 1 \<le> n \<Longrightarrow>
   pfields n (commas (map field_enc kvs) @ CHR ''}'' # r) = Some (kvs, r)"
proof (induction kvs arbitrary: n)
  case (Cons kv kvs)
  obtain k v where kv: "kv = (k, v)" by (cases kv)
  obtain m where n: "n = Suc m" using Cons.prems(3) by (cases n) auto
  have key: "unquote (quote_body k @ CHR 0x22 # t) = Some (k, t)" for t
    using Cons.prems(2) kv by (simp add: unquote_quote_body)
  show ?case
  proof (cases "kvs = []")
    case True
    with Cons.prems n kv key readsD [of v "CHR ''}'' # r" m] show ?thesis
      by (simp add: pfields.simps quote_def)
  next
    case False
    let ?t = "commas (map field_enc kvs) @ CHR ''}'' # r"
    have "pval m (json_enc v @ CHR '','' # ?t) = Some (v, CHR '','' # ?t)"
      using readsD [of v "CHR '','' # ?t" m] Cons.prems n kv False by (simp add: commas_Cons)
    moreover have "pfields m ?t = Some (kvs, r)"
      using Cons.IH [OF False] Cons.prems n kv False by (simp add: commas_Cons)
    ultimately show ?thesis using n False kv key by (simp add: pfields.simps commas_Cons quote_def)
  qed
qed simp

lemma skip_enc: "json_wf j \<Longrightarrow> skip (json_enc j @ r) = json_enc j @ r"
  using json_enc_head [of j] by auto

lemma reads_num: "reads (JNum (itoa i))"
  unfolding reads_def
proof (intro allI impI)
  fix n r
  assume r: "delim r" and n: "2 * length (json_enc (JNum (itoa i))) \<le> n"
  obtain c cs where c: "itoa i = c # cs" "c = CHR ''-'' \<or> is_digit c" using itoa_head by blast
  obtain m where m: "n = Suc m" using n c by (cases n) auto
  note h = number_head [OF c(2)]
  have "pnum (c # cs @ r) = Some (c # cs, r)" using pnum_itoa [OF r, of i] c(1) by simp
  with h show "pval n (json_enc (JNum (itoa i)) @ r) = Some (JNum (itoa i), r)"
    by (simp add: m c(1) pval.simps strip_lit_def)
qed

lemma reads_arr:
  assumes "\<forall>j \<in> set js. reads j" "\<forall>j \<in> set js. json_wf j"
  shows "reads (JArr js)"
  unfolding reads_def
proof (intro allI impI)
  fix n r
  assume n: "2 * length (json_enc (JArr js)) \<le> n"
  obtain m where m: "n = Suc m" using n by (cases n) auto
  show "pval n (json_enc (JArr js) @ r) = Some (JArr js, r)"
  proof (cases js)
    case Nil
    then show ?thesis by (simp add: m pval.simps)
  next
    case (Cons j js')
    have "pelems m (commas (map json_enc js) @ CHR '']'' # r) = Some (js, r)"
      using assms(1) n m Cons by (intro pelems_commas) auto
    moreover obtain c cs where "commas (map json_enc js) = c # cs" "opener c"
      using json_enc_head [of j] assms(2) Cons by (cases js') auto
    moreover from this have "c \<noteq> CHR '']''" by (simp add: opener_def)
    ultimately show ?thesis by (simp add: m pval.simps)
  qed
qed

lemma reads_obj:
  assumes "\<forall>(k, v) \<in> set kvs. valid_utf8 k \<and> reads v"
  shows "reads (JObj kvs)"
  unfolding reads_def
proof (intro allI impI)
  fix n r
  assume n: "2 * length (json_enc (JObj kvs)) \<le> n"
  obtain m where m: "n = Suc m" using n by (cases n) auto
  show "pval n (json_enc (JObj kvs) @ r) = Some (JObj kvs, r)"
  proof (cases kvs)
    case Nil
    then show ?thesis by (simp add: m pval.simps)
  next
    case (Cons kv kvs')
    have "pfields m (commas (map field_enc kvs) @ CHR ''}'' # r) = Some (kvs, r)"
      using assms n m Cons by (intro pfields_commas) auto
    moreover obtain cs where "commas (map field_enc kvs) = CHR 0x22 # cs"
      using Cons by (cases kvs'; cases kv) (auto simp: quote_def)
    ultimately show ?thesis by (simp add: m pval.simps)
  qed
qed

lemma json_reads: "json_wf j \<Longrightarrow> reads j"
proof (induction j)
  case JNull
  show ?case unfolding reads_def
    by (intro allI impI, rename_tac n r, case_tac n) (simp_all add: pval.simps strip_lit_def)
next
  case (JBool b)
  show ?case unfolding reads_def
    by (intro allI impI, rename_tac n r, case_tac n; cases b) (simp_all add: pval.simps strip_lit_def)
next
  case (JNum l)
  then show ?case using reads_num by auto
next
  case (JStr s)
  then show ?case unfolding reads_def
    by (intro allI impI, rename_tac n r, case_tac n)
      (simp_all add: pval.simps quote_def unquote_quote_body)
next
  case (JArr js)
  then show ?case by (intro reads_arr) auto
next
  case (JObj kvs)
  then show ?case by (intro reads_obj) (force simp: snds.simps)
qed

text \<open>Everything the program writes is read back.\<close>

lemma json_parse_enc: "json_wf j \<Longrightarrow> json_parse (json_enc j) = Some j"
  using readsD [OF json_reads, of j "[]"] by (simp add: json_parse_def skip_def)

lemma json_parse_line: "json_wf j \<Longrightarrow> json_parse (json_enc j @ [CHR 0x0A]) = Some j"
  using readsD [OF json_reads, of j "[CHR 0x0A]" "2 * length (json_enc j @ [CHR 0x0A]) + 2"]
  by (simp add: json_parse_def skip_def delim_def is_ws_def byte_def)

section \<open>The fuel is enough\<close>

lemma length_skip: "length (skip s) \<le> length s"
  by (simp add: skip_def length_dropWhile_le)

lemma skip_Cons_length: "skip s = c # cs \<Longrightarrow> length cs < length s"
  using length_skip [of s] by simp

lemma prepend_SomeD: "prepend a x = Some (v, r) \<Longrightarrow> \<exists>v'. x = Some (v', r)"
  by (auto simp: prepend_def)

lemma unquote_length: "unquote cs = Some (v, r) \<Longrightarrow> length r < length cs"
proof (induction "length cs" arbitrary: cs v r rule: less_induct)
  case less
  then obtain c ds where cs: "cs = c # ds" by (cases cs) (simp_all add: unquote.simps)
  have esc: "length (snd (escaped_rune u t)) \<le> length es" if "hex4 es = Some (u, t)" for es u t
    using hex4_length [OF that] escaped_rune_length [of u t] by simp
  have "r = ds \<or> (\<exists>a es. prepend a (unquote es) = Some (v, r) \<and> length es \<le> length ds)"
    using less.prems unfolding cs unquote.simps(2) [of c ds]
    by (simp split: if_splits list.splits option.splits prod.splits) (force dest: esc)+
  then show ?case
  proof (elim disjE exE conjE)
    fix a es
    assume es: "prepend a (unquote es) = Some (v, r)" "length es \<le> length ds"
    then obtain v' where "unquote es = Some (v', r)" by (auto dest: prepend_SomeD)
    with less.hyps [of es v' r] es(2) cs show ?thesis by simp
  qed (simp add: cs)
qed

lemma digits1_length: "digits1 s = Some (d, r) \<Longrightarrow> length r \<le> length s"
  by (auto simp: digits1_def length_dropWhile_le split: if_splits)

lemma int_part_length: "int_part s = Some (d, r) \<Longrightarrow> length r \<le> length s"
  using length_dropWhile_le [of is_digit "tl s"]
  by (auto simp: int_part_def split: list.splits if_splits)

lemma frac_part_length: "frac_part s = Some (d, r) \<Longrightarrow> length r \<le> length s"
  by (auto simp: frac_part_def split: list.splits if_splits dest!: digits1_length)

lemma exp_part_length: "exp_part s = Some (d, r) \<Longrightarrow> length r \<le> length s"
  by (auto simp: exp_part_def split: list.splits if_splits dest!: digits1_length)

lemma pnum_length: "pnum s = Some (d, r) \<Longrightarrow> length r \<le> length s"
  by (auto simp: pnum_def Let_def split: list.splits if_splits option.splits prod.splits
      dest!: int_part_length frac_part_length exp_part_length)

lemma strip_lit_length: "strip_lit l s = Some r \<Longrightarrow> length r \<le> length s"
  by (auto simp: strip_lit_def split: if_splits)

text \<open>One step of the parser, with the calls it makes one level down as parameters.\<close>

lemma pval_Suc_length:
  assumes "\<And>s vs r. pelems n s = Some (vs, r) \<Longrightarrow> length r \<le> length s"
    and "\<And>s fs r. pfields n s = Some (fs, r) \<Longrightarrow> length r \<le> length s"
    and "pval (Suc n) s = Some (v, r)"
  shows "length r \<le> length s"
proof -
  obtain c cs where c: "skip s = c # cs" using assms(3) by (cases "skip s") (auto simp: pval.simps)
  have "(\<exists>w. unquote cs = Some (w, r)) \<or> (\<exists>d. skip cs = d # r) \<or>
      (\<exists>w. pelems n cs = Some (w, r)) \<or> (\<exists>w. pfields n cs = Some (w, r)) \<or>
      (\<exists>l. strip_lit l (c # cs) = Some r) \<or> (\<exists>l. pnum (c # cs) = Some (l, r))"
    using assms(3) c by (auto simp: pval.simps split: if_splits list.splits option.splits)
  then have "length r \<le> length (c # cs)"
    using assms(1,2) [of cs] unquote_length [of cs] skip_Cons_length [of cs] strip_lit_length [of _ "c # cs"]
      pnum_length [of "c # cs"] by (fastforce dest: less_imp_le)
  with skip_Cons_length [OF c] show ?thesis by simp
qed

lemma parser_length:
  "(\<forall>s v r. pval n s = Some (v, r) \<longrightarrow> length r \<le> length s) \<and>
   (\<forall>s vs r. pelems n s = Some (vs, r) \<longrightarrow> length r \<le> length s) \<and>
   (\<forall>s fs r. pfields n s = Some (fs, r) \<longrightarrow> length r \<le> length s)"
proof (induction n)
  case 0
  then show ?case by (simp add: pval.simps pelems.simps pfields.simps)
next
  case (Suc n)
  have v: "length r \<le> length s" if "pval n s = Some (v, r)" for s v r using Suc that by blast
  have es: "length r \<le> length s" if "pelems n s = Some (vs, r)" for s vs r using Suc that by blast
  have fs: "length r \<le> length s" if "pfields n s = Some (fs, r)" for s fs r using Suc that by blast
  have "length r \<le> length s" if "pelems (Suc n) s = Some (vs, r)" for s vs r
    using that
    by (auto simp: pelems.simps split: option.splits list.splits if_splits
        dest!: v es skip_Cons_length)
  moreover have "length r \<le> length s" if "pfields (Suc n) s = Some (fs, r)" for s fs r
    using that
    by (auto simp: pfields.simps split: option.splits list.splits if_splits
        dest!: v fs skip_Cons_length unquote_length)
  moreover have "length r \<le> length s" if "pval (Suc n) s = Some (v, r)" for s v r
    by (rule pval_Suc_length [OF _ _ that]) (erule es, erule fs)
  ultimately show ?case by blast
qed

lemma pval_length: "pval n s = Some (v, r) \<Longrightarrow> length r \<le> length s"
  using parser_length [of n] by blast

text \<open>What the parser finds with some fuel it finds with fuel twice the length of the input.\<close>

lemma parser_enough:
  "(\<forall>s x n. pval m s = Some x \<longrightarrow> 2 * length s + 1 \<le> n \<longrightarrow> pval n s = Some x) \<and>
   (\<forall>s x n. pelems m s = Some x \<longrightarrow> 2 * length s + 2 \<le> n \<longrightarrow> pelems n s = Some x) \<and>
   (\<forall>s x n. pfields m s = Some x \<longrightarrow> 2 * length s + 1 \<le> n \<longrightarrow> pfields n s = Some x)"
proof (induction m)
  case 0
  then show ?case by (simp add: pval.simps pelems.simps pfields.simps)
next
  case (Suc m)
  have v: "pval k s = Some x" if "pval m s = Some x" "2 * length s + 1 \<le> k" for s x k
    using Suc that by blast
  have es: "pelems k s = Some x" if "pelems m s = Some x" "2 * length s + 2 \<le> k" for s x k
    using Suc that by blast
  have fs: "pfields k s = Some x" if "pfields m s = Some x" "2 * length s + 1 \<le> k" for s x k
    using Suc that by blast
  have "pval n s = Some x" if p: "pval (Suc m) s = Some x" and n: "2 * length s + 1 \<le> n" for s x n
  proof -
    obtain k where k: "n = Suc k" using n by (cases n) auto
    obtain c cs where c: "skip s = c # cs" using p by (cases "skip s") (auto simp: pval.simps)
    have len: "2 * length cs + 2 \<le> k" using skip_Cons_length [OF c] n k by simp
    have es': "pelems k cs = Some y" if "pelems m cs = Some y" for y using es [OF that len] .
    have fs': "pfields k cs = Some y" if "pfields m cs = Some y" for y using fs [OF that] len by simp
    show ?thesis using p unfolding k pval.simps c
      by (auto split: if_splits list.splits option.splits intro: es' fs')
  qed
  moreover have "pelems n s = Some x" if p: "pelems (Suc m) s = Some x" and n: "2 * length s + 2 \<le> n" for s x n
  proof -
    obtain k where k: "n = Suc k" using n by (cases n) auto
    obtain w r where w: "pval m s = Some (w, r)" using p by (auto simp: pelems.simps split: option.splits)
    from v [OF w] n k have w': "pval k s = Some (w, r)" by simp
    have es': "pelems k cs = Some y" if "pelems m cs = Some y" "skip r = c # cs" for c cs y
      using es [OF that(1)] skip_Cons_length [OF that(2)] pval_length [OF w] n k by simp
    then show ?thesis using p unfolding k pelems.simps w w'
      by (auto split: if_splits list.splits option.splits)
  qed
  moreover have "pfields n s = Some x" if p: "pfields (Suc m) s = Some x" and n: "2 * length s + 1 \<le> n" for s x n
  proof -
    obtain k where k: "n = Suc k" using n by (cases n) auto
    obtain c cs where c: "skip s = c # cs" using p by (cases "skip s") (auto simp: pfields.simps)
    obtain key r where u: "unquote cs = Some (key, r)" "c = CHR 0x22"
      using p c by (auto simp: pfields.simps split: option.splits if_splits)
    obtain d ds where d: "skip r = d # ds" "d = CHR '':''"
      using p c u by (auto simp: pfields.simps split: list.splits if_splits)
    obtain w t where w: "pval m ds = Some (w, t)"
      using p c u d by (auto simp: pfields.simps split: option.splits)
    have len: "2 * length ds + 3 \<le> k"
      using skip_Cons_length [OF c] unquote_length [OF u(1)] skip_Cons_length [OF d(1)] n k by simp
    then have w': "pval k ds = Some (w, t)" by (intro v [OF w]) simp
    have fs': "pfields k es = Some y" if "pfields m es = Some y" "skip t = e # es" for e es y
      using fs [OF that(1)] skip_Cons_length [OF that(2)] pval_length [OF w] len by simp
    then show ?thesis using p c u d unfolding k pfields.simps
      by (auto simp: w w' split: if_splits list.splits option.splits)
  qed
  ultimately show ?case by blast
qed

lemma pval_enough: "pval m s = Some (j, r) \<Longrightarrow> pval (2 * length s + 2) s = Some (j, r)"
  using parser_enough [of m, THEN conjunct1, rule_format, of s "(j, r)" "2 * length s + 2"] by simp

end
