(* ===== verification/Gateway.thy ===== *)
theory Gateway
  imports Ws_Manager Json Proto "HOL-Library.Char_ord" "HOL-Library.List_Lexorder"
begin

text \<open>
  The gateway: the use case that reads client messages and calls the game service
  (\<^verbatim>\<open>gateway/usecase\<close>), the adapters that turn events into JSON for the clients
  (\<^verbatim>\<open>gateway/adapter/local\<close>, \<^verbatim>\<open>gateway/adapter/grpc\<close>) and the WebSocket handler
  (\<^verbatim>\<open>gateway/adapter/http\<close>).  The text of a JSON error and the formatting of a number that is no
  small integer are parameters.
\<close>

section \<open>The game service as the gateway sees it\<close>

record ColorGameGetStateReq =
  gsq_UserId :: int64

record ColorGameGetStateRsp =
  gss_ErrorCode :: ErrorCode
  gss_StateJson :: string

record 'g ColorGameGSService =
  gsv_PlaceBet :: "'g \<Rightarrow> ColorGamePlaceBetReq \<Rightarrow> ColorGamePlaceBetRsp go_result \<times> 'g"
  gsv_GetState :: "'g \<Rightarrow> ColorGameGetStateReq \<Rightarrow> ColorGameGetStateRsp go_result \<times> 'g"

section \<open>Requests\<close>

record RequestEnvelope =
  req_Game :: string
  req_Command :: string
  req_Data :: "json option"

text \<open>\<^verbatim>\<open>json.RawMessage\<close> keeps the text of the value, which is parsed again later: the value itself is
  kept here.\<close>

definition raw_field :: "(json \<Rightarrow> 'f \<Rightarrow> 'f) \<Rightarrow> json \<Rightarrow> 'f \<Rightarrow> 'f option" where
  "raw_field upd j x = Some (upd j x)"

definition envelope_fields :: "(string \<times> (json \<Rightarrow> RequestEnvelope \<Rightarrow> RequestEnvelope option)) list" where
  "envelope_fields =
     [(''game_code'', str_field (\<lambda>s e. e\<lparr>req_Game := s\<rparr>)),
      (''command'', str_field (\<lambda>s e. e\<lparr>req_Command := s\<rparr>)),
      (''data'', raw_field (\<lambda>j e. e\<lparr>req_Data := Some j\<rparr>))]"

definition envelope_of :: "json \<Rightarrow> RequestEnvelope option" where
  "envelope_of = struct_of envelope_fields \<lparr>req_Game = [], req_Command = [], req_Data = None\<rparr>"

record bet_payload =
  pl_Color :: string
  pl_Amount :: int64

definition payload_fields :: "(string \<times> (json \<Rightarrow> bet_payload \<Rightarrow> bet_payload option)) list" where
  "payload_fields =
     [(''color'', str_field (\<lambda>s p. p\<lparr>pl_Color := s\<rparr>)),
      (''amount'', int64_field (\<lambda>a p. p\<lparr>pl_Amount := a\<rparr>))]"

definition payload_of :: "json \<Rightarrow> bet_payload option" where
  "payload_of = struct_of payload_fields \<lparr>pl_Color = [], pl_Amount = 0\<rparr>"

text \<open>\<^verbatim>\<open>strings.ToUpper\<close> as far as the lookup of an ASCII name can see it: ASCII letters, and the two other
  letters whose capital is ASCII, U+0131 and U+017F.  Any other letter keeps the name out of the table.\<close>

fun to_upper :: "string \<Rightarrow> string" where
  "to_upper (a # b # cs) =
     (if byte a = 196 \<and> byte b = 177 then CHR ''I'' # to_upper cs
      else if byte a = 197 \<and> byte b = 191 then CHR ''S'' # to_upper cs
      else upper a # to_upper (b # cs))"
| "to_upper [a] = [upper a]"
| "to_upper [] = []"

section \<open>Responses\<close>

definition place_bet_rsp :: "ErrorCode \<Rightarrow> string \<Rightarrow> string \<Rightarrow> json" where
  "place_bet_rsp code betID err =
     JObj [(''command'', JStr ''ColorGamePlaceBetRSP''),
           (''data'', JObj [(''bet_id'', JStr betID), (''error'', JStr err), (''error_code'', json_int (sint code))]),
           (''game_code'', JStr ''color_game'')]"

text \<open>A number read into an \<^verbatim>\<open>interface{}\<close> is a \<^verbatim>\<open>float64\<close>, printed with the fewest digits that
  read back to it: an integer of up to 53 bits is printed as it is, \<open>fmt\<close> prints the others.\<close>

definition renumber :: "(string \<Rightarrow> string) \<Rightarrow> string \<Rightarrow> string" where
  "renumber fmt l =
     (case parse_int l of
        Some i \<Rightarrow> if \<bar>i\<bar> \<le> 2 ^ 53 \<and> l \<noteq> ''-0'' then itoa i else fmt l
      | None \<Rightarrow> fmt l)"

definition map_entries :: "(string \<times> 'v) list \<Rightarrow> (string \<times> 'v) list" where
  "map_entries kvs = sort_key fst (fold (\<lambda>(k, v). AList.update k v) kvs [])"

fun any_of :: "(string \<Rightarrow> string) \<Rightarrow> json \<Rightarrow> json" where
  "any_of fmt (JNum l) = JNum (renumber fmt l)"
| "any_of fmt (JArr js) = JArr (map (any_of fmt) js)"
| "any_of fmt (JObj kvs) = JObj (map_entries (map (\<lambda>(k, v). (k, any_of fmt v)) kvs))"
| "any_of fmt j = j"

definition state_rsp :: "(string \<Rightarrow> string) \<Rightarrow> string \<Rightarrow> json" where
  "state_rsp fmt stateJson =
     JObj [(''command'', JStr ''ColorGameGetStateRSP''),
           (''data'', (case json_parse stateJson of Some j \<Rightarrow> any_of fmt j | None \<Rightarrow> JNull)),
           (''game_code'', JStr ''color_game'')]"

definition state_error :: "string \<Rightarrow> json" where
  "state_error err =
     JObj [(''command'', JStr ''error''), (''data'', JObj [(''error'', JStr err)]),
           (''game_code'', JStr ''color_game'')]"

section \<open>The use case\<close>

record 'g GatewayUseCase =
  colorGameSvc :: "'g ColorGameGSService"
  jsonError :: "string"
  floatFormat :: "string \<Rightarrow> string"

definition handleColorGame ::
    "'g GatewayUseCase \<Rightarrow> int64 \<Rightarrow> string \<Rightarrow> json option \<Rightarrow> 'g \<Rightarrow> string go_result \<times> 'g" where
  "handleColorGame uc userID command data g =
     (if command = ''ColorGamePlaceBetREQ'' then
        (case Option.bind data payload_of of
           None \<Rightarrow> (Inl (''invalid place_bet payload: '' @ jsonError uc), g)
         | Some payload \<Rightarrow>
             (case map_of ColorGameReward_value (''REWARD_'' @ to_upper (pl_Color payload)) of
                None \<Rightarrow>
                  (Inr (json_enc (place_bet_rsp INVALID_BET_OPTION [] (''invalid color: '' @ pl_Color payload))), g)
              | Some color \<Rightarrow>
                  (case gsv_PlaceBet (colorGameSvc uc) g
                          \<lparr>pbq_UserId = userID, pbq_Color = color, pbq_Amount = pl_Amount payload\<rparr> of
                     (Inl err, g) \<Rightarrow> (Inr (json_enc (place_bet_rsp INTERNAL_ERROR [] err)), g)
                   | (Inr rsp, g) \<Rightarrow>
                       if pbs_ErrorCode rsp \<noteq> SUCCESS
                       then (Inr (json_enc (place_bet_rsp (pbs_ErrorCode rsp) [] (pbs_Error rsp))), g)
                       else (Inr (json_enc (place_bet_rsp SUCCESS (pbs_BetId rsp) [])), g))))
      else if command = ''ColorGameGetStateREQ'' then
        (case gsv_GetState (colorGameSvc uc) g \<lparr>gsq_UserId = userID\<rparr> of
           (Inl err, g) \<Rightarrow> (Inr (json_enc (state_error err)), g)
         | (Inr rsp, g) \<Rightarrow> (Inr (json_enc (state_rsp (floatFormat uc) (gss_StateJson rsp))), g))
      else (Inl (''unknown command for color_game: '' @ command), g))"

definition HandleMessage ::
    "'g GatewayUseCase \<Rightarrow> int64 \<Rightarrow> string \<Rightarrow> 'g \<Rightarrow> string go_result \<times> 'g" where
  "HandleMessage uc userID message g =
     (case Option.bind (json_parse message) envelope_of of
        None \<Rightarrow> (Inl (''invalid message format: '' @ jsonError uc), g)
      | Some req \<Rightarrow>
          if req_Game req = [] \<or> req_Command req = [] then (Inl ''missing game or command'', g)
          else if req_Game req = ''color_game''
          then handleColorGame uc userID (req_Command req) (req_Data req) g
          else (Inl (''unknown game: '' @ req_Game req), g))"

section \<open>Events to clients\<close>

definition round_state_json :: "string \<Rightarrow> ColorGameRoundStateBRC \<Rightarrow> json" where
  "round_state_json gameCode e =
     JObj [(''command'', JStr ''ColorGameRoundStateBRC''),
           (''data'', JObj [(''betting_end_timestamp'', json_int (sint (brc_BettingEndTimestamp e))),
                            (''left_time'', json_int (sint (brc_LeftTime e))),
                            (''round_id'', JStr (brc_RoundId e)),
                            (''state'', JStr (state_String (brc_State e)))]),
           (''game_code'', JStr gameCode)]"

definition settlement_json :: "string \<Rightarrow> ColorGameSettlementBRC \<Rightarrow> json" where
  "settlement_json gameCode e =
     JObj [(''command'', JStr ''ColorGameSettlementBRC''),
           (''data'', JObj [(''bet_amount'', json_int (sint (sbr_BetAmount e))),
                            (''bet_color'', JStr (reward_String (sbr_BetColor e))),
                            (''bet_id'', JStr (sbr_BetId e)),
                            (''is_winner'', JBool (sbr_IsWinner e)),
                            (''round_id'', JStr (sbr_RoundId e)),
                            (''win_amount'', json_int (sint (sbr_WinAmount e))),
                            (''winning_color'', JStr (reward_String (sbr_WinningColor e)))]),
           (''game_code'', JStr gameCode)]"

text \<open>The local adapter switches on the type of the message.\<close>

definition convertEvent :: "string \<Rightarrow> proto_message \<Rightarrow> string option" where
  "convertEvent gameCode event =
     (case event of
        RoundStateMsg e \<Rightarrow> Some (json_enc (round_state_json gameCode e))
      | SettlementMsg e \<Rightarrow> Some (json_enc (settlement_json gameCode e))
      | OtherMsg _ \<Rightarrow> None)"

definition gw_Broadcast :: "string \<Rightarrow> proto_message \<Rightarrow> Manager \<Rightarrow> Manager" where
  "gw_Broadcast gameCode event m =
     (case convertEvent gameCode event of None \<Rightarrow> m | Some msgBytes \<Rightarrow> Broadcast msgBytes m)"

definition gw_SendToUser :: "int64 \<Rightarrow> string \<Rightarrow> proto_message \<Rightarrow> Manager \<Rightarrow> Manager \<Rightarrow> Manager" where
  "gw_SendToUser userID gameCode event later m =
     (case convertEvent gameCode event of None \<Rightarrow> m | Some msgBytes \<Rightarrow> SendToUser userID msgBytes later m)"

text \<open>In the gRPC adapter the event arrives in an \<^verbatim>\<open>Any\<close>; \<^verbatim>\<open>UnmarshalTo\<close> succeeds for the message type
  its URL names, and the two types are tried in turn.\<close>

definition UnmarshalTo_RoundState :: "proto_message \<Rightarrow> ColorGameRoundStateBRC option" where
  "UnmarshalTo_RoundState e = (case e of RoundStateMsg m \<Rightarrow> Some m | _ \<Rightarrow> None)"

definition UnmarshalTo_Settlement :: "proto_message \<Rightarrow> ColorGameSettlementBRC option" where
  "UnmarshalTo_Settlement e = (case e of SettlementMsg m \<Rightarrow> Some m | _ \<Rightarrow> None)"

definition grpc_convertEvent :: "string \<Rightarrow> proto_message \<Rightarrow> string option" where
  "grpc_convertEvent gameCode anyEvent =
     (case UnmarshalTo_RoundState anyEvent of
        Some brcState \<Rightarrow> Some (json_enc (round_state_json gameCode brcState))
      | None \<Rightarrow>
          (case UnmarshalTo_Settlement anyEvent of
             Some brcSettlement \<Rightarrow> Some (json_enc (settlement_json gameCode brcSettlement))
           | None \<Rightarrow> None))"

lemma grpc_convertEvent_eq: "grpc_convertEvent = convertEvent"
  by (auto simp: fun_eq_iff grpc_convertEvent_def convertEvent_def UnmarshalTo_RoundState_def
      UnmarshalTo_Settlement_def split: proto_message.splits)

text \<open>The handlers: a missing event is a success, too.\<close>

record BroadcastRsp =
  brs_ErrorCode :: ErrorCode
  brs_Success :: bool

definition grpc_Broadcast :: "string \<Rightarrow> proto_message option \<Rightarrow> Manager \<Rightarrow> BroadcastRsp \<times> Manager" where
  "grpc_Broadcast gameCode event m =
     (case event of
        None \<Rightarrow> (\<lparr>brs_ErrorCode = SUCCESS, brs_Success = True\<rparr>, m)
      | Some e \<Rightarrow>
          (\<lparr>brs_ErrorCode = SUCCESS, brs_Success = True\<rparr>,
           case grpc_convertEvent gameCode e of None \<Rightarrow> m | Some msgBytes \<Rightarrow> Broadcast msgBytes m))"

definition grpc_SendToUser ::
    "int64 \<Rightarrow> string \<Rightarrow> proto_message option \<Rightarrow> Manager \<Rightarrow> Manager \<Rightarrow> BroadcastRsp \<times> Manager" where
  "grpc_SendToUser userID gameCode event later m =
     (case event of
        None \<Rightarrow> (\<lparr>brs_ErrorCode = SUCCESS, brs_Success = True\<rparr>, m)
      | Some e \<Rightarrow>
          (\<lparr>brs_ErrorCode = SUCCESS, brs_Success = True\<rparr>,
           case grpc_convertEvent gameCode e of
             None \<Rightarrow> m | Some msgBytes \<Rightarrow> SendToUser userID msgBytes later m))"

section \<open>The WebSocket handler\<close>

definition StatusUnauthorized :: nat where
  "StatusUnauthorized = 401"

text \<open>\<open>validate\<close> is the token check of the user service and \<open>'w\<close> its state; when it panics, or the upgrade
  (\<open>upgraded\<close>) fails, there is no connection and no response of the handler.  The result is the HTTP
  status of a refusal, or the connection that was registered.\<close>

definition HandleWebSocket ::
    "(string \<Rightarrow> 'w \<Rightarrow> (int64 \<times> string \<times> go_time) go_result option \<times> 'w) \<Rightarrow> bool \<Rightarrow> string \<Rightarrow> 'w \<Rightarrow> Manager
      \<Rightarrow> (nat + nat option) \<times> 'w \<times> Manager" where
  "HandleWebSocket validate upgraded token w m =
     (if token = [] then (Inl StatusUnauthorized, w, m)
      else case validate token w of
             (None, w) \<Rightarrow> (Inr None, w, m)
           | (Some (Inl _), w) \<Rightarrow> (Inl StatusUnauthorized, w, m)
           | (Some (Inr (userID, _, _)), w) \<Rightarrow>
               if \<not> upgraded then (Inr None, w, m)
               else let (client, m) = Register userID m in (Inr (Some client), w, run_register client m))"

text \<open>The contract of the user service: it accepts a token only for the user the token is authentic for.\<close>

locale user_service =
  fixes validate :: "string \<Rightarrow> 'w \<Rightarrow> (int64 \<times> string \<times> go_time) go_result option \<times> 'w"
    and authentic :: "'w \<Rightarrow> string \<Rightarrow> int64 \<Rightarrow> bool"
  assumes accepts: "validate token w = (Some (Inr (u, name, expiry)), w') \<Longrightarrow> authentic w token u"
begin

lemma connected:
  assumes "HandleWebSocket validate upgraded token w m = (Inr (Some c), w', m')"
  shows "\<exists>u. authentic w token u \<and> token \<noteq> [] \<and> conn_UserID (conns m' c) = u \<and>
     map_of (clients m') u = Some c \<and> c = nextConn m"
  using assms accepts
  by (force simp: HandleWebSocket_def Register_def run_register_def newConnection_def CloseWithReason_onConn
      Let_def update_conv' split: if_splits option.splits sum.splits prod.splits)

lemma not_connected:
  assumes "HandleWebSocket validate upgraded token w m = (r, w', m')" "\<And>c. r \<noteq> Inr (Some c)"
  shows "m' = m"
  using assms by (auto simp: HandleWebSocket_def Let_def split: if_splits option.splits sum.splits prod.splits)

end

text \<open>What the read pump does with a message.\<close>

definition onMessage ::
    "'g GatewayUseCase \<Rightarrow> int64 \<Rightarrow> string \<Rightarrow> Manager \<Rightarrow> 'g \<Rightarrow> Manager \<Rightarrow> 'g \<times> Manager" where
  "onMessage uc userID message later g m =
     (case HandleMessage uc userID message g of
        (Inl err, g) \<Rightarrow>
          (g, SendToUser userID (json_enc (JObj [(''error'', JStr err), (''type'', JStr ''error'')])) later m)
      | (Inr response, g) \<Rightarrow> (g, SendToUser userID response later m))"

end
