(* ===== verification/Gateway_Props.thy ===== *)
theory Gateway_Props
  imports Gateway
begin

text \<open>
  What the gateway guarantees: a bet message reaches the game service as the bet it describes, a
  message leads to at most one call, for the authenticated user, and clients can read every event
  back from its JSON.
\<close>

section \<open>Names are UTF-8\<close>

lemma utf8_names [simp]:
  "valid_utf8 ''command''" "valid_utf8 ''data''" "valid_utf8 ''game_code''" "valid_utf8 ''color_game''"
  "valid_utf8 ''bet_id''" "valid_utf8 ''error''" "valid_utf8 ''error_code''" "valid_utf8 ''color''"
  "valid_utf8 ''amount''" "valid_utf8 ''ColorGamePlaceBetREQ''" "valid_utf8 ''ColorGamePlaceBetRSP''"
  "valid_utf8 ''ColorGameRoundStateBRC''" "valid_utf8 ''ColorGameSettlementBRC''"
  "valid_utf8 ''betting_end_timestamp''" "valid_utf8 ''left_time''" "valid_utf8 ''round_id''"
  "valid_utf8 ''state''" "valid_utf8 ''bet_amount''" "valid_utf8 ''bet_color''" "valid_utf8 ''is_winner''"
  "valid_utf8 ''win_amount''" "valid_utf8 ''winning_color''" "valid_utf8 []"
  by (rule ascii_valid_utf8, simp add: byte_def)+

lemma enum_String_utf8:
  assumes "\<forall>n \<in> snd ` set names. \<forall>c \<in> set n. byte c < 128"
  shows "valid_utf8 (enum_String names x)"
proof (cases "map_of names x")
  case (Some n)
  with assms have "\<forall>c \<in> set n. byte c < 128" by (force dest: map_of_SomeD)
  with Some show ?thesis by (simp add: enum_String_def ascii_valid_utf8)
qed (simp add: enum_String_def)

lemma reward_String_utf8 [simp]: "valid_utf8 (reward_String x)"
  unfolding reward_String_def by (rule enum_String_utf8) (simp add: ColorGameReward_name_def byte_def)

lemma state_String_utf8 [simp]: "valid_utf8 (state_String x)"
  unfolding state_String_def by (rule enum_String_utf8) (simp add: ColorGameState_name_def byte_def)

section \<open>Reading the JSON the gateway writes\<close>

lemma json_wf_int [simp]: "json_wf (json_int i)"
  by (auto simp: json_int_def)

lemma json_wf_place_bet_rsp:
  "valid_utf8 betID \<Longrightarrow> valid_utf8 err \<Longrightarrow> json_wf (place_bet_rsp code betID err)"
  by (simp add: place_bet_rsp_def)

lemma json_wf_round_state:
  "valid_utf8 gameCode \<Longrightarrow> valid_utf8 (brc_RoundId e) \<Longrightarrow> json_wf (round_state_json gameCode e)"
  by (simp add: round_state_json_def)

lemma json_wf_settlement:
  "valid_utf8 gameCode \<Longrightarrow> valid_utf8 (sbr_RoundId e) \<Longrightarrow> valid_utf8 (sbr_BetId e) \<Longrightarrow>
   json_wf (settlement_json gameCode e)"
  by (simp add: settlement_json_def)

lemma json_int_inj [simp]: "json_int (sint v) = json_int (sint w) \<longleftrightarrow> v = w" for v w :: "'a::len word"
  by (simp add: json_int_def signed_word_eqI) (metis itoa_inj signed_word_eqI)

lemma json_enc_inj:
  "json_wf j \<Longrightarrow> json_wf k \<Longrightarrow> json_enc j = json_enc k \<Longrightarrow> j = k"
  by (metis json_parse_enc option.inject)

fun event_json :: "string \<Rightarrow> proto_message \<Rightarrow> json" where
  "event_json gc (RoundStateMsg e) = round_state_json gc e"
| "event_json gc (SettlementMsg e) = settlement_json gc e"
| "event_json gc (OtherMsg _) = JNull"

text \<open>The strings of an event are UTF-8, which the wire format of protobuf demands.\<close>

fun utf8_event :: "proto_message \<Rightarrow> bool" where
  "utf8_event (RoundStateMsg e) = valid_utf8 (brc_RoundId e)"
| "utf8_event (SettlementMsg e) = (valid_utf8 (sbr_RoundId e) \<and> valid_utf8 (sbr_BetId e))"
| "utf8_event (OtherMsg _) = True"

lemma convertEvent_enc: "convertEvent gc e = Some t \<Longrightarrow> t = json_enc (event_json gc e)"
  by (cases e) (auto simp: convertEvent_def)

lemma event_json_wf: "valid_utf8 gc \<Longrightarrow> utf8_event e \<Longrightarrow> json_wf (event_json gc e)"
  by (cases e) (auto simp: json_wf_round_state json_wf_settlement)

lemma event_json_inj:
  "convertEvent gc e \<noteq> None \<Longrightarrow> convertEvent gc' e' \<noteq> None \<Longrightarrow> event_json gc e = event_json gc' e' \<Longrightarrow>
   gc = gc' \<and> e = e'"
  by (cases e; cases e') (auto simp: convertEvent_def round_state_json_def settlement_json_def)

section \<open>Reading requests\<close>

text \<open>The message of a client that bets.\<close>

definition bet_message :: "string \<Rightarrow> int64 \<Rightarrow> json" where
  "bet_message color amount =
     JObj [(''game_code'', JStr ''color_game''), (''command'', JStr ''ColorGamePlaceBetREQ''),
           (''data'', JObj [(''color'', JStr color), (''amount'', json_int (sint amount))])]"

lemma json_wf_bet_message: "valid_utf8 color \<Longrightarrow> json_wf (bet_message color amount)"
  by (simp add: bet_message_def)

lemma envelope_of_bet_message:
  "envelope_of (bet_message color amount) =
     Some \<lparr>req_Game = ''color_game'', req_Command = ''ColorGamePlaceBetREQ'',
           req_Data = Some (JObj [(''color'', JStr color), (''amount'', json_int (sint amount))])\<rparr>"
  by (simp add: bet_message_def envelope_of_def struct_of_def envelope_fields_def find_field_def
      str_field_def raw_field_def)

lemma payload_of_bet:
  "payload_of (JObj [(''color'', JStr color), (''amount'', json_int (sint amount))]) =
     Some \<lparr>pl_Color = color, pl_Amount = amount\<rparr>"
  by (simp add: payload_of_def struct_of_def payload_fields_def find_field_def str_field_def
      int64_field_def json_int_def)

lemma HandleMessage_bet:
  assumes "valid_utf8 color"
  shows "HandleMessage uc userID (json_enc (bet_message color amount)) g =
     handleColorGame uc userID ''ColorGamePlaceBetREQ''
       (Some (JObj [(''color'', JStr color), (''amount'', json_int (sint amount))])) g"
  using json_parse_enc [OF json_wf_bet_message [OF assms]]
  by (simp add: HandleMessage_def envelope_of_bet_message)

text \<open>The states a call or no call can lead to.\<close>

definition one_call :: "'g GatewayUseCase \<Rightarrow> int64 \<Rightarrow> 'g \<Rightarrow> 'g \<Rightarrow> bool" where
  "one_call uc userID g g' \<longleftrightarrow>
     g' = g
     \<or> (\<exists>color amount. color \<in> snd ` set ColorGameReward_value \<and>
          g' = snd (gsv_PlaceBet (colorGameSvc uc) g
                      \<lparr>pbq_UserId = userID, pbq_Color = color, pbq_Amount = amount\<rparr>))
     \<or> g' = snd (gsv_GetState (colorGameSvc uc) g \<lparr>gsq_UserId = userID\<rparr>)"

lemma one_call_refl: "one_call uc userID g g"
  by (simp add: one_call_def)

lemma one_call_state:
  "gsv_GetState (colorGameSvc uc) g \<lparr>gsq_UserId = userID\<rparr> = (r, g') \<Longrightarrow> one_call uc userID g g'"
  by (simp add: one_call_def)

lemma one_call_bet:
  assumes "map_of ColorGameReward_value name = Some color"
    and "gsv_PlaceBet (colorGameSvc uc) g \<lparr>pbq_UserId = userID, pbq_Color = color, pbq_Amount = amount\<rparr> = (r, g')"
  shows "one_call uc userID g g'"
proof -
  have "color \<in> snd ` set ColorGameReward_value" using map_of_SomeD [OF assms(1)] by force
  moreover have "g' = snd (gsv_PlaceBet (colorGameSvc uc) g
      \<lparr>pbq_UserId = userID, pbq_Color = color, pbq_Amount = amount\<rparr>)" using assms(2) by simp
  ultimately show ?thesis unfolding one_call_def by blast
qed

lemma place_bet_calls:
  "case handleColorGame uc userID ''ColorGamePlaceBetREQ'' data g of
     (Inl err, g') \<Rightarrow> g' = g | (Inr reply, g') \<Rightarrow> one_call uc userID g g'"
proof (cases "Option.bind data payload_of")
  case (Some p)
  show ?thesis
  proof (cases "map_of ColorGameReward_value (''REWARD_'' @ to_upper (pl_Color p))")
    case None
    with Some show ?thesis by (simp add: handleColorGame_def one_call_refl)
  next
    case color: (Some color)
    obtain r g' where call: "gsv_PlaceBet (colorGameSvc uc) g
        \<lparr>pbq_UserId = userID, pbq_Color = color, pbq_Amount = pl_Amount p\<rparr> = (r, g')"
      by fastforce
    with Some color one_call_bet [OF color call] show ?thesis
      by (cases r) (simp_all add: handleColorGame_def)
  qed
qed (simp add: handleColorGame_def)

lemma handleColorGame_calls:
  "case handleColorGame uc userID command data g of
     (Inl err, g') \<Rightarrow> g' = g | (Inr reply, g') \<Rightarrow> one_call uc userID g g'"
proof (cases "command = ''ColorGamePlaceBetREQ''")
  case True
  with place_bet_calls [where uc = uc and userID = userID and data = data and g = g] show ?thesis by (simp only:)
next
  case False
  obtain r g' where call: "gsv_GetState (colorGameSvc uc) g \<lparr>gsq_UserId = userID\<rparr> = (r, g')"
    by fastforce
  from False call one_call_state [OF call] show ?thesis
    by (cases r) (simp_all add: handleColorGame_def)
qed

section \<open>Properties\<close>

text \<open>C22. A client that sends a bet in JSON gets exactly that bet placed, for the user of its connection, and
  can read from the reply what the game service answered: the identifier of the bet on success, the
  error code and text of a refusal, or an internal error when the call itself failed.\<close>

theorem client_bet_reaches_game:
  assumes "valid_utf8 color" "map_of ColorGameReward_value (''REWARD_'' @ to_upper color) = Some c"
    and call: "gsv_PlaceBet (colorGameSvc uc) g \<lparr>pbq_UserId = userID, pbq_Color = c, pbq_Amount = amount\<rparr> = (r, g')"
    and utf8: "case r of Inl err \<Rightarrow> valid_utf8 err | Inr rsp \<Rightarrow> valid_utf8 (pbs_BetId rsp) \<and> valid_utf8 (pbs_Error rsp)"
  shows "\<exists>reply. HandleMessage uc userID (json_enc (bet_message color amount)) g = (Inr reply, g') \<and>
     json_parse reply =
       Some (case r of
               Inl err \<Rightarrow> place_bet_rsp INTERNAL_ERROR [] err
             | Inr rsp \<Rightarrow>
                 if pbs_ErrorCode rsp = SUCCESS then place_bet_rsp SUCCESS (pbs_BetId rsp) []
                 else place_bet_rsp (pbs_ErrorCode rsp) [] (pbs_Error rsp))"
  using assms json_parse_enc [OF json_wf_place_bet_rsp]
  by (cases r) (simp_all add: HandleMessage_bet handleColorGame_def payload_of_bet)

text \<open>A service that logs the bets it is asked for.\<close>

definition logging_gateway :: "ColorGamePlaceBetReq list GatewayUseCase" where
  "logging_gateway =
     \<lparr>colorGameSvc =
        \<lparr>gsv_PlaceBet = \<lambda>g req. (Inr \<lparr>pbs_ErrorCode = 0, pbs_BetId = ''b1'', pbs_Error = []\<rparr>, g @ [req]),
         gsv_GetState = \<lambda>g _. (Inl ''down'', g)\<rparr>,
      jsonError = ''bad'', floatFormat = id\<rparr>"

theorem client_bet_reaches_game_witness:
  "\<exists>reply. HandleMessage logging_gateway 7 (json_enc (bet_message ''red'' 100)) [] =
     (Inr reply, [\<lparr>pbq_UserId = 7, pbq_Color = REWARD_RED, pbq_Amount = 100\<rparr>]) \<and>
     json_parse reply = Some (place_bet_rsp SUCCESS ''b1'' [])"
proof -
  have "valid_utf8 ''red''" "valid_utf8 ''b1''" by (rule ascii_valid_utf8, simp add: byte_def)+
  moreover have "map_of ColorGameReward_value (''REWARD_'' @ to_upper ''red'') = Some 1"
    by code_simp
  ultimately show ?thesis
    using client_bet_reaches_game [of "''red''" 1 logging_gateway "[]" 7 100
        "Inr \<lparr>pbs_ErrorCode = 0, pbs_BetId = ''b1'', pbs_Error = []\<rparr>"
        "[\<lparr>pbq_UserId = 7, pbq_Color = 1, pbq_Amount = 100\<rparr>]"]
    by (simp add: logging_gateway_def)
qed

text \<open>C23. Whatever bytes a client sends, the gateway makes at most one call to the game service, always for
  the user of the connection and, for a bet, with one of the declared colors; and when the message is
  answered with a protocol error no call was made.\<close>

theorem message_calls_at_most_once:
  "case HandleMessage uc userID message g of
     (Inl err, g') \<Rightarrow> g' = g
   | (Inr reply, g') \<Rightarrow> one_call uc userID g g'"
proof -
  have "case handleColorGame uc userID command data g of
      (Inl err, g') \<Rightarrow> g' = g | (Inr reply, g') \<Rightarrow> one_call uc userID g g'" for command data
    by (rule handleColorGame_calls)
  then show ?thesis by (simp add: HandleMessage_def split: option.split)
qed

text \<open>C24. Clients can read every event back from the JSON the gateway sends: the text parses to the event's
  object, and events or game codes that differ have different texts, also across the two kinds of
  event.\<close>

theorem event_json_faithful:
  assumes "convertEvent gc e = Some t" "convertEvent gc' e' = Some t'"
    and "valid_utf8 gc" "valid_utf8 gc'" "utf8_event e" "utf8_event e'"
  shows "json_parse t = Some (event_json gc e) \<and> (t = t' \<longleftrightarrow> gc = gc' \<and> e = e')"
proof
  note t = convertEvent_enc [OF assms(1)] convertEvent_enc [OF assms(2)]
  note wf = event_json_wf [OF assms(3,5)] event_json_wf [OF assms(4,6)]
  show "json_parse t = Some (event_json gc e)" using wf(1) t(1) json_parse_enc by simp
  show "t = t' \<longleftrightarrow> gc = gc' \<and> e = e'"
    using t json_enc_inj [OF wf] event_json_inj [of gc e gc' e'] assms(1,2) by auto
qed

definition sample_event :: "bool \<Rightarrow> proto_message" where
  "sample_event won =
     SettlementMsg \<lparr>sbr_RoundId = ''r1'', sbr_WinningColor = 1, sbr_BetId = ''b1'', sbr_BetColor = 1,
       sbr_BetAmount = 5, sbr_WinAmount = 10, sbr_IsWinner = won\<rparr>"

theorem event_json_faithful_witness:
  "\<exists>t t'. convertEvent ''color_game'' (sample_event True) = Some t \<and>
     convertEvent ''color_game'' (sample_event False) = Some t' \<and>
     json_parse t = Some (event_json ''color_game'' (sample_event True)) \<and> t \<noteq> t'"
proof -
  have "valid_utf8 ''r1''" "valid_utf8 ''b1''" by (rule ascii_valid_utf8, simp add: byte_def)+
  then have u: "utf8_event (sample_event won)" for won by (simp add: sample_event_def)
  obtain t t' where t: "convertEvent ''color_game'' (sample_event True) = Some t"
      "convertEvent ''color_game'' (sample_event False) = Some t'"
    by (simp add: convertEvent_def sample_event_def)
  have "sample_event True \<noteq> sample_event False" by (simp add: sample_event_def)
  with event_json_faithful [OF t utf8_names(4) utf8_names(4) u u] t show ?thesis by blast
qed

end
