(* ===== verification/User.thy ===== *)
theory User
  imports Json Go_Time
begin

text \<open>
  The user module: the domain (\<^verbatim>\<open>user/domain\<close>), the repositories over gorm (\<^verbatim>\<open>user/repository\<close>),
  registration, login, tokens and sessions (\<^verbatim>\<open>user/usecase/user_uc.go\<close>) and the local, gRPC and
  HTTP adapters.  Third-party code is a parameter: the operations of gorm on the two tables
  (\<open>gorm\<close>), bcrypt and JWT (\<open>crypto\<close>), the rate limiter and the request binding of gin.  The world
  holds the database and what the calls read from outside: the clock, the random bytes and the
  salts, one entry per call.
\<close>

section \<open>Domain\<close>

record User =
  user_UserID :: int64
  user_Username :: string
  user_PasswordHash :: string
  user_Email :: string
  user_Status :: go_int
  user_CreatedAt :: go_time
  user_LastLoginAt :: "go_time option"

record Session =
  ses_SessionID :: string
  ses_UserID :: int64
  ses_Token :: string
  ses_ExpiresAt :: go_time
  ses_CreatedAt :: go_time

abbreviation (input) UserStatusActive :: go_int where "UserStatusActive \<equiv> 1"
abbreviation (input) UserStatusSuspended :: go_int where "UserStatusSuspended \<equiv> 2"
abbreviation (input) UserStatusBanned :: go_int where "UserStatusBanned \<equiv> 3"

definition IsActive :: "User \<Rightarrow> bool" where
  "IsActive u \<longleftrightarrow> user_Status u = UserStatusActive"

section \<open>The database\<close>

text \<open>The conditions of the \<^verbatim>\<open>Where\<close> clauses, and the error a query can end with.\<close>

datatype user_where = IdIs int64 | UsernameIs string | EmailIs string

datatype session_where = SessionIdIs string | TokenIs string | ExpiresBefore go_time | OwnerIs int64

datatype db_error = ErrRecordNotFound | DbError go_error

fun user_matches :: "user_where \<Rightarrow> User \<Rightarrow> bool" where
  "user_matches (IdIs i) u \<longleftrightarrow> user_UserID u = i"
| "user_matches (UsernameIs s) u \<longleftrightarrow> user_Username u = s"
| "user_matches (EmailIs s) u \<longleftrightarrow> user_Email u = s"

fun session_matches :: "session_where \<Rightarrow> Session \<Rightarrow> bool" where
  "session_matches (SessionIdIs i) s \<longleftrightarrow> ses_SessionID s = i"
| "session_matches (TokenIs t) s \<longleftrightarrow> ses_Token s = t"
| "session_matches (ExpiresBefore t) s \<longleftrightarrow> ses_ExpiresAt s < t"
| "session_matches (OwnerIs u) s \<longleftrightarrow> ses_UserID s = u"

record 'd gorm =
  gu_Create :: "'d \<Rightarrow> User \<Rightarrow> (go_error + User) \<times> 'd"
  gu_First :: "'d \<Rightarrow> user_where \<Rightarrow> db_error + User"
  gu_Count :: "'d \<Rightarrow> user_where \<Rightarrow> go_error + int64"
  gu_UpdateLastLogin :: "'d \<Rightarrow> int64 \<Rightarrow> go_time \<Rightarrow> go_error option \<times> 'd"
  gn_Create :: "'d \<Rightarrow> Session \<Rightarrow> go_error option \<times> 'd"
  gn_First :: "'d \<Rightarrow> session_where \<Rightarrow> db_error + Session"
  gn_Updates :: "'d \<Rightarrow> Session \<Rightarrow> go_error option \<times> 'd"
  gn_Delete :: "'d \<Rightarrow> session_where \<Rightarrow> go_error option \<times> 'd"

section \<open>Tokens and passwords\<close>

record jwt_token =
  tok_HMAC :: bool
  tok_Alg :: string
  tok_Claims :: "json option"
  tok_Valid :: bool

text \<open>\<open>jwt_Parse\<close> takes the time of the call and the key function.  \<open>fracInt\<close> is the conversion of a
  number literal that is no integer, \<open>overflow\<close> that of a float out of range.\<close>

record crypto =
  bcrypt_Generate :: "nat \<Rightarrow> string \<Rightarrow> go_error + string"
  bcrypt_Compare :: "string \<Rightarrow> string \<Rightarrow> go_error option"
  jwt_Sign :: "string \<Rightarrow> json \<Rightarrow> go_error + string"
  jwt_Parse :: "go_time \<Rightarrow> (jwt_token \<Rightarrow> go_error + string) \<Rightarrow> string \<Rightarrow> go_error + jwt_token"
  fracInt :: "string \<Rightarrow> int64"
  overflow :: "float64 \<Rightarrow> int64"

record 'd UserUseCase =
  uc_db :: "'d gorm"
  uc_crypto :: crypto
  jwtSecret :: string
  tokenDuration :: go_duration

definition NewUserUseCase :: "'d gorm \<Rightarrow> crypto \<Rightarrow> string \<Rightarrow> go_duration \<Rightarrow> 'd UserUseCase" where
  "NewUserUseCase db c secret duration =
     \<lparr>uc_db = db, uc_crypto = c, jwtSecret = secret, tokenDuration = duration\<rparr>"

record 'd user_world =
  uw_db :: 'd
  uw_clock :: "nat \<Rightarrow> go_time"
  uw_reads :: nat
  uw_random :: "nat \<Rightarrow> go_error + nat list"
  uw_draws :: nat
  uw_salts :: nat

definition userNow :: "'d user_world \<Rightarrow> go_time \<times> 'd user_world" where
  "userNow w = (uw_clock w (uw_reads w), w\<lparr>uw_reads := Suc (uw_reads w)\<rparr>)"

section \<open>Repositories\<close>

definition user_Create :: "'d gorm \<Rightarrow> User \<Rightarrow> 'd \<Rightarrow> User go_result \<times> 'd" where
  "user_Create G user d =
     (case gu_Create G d user of
        (Inl err, d) \<Rightarrow> (Inl (''failed to create user: '' @ err), d)
      | (Inr user, d) \<Rightarrow> (Inr user, d))"

definition user_First :: "'d gorm \<Rightarrow> user_where \<Rightarrow> 'd \<Rightarrow> User go_result" where
  "user_First G c d =
     (case gu_First G d c of
        Inl ErrRecordNotFound \<Rightarrow> Inl ''user not found''
      | Inl (DbError err) \<Rightarrow> Inl (''failed to get user: '' @ err)
      | Inr user \<Rightarrow> Inr user)"

definition GetByID :: "'d gorm \<Rightarrow> int64 \<Rightarrow> 'd \<Rightarrow> User go_result" where
  "GetByID G userID = user_First G (IdIs userID)"

definition GetByUsername :: "'d gorm \<Rightarrow> string \<Rightarrow> 'd \<Rightarrow> User go_result" where
  "GetByUsername G username = user_First G (UsernameIs username)"

definition GetByEmail :: "'d gorm \<Rightarrow> string \<Rightarrow> 'd \<Rightarrow> User go_result" where
  "GetByEmail G email = user_First G (EmailIs email)"

definition UpdateLastLogin :: "'d gorm \<Rightarrow> int64 \<Rightarrow> 'd user_world \<Rightarrow> go_error option \<times> 'd user_world" where
  "UpdateLastLogin G userID w =
     (let (now, w) = userNow w;
          (err, d) = gu_UpdateLastLogin G (uw_db w) userID now
      in (map_option (\<lambda>e. ''failed to update last login: '' @ e) err, w\<lparr>uw_db := d\<rparr>))"

definition UsernameExists :: "'d gorm \<Rightarrow> string \<Rightarrow> 'd \<Rightarrow> bool go_result" where
  "UsernameExists G username d =
     (case gu_Count G d (UsernameIs username) of
        Inl err \<Rightarrow> Inl (''failed to check username: '' @ err)
      | Inr n \<Rightarrow> Inr (0 < sint n))"

definition EmailExists :: "'d gorm \<Rightarrow> string \<Rightarrow> 'd \<Rightarrow> bool go_result" where
  "EmailExists G email d =
     (case gu_Count G d (EmailIs email) of
        Inl err \<Rightarrow> Inl (''failed to check email: '' @ err)
      | Inr n \<Rightarrow> Inr (0 < sint n))"

definition session_Create :: "'d gorm \<Rightarrow> Session \<Rightarrow> 'd \<Rightarrow> go_error option \<times> 'd" where
  "session_Create G session d =
     (case gn_Create G d session of
        (err, d) \<Rightarrow> (map_option (\<lambda>e. ''failed to create session: '' @ e) err, d))"

definition GetBySessionID :: "'d gorm \<Rightarrow> string \<Rightarrow> 'd \<Rightarrow> Session go_result" where
  "GetBySessionID G sessionID d =
     (case gn_First G d (SessionIdIs sessionID) of
        Inl ErrRecordNotFound \<Rightarrow> Inl ''session not found''
      | Inl (DbError err) \<Rightarrow> Inl (''failed to get session: '' @ err)
      | Inr session \<Rightarrow> Inr session)"

definition session_Update :: "'d gorm \<Rightarrow> Session \<Rightarrow> 'd \<Rightarrow> go_error option \<times> 'd" where
  "session_Update G session d =
     (case gn_Updates G d session of
        (err, d) \<Rightarrow> (map_option (\<lambda>e. ''failed to update session: '' @ e) err, d))"

definition session_Delete :: "'d gorm \<Rightarrow> string \<Rightarrow> 'd \<Rightarrow> go_error option \<times> 'd" where
  "session_Delete G sessionID d =
     (case gn_Delete G d (SessionIdIs sessionID) of
        (err, d) \<Rightarrow> (map_option (\<lambda>e. ''failed to delete session: '' @ e) err, d))"

definition DeleteByToken :: "'d gorm \<Rightarrow> string \<Rightarrow> 'd \<Rightarrow> go_error option \<times> 'd" where
  "DeleteByToken G token d =
     (case gn_Delete G d (TokenIs token) of
        (err, d) \<Rightarrow> (map_option (\<lambda>e. ''failed to delete session by token: '' @ e) err, d))"

definition DeleteExpired :: "'d gorm \<Rightarrow> 'd user_world \<Rightarrow> go_error option \<times> 'd user_world" where
  "DeleteExpired G w =
     (let (now, w) = userNow w;
          (err, d) = gn_Delete G (uw_db w) (ExpiresBefore now)
      in (map_option (\<lambda>e. ''failed to delete expired sessions: '' @ e) err, w\<lparr>uw_db := d\<rparr>))"

definition DeleteByUserID :: "'d gorm \<Rightarrow> int64 \<Rightarrow> 'd \<Rightarrow> go_error option \<times> 'd" where
  "DeleteByUserID G userID d =
     (case gn_Delete G d (OwnerIs userID) of
        (err, d) \<Rightarrow> (map_option (\<lambda>e. ''failed to delete user sessions: '' @ e) err, d))"

section \<open>Tokens\<close>

definition token_claims :: "int64 \<Rightarrow> string \<Rightarrow> int64 \<Rightarrow> int64 \<Rightarrow> json" where
  "token_claims userID username exp iat =
     JObj [(''exp'', json_int (sint exp)), (''iat'', json_int (sint iat)),
           (''user_id'', json_int (sint userID)), (''username'', JStr username)]"

definition generateToken ::
    "'d UserUseCase \<Rightarrow> int64 \<Rightarrow> string \<Rightarrow> 'd user_world \<Rightarrow> (string \<times> go_time) go_result \<times> 'd user_world" where
  "generateToken uc userID username w =
     (let (now, w) = userNow w;
          expiresAt = now + tokenDuration uc;
          (now, w) = userNow w
      in case jwt_Sign (uc_crypto uc) (jwtSecret uc) (token_claims userID username (Unix expiresAt) (Unix now)) of
           Inl err \<Rightarrow> (Inl err, w)
         | Inr tokenString \<Rightarrow> (Inr (tokenString, expiresAt), w))"

definition hex_digit :: "nat \<Rightarrow> char" where
  "hex_digit d = ''0123456789abcdef'' ! d"

definition EncodeToString :: "nat list \<Rightarrow> string" where
  "EncodeToString bs = concat (map (\<lambda>b. [hex_digit (b div 16), hex_digit (b mod 16)]) bs)"

definition generateRefreshToken :: "'d user_world \<Rightarrow> string go_result \<times> 'd user_world" where
  "generateRefreshToken w =
     (case uw_random w (uw_draws w) of
        Inl err \<Rightarrow> (Inl err, w\<lparr>uw_draws := Suc (uw_draws w)\<rparr>)
      | Inr b \<Rightarrow> (Inr (EncodeToString b), w\<lparr>uw_draws := Suc (uw_draws w)\<rparr>))"

section \<open>The use case\<close>

definition user_Register ::
    "'d UserUseCase \<Rightarrow> string \<Rightarrow> string \<Rightarrow> string \<Rightarrow> 'd user_world \<Rightarrow> int64 go_result \<times> 'd user_world" where
  "user_Register uc username password email w =
     (if username = [] \<or> password = [] \<or> email = []
      then (Inl ''username, password, and email are required'', w)
      else if length password < 6 then (Inl ''password must be at least 6 characters'', w)
      else case UsernameExists (uc_db uc) username (uw_db w) of
        Inl err \<Rightarrow> (Inl (''failed to check username: '' @ err), w)
      | Inr True \<Rightarrow> (Inl ''username already exists'', w)
      | Inr False \<Rightarrow>
     (case EmailExists (uc_db uc) email (uw_db w) of
        Inl err \<Rightarrow> (Inl (''failed to check email: '' @ err), w)
      | Inr True \<Rightarrow> (Inl ''email already exists'', w)
      | Inr False \<Rightarrow>
     (let salt = uw_salts w; w = w\<lparr>uw_salts := Suc salt\<rparr>
      in case bcrypt_Generate (uc_crypto uc) salt password of
        Inl err \<Rightarrow> (Inl (''failed to hash password: '' @ err), w)
      | Inr hashedPassword \<Rightarrow>
     (let user = \<lparr>user_UserID = 0, user_Username = username, user_PasswordHash = hashedPassword,
                  user_Email = email, user_Status = UserStatusActive, user_CreatedAt = zero_time,
                  user_LastLoginAt = None\<rparr>
      in case user_Create (uc_db uc) user (uw_db w) of
        (Inl err, d) \<Rightarrow> (Inl (''failed to create user: '' @ err), w\<lparr>uw_db := d\<rparr>)
      | (Inr user, d) \<Rightarrow> (Inr (user_UserID user), w\<lparr>uw_db := d\<rparr>)))))"

text \<open>The refresh token lives a week longer than the access token.\<close>

definition refreshGrace :: go_duration where
  "refreshGrace = 24 * 3600 * Second * 7"

definition Login ::
    "'d UserUseCase \<Rightarrow> string \<Rightarrow> string \<Rightarrow> 'd user_world
      \<Rightarrow> (int64 \<times> string \<times> string \<times> go_time) go_result \<times> 'd user_world" where
  "Login uc username password w =
     (case GetByUsername (uc_db uc) username (uw_db w) of
        Inl _ \<Rightarrow> (Inl ''invalid username or password'', w)
      | Inr user \<Rightarrow>
     if \<not> IsActive user then (Inl ''user account is not active'', w)
     else if bcrypt_Compare (uc_crypto uc) (user_PasswordHash user) password \<noteq> None
     then (Inl ''invalid username or password'', w)
     else case generateToken uc (user_UserID user) (user_Username user) w of
        (Inl err, w) \<Rightarrow> (Inl (''failed to generate token: '' @ err), w)
      | (Inr (token, expiresAt), w) \<Rightarrow>
     (case generateRefreshToken w of
        (Inl err, w) \<Rightarrow> (Inl (''failed to generate refresh token: '' @ err), w)
      | (Inr refreshToken, w) \<Rightarrow>
     (case session_Create (uc_db uc)
             \<lparr>ses_SessionID = refreshToken, ses_UserID = user_UserID user, ses_Token = token,
              ses_ExpiresAt = expiresAt + refreshGrace, ses_CreatedAt = zero_time\<rparr> (uw_db w) of
        (Some err, d) \<Rightarrow> (Inl (''failed to create session: '' @ err), w\<lparr>uw_db := d\<rparr>)
      | (None, d) \<Rightarrow>
          (let (_, w) = UpdateLastLogin (uc_db uc) (user_UserID user) (w\<lparr>uw_db := d\<rparr>)
           in (Inr (user_UserID user, token, refreshToken, expiresAt), w)))))"

text \<open>The key function of \<^verbatim>\<open>ValidateToken\<close>.  A type assertion on a claim that is missing or of another type
  panics: the result is then \<open>None\<close>.\<close>

definition keyFunc :: "'d UserUseCase \<Rightarrow> jwt_token \<Rightarrow> go_error + string" where
  "keyFunc uc token =
     (if \<not> tok_HMAC token then Inl (''unexpected signing method: '' @ tok_Alg token)
      else Inr (jwtSecret uc))"

fun claim :: "json \<Rightarrow> string \<Rightarrow> json option" where
  "claim (JObj kvs) k = map_of (rev kvs) k"
| "claim _ k = None"

definition num_claim :: "crypto \<Rightarrow> json \<Rightarrow> string \<Rightarrow> int64 option" where
  "num_claim c claims k =
     (case claim claims k of
        Some (JNum l) \<Rightarrow>
          Some (case parse_int l of Some i \<Rightarrow> int64_of_float (overflow c) (round53 i) | None \<Rightarrow> fracInt c l)
      | _ \<Rightarrow> None)"

definition str_claim :: "json \<Rightarrow> string \<Rightarrow> string option" where
  "str_claim claims k = (case claim claims k of Some (JStr s) \<Rightarrow> Some s | _ \<Rightarrow> None)"

definition ValidateToken ::
    "'d UserUseCase \<Rightarrow> string \<Rightarrow> 'd user_world \<Rightarrow> (int64 \<times> string \<times> go_time) go_result option \<times> 'd user_world" where
  "ValidateToken uc tokenString w =
     (let (now, w) = userNow w
      in (case jwt_Parse (uc_crypto uc) now (keyFunc uc) tokenString of
            Inl err \<Rightarrow> Some (Inl (''invalid token: '' @ err))
          | Inr token \<Rightarrow>
              if \<not> tok_Valid token then Some (Inl ''token is not valid'')
              else case tok_Claims token of
                     None \<Rightarrow> Some (Inl ''invalid token claims'')
                   | Some claims \<Rightarrow>
                       (case (num_claim (uc_crypto uc) claims ''user_id'', str_claim claims ''username'',
                              num_claim (uc_crypto uc) claims ''exp'') of
                          (Some userID, Some username, Some exp) \<Rightarrow>
                            Some (Inr (userID, username, sint exp * Second))
                        | _ \<Rightarrow> None), w))"

definition Logout :: "'d UserUseCase \<Rightarrow> string \<Rightarrow> 'd user_world \<Rightarrow> go_error option \<times> 'd user_world" where
  "Logout uc token w =
     (case DeleteByToken (uc_db uc) token (uw_db w) of (err, d) \<Rightarrow> (err, w\<lparr>uw_db := d\<rparr>))"

definition RefreshToken ::
    "'d UserUseCase \<Rightarrow> string \<Rightarrow> 'd user_world \<Rightarrow> (string \<times> string \<times> go_time) go_result \<times> 'd user_world" where
  "RefreshToken uc refreshToken w =
     (case GetBySessionID (uc_db uc) refreshToken (uw_db w) of
        Inl _ \<Rightarrow> (Inl ''invalid refresh token'', w)
      | Inr session \<Rightarrow>
     (let (now, w) = userNow w
      in if now > ses_ExpiresAt session
      then (let (_, d) = session_Delete (uc_db uc) (ses_SessionID session) (uw_db w)
            in (Inl ''refresh token expired'', w\<lparr>uw_db := d\<rparr>))
      else case GetByID (uc_db uc) (ses_UserID session) (uw_db w) of
        Inl _ \<Rightarrow> (Inl ''user not found'', w)
      | Inr user \<Rightarrow>
     if \<not> IsActive user then (Inl ''user account is not active'', w)
     else case generateToken uc (user_UserID user) (user_Username user) w of
        (Inl err, w) \<Rightarrow> (Inl (''failed to generate token: '' @ err), w)
      | (Inr (newToken, expiresAt), w) \<Rightarrow>
     (case session_Update (uc_db uc) (session\<lparr>ses_Token := newToken\<rparr>) (uw_db w) of
        (Some err, d) \<Rightarrow> (Inl (''failed to update session: '' @ err), w\<lparr>uw_db := d\<rparr>)
      | (None, d) \<Rightarrow> (Inr (newToken, refreshToken, expiresAt), w\<lparr>uw_db := d\<rparr>))))"

end
