(* ===== verification/User_Adapters.thy ===== *)
theory User_Adapters
  imports User Proto
begin

text \<open>
  The adapters of the user module: the local one of the monolith, the gRPC server with the client the
  gateway uses in the microservice deployment, and the HTTP handlers.  An HTTP handler gives the
  status and the JSON of its response; whether the rate limiter lets the request pass and what gin
  makes of the body are arguments.
\<close>

section \<open>Token validation for the gateway\<close>

definition local_ValidateToken ::
    "'d UserUseCase \<Rightarrow> string \<Rightarrow> 'd user_world \<Rightarrow> (int64 \<times> string \<times> go_time) go_result option \<times> 'd user_world" where
  "local_ValidateToken uc token w =
     (case ValidateToken uc token w of
        (None, w) \<Rightarrow> (None, w)
      | (Some (Inl err), w) \<Rightarrow> (Some (Inl err), w)
      | (Some (Inr (userID, username, expiresAt)), w) \<Rightarrow> (Some (Inr (userID, username, expiresAt)), w))"

record ValidateTokenReq =
  vtq_Token :: string

record ValidateTokenRsp =
  vts_ErrorCode :: ErrorCode
  vts_Valid :: bool
  vts_UserId :: int64
  vts_Username :: string
  vts_ExpiresAt :: "go_time option"

definition grpc_ValidateToken ::
    "'d UserUseCase \<Rightarrow> ValidateTokenReq \<Rightarrow> 'd user_world \<Rightarrow> ValidateTokenRsp option \<times> 'd user_world" where
  "grpc_ValidateToken uc req w =
     (case ValidateToken uc (vtq_Token req) w of
        (None, w) \<Rightarrow> (None, w)
      | (Some (Inl err), w) \<Rightarrow>
          (Some \<lparr>vts_ErrorCode = UNAUTHORIZED, vts_Valid = False, vts_UserId = 0, vts_Username = [],
                 vts_ExpiresAt = None\<rparr>, w)
      | (Some (Inr (userID, username, expiresAt)), w) \<Rightarrow>
          (Some \<lparr>vts_ErrorCode = SUCCESS, vts_Valid = True, vts_UserId = userID, vts_Username = username,
                 vts_ExpiresAt = Some expiresAt\<rparr>, w))"

text \<open>The client of the gateway.  \<open>conn\<close> is the error of \<^verbatim>\<open>GetLBConn\<close>, if any; \<open>rpc\<close> is the call over that
  connection.  A missing timestamp reads as the epoch.\<close>

definition client_ValidateToken ::
    "go_error option \<Rightarrow> (ValidateTokenReq \<Rightarrow> 'w \<Rightarrow> ValidateTokenRsp go_result \<times> 'w) \<Rightarrow> string \<Rightarrow> 'w
      \<Rightarrow> (int64 \<times> string \<times> go_time) go_result \<times> 'w" where
  "client_ValidateToken conn rpc token w =
     (case conn of
        Some err \<Rightarrow> (Inl err, w)
      | None \<Rightarrow>
          (case rpc \<lparr>vtq_Token = token\<rparr> w of
             (Inl err, w) \<Rightarrow> (Inl (''rpc ValidateToken failed: '' @ err), w)
           | (Inr rsp, w) \<Rightarrow>
               if \<not> vts_Valid rsp then (Inl ''token invalid'', w)
               else (Inr (vts_UserId rsp, vts_Username rsp,
                          case vts_ExpiresAt rsp of Some t \<Rightarrow> t | None \<Rightarrow> 0), w)))"

text \<open>A call to the gRPC server above: when the handler panics the server process dies and the call fails
  with a transport error.\<close>

definition user_rpc ::
    "go_error \<Rightarrow> 'd UserUseCase \<Rightarrow> ValidateTokenReq \<Rightarrow> 'd user_world
      \<Rightarrow> ValidateTokenRsp go_result \<times> 'd user_world" where
  "user_rpc lost uc req w =
     (case grpc_ValidateToken uc req w of (None, w) \<Rightarrow> (Inl lost, w) | (Some rsp, w) \<Rightarrow> (Inr rsp, w))"

section \<open>HTTP\<close>

abbreviation (input) StatusOK :: nat where "StatusOK \<equiv> 200"
abbreviation (input) StatusBadRequest :: nat where "StatusBadRequest \<equiv> 400"
abbreviation (input) StatusUnauth :: nat where "StatusUnauth \<equiv> 401"
abbreviation (input) StatusTooManyRequests :: nat where "StatusTooManyRequests \<equiv> 429"
abbreviation (input) StatusInternalServerError :: nat where "StatusInternalServerError \<equiv> 500"

record registerRequest =
  rgr_Username :: string
  rgr_Password :: string
  rgr_Email :: string

record loginRequest =
  lgr_Username :: string
  lgr_Password :: string

definition error_json :: "string \<Rightarrow> json" where
  "error_json err = JObj [(''error'', JStr err)]"

definition registerResponse :: "int64 \<Rightarrow> bool \<Rightarrow> json" where
  "registerResponse userID success = JObj [(''user_id'', json_int (sint userID)), (''success'', JBool success)]"

definition loginResponse :: "int64 \<Rightarrow> string \<Rightarrow> string \<Rightarrow> string \<Rightarrow> json" where
  "loginResponse userID token refreshToken expiresAt =
     JObj [(''user_id'', json_int (sint userID)), (''token'', JStr token),
           (''refresh_token'', JStr refreshToken), (''expires_at'', JStr expiresAt)]"

definition http_Register ::
    "'d UserUseCase \<Rightarrow> bool \<Rightarrow> registerRequest go_result \<Rightarrow> 'd user_world \<Rightarrow> (nat \<times> json) \<times> 'd user_world" where
  "http_Register uc allow bound w =
     (if \<not> allow
      then ((StatusTooManyRequests, error_json ''too many registration requests, please try again later''), w)
      else case bound of
             Inl err \<Rightarrow> ((StatusBadRequest, error_json err), w)
           | Inr req \<Rightarrow>
               (case user_Register uc (rgr_Username req) (rgr_Password req) (rgr_Email req) w of
                  (Inl err, w) \<Rightarrow> ((StatusInternalServerError, error_json err), w)
                | (Inr userID, w) \<Rightarrow> ((StatusOK, registerResponse userID True), w)))"

definition http_Login ::
    "'d UserUseCase \<Rightarrow> (go_time \<Rightarrow> int) \<Rightarrow> bool \<Rightarrow> loginRequest go_result \<Rightarrow> 'd user_world
      \<Rightarrow> (nat \<times> json) \<times> 'd user_world" where
  "http_Login uc tz allow bound w =
     (if \<not> allow
      then ((StatusTooManyRequests, error_json ''too many login requests, please try again later''), w)
      else case bound of
             Inl err \<Rightarrow> ((StatusBadRequest, error_json err), w)
           | Inr req \<Rightarrow>
               (case Login uc (lgr_Username req) (lgr_Password req) w of
                  (Inl err, w) \<Rightarrow> ((StatusUnauth, error_json err), w)
                | (Inr (userID, token, refreshToken, expiresAt), w) \<Rightarrow>
                    ((StatusOK, loginResponse userID token refreshToken (rfc3339 tz expiresAt)), w)))"

text \<open>The \<^verbatim>\<open>Authorization\<close> header, with or without the word Bearer.\<close>

definition bearer_token :: "string \<Rightarrow> string" where
  "bearer_token token =
     (if length token > 7 \<and> take 7 token = ''Bearer '' then drop 7 token else token)"

definition http_Logout :: "'d UserUseCase \<Rightarrow> string \<Rightarrow> 'd user_world \<Rightarrow> (nat \<times> json) \<times> 'd user_world" where
  "http_Logout uc header w =
     (if header = [] then ((StatusBadRequest, error_json ''missing token''), w)
      else case Logout uc (bearer_token header) w of
             (Some err, w) \<Rightarrow> ((StatusInternalServerError, error_json err), w)
           | (None, w) \<Rightarrow> ((StatusOK, JObj [(''success'', JBool True)]), w))"

definition http_Health :: "nat \<times> json" where
  "http_Health = (StatusOK, JObj [(''service'', JStr ''user-service''), (''status'', JStr ''ok'')])"

text \<open>The routes below a prefix, and the server of its own, which has them below \<^verbatim>\<open>/api/users\<close>.  A request comes
  with what gin makes of its body for either struct, and its header; any other route is gin's 404.\<close>

datatype user_endpoint = RegisterEndpoint | LoginEndpoint | LogoutEndpoint | HealthEndpoint

definition RegisterRoutes :: "string \<Rightarrow> ((string \<times> string) \<times> user_endpoint) list" where
  "RegisterRoutes router =
     [((''POST'', router @ ''/register''), RegisterEndpoint), ((''POST'', router @ ''/login''), LoginEndpoint),
      ((''POST'', router @ ''/logout''), LogoutEndpoint), ((''GET'', router @ ''/health''), HealthEndpoint)]"

record user_request =
  urq_Method :: string
  urq_Path :: string
  urq_Register :: "registerRequest go_result"
  urq_Login :: "loginRequest go_result"
  urq_Authorization :: string

definition serveUser ::
    "'d UserUseCase \<Rightarrow> (go_time \<Rightarrow> int) \<Rightarrow> bool \<Rightarrow> user_request \<Rightarrow> 'd user_world \<Rightarrow> (nat \<times> json) \<times> 'd user_world" where
  "serveUser uc tz allow r w =
     (case map_of (RegisterRoutes ''/api/users'') (urq_Method r, urq_Path r) of
        Some RegisterEndpoint \<Rightarrow> http_Register uc allow (urq_Register r) w
      | Some LoginEndpoint \<Rightarrow> http_Login uc tz allow (urq_Login r) w
      | Some LogoutEndpoint \<Rightarrow> http_Logout uc (urq_Authorization r) w
      | Some HealthEndpoint \<Rightarrow> (http_Health, w)
      | None \<Rightarrow> ((404, JNull), w))"

end
