(* ===== verification/User_Props.thy ===== *)
theory User_Props
  imports User_Adapters
begin

text \<open>
  What registration, login, refresh and logout guarantee.  The hypotheses on third-party code are
  named: \<open>users_ok\<close> and \<open>sessions_ok\<close> say what gorm documents for the queries used, over the rows \<open>us\<close>
  and \<open>ss\<close> of the two tables, and \<open>crypto_ok\<close> what bcrypt and JWT do.
\<close>

section \<open>Hypotheses\<close>

definition users_ok :: "'d gorm \<Rightarrow> ('d \<Rightarrow> User list) \<Rightarrow> ('d \<Rightarrow> Session list) \<Rightarrow> bool" where
  "users_ok G us ss \<longleftrightarrow>
     (\<forall>d c u. gu_First G d c = Inr u \<longrightarrow> u \<in> set (us d) \<and> user_matches c u) \<and>
     (\<forall>d c. gu_First G d c = Inl ErrRecordNotFound \<longrightarrow> (\<forall>u \<in> set (us d). \<not> user_matches c u)) \<and>
     (\<forall>d c n. gu_Count G d c = Inr n \<longrightarrow> sint n = int (length (filter (user_matches c) (us d)))) \<and>
     (\<forall>d u v d'. gu_Create G d u = (Inr v, d') \<longrightarrow> us d' = us d @ [v] \<and> ss d' = ss d \<and>
        (\<exists>i t. i \<notin> user_UserID ` set (us d) \<and> v = u\<lparr>user_UserID := i, user_CreatedAt := t\<rparr>)) \<and>
     (\<forall>d u e d'. gu_Create G d u = (Inl e, d') \<longrightarrow> us d' = us d \<and> ss d' = ss d) \<and>
     (\<forall>d i t e d'. gu_UpdateLastLogin G d i t = (e, d') \<longrightarrow> ss d' = ss d)"

definition sessions_ok :: "'d gorm \<Rightarrow> ('d \<Rightarrow> User list) \<Rightarrow> ('d \<Rightarrow> Session list) \<Rightarrow> bool" where
  "sessions_ok G us ss \<longleftrightarrow>
     (\<forall>d s. gn_First G d (SessionIdIs (ses_SessionID s)) = Inr s \<longrightarrow> s \<in> set (ss d)) \<and>
     (\<forall>d i s. gn_First G d (SessionIdIs i) = Inr s \<longrightarrow> ses_SessionID s = i) \<and>
     (\<forall>d s d'. gn_Create G d s = (None, d') \<longrightarrow> us d' = us d \<and>
        (\<exists>t. ss d' = ss d @ [s\<lparr>ses_CreatedAt := t\<rparr>])) \<and>
     (\<forall>d s d'. gn_Updates G d s = (None, d') \<longrightarrow> us d' = us d \<and>
        ss d' = map (\<lambda>x. if ses_SessionID x = ses_SessionID s
                         then x\<lparr>ses_Token := ses_Token s, ses_ExpiresAt := ses_ExpiresAt s\<rparr> else x) (ss d)) \<and>
     (\<forall>d c d'. gn_Delete G d c = (None, d') \<longrightarrow> us d' = us d \<and>
        ss d' = filter (\<lambda>s. \<not> session_matches c s) (ss d))"

definition crypto_ok :: "crypto \<Rightarrow> bool" where
  "crypto_ok C \<longleftrightarrow>
     (\<forall>salt p h. bcrypt_Generate C salt p = Inr h \<longrightarrow> bcrypt_Compare C h p = None) \<and>
     (\<forall>secret claims tok now kf e. json_wf claims \<and> jwt_Sign C secret claims = Inr tok \<and>
        claim claims ''exp'' = Some (json_int e) \<and> 0 \<le> e \<and> e \<le> 2 ^ 53 \<and> now < e * Second \<and>
        (\<forall>t. tok_HMAC t \<longrightarrow> kf t = Inr secret) \<longrightarrow>
        (\<exists>t. jwt_Parse C now kf tok = Inr t \<and> tok_HMAC t \<and> tok_Valid t \<and> tok_Claims t = Some claims))"

lemma crypto_bcrypt: "crypto_ok C \<Longrightarrow> bcrypt_Generate C salt p = Inr h \<Longrightarrow> bcrypt_Compare C h p = None"
  by (simp add: crypto_ok_def)

lemma crypto_jwt:
  "crypto_ok C \<Longrightarrow> json_wf claims \<Longrightarrow> jwt_Sign C secret claims = Inr tok \<Longrightarrow>
   claim claims ''exp'' = Some (json_int e) \<Longrightarrow> 0 \<le> e \<Longrightarrow> e \<le> 2 ^ 53 \<Longrightarrow> now < e * Second \<Longrightarrow>
   (\<And>t. tok_HMAC t \<Longrightarrow> kf t = Inr secret) \<Longrightarrow>
   \<exists>t. jwt_Parse C now kf tok = Inr t \<and> tok_HMAC t \<and> tok_Valid t \<and> tok_Claims t = Some claims"
  unfolding crypto_ok_def by blast

lemma users_First: "users_ok G us ss \<Longrightarrow> gu_First G d c = Inr u \<Longrightarrow> u \<in> set (us d) \<and> user_matches c u"
  by (simp add: users_ok_def)

lemma users_NotFound:
  "users_ok G us ss \<Longrightarrow> gu_First G d c = Inl ErrRecordNotFound \<Longrightarrow> u \<in> set (us d) \<Longrightarrow> \<not> user_matches c u"
  by (simp add: users_ok_def)

lemma users_Count:
  "users_ok G us ss \<Longrightarrow> gu_Count G d c = Inr n \<Longrightarrow> sint n = int (length (filter (user_matches c) (us d)))"
  by (simp add: users_ok_def)

lemma users_Create:
  "users_ok G us ss \<Longrightarrow> gu_Create G d u = (Inr v, d') \<Longrightarrow>
   us d' = us d @ [v] \<and> ss d' = ss d \<and>
   (\<exists>i t. i \<notin> user_UserID ` set (us d) \<and> v = u\<lparr>user_UserID := i, user_CreatedAt := t\<rparr>)"
  by (simp add: users_ok_def)

lemma users_Create_fails:
  "users_ok G us ss \<Longrightarrow> gu_Create G d u = (Inl e, d') \<Longrightarrow> us d' = us d \<and> ss d' = ss d"
  unfolding users_ok_def by blast

lemma users_LastLogin:
  "users_ok G us ss \<Longrightarrow> gu_UpdateLastLogin G d i t = (e, d') \<Longrightarrow> ss d' = ss d"
  unfolding users_ok_def by blast

lemma sessions_First:
  assumes "sessions_ok G us ss" "gn_First G d (SessionIdIs i) = Inr s"
  shows "s \<in> set (ss d) \<and> ses_SessionID s = i"
  using assms unfolding sessions_ok_def by blast

lemma sessions_Create:
  "sessions_ok G us ss \<Longrightarrow> gn_Create G d s = (None, d') \<Longrightarrow>
   us d' = us d \<and> (\<exists>t. ss d' = ss d @ [s\<lparr>ses_CreatedAt := t\<rparr>])"
  unfolding sessions_ok_def by blast

lemma sessions_Updates:
  "sessions_ok G us ss \<Longrightarrow> gn_Updates G d s = (None, d') \<Longrightarrow>
   us d' = us d \<and>
   ss d' = map (\<lambda>x. if ses_SessionID x = ses_SessionID s
                    then x\<lparr>ses_Token := ses_Token s, ses_ExpiresAt := ses_ExpiresAt s\<rparr> else x) (ss d)"
  unfolding sessions_ok_def by blast

lemma sessions_Delete:
  "sessions_ok G us ss \<Longrightarrow> gn_Delete G d c = (None, d') \<Longrightarrow>
   us d' = us d \<and> ss d' = filter (\<lambda>s. \<not> session_matches c s) (ss d)"
  unfolding sessions_ok_def by blast

section \<open>Tokens\<close>

lemma claim_names [simp]: "valid_utf8 ''exp''" "valid_utf8 ''iat''" "valid_utf8 ''user_id''" "valid_utf8 ''username''"
  by (rule ascii_valid_utf8, simp add: byte_def)+

lemma token_claims_wf: "valid_utf8 username \<Longrightarrow> json_wf (token_claims userID username exp iat)"
  by (auto simp: token_claims_def json_int_def)

lemma token_claims_lookup:
  "claim (token_claims userID username exp iat) ''exp'' = Some (json_int (sint exp))"
  "claim (token_claims userID username exp iat) ''user_id'' = Some (json_int (sint userID))"
  "claim (token_claims userID username exp iat) ''username'' = Some (JStr username)"
  by (simp_all add: token_claims_def)

lemma num_claim_int:
  "claim c k = Some (json_int (sint v)) \<Longrightarrow> \<bar>sint v\<bar> \<le> 2 ^ 53 \<Longrightarrow> num_claim C c k = Some v" for v :: int64
  using int64_float_roundtrip [of v "overflow C"] by (simp add: num_claim_def json_int_def float_of_int64_def)

lemma sint_small: "0 \<le> i \<Longrightarrow> i \<le> 2 ^ 53 \<Longrightarrow> sint (word_of_int i :: int64) = i"
  by (subst signed_of_int) (simp add: signed_take_bit_int_eq_self)

lemma generateToken_validates:
  assumes C: "crypto_ok (uc_crypto uc)"
    and gen: "generateToken uc userID username w = (Inr (tok, expiresAt), w')"
    and name: "valid_utf8 username" and id: "\<bar>sint userID\<bar> \<le> 2 ^ 53"
    and exp: "0 \<le> expiresAt div Second" "expiresAt div Second \<le> 2 ^ 53"
    and now: "uw_clock v (uw_reads v) < expiresAt div Second * Second"
  shows "fst (ValidateToken uc tok v) = Some (Inr (userID, username, expiresAt div Second * Second))"
proof -
  let ?C = "uc_crypto uc"
  have e: "sint (Unix expiresAt) = expiresAt div Second" using exp by (simp add: Unix_def sint_small)
  from gen obtain iat where sign:
    "jwt_Sign ?C (jwtSecret uc) (token_claims userID username (Unix expiresAt) iat) = Inr tok"
    by (auto simp: generateToken_def userNow_def Let_def split: sum.splits)
  let ?c = "token_claims userID username (Unix expiresAt) iat"
  have kf: "tok_HMAC t \<Longrightarrow> keyFunc uc t = Inr (jwtSecret uc)" for t by (simp add: keyFunc_def)
  have exp_claim: "claim ?c ''exp'' = Some (json_int (expiresAt div Second))"
    using token_claims_lookup(1) [of userID username "Unix expiresAt" iat] unfolding e .
  obtain t where t: "jwt_Parse ?C (uw_clock v (uw_reads v)) (keyFunc uc) tok = Inr t" "tok_Valid t"
      "tok_Claims t = Some ?c"
    using crypto_jwt [where kf = "keyFunc uc", OF C token_claims_wf [OF name] sign exp_claim exp now] kf by blast
  have 1: "num_claim ?C ?c ''user_id'' = Some userID"
    by (rule num_claim_int [OF token_claims_lookup(2) id])
  have "\<bar>sint (Unix expiresAt)\<bar> \<le> 2 ^ 53" unfolding e using exp by (simp only: abs_of_nonneg)
  then have 2: "num_claim ?C ?c ''exp'' = Some (Unix expiresAt)"
    by (rule num_claim_int [OF token_claims_lookup(1)])
  have 3: "str_claim ?c ''username'' = Some username"
    by (simp only: str_claim_def token_claims_lookup(3)) simp
  show ?thesis
    unfolding ValidateToken_def userNow_def using t 1 2 3 e
    by (simp only: Let_def split_beta fst_conv snd_conv sum.case option.case) simp
qed

section \<open>Repositories under the hypotheses\<close>

lemma GetByUsername_sound:
  "users_ok G us ss \<Longrightarrow> GetByUsername G name d = Inr u \<Longrightarrow> u \<in> set (us d) \<and> user_Username u = name"
  using users_First [of G us ss d "UsernameIs name" u]
  by (auto simp: GetByUsername_def user_First_def split: sum.splits db_error.splits)

lemma GetByID_sound:
  "users_ok G us ss \<Longrightarrow> GetByID G i d = Inr u \<Longrightarrow> u \<in> set (us d) \<and> user_UserID u = i"
  using users_First [of G us ss d "IdIs i" u]
  by (auto simp: GetByID_def user_First_def split: sum.splits db_error.splits)

lemma exists_sound:
  assumes "users_ok G us ss" "gu_Count G d c = Inr n" "\<not> 0 < sint n" "u \<in> set (us d)"
  shows "\<not> user_matches c u"
  using users_Count [OF assms(1,2)] assms(3,4) by (auto simp: filter_empty_conv)

lemma GetBySessionID_sound:
  "sessions_ok G us ss \<Longrightarrow> GetBySessionID G i d = Inr s \<Longrightarrow> s \<in> set (ss d) \<and> ses_SessionID s = i"
  using sessions_First [of G us ss d i s] by (auto simp: GetBySessionID_def split: sum.splits db_error.splits)

lemma UpdateLastLogin_sessions:
  "users_ok G us ss \<Longrightarrow> UpdateLastLogin G i w = (e, w') \<Longrightarrow> ss (uw_db w') = ss (uw_db w)"
  using users_LastLogin [of G us ss] by (fastforce simp: UpdateLastLogin_def userNow_def split: prod.splits)

lemma generateToken_db: "generateToken uc i n w = (r, w') \<Longrightarrow> uw_db w' = uw_db w"
  by (auto simp: generateToken_def userNow_def Let_def split: sum.splits)

lemma generateRefreshToken_db: "generateRefreshToken w = (r, w') \<Longrightarrow> uw_db w' = uw_db w"
  by (auto simp: generateRefreshToken_def split: sum.splits)

lemma LoginE:
  assumes "Login uc username password w = (Inr (userID, tok, rt, expiresAt), w')"
  obtains user w1 w2 w3 d' where
    "GetByUsername (uc_db uc) username (uw_db w) = Inr user" "IsActive user"
    "bcrypt_Compare (uc_crypto uc) (user_PasswordHash user) password = None"
    "generateToken uc (user_UserID user) (user_Username user) w = (Inr (tok, expiresAt), w1)"
    "generateRefreshToken w1 = (Inr rt, w2)" "userID = user_UserID user"
    "session_Create (uc_db uc) \<lparr>ses_SessionID = rt, ses_UserID = user_UserID user, ses_Token = tok,
       ses_ExpiresAt = expiresAt + refreshGrace, ses_CreatedAt = zero_time\<rparr> (uw_db w2) = (None, d')"
    "UpdateLastLogin (uc_db uc) (user_UserID user) (w2\<lparr>uw_db := d'\<rparr>) = (w3, w')"
  using assms unfolding Login_def
  by (auto split: sum.splits if_splits prod.splits option.splits simp: Let_def)

lemma user_RegisterE:
  assumes "user_Register uc username password email w = (Inr userID, w')"
  obtains hashed user d' where
    "username \<noteq> []" "6 \<le> length password" "UsernameExists (uc_db uc) username (uw_db w) = Inr False"
    "EmailExists (uc_db uc) email (uw_db w) = Inr False"
    "bcrypt_Generate (uc_crypto uc) (uw_salts w) password = Inr hashed"
    "user_Create (uc_db uc)
       \<lparr>user_UserID = 0, user_Username = username, user_PasswordHash = hashed, user_Email = email,
        user_Status = UserStatusActive, user_CreatedAt = zero_time, user_LastLoginAt = None\<rparr> (uw_db w)
       = (Inr user, d')"
    "userID = user_UserID user" "w' = w\<lparr>uw_salts := Suc (uw_salts w), uw_db := d'\<rparr>"
  using assms unfolding user_Register_def
  by (auto split: sum.splits if_splits prod.splits bool.splits simp: Let_def)

lemma RefreshTokenE:
  assumes "RefreshToken uc rt w = (Inr (tok, rt', expiresAt), w')"
  obtains session user w1 d' where
    "GetBySessionID (uc_db uc) rt (uw_db w) = Inr session" "uw_clock w (uw_reads w) \<le> ses_ExpiresAt session"
    "GetByID (uc_db uc) (ses_UserID session) (uw_db w) = Inr user" "IsActive user"
    "generateToken uc (user_UserID user) (user_Username user) (snd (userNow w)) = (Inr (tok, expiresAt), w1)"
    "session_Update (uc_db uc) (session\<lparr>ses_Token := tok\<rparr>) (uw_db w1) = (None, d')"
    "rt' = rt" "w' = w1\<lparr>uw_db := d'\<rparr>"
  using assms unfolding RefreshToken_def
  by (auto split: sum.splits if_splits prod.splits option.splits simp: Let_def userNow_def not_less)

section \<open>The hypotheses can hold\<close>

text \<open>Two tables as lists, and a token that carries its secret.\<close>

type_synonym tables = "User list \<times> Session list"

definition first_row :: "('r \<Rightarrow> bool) \<Rightarrow> 'r list \<Rightarrow> db_error + 'r" where
  "first_row P rs = (case find P rs of Some r \<Rightarrow> Inr r | None \<Rightarrow> Inl ErrRecordNotFound)"

definition table_gorm :: "tables gorm" where
  "table_gorm =
     \<lparr>gu_Create = \<lambda>(us, ss) u.
        (let i = word_of_nat (Suc (length us))
         in if i \<in> user_UserID ` set us then (Inl ''duplicate key'', (us, ss))
            else (Inr (u\<lparr>user_UserID := i, user_CreatedAt := 5\<rparr>),
                  (us @ [u\<lparr>user_UserID := i, user_CreatedAt := 5\<rparr>], ss))),
      gu_First = \<lambda>(us, ss) c. first_row (user_matches c) us,
      gu_Count = \<lambda>(us, ss) c.
        (let n = length (filter (user_matches c) us)
         in if n < 2 ^ 63 then Inr (word_of_nat n) else Inl ''too many''),
      gu_UpdateLastLogin = \<lambda>(us, ss) i t.
        (None, (map (\<lambda>u. if user_UserID u = i then u\<lparr>user_LastLoginAt := Some t\<rparr> else u) us, ss)),
      gn_Create = \<lambda>(us, ss) s. (None, (us, ss @ [s\<lparr>ses_CreatedAt := 5\<rparr>])),
      gn_First = \<lambda>(us, ss) c. first_row (session_matches c) ss,
      gn_Updates = \<lambda>(us, ss) s.
        (None, (us, map (\<lambda>x. if ses_SessionID x = ses_SessionID s
                              then x\<lparr>ses_Token := ses_Token s, ses_ExpiresAt := ses_ExpiresAt s\<rparr> else x) ss)),
      gn_Delete = \<lambda>(us, ss) c. (None, (us, filter (\<lambda>s. \<not> session_matches c s) ss))\<rparr>"

lemma first_row_Inr: "first_row P rs = Inr r \<Longrightarrow> r \<in> set rs \<and> P r"
  by (auto simp: first_row_def find_Some_iff split: option.splits)

lemma first_row_Inl: "first_row P rs = Inl e \<Longrightarrow> \<forall>r \<in> set rs. \<not> P r"
  by (auto simp: first_row_def find_None_iff split: option.splits)

lemma sint_of_nat: "n < 2 ^ 63 \<Longrightarrow> sint (word_of_nat n :: int64) = int n"
  by (subst signed_of_nat) (simp add: signed_take_bit_int_eq_self)

lemma table_users_ok: "users_ok table_gorm fst snd"
  unfolding users_ok_def table_gorm_def
  by (auto simp: Let_def sint_of_nat dest!: first_row_Inr first_row_Inl split: if_splits)

lemma table_sessions_ok: "sessions_ok table_gorm fst snd"
  unfolding sessions_ok_def table_gorm_def by (auto dest: first_row_Inr)

definition sample_parse :: "go_time \<Rightarrow> (jwt_token \<Rightarrow> go_error + string) \<Rightarrow> string \<Rightarrow> go_error + jwt_token" where
  "sample_parse now kf tok =
     (case json_parse tok of
        Some (JArr [JStr secret, claims]) \<Rightarrow>
          (let t = \<lparr>tok_HMAC = True, tok_Alg = ''HS256'', tok_Claims = Some claims, tok_Valid = True\<rparr>
           in case kf t of
                Inl e \<Rightarrow> Inl e
              | Inr key \<Rightarrow>
                  if key \<noteq> secret then Inl ''signature is invalid''
                  else (case claim claims ''exp'' of
                          Some (JNum l) \<Rightarrow>
                            (case parse_int l of
                               Some e \<Rightarrow> if now < e * Second then Inr t else Inl ''token is expired''
                             | None \<Rightarrow> Inl ''exp is invalid'')
                        | _ \<Rightarrow> Inl ''exp is invalid''))
      | _ \<Rightarrow> Inl ''token is malformed'')"

definition sample_crypto :: crypto where
  "sample_crypto =
     \<lparr>bcrypt_Generate = \<lambda>salt p. Inr (itoa (int salt) @ ''$'' @ p),
      bcrypt_Compare = \<lambda>h p. if tl (dropWhile (\<lambda>c. c \<noteq> CHR ''$'') h) = p then None else Some ''mismatch'',
      jwt_Sign = \<lambda>secret claims.
        if valid_utf8 secret then Inr (json_enc (JArr [JStr secret, claims])) else Inl ''bad key'',
      jwt_Parse = sample_parse, fracInt = \<lambda>_. 0, overflow = \<lambda>_. 0\<rparr>"

lemma dollar_itoa: "tl (dropWhile (\<lambda>c. c \<noteq> CHR ''$'') (itoa i @ ''$'' @ p)) = p"
proof -
  have "CHR ''$'' \<notin> set (itoa i)" using itoa_decimal [of i] by (auto simp: decimal_chars_def)
  then have "dropWhile (\<lambda>c. c \<noteq> CHR ''$'') (itoa i @ ''$'' @ p) = ''$'' @ p"
    by (induction "itoa i" arbitrary: i) (auto simp: dropWhile_append)
  then show ?thesis by simp
qed

lemma sample_crypto_ok: "crypto_ok sample_crypto"
  unfolding crypto_ok_def
proof (intro conjI allI impI)
  fix salt p h
  assume "bcrypt_Generate sample_crypto salt p = Inr h"
  then show "bcrypt_Compare sample_crypto h p = None" using dollar_itoa by (auto simp: sample_crypto_def)
next
  fix secret claims tok now e and kf :: "jwt_token \<Rightarrow> go_error + string"
  assume a: "json_wf claims \<and> jwt_Sign sample_crypto secret claims = Inr tok \<and>
     claim claims ''exp'' = Some (json_int e) \<and> 0 \<le> e \<and> e \<le> 2 ^ 53 \<and> now < e * Second \<and>
     (\<forall>t. tok_HMAC t \<longrightarrow> kf t = Inr secret)"
  then have "valid_utf8 secret" "tok = json_enc (JArr [JStr secret, claims])"
    by (auto simp: sample_crypto_def split: if_splits)
  with a json_parse_enc [of "JArr [JStr secret, claims]"] have "json_parse tok = Some (JArr [JStr secret, claims])"
    by simp
  with a show "\<exists>t. jwt_Parse sample_crypto now kf tok = Inr t \<and> tok_HMAC t \<and> tok_Valid t \<and> tok_Claims t = Some claims"
    by (simp add: sample_crypto_def sample_parse_def json_int_def Let_def)
qed

text \<open>Ana registers and logs in.\<close>

definition sample_users :: "tables UserUseCase" where
  "sample_users = NewUserUseCase table_gorm sample_crypto ''key'' (3600 * Second)"

definition no_users :: "tables user_world" where
  "no_users =
     \<lparr>uw_db = ([], []), uw_clock = \<lambda>n. (1000 + int n) * Second, uw_reads = 0, uw_random = \<lambda>_. Inr [1, 255],
      uw_draws = 0, uw_salts = 0\<rparr>"

definition ana :: User where
  "ana = \<lparr>user_UserID = 1, user_Username = ''ana'', user_PasswordHash = ''0$secret'', user_Email = ''a@b'',
          user_Status = 1, user_CreatedAt = 5, user_LastLoginAt = None\<rparr>"

definition ana_registered :: "tables user_world" where
  "ana_registered = no_users\<lparr>uw_db := ([ana], []), uw_salts := 1\<rparr>"

definition ana_token :: string where
  "ana_token = json_enc (JArr [JStr ''key'', token_claims 1 ''ana'' (Unix (4600 * Second)) (Unix (1001 * Second))])"

definition ana_session :: Session where
  "ana_session = \<lparr>ses_SessionID = ''01ff'', ses_UserID = 1, ses_Token = ana_token,
     ses_ExpiresAt = 4600 * Second + refreshGrace, ses_CreatedAt = 5\<rparr>"

definition ana_logged_in :: "tables user_world" where
  "ana_logged_in = ana_registered\<lparr>uw_db := ([ana\<lparr>user_LastLoginAt := Some (1002 * Second)\<rparr>], [ana_session]),
     uw_reads := 3, uw_draws := 1\<rparr>"

lemma sample_users_sel [simp]:
  "uc_db sample_users = table_gorm" "uc_crypto sample_users = sample_crypto"
  "jwtSecret sample_users = ''key''" "tokenDuration sample_users = 3600 * Second"
  by (simp_all add: sample_users_def NewUserUseCase_def)

lemma table_count: "length (filter (user_matches c) us) < 2 ^ 63 \<Longrightarrow>
    gu_Count table_gorm (us, ss) c = Inr (word_of_nat (length (filter (user_matches c) us)))"
  by (simp add: table_gorm_def)

lemma table_rows:
  "gn_Create table_gorm (us, ss) s = (None, (us, ss @ [s\<lparr>ses_CreatedAt := 5\<rparr>]))"
  "gu_UpdateLastLogin table_gorm (us, ss) i t =
     (None, (map (\<lambda>u. if user_UserID u = i then u\<lparr>user_LastLoginAt := Some t\<rparr> else u) us, ss))"
  "gn_Delete table_gorm (us, ss) c = (None, (us, filter (\<lambda>s. \<not> session_matches c s) ss))"
  "gn_Updates table_gorm (us, ss) s =
     (None, (us, map (\<lambda>x. if ses_SessionID x = ses_SessionID s
                           then x\<lparr>ses_Token := ses_Token s, ses_ExpiresAt := ses_ExpiresAt s\<rparr> else x) ss))"
  by (simp_all add: table_gorm_def)

lemma zero_itoa: "itoa 0 = ''0''"
  by (simp add: itoa_def nat_digits.simps digit_char_def)

lemma ana_register:
  "user_Register sample_users ''ana'' ''secret'' ''a@b'' no_users = (Inr 1, ana_registered)"
  by (simp add: user_Register_def UsernameExists_def EmailExists_def user_Create_def no_users_def
      sample_crypto_def ana_registered_def ana_def table_count)
    (simp add: table_gorm_def zero_itoa)

lemma ana_found: "GetByUsername table_gorm ''ana'' ([ana], []) = Inr ana"
  by (simp add: GetByUsername_def user_First_def table_gorm_def first_row_def ana_def)

lemma key_utf8: "valid_utf8 ''key''" "valid_utf8 ''ana''"
  by (rule ascii_valid_utf8, simp add: byte_def)+

lemma ana_generate:
  "generateToken sample_users 1 ''ana'' ana_registered =
     (Inr (ana_token, 4600 * Second), ana_registered\<lparr>uw_reads := 2\<rparr>)"
  by (simp add: generateToken_def userNow_def Let_def ana_registered_def no_users_def sample_crypto_def
      ana_token_def key_utf8 Second_def)

lemma ana_login:
  "Login sample_users ''ana'' ''secret'' ana_registered =
     (Inr (1, ana_token, ''01ff'', 4600 * Second), ana_logged_in)"
proof -
  have 1: "GetByUsername table_gorm ''ana'' (uw_db ana_registered) = Inr ana"
    by (simp add: ana_found ana_registered_def)
  have 2: "IsActive ana" "bcrypt_Compare sample_crypto (user_PasswordHash ana) ''secret'' = None"
    "user_UserID ana = 1" "user_Username ana = ''ana''"
    by (simp_all add: ana_def IsActive_def sample_crypto_def)
  have 3: "generateRefreshToken (ana_registered\<lparr>uw_reads := 2\<rparr>) =
      (Inr ''01ff'', ana_registered\<lparr>uw_reads := 2, uw_draws := 1\<rparr>)"
    by (simp add: generateRefreshToken_def ana_registered_def no_users_def EncodeToString_def hex_digit_def)
  show ?thesis
    unfolding Login_def
    by (simp add: 1 2 3 ana_generate session_Create_def UpdateLastLogin_def userNow_def ana_logged_in_def
        ana_session_def table_rows Let_def)
      (simp add: ana_registered_def no_users_def ana_def Second_def table_rows UpdateLastLogin_def userNow_def)
qed

section \<open>Properties\<close>

text \<open>C25. Registration.  A success creates one active user whose fields are those of the request and whose
  password hash accepts the password, under a name and an e-mail address no earlier user has; a
  failure leaves the users as they were.  So names and e-mail addresses stay unique.\<close>

theorem register_spec:
  assumes ok: "users_ok (uc_db uc) us ss" "crypto_ok (uc_crypto uc)"
    and reg: "user_Register uc username password email w = (r, w')"
  shows "case r of
      Inl err \<Rightarrow> us (uw_db w') = us (uw_db w)
    | Inr userID \<Rightarrow>
        (\<exists>user. us (uw_db w') = us (uw_db w) @ [user] \<and> user_UserID user = userID \<and>
           userID \<notin> user_UserID ` set (us (uw_db w)) \<and>
           username \<notin> user_Username ` set (us (uw_db w)) \<and> email \<notin> user_Email ` set (us (uw_db w)) \<and>
           user_Username user = username \<and> user_Email user = email \<and> IsActive user \<and>
           bcrypt_Compare (uc_crypto uc) (user_PasswordHash user) password = None)"
proof (cases r)
  case (Inl err)
  with reg users_Create_fails [OF ok(1)] show ?thesis
    by (auto simp: user_Register_def user_Create_def Let_def split: sum.splits if_splits prod.splits bool.splits)
next
  case (Inr userID)
  with reg have reg: "user_Register uc username password email w = (Inr userID, w')" by simp
  obtain hashed user d' where x:
    "UsernameExists (uc_db uc) username (uw_db w) = Inr False"
    "EmailExists (uc_db uc) email (uw_db w) = Inr False"
    "bcrypt_Generate (uc_crypto uc) (uw_salts w) password = Inr hashed"
    "gu_Create (uc_db uc) (uw_db w)
       \<lparr>user_UserID = 0, user_Username = username, user_PasswordHash = hashed, user_Email = email,
        user_Status = UserStatusActive, user_CreatedAt = zero_time, user_LastLoginAt = None\<rparr>
       = (Inr user, d')"
    "userID = user_UserID user" "w' = w\<lparr>uw_salts := Suc (uw_salts w), uw_db := d'\<rparr>"
    using reg by (auto elim!: user_RegisterE simp: user_Create_def split: sum.splits prod.splits)
  have "username \<notin> user_Username ` set (us (uw_db w))" "email \<notin> user_Email ` set (us (uw_db w))"
    using x(1,2) exists_sound [OF ok(1)]
    by (fastforce simp: UsernameExists_def EmailExists_def split: sum.splits)+
  with users_Create [OF ok(1) x(4)] crypto_bcrypt [OF ok(2) x(3)] x(5,6) Inr show ?thesis
    by (auto simp: IsActive_def)
qed

theorem register_spec_witness:
  "\<exists>user. fst (uw_db ana_registered) = [user] \<and> user_Username user = ''ana'' \<and> IsActive user \<and>
     bcrypt_Compare sample_crypto (user_PasswordHash user) ''secret'' = None"
  using register_spec [of sample_users fst snd, OF _ _ ana_register] table_users_ok sample_crypto_ok
  by (auto simp: no_users_def)

text \<open>C26. Login.  A success means that an active user of that name exists whose hash accepts the password;
  the session of the refresh token is stored for a week past the expiry of the access token; and
  until it expires the access token is accepted as that user, for identifiers of up to 53 bits.\<close>

theorem login_spec:
  assumes ok: "users_ok (uc_db uc) us ss" "sessions_ok (uc_db uc) us ss" "crypto_ok (uc_crypto uc)"
    and login: "Login uc username password w = (Inr (userID, tok, rt, expiresAt), w')"
    and name: "valid_utf8 username"
    and exp: "0 \<le> expiresAt div Second" "expiresAt div Second \<le> 2 ^ 53"
  shows "(\<exists>user \<in> set (us (uw_db w)). user_Username user = username \<and> user_UserID user = userID \<and>
           IsActive user \<and> bcrypt_Compare (uc_crypto uc) (user_PasswordHash user) password = None) \<and>
     (\<exists>s \<in> set (ss (uw_db w')). ses_SessionID s = rt \<and> ses_UserID s = userID \<and> ses_Token s = tok \<and>
           ses_ExpiresAt s = expiresAt + refreshGrace) \<and>
     (\<forall>v. \<bar>sint userID\<bar> \<le> 2 ^ 53 \<longrightarrow> uw_clock v (uw_reads v) < expiresAt div Second * Second \<longrightarrow>
        fst (ValidateToken uc tok v) = Some (Inr (userID, username, expiresAt div Second * Second)))"
proof -
  from login obtain user w1 w2 w3 d' where x:
    "GetByUsername (uc_db uc) username (uw_db w) = Inr user" "IsActive user"
    "bcrypt_Compare (uc_crypto uc) (user_PasswordHash user) password = None"
    "generateToken uc (user_UserID user) (user_Username user) w = (Inr (tok, expiresAt), w1)"
    "userID = user_UserID user"
    "session_Create (uc_db uc) \<lparr>ses_SessionID = rt, ses_UserID = user_UserID user, ses_Token = tok,
       ses_ExpiresAt = expiresAt + refreshGrace, ses_CreatedAt = zero_time\<rparr> (uw_db w2) = (None, d')"
    "UpdateLastLogin (uc_db uc) (user_UserID user) (w2\<lparr>uw_db := d'\<rparr>) = (w3, w')"
    by (rule LoginE)
  note user = GetByUsername_sound [OF ok(1) x(1)]
  have "gn_Create (uc_db uc) (uw_db w2) \<lparr>ses_SessionID = rt, ses_UserID = user_UserID user, ses_Token = tok,
       ses_ExpiresAt = expiresAt + refreshGrace, ses_CreatedAt = zero_time\<rparr> = (None, d')"
    using x(6) by (auto simp: session_Create_def split: prod.splits)
  from sessions_Create [OF ok(2) this]
  have "\<exists>s \<in> set (ss d'). ses_SessionID s = rt \<and> ses_UserID s = userID \<and> ses_Token s = tok \<and>
      ses_ExpiresAt s = expiresAt + refreshGrace"
    using x(5) by auto
  moreover have "ss (uw_db w') = ss d'" using UpdateLastLogin_sessions [OF ok(1) x(7)] by simp
  moreover have "fst (ValidateToken uc tok v) = Some (Inr (userID, username, expiresAt div Second * Second))"
    if "\<bar>sint userID\<bar> \<le> 2 ^ 53" "uw_clock v (uw_reads v) < expiresAt div Second * Second" for v
    using generateToken_validates [OF ok(3) x(4) _ _ exp that(2)] user name that(1) x(5) by simp
  ultimately show ?thesis using user x(2,3,5) by auto
qed

theorem login_spec_witness:
  "\<exists>v. fst (ValidateToken sample_users ana_token v) = Some (Inr (1, ''ana'', 4600 * Second)) \<and>
     ana_session \<in> set (snd (uw_db ana_logged_in))"
proof -
  have exp: "(4600 * Second) div Second = 4600" by (simp add: Second_def)
  have now: "uw_clock ana_logged_in (uw_reads ana_logged_in) < 4600 * Second"
    by (simp add: ana_logged_in_def ana_registered_def no_users_def Second_def)
  have "\<forall>v. \<bar>sint (1 :: int64)\<bar> \<le> 2 ^ 53 \<longrightarrow> uw_clock v (uw_reads v) < (4600 * Second) div Second * Second \<longrightarrow>
      fst (ValidateToken sample_users ana_token v) =
        Some (Inr (1, ''ana'', (4600 * Second) div Second * Second))"
    using login_spec [of sample_users fst snd, OF _ _ _ ana_login key_utf8(2)]
      table_users_ok table_sessions_ok sample_crypto_ok exp by simp
  with now exp have "fst (ValidateToken sample_users ana_token ana_logged_in) = Some (Inr (1, ''ana'', 4600 * Second))"
    by simp
  then show ?thesis by (intro exI [of _ ana_logged_in]) (simp add: ana_logged_in_def)
qed

text \<open>Refreshing.  A new access token is given only for a stored session that has not expired and whose
  user is active; it is accepted as that user; and the session keeps its identifier, owner and expiry
  with the new token in place of the old one, while the other sessions stay.\<close>

theorem refresh_spec:
  assumes ok: "users_ok (uc_db uc) us ss" "sessions_ok (uc_db uc) us ss" "crypto_ok (uc_crypto uc)"
    and refresh: "RefreshToken uc rt w = (Inr (tok, rt', expiresAt), w')"
    and exp: "0 \<le> expiresAt div Second" "expiresAt div Second \<le> 2 ^ 53"
  shows "rt' = rt \<and>
     (\<exists>s \<in> set (ss (uw_db w)). \<exists>user \<in> set (us (uw_db w)).
        ses_SessionID s = rt \<and> uw_clock w (uw_reads w) \<le> ses_ExpiresAt s \<and>
        user_UserID user = ses_UserID s \<and> IsActive user \<and>
        ss (uw_db w') = map (\<lambda>x. if ses_SessionID x = rt
                                  then x\<lparr>ses_Token := tok, ses_ExpiresAt := ses_ExpiresAt s\<rparr> else x) (ss (uw_db w)) \<and>
        (\<forall>v. valid_utf8 (user_Username user) \<longrightarrow> \<bar>sint (user_UserID user)\<bar> \<le> 2 ^ 53 \<longrightarrow>
           uw_clock v (uw_reads v) < expiresAt div Second * Second \<longrightarrow>
           fst (ValidateToken uc tok v) =
             Some (Inr (user_UserID user, user_Username user, expiresAt div Second * Second))))"
proof -
  from refresh obtain s user w1 d' where x:
    "GetBySessionID (uc_db uc) rt (uw_db w) = Inr s" "uw_clock w (uw_reads w) \<le> ses_ExpiresAt s"
    "GetByID (uc_db uc) (ses_UserID s) (uw_db w) = Inr user" "IsActive user"
    "generateToken uc (user_UserID user) (user_Username user) (snd (userNow w)) = (Inr (tok, expiresAt), w1)"
    "session_Update (uc_db uc) (s\<lparr>ses_Token := tok\<rparr>) (uw_db w1) = (None, d')"
    "rt' = rt" "w' = w1\<lparr>uw_db := d'\<rparr>"
    by (rule RefreshTokenE)
  have db: "uw_db w1 = uw_db w" using generateToken_db [OF x(5)] by (simp add: userNow_def)
  have "gn_Updates (uc_db uc) (uw_db w) (s\<lparr>ses_Token := tok\<rparr>) = (None, d')"
    using x(6) db by (auto simp: session_Update_def split: prod.splits)
  note up = sessions_Updates [OF ok(2) this]
  note found = GetBySessionID_sound [OF ok(2) x(1)] GetByID_sound [OF ok(1) x(3)]
  show ?thesis
    using generateToken_validates [OF ok(3) x(5) _ _ exp] x(2,4,7,8) up found
    by (intro conjI bexI [of _ s] bexI [of _ user]) simp_all
qed

theorem refresh_spec_witness:
  "\<exists>tok w'. RefreshToken sample_users ''01ff'' ana_logged_in = (Inr (tok, ''01ff'', 4604 * Second), w') \<and>
     (\<exists>s \<in> set (snd (uw_db ana_logged_in)). ses_SessionID s = ''01ff'' \<and>
        snd (uw_db w') = [s\<lparr>ses_Token := tok\<rparr>])"
proof -
  let ?u = "ana\<lparr>user_LastLoginAt := Some (1002 * Second)\<rparr>"
  have db: "uw_db ana_logged_in = ([?u], [ana_session])" by (simp add: ana_logged_in_def)
  have 1: "GetBySessionID table_gorm ''01ff'' ([?u], [ana_session]) = Inr ana_session"
    by (simp add: GetBySessionID_def table_gorm_def first_row_def ana_session_def)
  have 2: "GetByID table_gorm 1 ([?u], [ana_session]) = Inr ?u"
    by (simp add: GetByID_def user_First_def table_gorm_def first_row_def ana_def)
  define tok where
    "tok = json_enc (JArr [JStr ''key'', token_claims 1 ''ana'' (Unix (4604 * Second)) (Unix (1005 * Second))])"
  let ?w = "ana_logged_in\<lparr>uw_db := ([?u], [ana_session\<lparr>ses_Token := tok\<rparr>]), uw_reads := 6\<rparr>"
  have 3: "generateToken sample_users 1 ''ana'' (ana_logged_in\<lparr>uw_reads := 4\<rparr>) =
      (Inr (tok, 4604 * Second), ana_logged_in\<lparr>uw_reads := 6\<rparr>)"
    by (simp add: generateToken_def userNow_def Let_def ana_logged_in_def ana_registered_def no_users_def
        sample_crypto_def key_utf8 Second_def tok_def)
  have 4: "userNow ana_logged_in = (1003 * Second, ana_logged_in\<lparr>uw_reads := 4\<rparr>)"
    by (simp add: userNow_def ana_logged_in_def ana_registered_def no_users_def Second_def)
  have 5: "\<not> 1003 * Second > ses_ExpiresAt ana_session" "ses_UserID ana_session = 1"
    "user_UserID ana = 1" "user_Username ana = ''ana''" "IsActive ?u"
    by (simp_all add: ana_session_def ana_def IsActive_def Second_def refreshGrace_def)
  have run: "RefreshToken sample_users ''01ff'' ana_logged_in = (Inr (tok, ''01ff'', 4604 * Second), ?w)"
    unfolding RefreshToken_def by (simp add: db 1 2 3 4 5 session_Update_def table_rows Let_def)
  have "(4604 * Second) div Second = 4604" by (simp add: Second_def)
  with refresh_spec [of sample_users fst snd, OF _ _ _ run] table_users_ok table_sessions_ok sample_crypto_ok
  have "\<exists>s \<in> set (snd (uw_db ana_logged_in)). ses_SessionID s = ''01ff''" by auto
  with run show ?thesis
    by (intro exI [of _ tok] exI [of _ ?w]) (auto simp: db)
qed

text \<open>C27. Logout removes every session of the token, so that its refresh token is worth nothing, but the
  access token itself stays valid until it expires: validation does not look at the sessions.\<close>

theorem logout_keeps_token_valid:
  assumes "sessions_ok (uc_db uc) us ss" "Logout uc tok w = (None, w')"
  shows "(\<forall>s \<in> set (ss (uw_db w')). ses_Token s \<noteq> tok) \<and>
     set (ss (uw_db w')) \<subseteq> set (ss (uw_db w)) \<and>
     fst (ValidateToken uc tok w') = fst (ValidateToken uc tok w)"
proof -
  from assms(2) obtain d' where x: "gn_Delete (uc_db uc) (uw_db w) (TokenIs tok) = (None, d')" "w' = w\<lparr>uw_db := d'\<rparr>"
    by (auto simp: Logout_def DeleteByToken_def split: prod.splits)
  from sessions_Delete [OF assms(1) x(1)] x(2) show ?thesis
    by (auto simp: ValidateToken_def userNow_def Let_def)
qed

theorem logout_keeps_token_valid_witness:
  "snd (uw_db (snd (Logout sample_users ana_token ana_logged_in))) = [] \<and>
   fst (ValidateToken sample_users ana_token (snd (Logout sample_users ana_token ana_logged_in))) =
     fst (ValidateToken sample_users ana_token ana_logged_in)"
proof -
  let ?w = "ana_logged_in\<lparr>uw_db := ([ana\<lparr>user_LastLoginAt := Some (1002 * Second)\<rparr>], [])\<rparr>"
  have out: "Logout sample_users ana_token ana_logged_in = (None, ?w)"
    by (simp add: Logout_def DeleteByToken_def ana_logged_in_def table_rows ana_session_def)
  with logout_keeps_token_valid [of sample_users fst snd, OF _ out] table_sessions_ok show ?thesis by simp
qed

text \<open>Both deployments accept the same tokens, as the same users and with the same expiry.  They differ
  where a token is refused: over gRPC the reason is lost, and a token whose claims make the server
  panic is an error of the call.\<close>

theorem validate_same_over_grpc:
  "(case fst (local_ValidateToken uc tok w) of
      Some (Inr user) \<Rightarrow> fst (client_ValidateToken None (user_rpc lost uc) tok w) = Inr user
    | Some (Inl err) \<Rightarrow> fst (client_ValidateToken None (user_rpc lost uc) tok w) = Inl ''token invalid''
    | None \<Rightarrow> fst (client_ValidateToken None (user_rpc lost uc) tok w) = Inl (''rpc ValidateToken failed: '' @ lost))
   \<and> snd (client_ValidateToken None (user_rpc lost uc) tok w) = snd (local_ValidateToken uc tok w)"
  by (auto simp: local_ValidateToken_def client_ValidateToken_def user_rpc_def grpc_ValidateToken_def
      split: option.splits sum.splits prod.splits)

end
