(* ===== verification/Access.thy ===== *)
theory Access
  imports Gateway_Props User_Props
begin

text \<open>
  The user service and the gateway together: the contract \<open>user_service\<close> of the gateway holds for the
  local adapter of the monolith and for the client and server of the microservice deployment, and a
  player who logs in gets a connection under the own user ID.
\<close>

section \<open>Authentic tokens\<close>

text \<open>The JWT library accepts the token under the secret and at the time of the call, and it names the user.\<close>

definition token_user :: "'d UserUseCase \<Rightarrow> 'd user_world \<Rightarrow> string \<Rightarrow> int64 \<Rightarrow> bool" where
  "token_user uc w tok u \<longleftrightarrow>
     (\<exists>t claims. jwt_Parse (uc_crypto uc) (uw_clock w (uw_reads w)) (keyFunc uc) tok = Inr t \<and>
        tok_Valid t \<and> tok_Claims t = Some claims \<and> num_claim (uc_crypto uc) claims ''user_id'' = Some u)"

lemma ValidateToken_authentic:
  assumes "fst (ValidateToken uc tok w) = Some (Inr (u, name, expiry))"
  shows "token_user uc w tok u"
  using assms unfolding ValidateToken_def token_user_def userNow_def
  by (auto simp: Let_def split: sum.splits if_splits option.splits)

definition remote_ValidateToken ::
    "go_error option \<Rightarrow> go_error \<Rightarrow> 'd UserUseCase \<Rightarrow> string \<Rightarrow> 'd user_world
      \<Rightarrow> (int64 \<times> string \<times> go_time) go_result option \<times> 'd user_world" where
  "remote_ValidateToken conn lost uc tok w =
     (case client_ValidateToken conn (user_rpc lost uc) tok w of (r, w) \<Rightarrow> (Some r, w))"

lemma local_eq: "local_ValidateToken uc tok w = ValidateToken uc tok w"
  by (auto simp: local_ValidateToken_def split: option.splits sum.splits prod.splits)

lemma remote_accepts:
  "remote_ValidateToken conn lost uc tok w = (Some (Inr x), w') \<Longrightarrow> fst (ValidateToken uc tok w) = Some (Inr x)"
  by (cases x) (auto simp: remote_ValidateToken_def client_ValidateToken_def user_rpc_def grpc_ValidateToken_def
      split: option.splits sum.splits prod.splits if_splits)

lemma remote_complete:
  assumes "fst (ValidateToken uc tok w) = Some (Inr x)"
  shows "remote_ValidateToken None lost uc tok w = (Some (Inr x), snd (ValidateToken uc tok w))"
  using assms by (cases x; cases "ValidateToken uc tok w")
    (simp add: remote_ValidateToken_def client_ValidateToken_def user_rpc_def grpc_ValidateToken_def)

interpretation local_users: user_service "local_ValidateToken uc" "token_user uc" for uc
  by unfold_locales (metis ValidateToken_authentic fst_conv local_eq)

interpretation remote_users: user_service "remote_ValidateToken conn lost uc" "token_user uc" for conn lost uc
  by unfold_locales (metis ValidateToken_authentic remote_accepts)

section \<open>Connecting\<close>

lemma connect_accepted:
  assumes "validate tok w = (Some (Inr (u, name, expiry)), w')" "tok \<noteq> []"
  shows "\<exists>c m'. HandleWebSocket validate True tok w m = (Inr (Some c), w', m') \<and> c = nextConn m \<and>
     map_of (clients m') u = Some c \<and> conn_UserID (conns m' c) = u"
  using assms
  by (auto simp: HandleWebSocket_def Register_def run_register_def newConnection_def CloseWithReason_onConn
      Let_def update_conv' split: option.splits)

lemma json_arr_nonempty: "json_enc (JArr js) \<noteq> []"
  by simp

text \<open>C40. In both deployments a WebSocket connection is registered only for a token that the JWT library
  accepts, and only under the user the token names; any other request changes no connection.\<close>

theorem connection_needs_token:
  assumes "HandleWebSocket validate upgraded tok w m = (r, w', m')"
    and "validate = local_ValidateToken uc \<or> validate = remote_ValidateToken conn lost uc"
  shows "case r of
      Inr (Some c) \<Rightarrow> (\<exists>u. token_user uc w tok u \<and> conn_UserID (conns m' c) = u \<and> map_of (clients m') u = Some c)
    | _ \<Rightarrow> m' = m"
proof (cases "\<exists>c. r = Inr (Some c)")
  case True
  then obtain c where "r = Inr (Some c)" by blast
  with assms local_users.connected [of uc] remote_users.connected [of conn lost uc] show ?thesis
    by (auto 0 3)
next
  case False
  with assms local_users.not_connected [of uc] remote_users.not_connected [of conn lost uc]
  show ?thesis by (cases r) (auto split: option.splits)
qed

theorem connection_needs_token_witness:
  "\<exists>r v' m'. HandleWebSocket (local_ValidateToken sample_users) True ana_token ana_logged_in NewManager = (r, v', m') \<and>
     (case r of
        Inr (Some c) \<Rightarrow> (\<exists>u. token_user sample_users ana_logged_in ana_token u \<and> map_of (clients m') u = Some c)
      | _ \<Rightarrow> m' = NewManager)"
proof -
  obtain r v' m' where run:
    "HandleWebSocket (local_ValidateToken sample_users) True ana_token ana_logged_in NewManager = (r, v', m')"
    by (metis prod_cases3)
  from connection_needs_token [OF run, of sample_users] run show ?thesis
    by (auto split: sum.splits option.splits)
qed

text \<open>A player who has logged in can connect with the access token until it expires, in both deployments,
  and is registered with a new connection under the user ID of the account.\<close>

theorem login_then_connect:
  assumes ok: "users_ok (uc_db uc) us ss" "sessions_ok (uc_db uc) us ss" "crypto_ok (uc_crypto uc)"
    and login: "Login uc username password w = (Inr (userID, tok, rt, expiresAt), w')"
    and tok: "valid_utf8 username" "tok \<noteq> []" "\<bar>sint userID\<bar> \<le> 2 ^ 53"
    and exp: "0 \<le> expiresAt div Second" "expiresAt div Second \<le> 2 ^ 53"
      "uw_clock v (uw_reads v) < expiresAt div Second * Second"
    and validate: "validate = local_ValidateToken uc \<or> validate = remote_ValidateToken None lost uc"
  shows "\<exists>v' m'. HandleWebSocket validate True tok v m = (Inr (Some (nextConn m)), v', m') \<and>
     map_of (clients m') userID = Some (nextConn m) \<and> conn_UserID (conns m' (nextConn m)) = userID"
proof -
  obtain user w1 where x: "GetByUsername (uc_db uc) username (uw_db w) = Inr user" "userID = user_UserID user"
    "generateToken uc (user_UserID user) (user_Username user) w = (Inr (tok, expiresAt), w1)"
    using login by (rule LoginE)
  have name: "user_Username user = username" using GetByUsername_sound [OF ok(1) x(1)] by simp
  have acc: "fst (ValidateToken uc tok v) = Some (Inr (userID, username, expiresAt div Second * Second))"
    using generateToken_validates [OF ok(3) x(3) _ _ exp] tok name x(2) by simp
  have "validate tok v = (Some (Inr (userID, username, expiresAt div Second * Second)), snd (ValidateToken uc tok v))"
    using validate
  proof
    assume "validate = local_ValidateToken uc"
    with acc show ?thesis by (simp add: local_eq prod_eq_iff)
  next
    assume "validate = remote_ValidateToken None lost uc"
    with remote_complete [OF acc] show ?thesis by simp
  qed
  from connect_accepted [of validate, OF this tok(2), of m] show ?thesis by blast
qed

theorem login_then_connect_witness:
  "\<exists>v' m'. HandleWebSocket (local_ValidateToken sample_users) True ana_token ana_logged_in NewManager =
     (Inr (Some 0), v', m') \<and> map_of (clients m') 1 = Some 0"
proof -
  have exp: "(4600 * Second) div Second = 4600" by (simp add: Second_def)
  have now: "uw_clock ana_logged_in (uw_reads ana_logged_in) < 4600 * Second"
    by (simp add: ana_logged_in_def ana_registered_def no_users_def Second_def)
  have "ana_token \<noteq> []" by (simp add: ana_token_def)
  then show ?thesis
    using login_then_connect [of sample_users fst snd, OF _ _ _ ana_login key_utf8(2), of ana_logged_in
        "local_ValidateToken sample_users" _ NewManager]
      table_users_ok table_sessions_ok sample_crypto_ok exp now
    by (simp add: NewManager_def) blast
qed

end
