(* ===== verification/Go_Rfc3339.thy ===== *)
theory Go_Rfc3339
  imports Go_Time Json
begin

text \<open>
  The JSON of \<^verbatim>\<open>time.Time\<close>: RFC 3339 with up to nine digits of a second.  \<open>tz\<close> is the zone offset
  in seconds at a time.  Printing fails for a year outside 0 to 9999 or an offset of a day and more;
  parsing checks every field, and a date exists when the calendar gives it back.
\<close>

section \<open>Printing\<close>

definition strip_zeros :: "string \<Rightarrow> string" where
  "strip_zeros s = rev (dropWhile (\<lambda>c. c = CHR ''0'') (rev s))"

definition fraction :: "int \<Rightarrow> string" where
  "fraction ns = (if ns = 0 then [] else CHR ''.'' # strip_zeros (pad_int 9 ns))"

definition rfc3339nano :: "(go_time \<Rightarrow> int) \<Rightarrow> go_time \<Rightarrow> string" where
  "rfc3339nano tz t =
     (let l = t div Second + tz t;
          (y, m, d) = civil_from_days (l div 86400);
          s = l mod 86400
      in pad_int 4 y @ ''-'' @ pad_int 2 m @ ''-'' @ pad_int 2 d @ ''T''
           @ pad_int 2 (s div 3600) @ '':'' @ pad_int 2 (s mod 3600 div 60) @ '':'' @ pad_int 2 (s mod 60)
           @ fraction (t mod Second) @ zone_string (tz t))"

definition time_json :: "(go_time \<Rightarrow> int) \<Rightarrow> go_time \<Rightarrow> json option" where
  "time_json tz t =
     (if 0 \<le> local_year tz t \<and> local_year tz t \<le> 9999 \<and> \<bar>tz t\<bar> < 86400
      then Some (JStr (rfc3339nano tz t)) else None)"

section \<open>Parsing\<close>

definition lit :: "char \<Rightarrow> string \<Rightarrow> string option" where
  "lit c s = (case s of x # xs \<Rightarrow> if x = c then Some xs else None | [] \<Rightarrow> None)"

definition digits_n :: "nat \<Rightarrow> string \<Rightarrow> (int \<times> string) option" where
  "digits_n n s =
     (if n \<le> length s \<and> list_all is_digit (take n s) then Some (int (dec_val (take n s)), drop n s) else None)"

definition parse_fraction :: "string \<Rightarrow> (int \<times> string) option" where
  "parse_fraction s =
     (case lit (CHR ''.'') s of
        None \<Rightarrow> Some (0, s)
      | Some r \<Rightarrow>
          let ds = takeWhile is_digit r; d9 = take 9 ds
          in if ds = [] then None
             else Some (int (dec_val (d9 @ replicate (9 - length d9) (CHR ''0''))), dropWhile is_digit r))"

definition parse_zone :: "string \<Rightarrow> int option" where
  "parse_zone s =
     (if s = ''Z'' then Some 0
      else case s of
        sign # r \<Rightarrow>
          if sign \<noteq> CHR ''+'' \<and> sign \<noteq> CHR ''-'' then None else
          (case digits_n 2 r of None \<Rightarrow> None | Some (h, r) \<Rightarrow>
          (case lit (CHR '':'') r of None \<Rightarrow> None | Some r \<Rightarrow>
          (case digits_n 2 r of None \<Rightarrow> None | Some (m, r) \<Rightarrow>
             if r = [] \<and> h < 24 \<and> m < 60
             then Some ((if sign = CHR ''-'' then -1 else 1) * (h * 3600 + m * 60)) else None)))
      | [] \<Rightarrow> None)"

definition parse_rfc3339 :: "string \<Rightarrow> go_time option" where
  "parse_rfc3339 s =
     (case digits_n 4 s of None \<Rightarrow> None | Some (y, s) \<Rightarrow>
     (case lit (CHR ''-'') s of None \<Rightarrow> None | Some s \<Rightarrow>
     (case digits_n 2 s of None \<Rightarrow> None | Some (m, s) \<Rightarrow>
     (case lit (CHR ''-'') s of None \<Rightarrow> None | Some s \<Rightarrow>
     (case digits_n 2 s of None \<Rightarrow> None | Some (d, s) \<Rightarrow>
     (case lit (CHR ''T'') s of None \<Rightarrow> None | Some s \<Rightarrow>
     (case digits_n 2 s of None \<Rightarrow> None | Some (hh, s) \<Rightarrow>
     (case lit (CHR '':'') s of None \<Rightarrow> None | Some s \<Rightarrow>
     (case digits_n 2 s of None \<Rightarrow> None | Some (mm, s) \<Rightarrow>
     (case lit (CHR '':'') s of None \<Rightarrow> None | Some s \<Rightarrow>
     (case digits_n 2 s of None \<Rightarrow> None | Some (ss, s) \<Rightarrow>
     (case parse_fraction s of None \<Rightarrow> None | Some (ns, s) \<Rightarrow>
     (case parse_zone s of None \<Rightarrow> None | Some offset \<Rightarrow>
        if civil_from_days (days_from_civil (y, m, d)) = (y, m, d) \<and> hh < 24 \<and> mm < 60 \<and> ss < 60
        then Some ((days_from_civil (y, m, d) * 86400 + hh * 3600 + mm * 60 + ss - offset) * Second + ns)
        else None)))))))))))))"

text \<open>Decoding into a field: \<^verbatim>\<open>null\<close> leaves it as it is.\<close>

definition time_field :: "(go_time \<Rightarrow> 'f \<Rightarrow> 'f) \<Rightarrow> json \<Rightarrow> 'f \<Rightarrow> 'f option" where
  "time_field upd j x =
     (case j of
        JStr s \<Rightarrow> map_option (\<lambda>t. upd t x) (parse_rfc3339 s)
      | JNull \<Rightarrow> Some x
      | _ \<Rightarrow> None)"

section \<open>Round trip\<close>

lemma lit_Cons [simp]: "lit c (c # r) = Some r"
  by (simp add: lit_def)

lemma zero_is_digit: "is_digit (CHR ''0'')"
  by (simp add: is_digit_def byte_def)

lemma pad_digits: "list_all is_digit (pad w (nat_digits n))"
  using nat_digits_is_digit [of n] zero_is_digit by (auto simp: pad_def list_all_iff)

lemma length_pad: "length (nat_digits n) \<le> w \<Longrightarrow> length (pad w (nat_digits n)) = w"
  by (simp add: pad_def)

lemma length_digits_le: "n < 10 ^ Suc k \<Longrightarrow> length (nat_digits n) \<le> Suc k"
proof (induction k arbitrary: n)
  case 0
  then show ?case by (simp add: nat_digits.simps)
next
  case (Suc k)
  show ?case
  proof (cases "n < 10")
    case False
    have "n div 10 < 10 ^ Suc k" using Suc.prems by (simp add: less_mult_imp_div_less)
    with Suc.IH False show ?thesis by (simp add: nat_digits.simps [of n])
  qed (simp add: nat_digits.simps)
qed

lemma digits_n_pad:
  assumes "0 \<le> i" "i < 10 ^ Suc k"
  shows "digits_n (Suc k) (pad_int (Suc k) i @ r) = Some (i, r)"
proof -
  have "nat i < 10 ^ Suc k" using assms by (simp add: nat_less_iff)
  then have len: "length (pad (Suc k) (nat_digits (nat i))) = Suc k"
    by (intro length_pad length_digits_le)
  have p: "pad_int (Suc k) i = pad (Suc k) (nat_digits (nat i))" using assms by (simp add: pad_int_def)
  have "take (Suc k) (pad_int (Suc k) i @ r) = pad (Suc k) (nat_digits (nat i))"
    "drop (Suc k) (pad_int (Suc k) i @ r) = r"
    using len p by simp_all
  moreover have "Suc k \<le> length (pad_int (Suc k) i @ r)" using len p by simp
  ultimately show ?thesis using pad_digits assms(1) by (simp only: digits_n_def dec_val_pad dec_val_digits) simp
qed

lemma digits_2: "0 \<le> i \<Longrightarrow> i < 100 \<Longrightarrow> digits_n 2 (pad_int 2 i @ r) = Some (i, r)"
  using digits_n_pad [of i 1 r] by (simp add: numeral_2_eq_2)

lemma digits_4: "0 \<le> i \<Longrightarrow> i < 10000 \<Longrightarrow> digits_n 4 (pad_int 4 i @ r) = Some (i, r)"
  using digits_n_pad [of i 3 r] by (simp add: eval_nat_numeral)

lemma dropWhile_eq_replicate: "\<exists>k. s = replicate k c @ dropWhile (\<lambda>x. x = c) s"
proof (induction s)
  case (Cons x xs)
  then obtain k where k: "xs = replicate k c @ dropWhile (\<lambda>x. x = c) xs" by blast
  show ?case
  proof (cases "x = c")
    case True
    with k show ?thesis by (intro exI [of _ "Suc k"]) simp
  next
    case False
    then show ?thesis by (intro exI [of _ 0]) simp
  qed
qed simp

lemma strip_zeros_pad: "strip_zeros s @ replicate (length s - length (strip_zeros s)) (CHR ''0'') = s"
proof -
  obtain k where k: "rev s = replicate k (CHR ''0'') @ dropWhile (\<lambda>x. x = CHR ''0'') (rev s)"
    using dropWhile_eq_replicate by (rule exE)
  have e: "strip_zeros s @ replicate k (CHR ''0'') = s"
    using arg_cong [OF k, of rev, unfolded rev_append rev_rev_ident rev_replicate, folded strip_zeros_def]
    by (rule sym)
  then have "length s - length (strip_zeros s) = k" by (metis add_diff_cancel_left' length_append length_replicate)
  with e show ?thesis by (simp only:)
qed

lemma set_strip: "set (strip_zeros s) \<subseteq> set s"
  using set_dropWhileD by (fastforce simp: strip_zeros_def)

lemma fraction_roundtrip:
  assumes ns: "0 \<le> ns" "ns < 10 ^ 9" and z: "z \<noteq> []" "\<not> is_digit (hd z)" "hd z \<noteq> CHR ''.''"
  shows "parse_fraction (fraction ns @ z) = Some (ns, z)"
proof (cases "ns = 0")
  case True
  with z show ?thesis by (cases z) (simp_all add: fraction_def parse_fraction_def lit_def)
next
  case False
  let ?P = "pad 9 (nat_digits (nat ns))" and ?S = "strip_zeros (pad 9 (nat_digits (nat ns)))"
  have P: "pad_int 9 ns = ?P" using ns by (simp add: pad_int_def)
  have "nat ns < 10 ^ Suc 8" using ns by (simp add: nat_less_iff)
  then have len: "length ?P = 9" using length_pad [OF length_digits_le, of "nat ns" 8] by simp
  have digs: "list_all is_digit ?S" using pad_digits [of 9 "nat ns"] set_strip [of ?P] by (auto simp: list_all_iff)
  have val: "dec_val ?P = nat ns" by simp
  have "?S \<noteq> []"
  proof
    assume "?S = []"
    then have "?P = replicate 9 (CHR ''0'')" using strip_zeros_pad [of ?P] len by simp
    then have "dec_val ?P = 0" by (simp add: dec_val_def digit_val_def numeral_eq_Suc)
    with val False ns show False by simp
  qed
  have tw: "takeWhile is_digit (?S @ z) = ?S" "dropWhile is_digit (?S @ z) = z"
    using digs z by (cases z; simp add: list_all_iff takeWhile_append dropWhile_append)+
  have "length ?S \<le> 9" using strip_zeros_pad [of ?P] len by (metis le_add1 length_append)
  then have "take 9 ?S @ replicate (9 - length (take 9 ?S)) (CHR ''0'') = ?P"
    using strip_zeros_pad [of ?P] len by simp
  with tw \<open>?S \<noteq> []\<close> val ns False P show ?thesis
    by (simp add: fraction_def parse_fraction_def Let_def del: dec_val_pad)
qed

lemma zone_head: "zone_string k \<noteq> [] \<and> \<not> is_digit (hd (zone_string k)) \<and> hd (zone_string k) \<noteq> CHR ''.''"
  by (simp add: zone_string_def Let_def is_digit_def byte_def)

lemma parse_zone_sign:
  assumes "sign = CHR ''-'' \<or> sign = CHR ''+''" "0 \<le> h" "h < 24" "0 \<le> m" "m < 60"
  shows "parse_zone (sign # pad_int 2 h @ CHR '':'' # pad_int 2 m) =
     Some ((if sign = CHR ''-'' then - 1 else 1) * (h * 3600 + m * 60))"
proof -
  have z: "sign # r \<noteq> ''Z''" for r using assms(1) by auto
  have "digits_n 2 (pad_int 2 h @ CHR '':'' # pad_int 2 m) = Some (h, CHR '':'' # pad_int 2 m)"
    "digits_n 2 (pad_int 2 m) = Some (m, [])"
    using digits_2 [of h "CHR '':'' # pad_int 2 m"] digits_2 [of m "[]"] assms by simp_all
  with z assms(1,3,5) show ?thesis unfolding parse_zone_def by (simp split del: if_split) auto
qed

lemma zone_roundtrip:
  assumes "60 dvd k" "\<bar>k\<bar> < 86400"
  shows "parse_zone (zone_string k) = Some k"
proof (cases "k = 0")
  case False
  let ?m = "\<bar>k\<bar> div 60"
  have z: "sgn k * ?m < 0 \<longleftrightarrow> k < 0" "\<bar>sgn k * ?m\<bar> = ?m"
    using assms False by (auto simp: sgn_if abs_mult elim!: dvdE)
  have m: "0 \<le> ?m div 60" "?m div 60 < 24" "0 \<le> ?m mod 60" "?m mod 60 < 60" using assms(2) by linarith+
  have "\<bar>k\<bar> = ?m div 60 * 3600 + ?m mod 60 * 60"
  proof -
    have "60 dvd \<bar>k\<bar>" using assms(1) by simp
    then have "\<bar>k\<bar> = ?m * 60" by simp
    moreover have "?m = ?m div 60 * 60 + ?m mod 60" by simp
    ultimately show ?thesis by linarith
  qed
  then have v: "(if k < 0 then - 1 else 1) * (?m div 60 * 3600 + ?m mod 60 * 60) = k" by auto
  have "parse_zone (zone_string k) = Some ((if k < 0 then - 1 else 1) * (?m div 60 * 3600 + ?m mod 60 * 60))"
    unfolding zone_string_def Let_def z using False parse_zone_sign [OF _ m, of "CHR ''-''"]
      parse_zone_sign [OF _ m, of "CHR ''+''"] by (cases "k < 0") simp_all
  with v show ?thesis by (simp only:)
qed (simp add: zone_string_def parse_zone_def)

lemma day_seconds: "s div 3600 * 3600 + s mod 3600 div 60 * 60 + s mod 60 = s" for s :: int
proof -
  have "s mod 3600 mod 60 = s mod 60" by (simp add: mod_mod_cancel)
  then show ?thesis using div_mult_mod_eq [of s 3600] div_mult_mod_eq [of "s mod 3600" 60] by linarith
qed

lemma rfc3339_roundtrip:
  assumes y: "0 \<le> local_year tz t" "local_year tz t \<le> 9999" and z: "60 dvd tz t" "\<bar>tz t\<bar> < 86400"
  shows "parse_rfc3339 (rfc3339nano tz t) = Some t"
proof -
  define l where "l = t div Second + tz t"
  define s where "s = l mod 86400"
  define ns where "ns = t mod Second"
  obtain yy m d where c: "civil_from_days (l div 86400) = (yy, m, d)" by (metis prod_cases3)
  have yy: "0 \<le> yy" "yy < 10000" using y c by (simp_all add: local_year_def l_def)
  note md = civil_from_days_bounds [OF c]
  have s: "0 \<le> s div 3600" "s div 3600 < 24" "0 \<le> s mod 3600 div 60" "s mod 3600 div 60 < 60"
    "0 \<le> s mod 60" "s mod 60 < 60"
    unfolding s_def by (simp_all add: div_int_pos_iff pos_mod_bound div_pos_pos_trivial)
  have secs: "digits_n 2 (pad_int 2 (s mod 60) @ r) = Some (s mod 60, r)" for r
    using s(5,6) by (intro digits_2) linarith+
  have ns: "0 \<le> ns" "ns < 10 ^ 9" by (simp_all add: ns_def Second_def)
  have civil: "days_from_civil (yy, m, d) = l div 86400" using days_from_civil_inverse [of "l div 86400"] c by simp
  have frac: "parse_fraction (fraction ns @ zone_string (tz t)) = Some (ns, zone_string (tz t))"
    using zone_head [of "tz t"] by (intro fraction_roundtrip [OF ns]) simp_all
  have printed: "rfc3339nano tz t = pad_int 4 yy @ CHR ''-'' # pad_int 2 m @ CHR ''-'' # pad_int 2 d @ CHR ''T'' #
      pad_int 2 (s div 3600) @ CHR '':'' # pad_int 2 (s mod 3600 div 60) @ CHR '':'' # pad_int 2 (s mod 60) @
      fraction ns @ zone_string (tz t)"
    using c by (simp add: rfc3339nano_def l_def s_def ns_def Let_def)
  have sum: "(l div 86400 * 86400 + s div 3600 * 3600 + s mod 3600 div 60 * 60 + s mod 60 - tz t) * Second + ns = t"
  proof -
    have "l div 86400 * 86400 + s = l" by (simp add: s_def)
    then have "l div 86400 * 86400 + s div 3600 * 3600 + s mod 3600 div 60 * 60 + s mod 60 - tz t = t div Second"
      using day_seconds [of s] by (simp add: l_def)
    then show ?thesis by (simp add: ns_def)
  qed
  show ?thesis
    unfolding printed parse_rfc3339_def
    using md yy s c civil sum
    by (simp add: digits_2 digits_4 secs frac zone_roundtrip [OF z])
qed

lemma time_json_roundtrip:
  assumes "time_json tz t = Some j" "60 dvd tz t"
  shows "time_field upd j x = Some (upd t x)"
  using assms rfc3339_roundtrip [of tz t] by (auto simp: time_json_def time_field_def split: if_splits)

section \<open>The text is ASCII\<close>

abbreviation (input) ascii :: "string \<Rightarrow> bool" where
  "ascii s \<equiv> \<forall>c \<in> set s. byte c < 128"

lemma decimal_ascii: "c \<in> decimal_chars \<Longrightarrow> byte c < 128"
  by (auto simp: decimal_chars_def byte_def)

lemma pad_int_ascii: "ascii (pad_int w i)"
  using set_pad decimal_ascii by (auto simp: pad_int_def byte_def subset_iff)

lemma fraction_ascii: "ascii (fraction ns)"
  using pad_int_ascii [of 9 ns] set_strip [of "pad_int 9 ns"] by (auto simp: fraction_def byte_def)

lemma zone_ascii: "ascii (zone_string k)"
  using pad_int_ascii by (auto simp: zone_string_def Let_def byte_def)

lemma rfc3339nano_ascii: "ascii (rfc3339nano tz t)"
  using pad_int_ascii fraction_ascii zone_ascii
  by (auto simp: rfc3339nano_def Let_def byte_def split: prod.splits)

lemma time_json_wf: "time_json tz t = Some j \<Longrightarrow> json_wf j"
  using ascii_valid_utf8 [OF rfc3339nano_ascii] by (auto simp: time_json_def split: if_splits)

end
