(* ===== verification/Redis_Bets.thy ===== *)
theory Redis_Bets
  imports Bets Go_Rfc3339
begin

text \<open>
  The Redis repository of bets, \<^verbatim>\<open>gs/repository/redis/bet_repo.go\<close>: the JSON of a bet, the keys, and
  the seven operations.  The Redis client is a parameter (\<open>redis\<close>): a pipeline of commands and the
  reads the repository uses, each with the error it can return.  Other than the memory repository it
  hands out fresh copies of the bets it decodes.
\<close>

section \<open>The JSON of a bet\<close>

text \<open>\<^verbatim>\<open>domain.Bet\<close> has no tags: the keys are the field names.  \<open>tz\<close> is the zone of the process.\<close>

definition color_field :: "(int32 \<Rightarrow> 'f \<Rightarrow> 'f) \<Rightarrow> json \<Rightarrow> 'f \<Rightarrow> 'f option" where
  "color_field upd j x =
     (case j of
        JNum l \<Rightarrow>
          (case parse_int l of
             Some i \<Rightarrow> if - (2 ^ 31) \<le> i \<and> i < 2 ^ 31 then Some (upd (word_of_int i) x) else None
           | None \<Rightarrow> None)
      | JNull \<Rightarrow> Some x
      | _ \<Rightarrow> None)"

definition bet_fields :: "(string \<times> (json \<Rightarrow> Bet \<Rightarrow> Bet option)) list" where
  "bet_fields =
     [(''BetID'', str_field (\<lambda>s b. b\<lparr>BetID := s\<rparr>)),
      (''RoundID'', str_field (\<lambda>s b. b\<lparr>RoundID := s\<rparr>)),
      (''UserID'', int64_field (\<lambda>i b. b\<lparr>UserID := i\<rparr>)),
      (''Color'', color_field (\<lambda>c b. b\<lparr>bet_Color := c\<rparr>)),
      (''Amount'', int64_field (\<lambda>a b. b\<lparr>Amount := a\<rparr>)),
      (''Time'', time_field (\<lambda>t b. b\<lparr>Time := t\<rparr>))]"

definition zero_bet :: Bet where
  "zero_bet = \<lparr>BetID = [], RoundID = [], UserID = 0, bet_Color = 0, Amount = 0, Time = zero_time\<rparr>"

definition marshal_bet :: "(go_time \<Rightarrow> int) \<Rightarrow> Bet \<Rightarrow> string option" where
  "marshal_bet tz b =
     (case time_json tz (Time b) of
        None \<Rightarrow> None
      | Some t \<Rightarrow>
          Some (json_enc (JObj [(''BetID'', JStr (BetID b)), (''RoundID'', JStr (RoundID b)),
                                (''UserID'', json_int (sint (UserID b))), (''Color'', json_int (sint (bet_Color b))),
                                (''Amount'', json_int (sint (Amount b))), (''Time'', t)])))"

definition unmarshal_bet :: "string \<Rightarrow> Bet option" where
  "unmarshal_bet data = Option.bind (json_parse data) (struct_of bet_fields zero_bet)"

section \<open>Redis\<close>

datatype redis_error = redis_Nil | RedisError go_error

datatype redis_cmd =
    HSet string string string
  | Expire string go_duration
  | RPush string string
  | Del string

record 'k redis =
  rd_Exec :: "'k \<Rightarrow> redis_cmd list \<Rightarrow> go_error option \<times> 'k"
  rd_HGetAll :: "'k \<Rightarrow> string \<Rightarrow> go_error + (string \<times> string) list"
  rd_HVals :: "'k \<Rightarrow> string \<Rightarrow> go_error + string list"
  rd_HMGet :: "'k \<Rightarrow> string \<Rightarrow> string list \<Rightarrow> go_error + string option list"
  rd_HGet :: "'k \<Rightarrow> string \<Rightarrow> string \<Rightarrow> redis_error + string"
  rd_LPopCount :: "'k \<Rightarrow> string \<Rightarrow> nat \<Rightarrow> (redis_error + string list) \<times> 'k"

text \<open>What a repository is built with, and its state: the server and the draws of \<^verbatim>\<open>rand.Intn\<close>.
  \<open>unmarshalError\<close> and \<open>marshalError\<close> are the texts of JSON errors.\<close>

record 'k redis_config =
  rdb :: "'k redis"
  zone :: "go_time \<Rightarrow> int"
  marshalError :: string
  unmarshalError :: string

record 'k RedisBets =
  server :: 'k
  rnd :: "nat \<Rightarrow> nat"
  rndReads :: nat

definition ShardCount :: nat where
  "ShardCount = 16"

definition ttl :: go_duration where
  "ttl = 24 * 3600 * Second"

definition dataKey :: "string \<Rightarrow> string" where
  "dataKey roundID = ''bet_data:'' @ roundID"

definition queueKey :: "string \<Rightarrow> int \<Rightarrow> string" where
  "queueKey roundID shardID = ''settlement_queue:'' @ roundID @ '':'' @ itoa shardID"

definition indexKey :: "string \<Rightarrow> int64 \<Rightarrow> string" where
  "indexKey roundID userID = ''user_index:'' @ roundID @ '':'' @ itoa (sint userID)"

text \<open>Go's remainder has the sign of the dividend.\<close>

definition shardOf :: "int64 \<Rightarrow> int" where
  "shardOf userID = sgn (sint userID) * (\<bar>sint userID\<bar> mod int ShardCount)"

definition exec :: "'k redis_config \<Rightarrow> redis_cmd list \<Rightarrow> 'k RedisBets store \<Rightarrow> go_error option \<times> 'k RedisBets store" where
  "exec cfg cmds s =
     (case rd_Exec (rdb cfg) (server (repo s)) cmds of (err, k) \<Rightarrow> (err, s\<lparr>repo := (repo s)\<lparr>server := k\<rparr>\<rparr>))"

definition red_SaveBet :: "'k redis_config \<Rightarrow> 'k RedisBets store \<Rightarrow> ptr \<Rightarrow> go_error option \<times> 'k RedisBets store" where
  "red_SaveBet cfg s bet =
     (let b = heap s bet
      in case marshal_bet (zone cfg) b of
           None \<Rightarrow> (Some (marshalError cfg), s)
         | Some data \<Rightarrow>
             exec cfg
               [HSet (dataKey (RoundID b)) (BetID b) data, Expire (dataKey (RoundID b)) ttl,
                RPush (queueKey (RoundID b) (shardOf (UserID b))) (BetID b),
                Expire (queueKey (RoundID b) (shardOf (UserID b))) ttl,
                HSet (indexKey (RoundID b) (UserID b)) (reward_String (bet_Color b)) (BetID b),
                Expire (indexKey (RoundID b) (UserID b)) ttl] s)"

text \<open>The loops that decode what a read returned: missing and unreadable entries are skipped.\<close>

fun load_bets :: "string option list \<Rightarrow> 'k RedisBets store \<Rightarrow> ptr list \<times> 'k RedisBets store" where
  "load_bets [] s = ([], s)"
| "load_bets (None # ds) s = load_bets ds s"
| "load_bets (Some d # ds) s =
     (case unmarshal_bet d of
        None \<Rightarrow> load_bets ds s
      | Some b \<Rightarrow> let (p, s) = alloc b s; (ps, s) = load_bets ds s in (p # ps, s))"

definition red_GetBets :: "'k redis_config \<Rightarrow> 'k RedisBets store \<Rightarrow> string \<Rightarrow> ptr list go_result \<times> 'k RedisBets store" where
  "red_GetBets cfg s roundID =
     (case rd_HGetAll (rdb cfg) (server (repo s)) (dataKey roundID) of
        Inl err \<Rightarrow> (Inl err, s)
      | Inr dataMap \<Rightarrow> let (ps, s) = load_bets (map (Some \<circ> snd) dataMap) s in (Inr ps, s))"

definition red_GetUserBets ::
    "'k redis_config \<Rightarrow> 'k RedisBets store \<Rightarrow> string \<Rightarrow> int64 \<Rightarrow> ptr list go_result \<times> 'k RedisBets store" where
  "red_GetUserBets cfg s roundID userID =
     (case rd_HVals (rdb cfg) (server (repo s)) (indexKey roundID userID) of
        Inl err \<Rightarrow> (Inl err, s)
      | Inr betIDs \<Rightarrow>
          if betIDs = [] then (Inr [], s)
          else case rd_HMGet (rdb cfg) (server (repo s)) (dataKey roundID) betIDs of
                 Inl err \<Rightarrow> (Inl err, s)
               | Inr dataList \<Rightarrow> let (ps, s) = load_bets dataList s in (Inr ps, s))"

text \<open>A missing index entry means no bet; missing data is an error.\<close>

fun redis_message :: "redis_error \<Rightarrow> go_error" where
  "redis_message redis_Nil = ''redis: nil''"
| "redis_message (RedisError err) = err"

definition red_GetUserBet ::
    "'k redis_config \<Rightarrow> 'k RedisBets store \<Rightarrow> string \<Rightarrow> int64 \<Rightarrow> Color \<Rightarrow> ptr option go_result \<times> 'k RedisBets store" where
  "red_GetUserBet cfg s roundID userID color =
     (case rd_HGet (rdb cfg) (server (repo s)) (indexKey roundID userID) (reward_String color) of
        Inl redis_Nil \<Rightarrow> (Inr None, s)
      | Inl (RedisError err) \<Rightarrow> (Inl err, s)
      | Inr betID \<Rightarrow>
          (case rd_HGet (rdb cfg) (server (repo s)) (dataKey roundID) betID of
             Inl err \<Rightarrow> (Inl (redis_message err), s)
           | Inr data \<Rightarrow>
               (case unmarshal_bet data of
                  None \<Rightarrow> (Inl (unmarshalError cfg), s)
                | Some b \<Rightarrow> let (p, s) = alloc b s in (Inr (Some p), s))))"

definition red_UpdateBetAmount ::
    "'k redis_config \<Rightarrow> 'k RedisBets store \<Rightarrow> ptr \<Rightarrow> int64 \<Rightarrow> go_error option \<times> 'k RedisBets store" where
  "red_UpdateBetAmount cfg s bet additionalAmount =
     (let s = s\<lparr>heap := (heap s)(bet := (heap s bet)\<lparr>Amount := Amount (heap s bet) + additionalAmount\<rparr>)\<rparr>;
          b = heap s bet
      in case marshal_bet (zone cfg) b of
           None \<Rightarrow> (Some (marshalError cfg), s)
         | Some data \<Rightarrow> exec cfg [HSet (dataKey (RoundID b)) (BetID b) data] s)"

definition red_ClearBets :: "'k redis_config \<Rightarrow> 'k RedisBets store \<Rightarrow> string \<Rightarrow> go_error option \<times> 'k RedisBets store" where
  "red_ClearBets cfg s roundID =
     exec cfg (Del (dataKey roundID) # map (\<lambda>i. Del (queueKey roundID (int i))) [0..<ShardCount]) s"

text \<open>The shards are tried in turn from a random one; the first that has bets gives up to a hundred.\<close>

fun take_shards ::
    "'k redis_config \<Rightarrow> string \<Rightarrow> nat list \<Rightarrow> 'k RedisBets store \<Rightarrow> ptr list go_result \<times> 'k RedisBets store" where
  "take_shards cfg roundID [] s = (Inr [], s)"
| "take_shards cfg roundID (shardID # shards) s =
     (case rd_LPopCount (rdb cfg) (server (repo s)) (queueKey roundID (int shardID)) 100 of
        (Inl redis_Nil, k) \<Rightarrow> take_shards cfg roundID shards (s\<lparr>repo := (repo s)\<lparr>server := k\<rparr>\<rparr>)
      | (Inl (RedisError err), k) \<Rightarrow> (Inl err, s\<lparr>repo := (repo s)\<lparr>server := k\<rparr>\<rparr>)
      | (Inr betIDs, k) \<Rightarrow>
          if betIDs = [] then take_shards cfg roundID shards (s\<lparr>repo := (repo s)\<lparr>server := k\<rparr>\<rparr>)
          else case rd_HMGet (rdb cfg) k (dataKey roundID) betIDs of
                 Inl err \<Rightarrow> (Inl err, s\<lparr>repo := (repo s)\<lparr>server := k\<rparr>\<rparr>)
               | Inr dataList \<Rightarrow>
                   let (ps, s) = load_bets dataList (s\<lparr>repo := (repo s)\<lparr>server := k\<rparr>\<rparr>) in (Inr ps, s))"

definition red_GetBetsForSettlement ::
    "'k redis_config \<Rightarrow> 'k RedisBets store \<Rightarrow> string \<Rightarrow> ptr list go_result \<times> 'k RedisBets store" where
  "red_GetBetsForSettlement cfg s roundID =
     (let startShard = rnd (repo s) (rndReads (repo s)) mod ShardCount
      in take_shards cfg roundID (map (\<lambda>i. (startShard + i) mod ShardCount) [0..<ShardCount])
           (s\<lparr>repo := (repo s)\<lparr>rndReads := Suc (rndReads (repo s))\<rparr>\<rparr>))"

definition redisRepo :: "'k redis_config \<Rightarrow> 'k RedisBets BetRepository" where
  "redisRepo cfg =
     \<lparr>repo_SaveBet = red_SaveBet cfg, repo_GetBets = red_GetBets cfg, repo_GetUserBets = red_GetUserBets cfg,
      repo_ClearBets = red_ClearBets cfg, repo_GetBetsForSettlement = red_GetBetsForSettlement cfg,
      repo_GetUserBet = red_GetUserBet cfg, repo_UpdateBetAmount = red_UpdateBetAmount cfg\<rparr>"

section \<open>Bets survive JSON\<close>

lemma bet_names [simp]:
  "valid_utf8 ''BetID''" "valid_utf8 ''RoundID''" "valid_utf8 ''UserID''" "valid_utf8 ''Color''"
  "valid_utf8 ''Amount''" "valid_utf8 ''Time''"
  by (rule ascii_valid_utf8, simp add: byte_def)+

text \<open>The bets that can be written down and read back.\<close>

definition storable :: "(go_time \<Rightarrow> int) \<Rightarrow> Bet \<Rightarrow> bool" where
  "storable tz b \<longleftrightarrow> valid_utf8 (BetID b) \<and> valid_utf8 (RoundID b) \<and> time_json tz (Time b) \<noteq> None \<and>
     60 dvd tz (Time b)"

lemma storable_amount [simp]: "storable tz (b\<lparr>Amount := a\<rparr>) = storable tz b"
  by (simp add: storable_def)

lemma color_field_int: "color_field upd (json_int (sint c)) x = Some (upd c x)" for c :: int32
  using sint_greater_eq [of c] sint_less [of c] by (simp add: color_field_def json_int_def)

lemma int64_field_int: "int64_field upd (json_int (sint a)) x = Some (upd a x)" for a :: int64
  by (simp add: int64_field_def json_int_def)

lemma bet_field_names:
  "find_field bet_fields ''BetID'' = Some (str_field (\<lambda>s b. b\<lparr>BetID := s\<rparr>))"
  "find_field bet_fields ''RoundID'' = Some (str_field (\<lambda>s b. b\<lparr>RoundID := s\<rparr>))"
  "find_field bet_fields ''UserID'' = Some (int64_field (\<lambda>i b. b\<lparr>UserID := i\<rparr>))"
  "find_field bet_fields ''Color'' = Some (color_field (\<lambda>c b. b\<lparr>bet_Color := c\<rparr>))"
  "find_field bet_fields ''Amount'' = Some (int64_field (\<lambda>a b. b\<lparr>Amount := a\<rparr>))"
  "find_field bet_fields ''Time'' = Some (time_field (\<lambda>t b. b\<lparr>Time := t\<rparr>))"
  by (simp_all add: find_field_def bet_fields_def)

lemma bet_json_roundtrip:
  assumes "storable tz b"
  obtains d where "marshal_bet tz b = Some d" "unmarshal_bet d = Some b"
proof -
  obtain t where t: "time_json tz (Time b) = Some t" using assms by (auto simp: storable_def)
  let ?j = "JObj [(''BetID'', JStr (BetID b)), (''RoundID'', JStr (RoundID b)),
      (''UserID'', json_int (sint (UserID b))), (''Color'', json_int (sint (bet_Color b))),
      (''Amount'', json_int (sint (Amount b))), (''Time'', t)]"
  have int: "json_wf (json_int i)" for i by (auto simp: json_int_def)
  have "json_wf ?j" using assms time_json_wf [OF t] int by (simp add: storable_def)
  then have "json_parse (json_enc ?j) = Some ?j" by (rule json_parse_enc)
  moreover have "struct_of bet_fields zero_bet ?j = Some b"
    using assms time_json_roundtrip [OF t, of "\<lambda>t b :: Bet. b\<lparr>Time := t\<rparr>"]
    by (simp add: struct_of_def bet_field_names str_field_def color_field_int int64_field_int storable_def zero_bet_def)
  ultimately have "unmarshal_bet (json_enc ?j) = Some b" by (simp add: unmarshal_bet_def del: json_enc.simps)
  moreover have "marshal_bet tz b = Some (json_enc ?j)" by (simp add: marshal_bet_def t del: json_enc.simps)
  ultimately show ?thesis using that by blast
qed

section \<open>Keys\<close>

lemma queueKey_inj [simp]: "queueKey r i = queueKey r' i' \<longleftrightarrow> r = r' \<and> i = i'"
  using sep_suffix_inj [of r "CHR '':''" "itoa i" r' "itoa i'"] itoa_no_colon by (auto simp: queueKey_def)

lemma indexKey_inj [simp]: "indexKey r u = indexKey r' u' \<longleftrightarrow> r = r' \<and> u = u'"
  using sep_suffix_inj [of r "CHR '':''" "itoa (sint u)" r' "itoa (sint u')"] itoa_no_colon
  by (auto simp: indexKey_def signed_word_eqI)

lemma dataKey_inj [simp]: "dataKey r = dataKey r' \<longleftrightarrow> r = r'"
  by (simp add: dataKey_def)

lemma keys_differ [simp]:
  "dataKey r \<noteq> queueKey r' i" "queueKey r' i \<noteq> dataKey r" "dataKey r \<noteq> indexKey r' u"
  "indexKey r' u \<noteq> dataKey r" "queueKey r i \<noteq> indexKey r' u" "indexKey r' u \<noteq> queueKey r i"
  by (simp_all add: dataKey_def queueKey_def indexKey_def)

end
