(* ===== verification/Redis_Contract.thy ===== *)
theory Redis_Contract
  imports Redis_Bets
begin

text \<open>
  The Redis repository keeps the contract of bets.  What is relied on of Redis is the predicate
  \<open>redis_ok\<close>: over the hashes and lists of the server, the commands do what their documentation says and
  do not fail, and no key expires meanwhile.  The invariant of the repository includes it, so that the
  interpretation at the end holds for every client.
\<close>

section \<open>The commands\<close>

type_synonym hashes = "string \<Rightarrow> string \<rightharpoonup> string"
type_synonym queues = "string \<Rightarrow> string list"

fun cmd_hash :: "redis_cmd \<Rightarrow> hashes \<Rightarrow> hashes" where
  "cmd_hash (HSet key f v) H = H(key := (H key)(f \<mapsto> v))"
| "cmd_hash (Del key) H = H(key := Map.empty)"
| "cmd_hash (Expire key d) H = H"
| "cmd_hash (RPush key v) H = H"

fun cmd_queue :: "redis_cmd \<Rightarrow> queues \<Rightarrow> queues" where
  "cmd_queue (RPush key v) Q = Q(key := Q key @ [v])"
| "cmd_queue (Del key) Q = Q(key := [])"
| "cmd_queue (Expire key d) Q = Q"
| "cmd_queue (HSet key f v) Q = Q"

text \<open>No command meets a key of the other type.\<close>

definition typed :: "hashes \<Rightarrow> queues \<Rightarrow> redis_cmd list \<Rightarrow> bool" where
  "typed H Q cmds \<longleftrightarrow>
     (\<forall>key f v. HSet key f v \<in> set cmds \<longrightarrow> Q key = [] \<and> (\<forall>u. RPush key u \<notin> set cmds)) \<and>
     (\<forall>key v. RPush key v \<in> set cmds \<longrightarrow> H key = Map.empty)"

definition redis_ok :: "'k redis \<Rightarrow> ('k \<Rightarrow> hashes) \<Rightarrow> ('k \<Rightarrow> queues) \<Rightarrow> bool" where
  "redis_ok X hash queue \<longleftrightarrow>
     (\<forall>k cmds e k'. typed (hash k) (queue k) cmds \<longrightarrow> rd_Exec X k cmds = (e, k') \<longrightarrow>
        e = None \<and> hash k' = fold cmd_hash cmds (hash k) \<and> queue k' = fold cmd_queue cmds (queue k)) \<and>
     (\<forall>k key f. queue k key = [] \<longrightarrow>
        rd_HGet X k key f = (case hash k key f of Some v \<Rightarrow> Inr v | None \<Rightarrow> Inl redis_Nil)) \<and>
     (\<forall>k key fs. queue k key = [] \<longrightarrow> fs \<noteq> [] \<longrightarrow> rd_HMGet X k key fs = Inr (map (hash k key) fs)) \<and>
     (\<forall>k key n r k'. hash k key = Map.empty \<longrightarrow> 0 < n \<longrightarrow> rd_LPopCount X k key n = (r, k') \<longrightarrow>
        hash k' = hash k \<and>
        (if queue k key = [] then r = Inl redis_Nil \<and> queue k' = queue k
         else r = Inr (take n (queue k key)) \<and> queue k' = (queue k)(key := drop n (queue k key))))"

lemma redis_exec:
  "redis_ok X hash queue \<Longrightarrow> typed (hash k) (queue k) cmds \<Longrightarrow> rd_Exec X k cmds = (e, k') \<Longrightarrow>
   e = None \<and> hash k' = fold cmd_hash cmds (hash k) \<and> queue k' = fold cmd_queue cmds (queue k)"
  unfolding redis_ok_def by blast

lemma redis_hget:
  "redis_ok X hash queue \<Longrightarrow> queue k key = [] \<Longrightarrow>
   rd_HGet X k key f = (case hash k key f of Some v \<Rightarrow> Inr v | None \<Rightarrow> Inl redis_Nil)"
  unfolding redis_ok_def by blast

lemma redis_hmget:
  "redis_ok X hash queue \<Longrightarrow> queue k key = [] \<Longrightarrow> fs \<noteq> [] \<Longrightarrow> rd_HMGet X k key fs = Inr (map (hash k key) fs)"
  unfolding redis_ok_def by blast

lemma redis_lpop:
  assumes "redis_ok X hash queue" "hash k key = Map.empty" "0 < n" "rd_LPopCount X k key n = (r, k')"
  shows "hash k' = hash k"
    and "queue k key = [] \<Longrightarrow> r = Inl redis_Nil \<and> queue k' = queue k"
    and "queue k key \<noteq> [] \<Longrightarrow>
      r = Inr (take n (queue k key)) \<and> queue k' = (queue k)(key := drop n (queue k key))"
  using assms unfolding redis_ok_def by (metis (no_types, lifting))+

section \<open>The bets in the hashes and queues\<close>

definition bet_of :: "hashes \<Rightarrow> string \<Rightarrow> string \<Rightarrow> Bet" where
  "bet_of H r i = the (unmarshal_bet (the (H (dataKey r) i)))"

definition queued :: "queues \<Rightarrow> string \<Rightarrow> string list" where
  "queued Q r = concat (map (\<lambda>i. Q (queueKey r (int i))) [0..<ShardCount])"

definition kv_ok :: "(go_time \<Rightarrow> int) \<Rightarrow> hashes \<Rightarrow> queues \<Rightarrow> bool" where
  "kv_ok tz H Q \<longleftrightarrow>
     (\<forall>r u. Q (dataKey r) = [] \<and> Q (indexKey r u) = []) \<and> (\<forall>r i. H (queueKey r i) = Map.empty) \<and>
     (\<forall>r i d. H (dataKey r) i = Some d \<longrightarrow>
        (\<exists>b. unmarshal_bet d = Some b \<and> BetID b = i \<and> RoundID b = r \<and> storable tz b)) \<and>
     (\<forall>r. distinct (queued Q r) \<and> set (queued Q r) \<subseteq> dom (H (dataKey r)))"

definition kv_pending :: "hashes \<Rightarrow> queues \<Rightarrow> string \<Rightarrow> Bet multiset" where
  "kv_pending H Q r = mset (map (bet_of H r) (queued Q r))"

definition indexed :: "hashes \<Rightarrow> string \<Rightarrow> bool" where
  "indexed H r \<longleftrightarrow> (\<forall>u c.
     case H (indexKey r u) (reward_String c) of
       None \<Rightarrow> \<forall>i \<in> dom (H (dataKey r)). \<not> bet_matches r u c (bet_of H r i)
     | Some i \<Rightarrow> i \<in> dom (H (dataKey r)) \<and> bet_matches r u c (bet_of H r i))"

definition kv_intake :: "hashes \<Rightarrow> queues \<Rightarrow> string \<Rightarrow> bool" where
  "kv_intake H Q r \<longleftrightarrow> set (queued Q r) = dom (H (dataKey r)) \<and> indexed H r"

lemma kv_data:
  assumes "kv_ok tz H Q" "i \<in> dom (H (dataKey r))"
  shows "\<exists>d. H (dataKey r) i = Some d \<and> unmarshal_bet d = Some (bet_of H r i)"
    and "BetID (bet_of H r i) = i" "RoundID (bet_of H r i) = r" "storable tz (bet_of H r i)"
  using assms unfolding kv_ok_def bet_of_def by (force simp: dom_def)+

lemma kv_queued: "kv_ok tz H Q \<Longrightarrow> distinct (queued Q r) \<and> set (queued Q r) \<subseteq> dom (H (dataKey r))"
  by (simp add: kv_ok_def)

lemma kv_types:
  "kv_ok tz H Q \<Longrightarrow> Q (dataKey r) = []" "kv_ok tz H Q \<Longrightarrow> Q (indexKey r u) = []"
  "kv_ok tz H Q \<Longrightarrow> H (queueKey r i) = Map.empty"
  by (simp_all add: kv_ok_def)

lemma bet_of_upd:
  "unmarshal_bet d = Some b \<Longrightarrow>
   bet_of (H(dataKey r := (H (dataKey r))(i \<mapsto> d))) r' j = (if r' = r \<and> j = i then b else bet_of H r' j)"
  by (simp add: bet_of_def)

text \<open>Putting an ID into a shard, and taking some from one.\<close>

lemma queued_other: "(\<And>i. Q' (queueKey r i) = Q (queueKey r i)) \<Longrightarrow> queued Q' r = queued Q r"
  by (simp add: queued_def)

lemma mset_queued: "mset (queued Q r) = (\<Sum>i \<leftarrow> [0..<ShardCount]. mset (Q (queueKey r (int i))))"
  by (simp add: queued_def mset_concat comp_def)

lemma queued_upd:
  assumes "i < ShardCount"
  shows "mset (queued (Q(queueKey r (int i) := xs)) r) + mset (Q (queueKey r (int i))) = mset (queued Q r) + mset xs"
proof -
  have "(\<Sum>j \<leftarrow> js. mset ((Q(queueKey r (int i) := xs)) (queueKey r (int j)))) =
      (\<Sum>j \<leftarrow> js. mset (Q (queueKey r (int j))))" if "i \<notin> set js" for js
    using that by (induction js) auto
  then have "(\<Sum>j \<leftarrow> js. mset ((Q(queueKey r (int i) := xs)) (queueKey r (int j)))) + mset (Q (queueKey r (int i))) =
      (\<Sum>j \<leftarrow> js. mset (Q (queueKey r (int j)))) + mset xs" if "distinct js" "i \<in> set js" for js
    using that by (induction js) (auto simp: ac_simps)
  with assms show ?thesis unfolding mset_queued by (simp add: ShardCount_def)
qed

section \<open>Writing one bet\<close>

abbreviation (input) put :: "hashes \<Rightarrow> Bet \<Rightarrow> string \<Rightarrow> hashes" where
  "put H b d \<equiv> H(dataKey (RoundID b) := (H (dataKey (RoundID b)))(BetID b \<mapsto> d))"

lemma kv_ok_put:
  assumes "kv_ok tz H Q" "unmarshal_bet d = Some b" "storable tz b"
  shows "kv_ok tz (put H b d) Q"
  using assms unfolding kv_ok_def by (auto simp: dom_def split: if_splits)

text \<open>Raising the amount of a bet that is there.\<close>

lemma kv_update:
  assumes ok: "kv_ok tz H Q" and d: "unmarshal_bet d = Some (b\<lparr>Amount := a\<rparr>)"
    and b: "BetID b \<in> dom (H (dataKey (RoundID b)))" "bet_of H (RoundID b) (BetID b) = b"
    and intake: "kv_intake H Q (RoundID b)" and H': "H' = put H b d"
  shows "kv_ok tz H' Q" "kv_intake H' Q = kv_intake H Q"
    "kv_pending H' Q =
       (kv_pending H Q)(RoundID b := add_mset (b\<lparr>Amount := a\<rparr>) (kv_pending H Q (RoundID b) - {#b#}))"
proof -
  let ?b = "b\<lparr>Amount := a\<rparr>" and ?r = "RoundID b"
  have stor: "storable tz ?b" using kv_data(4) [OF ok b(1)] b(2) by simp
  show "kv_ok tz H' Q" using kv_ok_put [OF ok d] stor by (simp add: H')
  have bo: "bet_of H' r j = (if r = ?r \<and> j = BetID b then ?b else bet_of H r j)" for r j
    unfolding H' by (rule bet_of_upd [OF d])
  have same: "bet_matches r u c (bet_of H' r' j) = bet_matches r u c (bet_of H r' j)" for r u c r' j
    using b(2) by (auto simp: bo bet_matches_def)
  have doms: "dom (H' (dataKey r)) = dom (H (dataKey r))" for r using b(1) by (auto simp: H')
  have idx: "H' (indexKey r u) = H (indexKey r u)" for r u by (simp add: H')
  show "kv_intake H' Q = kv_intake H Q"
    unfolding kv_intake_def indexed_def fun_eq_iff same doms idx by blast
  have q: "distinct (queued Q ?r)" "BetID b \<in> set (queued Q ?r)"
    using kv_queued [OF ok, of ?r] intake b(1) by (auto simp: kv_intake_def)
  have eq: "bet_of H' ?r = (bet_of H ?r)(BetID b := ?b)"
    by (rule ext) (simp add: bo)
  have "kv_pending H' Q ?r = add_mset ?b (kv_pending H Q ?r - {#b#})"
    using mset_map_update [OF q, of "bet_of H ?r" ?b] b(2) by (simp only: kv_pending_def eq)
  moreover have "kv_pending H' Q r = kv_pending H Q r" if "r \<noteq> ?r" for r
  proof -
    have "bet_of H' r = bet_of H r" using that by (intro ext) (simp add: bo)
    then show ?thesis by (simp only: kv_pending_def)
  qed
  ultimately show "kv_pending H' Q =
       (kv_pending H Q)(?r := add_mset ?b (kv_pending H Q ?r - {#b#}))"
    by (auto simp: fun_eq_iff)
qed

text \<open>A new bet: its data, its place in the shard of its user, and its index entry.\<close>

lemma shardOf_nonneg: "0 \<le> sint u \<Longrightarrow> \<exists>i < ShardCount. shardOf u = int i"
  by (intro exI [of _ "nat (sint u mod int ShardCount)"])
    (auto simp: shardOf_def ShardCount_def sgn_if nat_less_iff)

lemma kv_save:
  assumes ok: "kv_ok tz H Q" and d: "unmarshal_bet d = Some b" and stor: "storable tz b"
    and u: "0 \<le> sint (UserID b)" and intake: "kv_intake H Q (RoundID b)"
    and new: "BetID b \<notin> BetID ` set_mset (kv_pending H Q (RoundID b))"
    and H': "H' = (put H b d)(indexKey (RoundID b) (UserID b) :=
        (H (indexKey (RoundID b) (UserID b)))(reward_String (bet_Color b) \<mapsto> BetID b))"
    and Q': "Q' = Q(queueKey (RoundID b) (shardOf (UserID b)) :=
        Q (queueKey (RoundID b) (shardOf (UserID b))) @ [BetID b])"
  shows "kv_ok tz H' Q'" "kv_intake H' Q' = kv_intake H Q"
    "kv_pending H' Q' = (kv_pending H Q)(RoundID b := add_mset b (kv_pending H Q (RoundID b)))"
proof -
  let ?r = "RoundID b" and ?i = "BetID b"
  have queued: "set (queued Q ?r) = dom (H (dataKey ?r))" "distinct (queued Q ?r)"
    using intake kv_queued [OF ok] by (auto simp: kv_intake_def)
  have fresh: "?i \<notin> dom (H (dataKey ?r))"
  proof
    assume i: "?i \<in> dom (H (dataKey ?r))"
    then have "bet_of H ?r ?i \<in># kv_pending H Q ?r" using queued by (simp add: kv_pending_def)
    with kv_data(2) [OF ok i] new show False by (metis imageI)
  qed
  obtain sh where sh: "sh < ShardCount" "shardOf (UserID b) = int sh" using shardOf_nonneg [OF u] by blast
  have mq: "mset (queued Q' ?r) = add_mset ?i (mset (queued Q ?r))"
    using queued_upd [OF sh(1), of Q ?r "Q (queueKey ?r (int sh)) @ [?i]"] by (simp add: Q' sh(2))
  have oq: "queued Q' r = queued Q r" if "r \<noteq> ?r" for r
    using that by (intro queued_other) (simp add: Q')
  have sq: "set (queued Q' ?r) = insert ?i (set (queued Q ?r))"
    using arg_cong [OF mq, of set_mset] by simp
  have dq: "distinct (queued Q' ?r)"
    using mset_eq_imp_distinct_iff [of "queued Q' ?r" "?i # queued Q ?r"] mq fresh queued by simp
  have data: "H' (dataKey r) = (put H b d) (dataKey r)" for r by (simp add: H')
  have bo: "bet_of H' r j = (if r = ?r \<and> j = ?i then b else bet_of H r j)" for r j
    using bet_of_upd [OF d, of H ?r ?i r j] by (simp only: bet_of_def data)
  have doms: "dom (H' (dataKey r)) = (if r = ?r then insert ?i (dom (H (dataKey r))) else dom (H (dataKey r)))" for r
    by (auto simp: data)
  note put = kv_ok_put [OF ok d stor]
  have "H' (dataKey r) i = Some e \<Longrightarrow> \<exists>b. unmarshal_bet e = Some b \<and> BetID b = i \<and> RoundID b = r \<and> storable tz b" for r i e
    using put unfolding kv_ok_def data by blast
  moreover have "distinct (queued Q' r) \<and> set (queued Q' r) \<subseteq> dom (H' (dataKey r))" for r
    using dq sq oq [of r] queued kv_queued [OF ok, of r] doms [of r] by (cases "r = ?r") auto
  moreover have "Q' (dataKey r) = []" "Q' (indexKey r u) = []" "H' (queueKey r i) = Map.empty" for r u i
    using kv_types [OF ok] by (simp_all add: Q' H')
  ultimately show "kv_ok tz H' Q'" unfolding kv_ok_def by blast
  have p: "kv_pending H' Q' ?r = add_mset b (kv_pending H Q ?r)"
  proof -
    have "image_mset (bet_of H' ?r) (mset (queued Q ?r)) = image_mset (bet_of H ?r) (mset (queued Q ?r))"
      using fresh queued(1) by (intro image_mset_cong) (auto simp: bo)
    then show ?thesis by (simp add: kv_pending_def mq bo)
  qed
  have po: "kv_pending H' Q' r = kv_pending H Q r" if "r \<noteq> ?r" for r
  proof -
    have "bet_of H' r = bet_of H r" using that by (intro ext) (simp add: bo)
    with oq [OF that] show ?thesis by (simp only: kv_pending_def)
  qed
  show "kv_pending H' Q' = (kv_pending H Q)(?r := add_mset b (kv_pending H Q ?r))"
    using p po by (auto simp: fun_eq_iff)
  have "indexed H' r = indexed H r" if "r \<noteq> ?r" for r
    using that by (simp add: indexed_def H' doms bo bet_of_def cong: option.case_cong)
  moreover have "indexed H' ?r"
    unfolding indexed_def
  proof (intro allI)
    fix u c
    have ind: "case H (indexKey ?r u) (reward_String c) of
       None \<Rightarrow> \<forall>i \<in> dom (H (dataKey ?r)). \<not> bet_matches ?r u c (bet_of H ?r i)
     | Some i \<Rightarrow> i \<in> dom (H (dataKey ?r)) \<and> bet_matches ?r u c (bet_of H ?r i)"
      using intake unfolding kv_intake_def indexed_def by blast
    have m: "bet_matches ?r u c b \<longleftrightarrow> UserID b = u \<and> bet_Color b = c" by (auto simp: bet_matches_def)
    show "case H' (indexKey ?r u) (reward_String c) of
       None \<Rightarrow> \<forall>i \<in> dom (H' (dataKey ?r)). \<not> bet_matches ?r u c (bet_of H' ?r i)
     | Some i \<Rightarrow> i \<in> dom (H' (dataKey ?r)) \<and> bet_matches ?r u c (bet_of H' ?r i)"
    proof (cases "UserID b = u \<and> bet_Color b = c")
      case True
      then have "H' (indexKey ?r u) (reward_String c) = Some ?i" by (auto simp: H')
      with True m show ?thesis by (simp add: doms bo)
    next
      case False
      then have "H' (indexKey ?r u) (reward_String c) = H (indexKey ?r u) (reward_String c)" by (auto simp: H')
      with ind False m fresh show ?thesis by (auto simp: doms bo split: option.splits)
    qed
  qed
  ultimately show "kv_intake H' Q' = kv_intake H Q"
    using intake sq queued oq doms by (auto simp: kv_intake_def fun_eq_iff)
qed

section \<open>Taking and clearing\<close>

lemma kv_take:
  assumes ok: "kv_ok tz H Q" and i: "i < ShardCount"
    and Q': "Q' = Q(queueKey r (int i) := drop n (Q (queueKey r (int i))))"
    and ids: "ids = take n (Q (queueKey r (int i)))"
  shows "kv_ok tz H Q'" "q \<noteq> r \<Longrightarrow> kv_intake H Q' q = kv_intake H Q q"
    "mset (map (bet_of H r) ids) \<subseteq># kv_pending H Q r"
    "kv_pending H Q' = (kv_pending H Q)(r := kv_pending H Q r - mset (map (bet_of H r) ids))"
    "set ids \<subseteq> dom (H (dataKey r))"
proof -
  let ?key = "queueKey r (int i)"
  have "mset (Q ?key) = mset ids + mset (drop n (Q ?key))"
    unfolding ids by (metis append_take_drop_id mset_append)
  with queued_upd [OF i, of Q r "drop n (Q ?key)"]
  have m: "mset (queued Q r) = mset (queued Q' r) + mset ids" by (simp add: Q')
  have o: "queued Q' q = queued Q q" if "q \<noteq> r" for q using that by (intro queued_other) (simp add: Q')
  have s: "set (queued Q r) = set (queued Q' r) \<union> set ids" using arg_cong [OF m, of set_mset] by simp
  have "distinct (queued Q' r @ ids)"
    using mset_eq_imp_distinct_iff [of "queued Q' r @ ids" "queued Q r"] m kv_queued [OF ok, of r] by simp
  then have "distinct (queued Q' q) \<and> set (queued Q' q) \<subseteq> dom (H (dataKey q))" for q
    using s o [of q] kv_queued [OF ok, of q] by (cases "q = r") auto
  moreover have "Q' (dataKey r) = []" "Q' (indexKey r u) = []" for r u
    using kv_types [OF ok] by (simp_all add: Q')
  ultimately show "kv_ok tz H Q'" using ok unfolding kv_ok_def by blast
  show "kv_intake H Q' q = kv_intake H Q q" if "q \<noteq> r" using o [OF that] by (simp add: kv_intake_def)
  have p: "kv_pending H Q r = kv_pending H Q' r + mset (map (bet_of H r) ids)"
    by (simp add: kv_pending_def m)
  then show "mset (map (bet_of H r) ids) \<subseteq># kv_pending H Q r" by simp
  show "kv_pending H Q' = (kv_pending H Q)(r := kv_pending H Q r - mset (map (bet_of H r) ids))"
    using p o by (auto simp: fun_eq_iff kv_pending_def)
  show "set ids \<subseteq> dom (H (dataKey r))" using s kv_queued [OF ok, of r] by auto
qed

lemma kv_none_left:
  assumes "\<forall>i < ShardCount. Q (queueKey r (int i)) = []"
  shows "kv_pending H Q r = {#}"
  using assms by (simp add: kv_pending_def queued_def)

lemma fold_Del:
  "fold cmd_queue (map Del ks) Q = (\<lambda>k. if k \<in> set ks then [] else Q k)"
  "fold cmd_hash (map Del ks) H = (\<lambda>k. if k \<in> set ks then Map.empty else H k)"
  by (induction ks arbitrary: Q H) (auto simp: fun_eq_iff)

lemma kv_clear:
  assumes ok: "kv_ok tz H Q"
    and ks: "ks = dataKey r # map (\<lambda>i. queueKey r (int i)) [0..<ShardCount]"
    and H': "H' = (\<lambda>k. if k \<in> set ks then Map.empty else H k)"
    and Q': "Q' = (\<lambda>k. if k \<in> set ks then [] else Q k)"
  shows "kv_ok tz H' Q'" "q \<noteq> r \<Longrightarrow> kv_intake H' Q' q = kv_intake H Q q"
    "kv_pending H' Q' = (kv_pending H Q)(r := {#})"
proof -
  have data: "H' (dataKey q) = (if q = r then Map.empty else H (dataKey q))" for q by (auto simp: H' ks)
  have index: "H' (indexKey q u) = H (indexKey q u)" for q u by (auto simp: H' ks)
  have o: "queued Q' q = queued Q q" if "q \<noteq> r" for q using that by (intro queued_other) (auto simp: Q' ks)
  have z: "queued Q' r = []" by (simp add: queued_def Q' ks)
  have bo: "bet_of H' q = bet_of H q" if "q \<noteq> r" for q using that by (simp add: bet_of_def data fun_eq_iff)
  show "kv_intake H' Q' q = kv_intake H Q q" if "q \<noteq> r"
  proof -
    have d: "H' (dataKey q) = H (dataKey q)" using data that by simp
    show ?thesis unfolding kv_intake_def indexed_def index o [OF that] bo [OF that] d by (rule refl)
  qed
  show "kv_pending H' Q' = (kv_pending H Q)(r := {#})"
  proof
    fix q
    show "kv_pending H' Q' q = ((kv_pending H Q)(r := {#})) q"
      by (cases "q = r") (simp_all add: kv_pending_def z o bo)
  qed
  have "H' (dataKey q) i = Some d \<Longrightarrow>
      \<exists>b. unmarshal_bet d = Some b \<and> BetID b = i \<and> RoundID b = q \<and> storable tz b" for q i d
    using ok data unfolding kv_ok_def by (metis option.distinct(1))
  moreover have "distinct (queued Q' q) \<and> set (queued Q' q) \<subseteq> dom (H' (dataKey q))" for q
    using z o [of q] kv_queued [OF ok, of q] data [of q] by (cases "q = r") auto
  moreover have "Q' (dataKey q) = []" "Q' (indexKey q u) = []" "H' (queueKey q i) = Map.empty" for q u i
    using kv_types [OF ok] by (simp_all add: Q' H')
  ultimately show "kv_ok tz H' Q'" unfolding kv_ok_def by blast
qed

section \<open>The repository\<close>

definition red_inv :: "'k redis_config \<Rightarrow> ('k \<Rightarrow> hashes) \<Rightarrow> ('k \<Rightarrow> queues) \<Rightarrow> 'k RedisBets store \<Rightarrow> bool" where
  "red_inv cfg hash queue s \<longleftrightarrow> redis_ok (rdb cfg) hash queue \<and>
     kv_ok (zone cfg) (hash (server (repo s))) (queue (server (repo s)))"

definition red_pending :: "('k \<Rightarrow> hashes) \<Rightarrow> ('k \<Rightarrow> queues) \<Rightarrow> 'k RedisBets store \<Rightarrow> string \<Rightarrow> Bet multiset" where
  "red_pending hash queue s = kv_pending (hash (server (repo s))) (queue (server (repo s)))"

definition red_intake :: "('k \<Rightarrow> hashes) \<Rightarrow> ('k \<Rightarrow> queues) \<Rightarrow> 'k RedisBets store \<Rightarrow> string \<Rightarrow> bool" where
  "red_intake hash queue s = kv_intake (hash (server (repo s))) (queue (server (repo s)))"

text \<open>A handed-out copy agrees with the stored bet.\<close>

definition red_handle :: "('k \<Rightarrow> hashes) \<Rightarrow> 'k RedisBets store \<Rightarrow> ptr \<Rightarrow> Bet \<Rightarrow> bool" where
  "red_handle hash s p b \<longleftrightarrow> heap s p = b \<and>
     BetID b \<in> dom (hash (server (repo s)) (dataKey (RoundID b))) \<and>
     bet_of (hash (server (repo s))) (RoundID b) (BetID b) = b"

lemma red_find:
  assumes inv: "red_inv cfg hash queue s" and intake: "red_intake hash queue s r"
    and get: "red_GetUserBet cfg s r u c = (x, s')"
  shows "red_inv cfg hash queue s' \<and> red_pending hash queue s' = red_pending hash queue s \<and>
     red_intake hash queue s' = red_intake hash queue s \<and>
     (case x of Inl _ \<Rightarrow> False
      | Inr None \<Rightarrow> \<forall>b \<in># red_pending hash queue s r. \<not> bet_matches r u c b
      | Inr (Some p) \<Rightarrow> bet_matches r u c (heap s' p) \<and> heap s' p \<in># red_pending hash queue s r \<and>
          red_handle hash s' p (heap s' p))"
proof -
  let ?k = "server (repo s)" let ?H = "hash ?k" and ?Q = "queue ?k"
  have X: "redis_ok (rdb cfg) hash queue" and ok: "kv_ok (zone cfg) ?H ?Q" using inv by (auto simp: red_inv_def)
  have q: "set (queued ?Q r) = dom (?H (dataKey r))" and ind: "case ?H (indexKey r u) (reward_String c) of
       None \<Rightarrow> \<forall>i \<in> dom (?H (dataKey r)). \<not> bet_matches r u c (bet_of ?H r i)
     | Some i \<Rightarrow> i \<in> dom (?H (dataKey r)) \<and> bet_matches r u c (bet_of ?H r i)"
    using intake unfolding red_intake_def kv_intake_def indexed_def by blast+
  note hget = redis_hget [where k = ?k, OF X]
  show ?thesis
  proof (cases "?H (indexKey r u) (reward_String c)")
    case None
    then have "x = Inr None" "s' = s"
      using get hget [OF kv_types(2) [OF ok]] by (auto simp: red_GetUserBet_def)
    with None ind q inv intake show ?thesis by (auto simp: red_pending_def kv_pending_def)
  next
    case (Some i)
    with ind have i: "i \<in> dom (?H (dataKey r))" "bet_matches r u c (bet_of ?H r i)" by auto
    obtain d where d: "?H (dataKey r) i = Some d" "unmarshal_bet d = Some (bet_of ?H r i)"
      using kv_data(1) [OF ok i(1)] by blast
    have "x = Inr (Some (nextPtr s))" "s' = snd (alloc (bet_of ?H r i) s)"
      using get Some d hget [OF kv_types(2) [OF ok]] hget [OF kv_types(1) [OF ok]]
      by (auto simp: red_GetUserBet_def alloc_def)
    moreover have "bet_of ?H r i \<in># red_pending hash queue s r"
      using i(1) q by (simp add: red_pending_def kv_pending_def)
    ultimately show ?thesis
      using i kv_data(2,3) [OF ok i(1)] inv
      by (simp add: alloc_def red_inv_def red_pending_def red_intake_def red_handle_def)
  qed
qed

lemma exec_effect:
  assumes "redis_ok (rdb cfg) hash queue" "typed (hash (server (repo s))) (queue (server (repo s))) cmds"
    "exec cfg cmds s = (e, s')"
  shows "e = None" "hash (server (repo s')) = fold cmd_hash cmds (hash (server (repo s)))"
    "queue (server (repo s')) = fold cmd_queue cmds (queue (server (repo s)))" "heap s' = heap s"
    "nextPtr s' = nextPtr s"
  using assms(3) redis_exec [OF assms(1,2)] by (auto simp: exec_def split: prod.splits)

lemma red_update:
  assumes inv: "red_inv cfg hash queue s" and h: "red_handle hash s p b"
    and intake: "red_intake hash queue s (RoundID b)" and up: "red_UpdateBetAmount cfg s p a = (e, s')"
  shows "red_inv cfg hash queue s' \<and> e = None \<and> red_intake hash queue s' = red_intake hash queue s \<and>
     heap s' p = b\<lparr>Amount := Amount b + a\<rparr> \<and>
     red_pending hash queue s' = (red_pending hash queue s)(RoundID b :=
       add_mset (b\<lparr>Amount := Amount b + a\<rparr>) (red_pending hash queue s (RoundID b) - {#b#}))"
proof -
  let ?k = "server (repo s)" let ?H = "hash ?k" and ?Q = "queue ?k" and ?b = "b\<lparr>Amount := Amount b + a\<rparr>"
  have X: "redis_ok (rdb cfg) hash queue" and ok: "kv_ok (zone cfg) ?H ?Q" using inv by (auto simp: red_inv_def)
  have b: "heap s p = b" "BetID b \<in> dom (?H (dataKey (RoundID b)))" "bet_of ?H (RoundID b) (BetID b) = b"
    using h by (auto simp: red_handle_def)
  have "storable (zone cfg) ?b" using kv_data(4) [OF ok b(2)] b(3) by simp
  then obtain d where d: "marshal_bet (zone cfg) ?b = Some d" "unmarshal_bet d = Some ?b"
    by (rule bet_json_roundtrip)
  let ?s = "s\<lparr>heap := (heap s)(p := ?b)\<rparr>" and ?cmds = "[HSet (dataKey (RoundID b)) (BetID b) d]"
  have ex: "exec cfg ?cmds ?s = (e, s')" using up b(1) d(1) by (simp add: red_UpdateBetAmount_def)
  have "typed (hash (server (repo ?s))) (queue (server (repo ?s))) ?cmds"
    using kv_types [OF ok] by (simp add: typed_def)
  note eff = exec_effect [OF X this ex]
  have "hash (server (repo s')) = put ?H b d" "queue (server (repo s')) = ?Q" using eff by simp_all
  with kv_update [OF ok d(2) b(2,3) _ refl] intake eff(1,4) X show ?thesis
    by (simp add: red_inv_def red_intake_def red_pending_def)
qed

lemma red_save:
  assumes inv: "red_inv cfg hash queue s" and intake: "red_intake hash queue s (RoundID b)"
    and new: "BetID b \<notin> BetID ` set_mset (red_pending hash queue s (RoundID b))"
    and u: "0 \<le> sint (UserID b)" and st: "storable (zone cfg) b"
    and al: "alloc b s = (p, s1)" and save: "red_SaveBet cfg s1 p = (e, s')"
  shows "red_inv cfg hash queue s' \<and> e = None \<and> red_intake hash queue s' = red_intake hash queue s \<and>
     heap s' p = b \<and>
     red_pending hash queue s' = (red_pending hash queue s)(RoundID b := add_mset b (red_pending hash queue s (RoundID b)))"
proof -
  let ?k = "server (repo s)" let ?H = "hash ?k" and ?Q = "queue ?k" and ?r = "RoundID b"
  have X: "redis_ok (rdb cfg) hash queue" and ok: "kv_ok (zone cfg) ?H ?Q" using inv by (auto simp: red_inv_def)
  obtain d where d: "marshal_bet (zone cfg) b = Some d" "unmarshal_bet d = Some b" using st by (rule bet_json_roundtrip)
  let ?cmds = "[HSet (dataKey ?r) (BetID b) d, Expire (dataKey ?r) ttl,
     RPush (queueKey ?r (shardOf (UserID b))) (BetID b), Expire (queueKey ?r (shardOf (UserID b))) ttl,
     HSet (indexKey ?r (UserID b)) (reward_String (bet_Color b)) (BetID b), Expire (indexKey ?r (UserID b)) ttl]"
  have s1: "heap s1 p = b" "repo s1 = repo s" using al by (auto simp: alloc_def)
  have ex: "exec cfg ?cmds s1 = (e, s')" using save s1 d(1) by (simp add: red_SaveBet_def)
  have "typed (hash (server (repo s1))) (queue (server (repo s1))) ?cmds"
    using kv_types [OF ok] s1(2) by (auto simp: typed_def)
  note eff = exec_effect [OF X this ex]
  have st': "hash (server (repo s')) = (put ?H b d)(indexKey ?r (UserID b) :=
        (?H (indexKey ?r (UserID b)))(reward_String (bet_Color b) \<mapsto> BetID b))"
    "queue (server (repo s')) = ?Q(queueKey ?r (shardOf (UserID b)) :=
        ?Q (queueKey ?r (shardOf (UserID b))) @ [BetID b])"
    using eff(2,3) s1(2) by simp_all
  from kv_save [OF ok d(2) st u _ _ st'] intake new eff(1,4) s1 X show ?thesis
    by (simp add: red_inv_def red_intake_def red_pending_def)
qed

lemma red_clear:
  assumes inv: "red_inv cfg hash queue s" and clear: "red_ClearBets cfg s r = (e, s')"
  shows "red_inv cfg hash queue s' \<and> (\<forall>q. q \<noteq> r \<longrightarrow> red_intake hash queue s' q = red_intake hash queue s q) \<and>
     red_pending hash queue s' = (red_pending hash queue s)(r := {#})"
proof -
  let ?k = "server (repo s)" let ?H = "hash ?k" and ?Q = "queue ?k"
  let ?ks = "dataKey r # map (\<lambda>i. queueKey r (int i)) [0..<ShardCount]"
  have X: "redis_ok (rdb cfg) hash queue" and ok: "kv_ok (zone cfg) ?H ?Q" using inv by (auto simp: red_inv_def)
  have ex: "exec cfg (map Del ?ks) s = (e, s')" using clear by (simp add: red_ClearBets_def comp_def)
  have "typed ?H ?Q (map Del ?ks)" by (auto simp: typed_def)
  note eff = exec_effect [OF X this ex, unfolded fold_Del]
  note c = kv_clear [OF ok refl eff(2,3)]
  show ?thesis using c X by (simp add: red_inv_def red_intake_def red_pending_def)
qed

section \<open>Settlement batches\<close>

lemma load_bets_all:
  assumes "\<forall>d \<in> set ds. \<exists>b. d = Some b \<and> unmarshal_bet b \<noteq> None" "load_bets ds s = (ps, s')"
  shows "map (heap s') ps = map (\<lambda>d. the (unmarshal_bet (the d))) ds \<and> repo s' = repo s \<and>
     (\<forall>p < nextPtr s. heap s' p = heap s p) \<and> nextPtr s \<le> nextPtr s' \<and> (\<forall>p \<in> set ps. nextPtr s \<le> p)"
  using assms
proof (induction ds s arbitrary: ps s' rule: load_bets.induct)
  case (3 d ds s)
  then obtain b where b: "unmarshal_bet d = Some b" by auto
  let ?s = "snd (alloc b s)"
  obtain qs where qs: "load_bets ds ?s = (qs, s')" "ps = nextPtr s # qs"
    using "3.prems"(2) b by (auto simp: alloc_def split: prod.splits)
  have al: "(nextPtr s, ?s) = alloc b s" by (simp add: alloc_def)
  from "3.IH"(2) [OF b al] "3.prems"(1) qs(1)
  have IH: "map (heap s') qs = map (\<lambda>d. the (unmarshal_bet (the d))) ds \<and> repo s' = repo ?s \<and>
     (\<forall>p < nextPtr ?s. heap s' p = heap ?s p) \<and> nextPtr ?s \<le> nextPtr s' \<and> (\<forall>p \<in> set qs. nextPtr ?s \<le> p)"
    by (auto simp: alloc_def)
  then show ?case using b qs(2) by (auto simp: alloc_def)
qed auto

lemma take_shards_spec:
  assumes X: "redis_ok (rdb cfg) hash queue"
    and "kv_ok (zone cfg) (hash (server (repo s))) (queue (server (repo s)))"
    and "set shards \<subseteq> {..< ShardCount}" "take_shards cfg r shards s = (y, s')"
  shows "\<exists>ps. y = Inr ps \<and> hash (server (repo s')) = hash (server (repo s)) \<and>
     (ps = [] \<and> (\<forall>i \<in> set shards. queue (server (repo s)) (queueKey r (int i)) = []) \<and>
        queue (server (repo s')) = queue (server (repo s))
      \<or> ps \<noteq> [] \<and> (\<exists>i \<in> set shards. \<exists>ids.
          ids = take 100 (queue (server (repo s)) (queueKey r (int i))) \<and>
          map (heap s') ps = map (bet_of (hash (server (repo s))) r) ids \<and>
          queue (server (repo s')) = (queue (server (repo s)))(queueKey r (int i) :=
            drop 100 (queue (server (repo s)) (queueKey r (int i))))))"
  using assms(2-4)
proof (induction shards arbitrary: s)
  case Nil
  then show ?case by auto
next
  case (Cons i js)
  let ?k = "server (repo s)" and ?key = "queueKey r (int i)"
  let ?H = "hash ?k" and ?Q = "queue ?k"
  obtain x k' where pop: "rd_LPopCount (rdb cfg) ?k ?key 100 = (x, k')" by fastforce
  note lpop = redis_lpop [OF X kv_types(3) [OF Cons.prems(1)] _ pop, simplified]
  let ?s = "s\<lparr>repo := (repo s)\<lparr>server := k'\<rparr>\<rparr>"
  show ?case
  proof (cases "?Q ?key = []")
    case True
    with lpop have "x = Inl redis_Nil" "hash k' = ?H" "queue k' = ?Q" by auto
    moreover from this pop Cons.prems(3) have "take_shards cfg r js ?s = (y, s')" by simp
    ultimately show ?thesis using Cons.IH [of ?s] Cons.prems(1,2) True by auto
  next
    case False
    let ?ids = "take 100 (?Q ?key)"
    from False lpop have x: "x = Inr ?ids" "hash k' = ?H" "queue k' = ?Q(?key := drop 100 (?Q ?key))" by auto
    have ne: "?ids \<noteq> []" using False by simp
    have i: "i < ShardCount" using Cons.prems(2) by simp
    note t = kv_take [OF Cons.prems(1) i x(3) refl]
    have "rd_HMGet (rdb cfg) k' (dataKey r) ?ids = Inr (map (?H (dataKey r)) ?ids)"
      using redis_hmget [OF X kv_types(1) [OF t(1)] ne] x(2) by simp
    with pop x(1) ne Cons.prems(3) obtain ps where ld: "load_bets (map (?H (dataKey r)) ?ids) ?s = (ps, s')" "y = Inr ps"
      by (auto split: prod.splits)
    have "\<forall>d \<in> set (map (?H (dataKey r)) ?ids). \<exists>b. d = Some b \<and> unmarshal_bet b \<noteq> None"
    proof
      fix d
      assume "d \<in> set (map (?H (dataKey r)) ?ids)"
      then obtain j where j: "j \<in> set ?ids" "d = ?H (dataKey r) j" by auto
      from kv_data(1) [OF Cons.prems(1), of j r] t(5) j show "\<exists>b. d = Some b \<and> unmarshal_bet b \<noteq> None" by auto
    qed
    from load_bets_all [OF this ld(1)]
    have "map (heap s') ps = map (bet_of ?H r) ?ids" "repo s' = repo ?s" by (simp_all add: bet_of_def)
    moreover from this(1) ne have "ps \<noteq> []" by auto
    ultimately show ?thesis using ld(2) x(2,3) by auto
  qed
qed

lemma set_upt_iff: "j \<in> set [0..<n] \<longleftrightarrow> j < n"
  by simp

lemma shards_cover:
  assumes "start < ShardCount"
  shows "set (map (\<lambda>i. (start + i) mod ShardCount) [0..<ShardCount]) = {..< ShardCount}"
proof -
  have "\<forall>st \<in> set [0..<ShardCount]. \<forall>j \<in> set [0..<ShardCount].
      j \<in> set (map (\<lambda>i. (st + i) mod ShardCount) [0..<ShardCount])" by code_simp
  with assms have "{..< ShardCount} \<subseteq> set (map (\<lambda>i. (start + i) mod ShardCount) [0..<ShardCount])"
    by (simp only: subset_iff lessThan_iff set_upt_iff Ball_def simp_thms) blast
  then show ?thesis by (auto simp: ShardCount_def)
qed

lemma red_take:
  assumes inv: "red_inv cfg hash queue s" and take: "red_GetBetsForSettlement cfg s r = (y, s')"
  shows "red_inv cfg hash queue s' \<and> (\<forall>q. q \<noteq> r \<longrightarrow> red_intake hash queue s' q = red_intake hash queue s q) \<and>
     (\<exists>ps. y = Inr ps \<and> mset (map (heap s') ps) \<subseteq># red_pending hash queue s r \<and>
        red_pending hash queue s' = (red_pending hash queue s)(r := red_pending hash queue s r - mset (map (heap s') ps)) \<and>
        (ps = [] \<longrightarrow> red_pending hash queue s r = {#}))"
proof -
  let ?k = "server (repo s)" let ?H = "hash ?k" and ?Q = "queue ?k"
  have X: "redis_ok (rdb cfg) hash queue" and ok: "kv_ok (zone cfg) ?H ?Q" using inv by (auto simp: red_inv_def)
  let ?s = "s\<lparr>repo := (repo s)\<lparr>rndReads := Suc (rndReads (repo s))\<rparr>\<rparr>"
  let ?start = "rnd (repo s) (rndReads (repo s)) mod ShardCount"
  have run: "take_shards cfg r (map (\<lambda>i. (?start + i) mod ShardCount) [0..<ShardCount]) ?s = (y, s')"
    using take by (simp add: red_GetBetsForSettlement_def Let_def)
  have st: "?start < ShardCount" by (simp add: ShardCount_def)
  have "kv_ok (zone cfg) (hash (server (repo ?s))) (queue (server (repo ?s)))" using ok by simp
  note spec = take_shards_spec [OF X this _ run, unfolded shards_cover [OF st], OF subset_refl]
  from spec obtain ps where y: "y = Inr ps" and H: "hash (server (repo s')) = ?H"
    and c: "ps = [] \<and> (\<forall>i < ShardCount. ?Q (queueKey r (int i)) = []) \<and> queue (server (repo s')) = ?Q
      \<or> ps \<noteq> [] \<and> (\<exists>i < ShardCount. \<exists>ids. ids = take 100 (?Q (queueKey r (int i))) \<and>
          map (heap s') ps = map (bet_of ?H r) ids \<and>
          queue (server (repo s')) = ?Q(queueKey r (int i) := drop 100 (?Q (queueKey r (int i)))))"
    by (simp del: mset_map) blast
  from c show ?thesis
  proof
    assume "ps = [] \<and> (\<forall>i < ShardCount. ?Q (queueKey r (int i)) = []) \<and> queue (server (repo s')) = ?Q"
    then have e: "ps = []" "queue (server (repo s')) = ?Q" "kv_pending ?H ?Q r = {#}"
      using kv_none_left [of ?Q r ?H] by simp_all
    from e(3) have "(kv_pending ?H ?Q)(r := {#}) = kv_pending ?H ?Q" by (metis fun_upd_triv)
    with y e H inv show ?thesis by (simp add: red_inv_def red_intake_def red_pending_def)
  next
    assume "ps \<noteq> [] \<and> (\<exists>i < ShardCount. \<exists>ids. ids = take 100 (?Q (queueKey r (int i))) \<and>
          map (heap s') ps = map (bet_of ?H r) ids \<and>
          queue (server (repo s')) = ?Q(queueKey r (int i) := drop 100 (?Q (queueKey r (int i)))))"
    then obtain i ids where i: "i < ShardCount" "ids = take 100 (?Q (queueKey r (int i)))" "ps \<noteq> []"
      "map (heap s') ps = map (bet_of ?H r) ids"
      "queue (server (repo s')) = ?Q(queueKey r (int i) := drop 100 (?Q (queueKey r (int i))))" by blast
    note t = kv_take [OF ok i(1,5,2)]
    show ?thesis using t y H X i(3,4) by (simp add: red_inv_def red_intake_def red_pending_def del: mset_map)
  qed
qed

interpretation redis_bets: bet_repository "redisRepo cfg" "red_inv cfg hash queue" "red_pending hash queue"
    "red_intake hash queue" "red_handle hash" "storable (zone cfg)"
  for cfg :: "'k redis_config" and hash queue
proof (unfold_locales, goal_cases)
  case (1 s b r)
  let ?H = "hash (server (repo s))" and ?Q = "queue (server (repo s))"
  have ok: "kv_ok (zone cfg) ?H ?Q" using 1(1) by (simp add: red_inv_def)
  obtain i where "i \<in> set (queued ?Q r)" "b = bet_of ?H r i"
    using 1(2) by (auto simp: red_pending_def kv_pending_def)
  with kv_data(3) [OF ok, of i r] kv_queued [OF ok, of r] show ?case by auto
next
  case (2 s r u c x s')
  from 2(3) show ?case by (intro red_find [OF 2(1,2)]) (simp add: redisRepo_def)
next
  case (3 s p b a e s')
  from 3(4) show ?case by (intro red_update [OF 3(1-3)]) (simp add: redisRepo_def)
next
  case (4 s b p s1 e s')
  from 4(7) show ?case by (intro red_save [OF 4(1-6)]) (simp add: redisRepo_def)
next
  case (5 s r y s')
  from 5(2) show ?case by (intro red_take [OF 5(1)]) (simp add: redisRepo_def)
next
  case (6 s r e s')
  from 6(2) show ?case by (intro red_clear [OF 6(1)]) (simp add: redisRepo_def)
qed

end
