(* ===== verification/Gs_Redis.thy ===== *)
theory Gs_Redis
  imports Redis_Contract Gs_Props "HOL-Library.AList"
begin

text \<open>
  The game service with the Redis repository, as the monolith builds it when configured so: the lemmas
  of the locale \<open>game_service\<close> hold for it, too, and players are charged and paid alike with both
  repositories.
\<close>

section \<open>The interpretation\<close>

interpretation redis_monolith: game_service mockWallet "\<lambda>w u. u \<in> dom (balances w)"
    "redisRepo cfg" "red_inv cfg hash queue" "red_pending hash queue" "red_intake hash queue" "red_handle hash"
    "storable (zone cfg)"
    "NewGSUseCase (redisRepo cfg) orders gms mockWallet gateway overflow" valid_utf8
  for cfg :: "'k redis_config" and hash queue and orders :: "('d \<Rightarrow> BetOrder list \<Rightarrow> go_error option \<times> 'd) option"
    and gms :: "'m GMSService" and gateway overflow
  by unfold_locales (simp_all add: NewGSUseCase_def)

text \<open>An empty Redis, and a world whose bets can be written as JSON: IDs are UTF-8, the clock shows a year of
  four digits, and the zone is a number of minutes.\<close>

definition redis_empty :: "('k \<Rightarrow> hashes) \<Rightarrow> ('k \<Rightarrow> queues) \<Rightarrow> 'k RedisBets store \<Rightarrow> bool" where
  "redis_empty hash queue s \<longleftrightarrow>
     hash (server (repo s)) = (\<lambda>_. Map.empty) \<and> queue (server (repo s)) = (\<lambda>_. [])"

definition writable :: "'k redis_config \<Rightarrow> ('r, 'm, 'w, 'd) gs_world \<Rightarrow> bool" where
  "writable cfg w \<longleftrightarrow> (\<forall>i. valid_utf8 (gs_ids w i)) \<and>
     (\<forall>n. 0 \<le> local_year (zone cfg) (gs_clock w n) \<and> local_year (zone cfg) (gs_clock w n) \<le> 9999 \<and>
          \<bar>zone cfg (gs_clock w n)\<bar> < 86400 \<and> 60 dvd zone cfg (gs_clock w n))"

lemma redis_start:
  assumes "redis_ok (rdb cfg) hash queue" "redis_empty hash queue s"
  shows "red_inv cfg hash queue s" "red_pending hash queue s q = {#}" "red_intake hash queue s q"
  using assms
proof -
  have "queued (\<lambda>_. []) r = []" for r by (simp add: queued_def concat_eq_Nil_conv)
  then show "red_inv cfg hash queue s" "red_pending hash queue s q = {#}" "red_intake hash queue s q"
    using assms
    by (simp_all add: redis_empty_def red_inv_def kv_ok_def red_pending_def kv_pending_def red_intake_def
        kv_intake_def indexed_def)
qed

lemma redis_table:
  assumes "redis_ok (rdb cfg) hash queue" "redis_empty hash queue (gs_store w)" "inj (gs_ids w)" "writable cfg w"
  shows "redis_monolith.table cfg hash queue 0 w"
  using redis_start [OF assms(1,2)] assms(3,4)
  by (simp add: redis_monolith.table_def redis_monolith.ids_fresh_def redis_monolith.can_store_def pot_def
      writable_def storable_def time_json_def NewBet_def)

lemma redis_flow:
  fixes w :: "('k RedisBets, 'm, MockService, 'd) gs_world"
  assumes "uc = NewGSUseCase (redisRepo cfg) orders gms mockWallet gateway overflow"
    and "redis_ok (rdb cfg) hash queue" "redis_empty hash queue (gs_store w)" "inj (gs_ids w)" "writable cfg w"
    and "\<forall>(u, c, a) \<in> set ts. 0 \<le> sint u \<and> 0 \<le> sint a" "(\<Sum>(u, c, a) \<leftarrow> ts. sint a) \<le> 2 ^ 52"
    and "orders_persist uc rows"
    and "\<forall>(t, ch, acc) \<in> set (outcomes gms ts (gs_gms w)). \<forall>r. acc = Some r \<longrightarrow> valid_utf8 r"
  shows "\<exists>sum w'. SettleRound uc r win (placeBets uc ts w) = Some (Inr sum, w') \<and>
     (\<forall>u. wallet_balance mockWallet (gs_wallet w') u =
        wallet_balance mockWallet (gs_wallet w) u - charged u (outcomes gms ts (gs_gms w))
          + 2 * recorded r u win (outcomes gms ts (gs_gms w))) \<and>
     red_pending hash queue (gs_store w') r = {#}"
proof -
  have gms: "gmsService uc = gms" by (simp add: assms(1) NewGSUseCase_def)
  have good: "redis_monolith.good_rounds (outcomes (gmsService uc) ts (gs_gms w))"
    using assms(9) by (simp add: redis_monolith.good_rounds_def gms)
  from redis_monolith.round_flow [where cfg = cfg and hash = hash and queue = queue and
      orders = orders and gms = gms and gateway = gateway and overflow = overflow,
      folded assms(1), OF redis_table [OF assms(2-5)] redis_start(2) [OF assms(2,3)] assms(6,7) good assms(8)]
  show ?thesis unfolding gms .
qed

section \<open>Properties\<close>

text \<open>C13. With the Redis repository a round is paid as with the memory repository: over any sequence of bet
  attempts and whatever the game machine answers, settling the round ends, every balance is the one
  before less what was charged plus twice what was recorded on the winning color, and no bet of the
  round is pending.\<close>

theorem redis_round_money_flow:
  fixes w :: "('k RedisBets, 'm, MockService, 'd) gs_world"
  assumes "uc = NewGSUseCase (redisRepo cfg) orders gms mockWallet gateway overflow"
    and "redis_ok (rdb cfg) hash queue" "redis_empty hash queue (gs_store w)" "inj (gs_ids w)" "writable cfg w"
    and "\<forall>(u, c, a) \<in> set ts. 0 \<le> sint u \<and> 0 \<le> sint a" "(\<Sum>(u, c, a) \<leftarrow> ts. sint a) \<le> 2 ^ 52"
    and "orders_persist uc rows"
    and "\<forall>(t, ch, acc) \<in> set (outcomes gms ts (gs_gms w)). \<forall>r. acc = Some r \<longrightarrow> valid_utf8 r"
  shows "\<exists>sum w'. SettleRound uc r win (placeBets uc ts w) = Some (Inr sum, w') \<and>
     (\<forall>u. wallet_balance mockWallet (gs_wallet w') u =
        wallet_balance mockWallet (gs_wallet w) u - charged u (outcomes gms ts (gs_gms w))
          + 2 * recorded r u win (outcomes gms ts (gs_gms w))) \<and>
     red_pending hash queue (gs_store w') r = {#}"
  by (rule redis_flow [OF assms])

text \<open>C14. Both repositories pay alike: on the same attempts, with the same game machine and the same
  balances before, both settlements end and leave every user the same balance.\<close>

theorem redis_pays_as_memory:
  fixes w :: "(MemBets, 'm, MockService, 'd) gs_world" and v :: "('k RedisBets, 'm, MockService, 'e) gs_world"
  assumes "uc = NewGSUseCase memRepo orders gms mockWallet gateway overflow"
    and "ruc = NewGSUseCase (redisRepo cfg) rorders gms mockWallet rgateway overflow"
    and "no_bets (gs_store w)" "inj (gs_ids w)" "orders_persist uc rows"
    and "redis_ok (rdb cfg) hash queue" "redis_empty hash queue (gs_store v)" "inj (gs_ids v)" "writable cfg v"
    and "orders_persist ruc rrows"
    and "gs_gms v = gs_gms w" "\<forall>u. wallet_balance mockWallet (gs_wallet v) u = wallet_balance mockWallet (gs_wallet w) u"
    and "\<forall>(u, c, a) \<in> set ts. 0 \<le> sint u \<and> 0 \<le> sint a" "(\<Sum>(u, c, a) \<leftarrow> ts. sint a) \<le> 2 ^ 52"
    and "\<forall>(t, ch, acc) \<in> set (outcomes gms ts (gs_gms w)). \<forall>r. acc = Some r \<longrightarrow> valid_utf8 r"
  shows "\<exists>sum w' rsum v'. SettleRound uc r win (placeBets uc ts w) = Some (Inr sum, w') \<and>
     SettleRound ruc r win (placeBets ruc ts v) = Some (Inr rsum, v') \<and>
     (\<forall>u. wallet_balance mockWallet (gs_wallet v') u = wallet_balance mockWallet (gs_wallet w') u)"
proof -
  from memory_flow [OF assms(1,3,4,13,14,5)] obtain sum w' where
    m: "SettleRound uc r win (placeBets uc ts w) = Some (Inr sum, w')"
      "\<forall>u. wallet_balance mockWallet (gs_wallet w') u =
        wallet_balance mockWallet (gs_wallet w) u - charged u (outcomes gms ts (gs_gms w))
          + 2 * recorded r u win (outcomes gms ts (gs_gms w))" by blast
  have "\<forall>(t, ch, acc) \<in> set (outcomes gms ts (gs_gms v)). \<forall>r. acc = Some r \<longrightarrow> valid_utf8 r"
    unfolding assms(11) by (rule assms(15))
  from redis_flow [OF assms(2,6-9,13,14,10) this, of r win] obtain rsum v' where
    v: "SettleRound ruc r win (placeBets ruc ts v) = Some (Inr rsum, v')"
      "\<forall>u. wallet_balance mockWallet (gs_wallet v') u =
        wallet_balance mockWallet (gs_wallet v) u - charged u (outcomes gms ts (gs_gms w))
          + 2 * recorded r u win (outcomes gms ts (gs_gms w))" unfolding assms(11) by blast
  with m assms(12) show ?thesis
    by (intro exI [of _ sum] exI [of _ w'] exI [of _ rsum] exI [of _ v']) simp
qed

text \<open>A bet survives the JSON it is stored as: what \<^verbatim>\<open>SaveBet\<close> writes is read back as the same bet, for
  every bet with UTF-8 IDs and a time of whole minutes of zone offset in the years JSON can write.\<close>

theorem stored_bet_roundtrip:
  assumes "storable tz b"
  shows "Option.bind (marshal_bet tz b) unmarshal_bet = Some b"
  using bet_json_roundtrip [OF assms] by fastforce

text \<open>A Redis of association lists, which answers as the documentation says, and the sample bets with it.\<close>

type_synonym toy_server = "(string \<Rightarrow> (string \<times> string) list) \<times> queues"

fun toy_cmd :: "redis_cmd \<Rightarrow> (string \<Rightarrow> (string \<times> string) list) \<Rightarrow> string \<Rightarrow> (string \<times> string) list" where
  "toy_cmd (HSet key f v) H = H(key := AList.update f v (H key))"
| "toy_cmd (Del key) H = H(key := [])"
| "toy_cmd (Expire key d) H = H"
| "toy_cmd (RPush key v) H = H"

definition toy_redis :: "toy_server redis" where
  "toy_redis =
     \<lparr>rd_Exec = (\<lambda>(H, Q) cmds. (None, fold toy_cmd cmds H, fold cmd_queue cmds Q)),
      rd_HGetAll = (\<lambda>(H, Q) key. Inr (H key)), rd_HVals = (\<lambda>(H, Q) key. Inr (map snd (H key))),
      rd_HMGet = (\<lambda>(H, Q) key fs. Inr (map (map_of (H key)) fs)),
      rd_HGet = (\<lambda>(H, Q) key f. case map_of (H key) f of Some v \<Rightarrow> Inr v | None \<Rightarrow> Inl redis_Nil),
      rd_LPopCount = (\<lambda>(H, Q) key n. if Q key = [] then (Inl redis_Nil, H, Q)
         else (Inr (take n (Q key)), H, Q(key := drop n (Q key))))\<rparr>"

definition toy_hash :: "toy_server \<Rightarrow> hashes" where
  "toy_hash k = (\<lambda>key. map_of (fst k key))"

lemma toy_fold: "(\<lambda>key. map_of (fold toy_cmd cmds H key)) = fold cmd_hash cmds (\<lambda>key. map_of (H key))"
proof (induction cmds arbitrary: H)
  case (Cons c cmds)
  have "(\<lambda>key. map_of (toy_cmd c H key)) = cmd_hash c (\<lambda>key. map_of (H key))"
    by (cases c) (auto simp: fun_eq_iff update_conv')
  with Cons show ?case by simp
qed simp

lemma toy_redis_ok: "redis_ok toy_redis toy_hash snd"
  unfolding redis_ok_def toy_hash_def toy_redis_def
  by (auto simp: toy_fold split: if_splits)

definition toy_config :: "toy_server redis_config" where
  "toy_config = \<lparr>rdb = toy_redis, zone = \<lambda>_. 0, marshalError = ''json: bad time'', unmarshalError = ''json: bad data''\<rparr>"

definition toy_world :: "GMSUseCase \<Rightarrow> (toy_server RedisBets, GMSUseCase, MockService, BetOrder list) gs_world" where
  "toy_world g =
     \<lparr>gs_store = \<lparr>heap = \<lambda>_. NewBet [] 0 [] 0 0 0, nextPtr = 0,
        repo = \<lparr>server = (\<lambda>_. [], \<lambda>_. []), rnd = \<lambda>_. 5, rndReads = 0\<rparr>\<rparr>,
      gs_gms = g, gs_wallet = NewMockService, gs_orders = [], gs_sent = [], gs_clock = \<lambda>_. 0, gs_reads = 0,
      gs_ids = sample_id_of, gs_nextId = 0\<rparr>"

definition toy_gs :: "GMSUseCase GMSService
    \<Rightarrow> (toy_server RedisBets, GMSUseCase, MockService, BetOrder list) GSUseCase" where
  "toy_gs M = NewGSUseCase (redisRepo toy_config) (Some sample_orders) M mockWallet True (\<lambda>_. 0)"

lemma epoch_year: "local_year (\<lambda>_. 0) 0 = 1970"
proof -
  have "century 135080 = 3" "quad 135080 = 17" "year_in_quad 135080 = 1"
    by (simp_all add: century_def quad_def year_in_quad_def)
  then show ?thesis
    by (simp add: local_year_def civil_from_days_def day_of_year_def year_of_era_def Let_def Second_def)
qed

lemma toy_start:
  "redis_ok (rdb toy_config) toy_hash snd" "redis_empty toy_hash snd (gs_store (toy_world g))"
  "inj (gs_ids (toy_world g))" "writable toy_config (toy_world g)" "orders_persist (toy_gs M) mset"
  using toy_redis_ok sample_ids_inj
  by (simp_all add: toy_config_def redis_empty_def toy_world_def toy_hash_def writable_def
      sample_id_of_def orders_persist_def toy_gs_def NewGSUseCase_def sample_orders_def
      orderRepo_BatchCreate_def epoch_year)

lemma toy_outcomes:
  "outcomes gmsLocal sample_tries (gs_gms (toy_world sample_gms)) =
      [((7, 1, 100), True, Some ''R1''), ((8, 3, 30), True, Some ''R1''),
       ((7, 1, 50), True, Some ''R1''), ((7, 2, 20), True, Some ''R1'')]"
  "\<forall>(t, ch, acc) \<in> set (outcomes gmsLocal sample_tries (gs_gms (toy_world sample_gms))).
      \<forall>r. acc = Some r \<longrightarrow> valid_utf8 r"
proof -
  show outs: "outcomes gmsLocal sample_tries (gs_gms (toy_world sample_gms)) =
      [((7, 1, 100), True, Some ''R1''), ((8, 3, 30), True, Some ''R1''),
       ((7, 1, 50), True, Some ''R1''), ((7, 2, 20), True, Some ''R1'')]"
    by (simp add: sample_tries_def toy_world_def sample_gms_evals bet_outcome_def isValidColor_def)
  have "valid_utf8 ''R1''" by (rule ascii_valid_utf8) (simp add: byte_def)
  then show "\<forall>(t, ch, acc) \<in> set (outcomes gmsLocal sample_tries (gs_gms (toy_world sample_gms))).
      \<forall>r. acc = Some r \<longrightarrow> valid_utf8 r" by (simp add: outs)
qed

theorem redis_round_money_flow_witness:
  "\<exists>sum w'. SettleRound (toy_gs gmsLocal) ''R1'' REWARD_RED
       (placeBets (toy_gs gmsLocal) sample_tries (toy_world sample_gms)) = Some (Inr sum, w') \<and>
     wallet_balance mockWallet (gs_wallet w') 7 = 1000130 \<and>
     wallet_balance mockWallet (gs_wallet w') 8 = 999970"
proof -
  have bal: "wallet_balance mockWallet (gs_wallet (toy_world sample_gms)) u = 1000000" for u
    by (simp add: toy_world_def mock_balance NewMockService_def)
  from redis_round_money_flow [OF toy_gs_def toy_start(1-4) _ _ toy_start(5) toy_outcomes(2), of "''R1''" REWARD_RED]
  show ?thesis
    by (simp only: toy_outcomes(1) bal) (force simp: sample_tries_def charged_def recorded_def)
qed

theorem redis_pays_as_memory_witness:
  "\<exists>sum w' rsum v'. SettleRound (sample_gs gmsLocal) ''R1'' REWARD_RED
       (placeBets (sample_gs gmsLocal) sample_tries (sample_world sample_gms)) = Some (Inr sum, w') \<and>
     SettleRound (toy_gs gmsLocal) ''R1'' REWARD_RED
       (placeBets (toy_gs gmsLocal) sample_tries (toy_world sample_gms)) = Some (Inr rsum, v') \<and>
     (\<forall>u. wallet_balance mockWallet (gs_wallet v') u = wallet_balance mockWallet (gs_wallet w') u)"
proof (rule redis_pays_as_memory [OF sample_gs_def toy_gs_def sample_world_start sample_orders_persist
    toy_start])
  show "gs_gms (toy_world sample_gms) = gs_gms (sample_world sample_gms)"
    "\<forall>u. wallet_balance mockWallet (gs_wallet (toy_world sample_gms)) u =
      wallet_balance mockWallet (gs_wallet (sample_world sample_gms)) u"
    by (simp_all add: toy_world_def sample_world_def)
  show "\<forall>(u, c, a) \<in> set sample_tries. 0 \<le> sint u \<and> 0 \<le> sint a"
    "(\<Sum>(u, c, a) \<leftarrow> sample_tries. sint a) \<le> 2 ^ 52" by (simp_all add: sample_tries_def)
  show "\<forall>(t, ch, acc) \<in> set (outcomes gmsLocal sample_tries (gs_gms (sample_world sample_gms))).
      \<forall>r. acc = Some r \<longrightarrow> valid_utf8 r"
    using toy_outcomes(2) by (simp add: sample_world_def toy_world_def)
qed

theorem stored_bet_roundtrip_witness:
  "Option.bind (marshal_bet (\<lambda>_. 0) (NewBet ''b-1'' 0 ''R1'' 7 1 100)) unmarshal_bet =
     Some (NewBet ''b-1'' 0 ''R1'' 7 1 100)"
proof (rule stored_bet_roundtrip)
  have "valid_utf8 ''R1''" "valid_utf8 ''b-1''" by (rule ascii_valid_utf8, simp add: byte_def)+
  then show "storable (\<lambda>_. 0) (NewBet ''b-1'' 0 ''R1'' 7 1 100)"
    by (simp add: storable_def NewBet_def time_json_def epoch_year)
qed

end
