(* ===== verification/Discovery.thy ===== *)
theory Discovery
  imports Go_Base
begin

text \<open>
  Service discovery: the interface \<^verbatim>\<open>pkg/discovery/registry.go\<close> as a record of methods, the Nacos
  client \<^verbatim>\<open>nacos.go\<close> that implements it, and the helpers of \<^verbatim>\<open>pkg/netutil/netutil.go\<close> with which a
  service finds the address it registers.  The Nacos SDK and the network are parameters.
\<close>

section \<open>The interface\<close>

type_synonym addr = string
type_synonym metadata = "(string \<times> string) list"

text \<open>The callback of a subscription belongs to the client; the registry only learns that there is one.\<close>

record 'n Registry =
  reg_RegisterService :: "'n \<Rightarrow> string \<Rightarrow> string \<Rightarrow> 64 word \<Rightarrow> metadata \<Rightarrow> go_error option \<times> 'n"
  reg_DeregisterService :: "'n \<Rightarrow> string \<Rightarrow> string \<Rightarrow> 64 word \<Rightarrow> go_error option \<times> 'n"
  reg_GetService :: "'n \<Rightarrow> string \<Rightarrow> addr go_result \<times> 'n"
  reg_GetServices :: "'n \<Rightarrow> string \<Rightarrow> addr list go_result \<times> 'n"
  reg_Subscribe :: "'n \<Rightarrow> string \<Rightarrow> go_error option \<times> 'n"
  reg_Close :: "'n \<Rightarrow> go_error option \<times> 'n"

section \<open>Nacos\<close>

record nacos_Instance =
  ni_Ip :: string
  ni_Port :: "64 word"
  ni_Enable :: bool
  ni_Healthy :: bool

record RegisterInstanceParam =
  rip_Ip :: string
  rip_Port :: "64 word"
  rip_ServiceName :: string
  rip_Weight :: nat
  rip_Enable :: bool
  rip_Healthy :: bool
  rip_Ephemeral :: bool
  rip_Metadata :: metadata

record DeregisterInstanceParam =
  dip_Ip :: string
  dip_Port :: "64 word"
  dip_ServiceName :: string

record 'n naming_client =
  nc_RegisterInstance :: "'n \<Rightarrow> RegisterInstanceParam \<Rightarrow> bool go_result \<times> 'n"
  nc_DeregisterInstance :: "'n \<Rightarrow> DeregisterInstanceParam \<Rightarrow> bool go_result \<times> 'n"
  nc_SelectOneHealthyInstance :: "'n \<Rightarrow> string \<Rightarrow> nacos_Instance go_result \<times> 'n"
  nc_SelectInstances :: "'n \<Rightarrow> string \<Rightarrow> bool \<Rightarrow> nacos_Instance list go_result \<times> 'n"
  nc_Subscribe :: "'n \<Rightarrow> string \<Rightarrow> go_error option \<times> 'n"
  nc_GetAllServicesInfo :: "'n \<Rightarrow> nat \<Rightarrow> nat \<Rightarrow> string list go_result \<times> 'n"

definition instance_addr :: "nacos_Instance \<Rightarrow> addr" where
  "instance_addr i = ni_Ip i @ '':'' @ itoa (uint (ni_Port i))"

definition RegisterService ::
    "'n naming_client \<Rightarrow> 'n \<Rightarrow> string \<Rightarrow> string \<Rightarrow> 64 word \<Rightarrow> metadata \<Rightarrow> go_error option \<times> 'n" where
  "RegisterService nc n serviceName ip port md =
     (case nc_RegisterInstance nc n
             \<lparr>rip_Ip = ip, rip_Port = port, rip_ServiceName = serviceName, rip_Weight = 10, rip_Enable = True,
              rip_Healthy = True, rip_Ephemeral = True, rip_Metadata = md\<rparr> of
        (Inl err, n) \<Rightarrow> (Some (''failed to register service: '' @ err), n)
      | (Inr success, n) \<Rightarrow> (if success then None else Some ''register service returned false'', n))"

definition DeregisterService ::
    "'n naming_client \<Rightarrow> 'n \<Rightarrow> string \<Rightarrow> string \<Rightarrow> 64 word \<Rightarrow> go_error option \<times> 'n" where
  "DeregisterService nc n serviceName ip port =
     (case nc_DeregisterInstance nc n \<lparr>dip_Ip = ip, dip_Port = port, dip_ServiceName = serviceName\<rparr> of
        (Inl err, n) \<Rightarrow> (Some (''failed to deregister service: '' @ err), n)
      | (Inr success, n) \<Rightarrow> (if success then None else Some ''deregister service returned false'', n))"

definition GetService :: "'n naming_client \<Rightarrow> 'n \<Rightarrow> string \<Rightarrow> addr go_result \<times> 'n" where
  "GetService nc n serviceName =
     (case nc_SelectOneHealthyInstance nc n serviceName of
        (Inl err, n) \<Rightarrow> (Inl (''failed to get service instance: '' @ err), n)
      | (Inr inst, n) \<Rightarrow> (Inr (instance_addr inst), n))"

text \<open>The loop over the instances, in \<^verbatim>\<open>GetServices\<close> and in the callback of \<^verbatim>\<open>Subscribe\<close>.\<close>

fun usable_addrs :: "nacos_Instance list \<Rightarrow> addr list" where
  "usable_addrs [] = []"
| "usable_addrs (inst # insts) =
     (if ni_Enable inst \<and> ni_Healthy inst then instance_addr inst # usable_addrs insts
      else usable_addrs insts)"

definition GetServices :: "'n naming_client \<Rightarrow> 'n \<Rightarrow> string \<Rightarrow> addr list go_result \<times> 'n" where
  "GetServices nc n serviceName =
     (case nc_SelectInstances nc n serviceName True of
        (Inl err, n) \<Rightarrow> (Inl (''failed to get service instances: '' @ err), n)
      | (Inr insts, n) \<Rightarrow> (Inr (usable_addrs insts), n))"

definition Subscribe :: "'n naming_client \<Rightarrow> 'n \<Rightarrow> string \<Rightarrow> go_error option \<times> 'n" where
  "Subscribe nc n serviceName = nc_Subscribe nc n serviceName"

text \<open>What the wrapped callback hands on of a push: nothing when the push is an error.\<close>

definition SubscribeCallback :: "nacos_Instance list go_result \<Rightarrow> addr list option" where
  "SubscribeCallback push = (case push of Inl _ \<Rightarrow> None | Inr services \<Rightarrow> Some (usable_addrs services))"

definition GetAllServicesList :: "'n naming_client \<Rightarrow> 'n \<Rightarrow> string list go_result \<times> 'n" where
  "GetAllServicesList nc n =
     (case nc_GetAllServicesInfo nc n 1 100 of
        (Inl err, n) \<Rightarrow> (Inl (''failed to list services: '' @ err), n)
      | (Inr doms, n) \<Rightarrow> (Inr doms, n))"

definition nacos_Close :: "'n \<Rightarrow> go_error option \<times> 'n" where
  "nacos_Close n = (None, n)"

definition nacosRegistry :: "'n naming_client \<Rightarrow> 'n Registry" where
  "nacosRegistry nc =
     \<lparr>reg_RegisterService = RegisterService nc, reg_DeregisterService = DeregisterService nc,
      reg_GetService = GetService nc, reg_GetServices = GetServices nc, reg_Subscribe = Subscribe nc,
      reg_Close = nacos_Close\<rparr>"

text \<open>\<^verbatim>\<open>NewNacosClient\<close>: the port is an argument of \<^verbatim>\<open>strconv.Atoi\<close>, here \<open>atoi\<close>; \<open>mk\<close> makes the SDK's client for
  one server and a namespace.\<close>

definition NewNacosClient ::
    "(string \<Rightarrow> go_int go_result) \<Rightarrow> (string \<Rightarrow> 64 word \<Rightarrow> string \<Rightarrow> 'n go_result) \<Rightarrow> string \<Rightarrow> string \<Rightarrow> string
      \<Rightarrow> 'n go_result" where
  "NewNacosClient atoi mk host port namespaceID =
     (case atoi port of
        Inl err \<Rightarrow> Inl (''invalid port: '' @ err)
      | Inr portInt \<Rightarrow>
          (case mk host portInt namespaceID of
             Inl err \<Rightarrow> Inl (''failed to create nacos client: '' @ err)
           | Inr n \<Rightarrow> Inr n))"

lemma usable_addrs_filter: "usable_addrs insts = map instance_addr (filter (\<lambda>i. ni_Enable i \<and> ni_Healthy i) insts)"
  by (induction insts) auto

text \<open>Two instances with the same address are the same endpoint.\<close>

lemma instance_addr_inj:
  assumes "instance_addr i = instance_addr j"
  shows "ni_Ip i = ni_Ip j \<and> ni_Port i = ni_Port j"
proof -
  have "ni_Ip i @ CHR '':'' # itoa (uint (ni_Port i)) = ni_Ip j @ CHR '':'' # itoa (uint (ni_Port j))"
    using assms by (simp add: instance_addr_def)
  from sep_suffix_inj [OF this] show ?thesis by (simp add: word_uint_eq_iff)
qed

section \<open>Network helpers\<close>

text \<open>The address of the host: \<open>dial\<close> is the local address of a UDP connection to a public server, if the dial
  succeeds.\<close>

definition GetOutboundIP :: "string go_result \<Rightarrow> string" where
  "GetOutboundIP dial = (case dial of Inl _ \<Rightarrow> ''127.0.0.1'' | Inr ip \<Rightarrow> ip)"

text \<open>\<open>listen\<close> binds a TCP port and gives the listener with the port it got.\<close>

definition ListenWithFallback ::
    "('o \<Rightarrow> string \<Rightarrow> ('l \<times> nat) go_result \<times> 'o) \<Rightarrow> 'o \<Rightarrow> string \<Rightarrow> ('l \<times> nat) go_result \<times> 'o" where
  "ListenWithFallback listen n preferredPort =
     (case listen n ('':'' @ preferredPort) of
        (Inr (lis, port), n) \<Rightarrow> (Inr (lis, port), n)
      | (Inl _, n) \<Rightarrow>
          (case listen n '':0'' of
             (Inl err, n) \<Rightarrow>
               (Inl (''failed to listen on preferred port '' @ preferredPort @ '' and random port: '' @ err), n)
           | (Inr (lis, port), n) \<Rightarrow> (Inr (lis, port), n)))"

end
