(* ===== verification/Grpc_Client.thy ===== *)
theory Grpc_Client
  imports Discovery Proto
begin

text \<open>
  The base gRPC client, \<^verbatim>\<open>pkg/grpc_client/base/client.go\<close> and \<^verbatim>\<open>gateway.go\<close>: discovered addresses, one
  connection per address, random choice of an instance, the queue of its workers, and the fan-out of
  events to all gateways.  The network (registry, dials, random draws) is a parameter with a state of
  its own, \<open>'n\<close>.  Calls of one client are taken one after the other, as its locks and the singleflight
  group make them; the workers run concurrently in the theory \<open>Fanout\<close>.
\<close>

section \<open>The client\<close>

type_synonym conn = nat

record 'n network =
  net_registry :: "'n Registry"
  net_dial :: "'n \<Rightarrow> addr \<Rightarrow> conn go_result \<times> 'n"
  net_Intn :: "'n \<Rightarrow> nat \<Rightarrow> nat \<times> 'n"

text \<open>The requests of the gateway service; the event travels in an \<^verbatim>\<open>Any\<close>.\<close>

record BroadcastReq =
  brq_GameCode :: string
  brq_Event :: proto_message

record SendToUserReq =
  suq_UserId :: int64
  suq_GameCode :: string
  suq_Event :: proto_message

text \<open>The closures the client queues, by what they captured: the address, the request ID, the request.\<close>

datatype gateway_req = BroadcastCall BroadcastReq | SendToUserCall SendToUserReq
datatype gateway_task = GatewayTask (task_addr: addr) (task_reqID: string) (task_req: gateway_req)

record 'n BaseClient =
  net :: 'n
  conns :: "addr \<rightharpoonup> conn"
  serviceAddrs :: "string \<rightharpoonup> addr list"
  subscribed :: "string \<Rightarrow> bool"
  broadcastQueue :: "gateway_task list"
  ephemeral :: "gateway_task list"

definition NewBaseClient :: "'n \<Rightarrow> 'n BaseClient" where
  "NewBaseClient n =
     \<lparr>net = n, conns = Map.empty, serviceAddrs = Map.empty, subscribed = (\<lambda>_. False), broadcastQueue = [],
      ephemeral = []\<rparr>"

definition ensureSubscribed :: "'n network \<Rightarrow> string \<Rightarrow> 'n BaseClient \<Rightarrow> 'n BaseClient" where
  "ensureSubscribed N serviceName c =
     (if subscribed c serviceName then c
      else case reg_Subscribe (net_registry N) (net c) serviceName of
             (Some err, n) \<Rightarrow> c\<lparr>net := n\<rparr>
           | (None, n) \<Rightarrow> c\<lparr>net := n, subscribed := (subscribed c)(serviceName := True)\<rparr>)"

text \<open>The callback given to \<^verbatim>\<open>Subscribe\<close>, after its pause.\<close>

definition onServices :: "string \<Rightarrow> addr list \<Rightarrow> 'n BaseClient \<Rightarrow> 'n BaseClient" where
  "onServices serviceName services c = c\<lparr>serviceAddrs := (serviceAddrs c)(serviceName \<mapsto> services)\<rparr>"

text \<open>The cache is read before and inside the singleflight call: an empty list counts as missing.\<close>

definition cachedAddrs :: "string \<Rightarrow> 'n BaseClient \<Rightarrow> addr list option" where
  "cachedAddrs serviceName c =
     (case serviceAddrs c serviceName of
        Some addrs \<Rightarrow> if addrs \<noteq> [] then Some addrs else None
      | None \<Rightarrow> None)"

definition fetchAddrs :: "'n network \<Rightarrow> string \<Rightarrow> 'n BaseClient \<Rightarrow> addr list go_result \<times> 'n BaseClient" where
  "fetchAddrs N serviceName c =
     (case cachedAddrs serviceName c of
        Some cached \<Rightarrow> (Inr cached, c)
      | None \<Rightarrow>
          (let c = ensureSubscribed N serviceName c
           in case reg_GetServices (net_registry N) (net c) serviceName of
                (Inl err, n) \<Rightarrow> (Inl err, c\<lparr>net := n\<rparr>)
              | (Inr fetched, n) \<Rightarrow>
                  (Inr fetched, c\<lparr>net := n, serviceAddrs := (serviceAddrs c)(serviceName \<mapsto> fetched)\<rparr>)))"

definition GetServiceAddrs :: "'n network \<Rightarrow> string \<Rightarrow> 'n BaseClient \<Rightarrow> addr list go_result \<times> 'n BaseClient" where
  "GetServiceAddrs N serviceName c =
     (case cachedAddrs serviceName c of
        Some addrs \<Rightarrow> (Inr addrs, c)
      | None \<Rightarrow>
          (case fetchAddrs N serviceName c of
             (Inl err, c) \<Rightarrow> (Inl (''failed to discover service '' @ serviceName @ '': '' @ err), c)
           | (Inr addrs, c) \<Rightarrow> (Inr addrs, c)))"

definition getConnDirect :: "'n network \<Rightarrow> addr \<Rightarrow> 'n BaseClient \<Rightarrow> conn go_result \<times> 'n BaseClient" where
  "getConnDirect N a c =
     (case conns c a of
        Some conn \<Rightarrow> (Inr conn, c)
      | None \<Rightarrow>
          (case net_dial N (net c) a of
             (Inl err, n) \<Rightarrow> (Inl (''failed to dial addr '' @ a @ '': '' @ err), c\<lparr>net := n\<rparr>)
           | (Inr conn, n) \<Rightarrow> (Inr conn, c\<lparr>net := n, conns := (conns c)(a \<mapsto> conn)\<rparr>)))"

definition GetLBConn :: "'n network \<Rightarrow> string \<Rightarrow> 'n BaseClient \<Rightarrow> conn go_result \<times> 'n BaseClient" where
  "GetLBConn N serviceName c =
     (case GetServiceAddrs N serviceName c of
        (Inl err, c) \<Rightarrow> (Inl err, c)
      | (Inr addrs, c) \<Rightarrow>
          if addrs = [] then (Inl (''no instances found for service '' @ serviceName), c)
          else case net_Intn N (net c) (length addrs) of
                 (idx, n) \<Rightarrow> getConnDirect N (addrs ! idx) (c\<lparr>net := n\<rparr>))"

definition GetConn :: "'n network \<Rightarrow> string \<Rightarrow> 'n BaseClient \<Rightarrow> conn go_result \<times> 'n BaseClient" where
  "GetConn N serviceName c = GetLBConn N serviceName c"

text \<open>The metadata a call carries: the request ID of its context, if there is one.\<close>

definition withRequestID :: "string \<Rightarrow> (string \<times> string) list \<Rightarrow> (string \<times> string) list" where
  "withRequestID reqID md = (if reqID \<noteq> [] then md @ [(''request_id'', reqID)] else md)"

section \<open>Fan-out to the gateways\<close>

definition queueCap :: nat where
  "queueCap = 1024"

definition poolSize :: nat where
  "poolSize = 20"

definition SubmitTask :: "gateway_task \<Rightarrow> 'n BaseClient \<Rightarrow> 'n BaseClient" where
  "SubmitTask task c =
     (if length (broadcastQueue c) < queueCap
      then c\<lparr>broadcastQueue := broadcastQueue c @ [task]\<rparr>
      else c\<lparr>ephemeral := ephemeral c @ [task]\<rparr>)"

text \<open>\<^verbatim>\<open>Broadcast\<close> and \<^verbatim>\<open>SendToUser\<close> up to the loop that submits: the tasks it goes through.  \<open>marshal\<close> is the
  error of \<^verbatim>\<open>anypb.New\<close>, if any; errors are only logged.\<close>

definition client_Broadcast ::
    "'n network \<Rightarrow> (proto_message \<Rightarrow> go_error option) \<Rightarrow> string \<Rightarrow> string \<Rightarrow> proto_message
      \<Rightarrow> 'n BaseClient \<Rightarrow> gateway_task list \<times> 'n BaseClient" where
  "client_Broadcast N marshal reqID gameCode event c =
     (case GetServiceAddrs N ''gateway-service'' c of
        (Inl err, c) \<Rightarrow> ([], c)
      | (Inr addrs, c) \<Rightarrow>
          (case marshal event of
             Some err \<Rightarrow> ([], c)
           | None \<Rightarrow>
               (map (\<lambda>a. GatewayTask a reqID (BroadcastCall \<lparr>brq_GameCode = gameCode, brq_Event = event\<rparr>)) addrs,
                c)))"

definition client_SendToUser ::
    "'n network \<Rightarrow> (proto_message \<Rightarrow> go_error option) \<Rightarrow> string \<Rightarrow> int64 \<Rightarrow> string \<Rightarrow> proto_message
      \<Rightarrow> 'n BaseClient \<Rightarrow> gateway_task list \<times> 'n BaseClient" where
  "client_SendToUser N marshal reqID userID gameCode event c =
     (case GetServiceAddrs N ''gateway-service'' c of
        (Inl err, c) \<Rightarrow> ([], c)
      | (Inr addrs, c) \<Rightarrow>
          (case marshal event of
             Some err \<Rightarrow> ([], c)
           | None \<Rightarrow>
               (map (\<lambda>a. GatewayTask a reqID (SendToUserCall
                      \<lparr>suq_UserId = userID, suq_GameCode = gameCode, suq_Event = event\<rparr>)) addrs, c)))"

text \<open>A task as it runs: it connects, and calls the gateway with the metadata of its request ID.  The result
  is the call made, or the error of the dial, which is logged.\<close>

record gateway_call =
  gc_conn :: conn
  gc_md :: "(string \<times> string) list"
  gc_req :: gateway_req

fun runTask :: "'n network \<Rightarrow> gateway_task \<Rightarrow> 'n BaseClient \<Rightarrow> gateway_call go_result \<times> 'n BaseClient" where
  "runTask N (GatewayTask a reqID req) c =
     (case getConnDirect N a c of
        (Inl err, c) \<Rightarrow> (Inl err, c)
      | (Inr conn, c) \<Rightarrow> (Inr \<lparr>gc_conn = conn, gc_md = withRequestID reqID [], gc_req = req\<rparr>, c))"

text \<open>\<^verbatim>\<open>Close\<close> closes the connections one by one; \<open>closeConn\<close> is the library's.\<close>

definition client_Close :: "(conn \<Rightarrow> 'n \<Rightarrow> 'n) \<Rightarrow> addr list \<Rightarrow> 'n BaseClient \<Rightarrow> go_error option \<times> 'n BaseClient" where
  "client_Close closeConn order c = (None, c\<lparr>net := fold closeConn (List.map_filter (conns c) order) (net c)\<rparr>)"

section \<open>A small network\<close>

text \<open>A registry of two instances of every service that never changes, and dials that succeed.\<close>

definition toy_network :: "nat network" where
  "toy_network =
     \<lparr>net_registry = \<lparr>reg_RegisterService = \<lambda>n _ _ _ _. (None, n), reg_DeregisterService = \<lambda>n _ _ _. (None, n),
        reg_GetService = \<lambda>n _. (Inr ''10.0.0.1:9000'', n),
        reg_GetServices = \<lambda>n _. (Inr [''10.0.0.1:9000'', ''10.0.0.2:9000''], n),
        reg_Subscribe = \<lambda>n _. (None, n), reg_Close = \<lambda>n. (None, n)\<rparr>,
      net_dial = \<lambda>n a. (Inr n, Suc n), net_Intn = \<lambda>n k. (n mod k, n)\<rparr>"

end
