(* ===== verification/Fanout.thy ===== *)
theory Fanout
  imports Grpc_Client
begin

text \<open>
  The workers of the base client: callers of \<^verbatim>\<open>Broadcast\<close> and \<^verbatim>\<open>SendToUser\<close> that submit one task after the
  other, the twenty workers, the goroutines of a full queue, and the pushes of the registry, in any
  interleaving.  \<open>asked\<close> is a log of the tasks the calls went through and \<open>ran\<close> one of the tasks that
  ran, with the call each made; the program does not read them.
\<close>

section \<open>The system\<close>

record 'n fan_sys =
  cli :: "'n BaseClient"
  callers :: "gateway_task list list"
  busy :: "gateway_task list"
  asked :: "gateway_task list"
  ran :: "(gateway_task \<times> gateway_call go_result) list"

inductive fan_step :: "'n network \<Rightarrow> (proto_message \<Rightarrow> go_error option) \<Rightarrow> 'n fan_sys \<Rightarrow> 'n fan_sys \<Rightarrow> bool" for N marshal where
  broadcast:
    "client_Broadcast N marshal reqID gameCode event (cli s) = (ts, c) \<Longrightarrow>
     fan_step N marshal s (s\<lparr>cli := c, callers := callers s @ [ts], asked := asked s @ ts\<rparr>)"
| send:
    "client_SendToUser N marshal reqID userID gameCode event (cli s) = (ts, c) \<Longrightarrow>
     fan_step N marshal s (s\<lparr>cli := c, callers := callers s @ [ts], asked := asked s @ ts\<rparr>)"
| submit:
    "callers s = as @ (t # ts) # bs \<Longrightarrow>
     fan_step N marshal s (s\<lparr>cli := SubmitTask t (cli s), callers := as @ ts # bs\<rparr>)"
| take:
    "broadcastQueue (cli s) = t # q \<Longrightarrow> length (busy s) < poolSize \<Longrightarrow>
     fan_step N marshal s (s\<lparr>cli := (cli s)\<lparr>broadcastQueue := q\<rparr>, busy := busy s @ [t]\<rparr>)"
| run_worker:
    "t \<in> set (busy s) \<Longrightarrow> runTask N t (cli s) = (r, c) \<Longrightarrow>
     fan_step N marshal s (s\<lparr>cli := c, busy := remove1 t (busy s), ran := ran s @ [(t, r)]\<rparr>)"
| run_ephemeral:
    "t \<in> set (ephemeral (cli s)) \<Longrightarrow> runTask N t (cli s) = (r, c) \<Longrightarrow>
     fan_step N marshal s (s\<lparr>cli := c\<lparr>ephemeral := remove1 t (ephemeral c)\<rparr>, ran := ran s @ [(t, r)]\<rparr>)"
| push:
    "fan_step N marshal s (s\<lparr>cli := onServices serviceName services (cli s)\<rparr>)"

definition fan_init :: "'n fan_sys \<Rightarrow> bool" where
  "fan_init s \<longleftrightarrow> (\<exists>n. s = \<lparr>cli = NewBaseClient n, callers = [], busy = [], asked = [], ran = []\<rparr>)"

inductive fan_reach :: "'n network \<Rightarrow> (proto_message \<Rightarrow> go_error option) \<Rightarrow> 'n fan_sys \<Rightarrow> bool" for N marshal where
  start: "fan_init s \<Longrightarrow> fan_reach N marshal s"
| step: "fan_reach N marshal s \<Longrightarrow> fan_step N marshal s t \<Longrightarrow> fan_reach N marshal t"

text \<open>The tasks asked for and not yet run.\<close>

definition waiting :: "'n fan_sys \<Rightarrow> gateway_task multiset" where
  "waiting s = mset (concat (callers s)) + mset (broadcastQueue (cli s)) + mset (ephemeral (cli s)) + mset (busy s)"

text \<open>What a task that ran has done: the call of its closure, over the one connection of its address.\<close>

definition did :: "(addr \<rightharpoonup> conn) \<Rightarrow> gateway_task \<times> gateway_call go_result \<Rightarrow> bool" where
  "did cs x = (case x of
     (t, Inl err) \<Rightarrow> True
   | (t, Inr call) \<Rightarrow> gc_req call = task_req t \<and> gc_md call = withRequestID (task_reqID t) [] \<and>
       cs (task_addr t) = Some (gc_conn call))"

definition fan_inv :: "'n fan_sys \<Rightarrow> bool" where
  "fan_inv s \<longleftrightarrow> mset (asked s) = waiting s + mset (map fst (ran s)) \<and>
     length (broadcastQueue (cli s)) \<le> queueCap \<and> length (busy s) \<le> poolSize \<and>
     (\<forall>x \<in> set (ran s). did (conns (cli s)) x)"

section \<open>What the operations of the client touch\<close>

lemma ensureSubscribed_frame:
  "conns (ensureSubscribed N name c) = conns c \<and> broadcastQueue (ensureSubscribed N name c) = broadcastQueue c \<and>
   ephemeral (ensureSubscribed N name c) = ephemeral c"
  by (auto simp: ensureSubscribed_def split: go_splits)

lemma GetServiceAddrs_frame:
  assumes "GetServiceAddrs N name c = (r, c')"
  shows "conns c' = conns c \<and> broadcastQueue c' = broadcastQueue c \<and> ephemeral c' = ephemeral c"
  using assms ensureSubscribed_frame [of N name c]
  by (auto simp: GetServiceAddrs_def fetchAddrs_def Let_def split: go_splits)

lemma fanout_frame:
  "client_Broadcast N marshal reqID gameCode event c = (ts, c') \<Longrightarrow>
   conns c' = conns c \<and> broadcastQueue c' = broadcastQueue c \<and> ephemeral c' = ephemeral c"
  "client_SendToUser N marshal reqID userID gameCode event c = (ts, c') \<Longrightarrow>
   conns c' = conns c \<and> broadcastQueue c' = broadcastQueue c \<and> ephemeral c' = ephemeral c"
  using GetServiceAddrs_frame [of N "''gateway-service''" c]
  by (auto simp: client_Broadcast_def client_SendToUser_def split: go_splits)

lemma getConnDirect_spec:
  assumes "getConnDirect N a c = (r, c')"
  shows "broadcastQueue c' = broadcastQueue c \<and> ephemeral c' = ephemeral c \<and> serviceAddrs c' = serviceAddrs c \<and>
     conns c \<subseteq>\<^sub>m conns c' \<and> (case r of Inl _ \<Rightarrow> conns c' = conns c | Inr conn \<Rightarrow> conns c' a = Some conn)"
  using assms by (auto simp: getConnDirect_def map_le_def dom_def split: go_splits)

lemma runTask_spec:
  assumes "runTask N t c = (r, c')"
  shows "broadcastQueue c' = broadcastQueue c \<and> ephemeral c' = ephemeral c \<and> conns c \<subseteq>\<^sub>m conns c' \<and> did (conns c') (t, r)"
proof -
  obtain a reqID req where t: "t = GatewayTask a reqID req" by (cases t)
  obtain r1 c1 where g: "getConnDirect N a c = (r1, c1)" by fastforce
  from getConnDirect_spec [OF g] assms show ?thesis
    by (cases r1) (auto simp: t g did_def)
qed

lemma did_mono: "did cs x \<Longrightarrow> cs \<subseteq>\<^sub>m cs' \<Longrightarrow> did cs' x"
  by (auto simp: did_def map_le_def dom_def split: sum.splits prod.splits)

lemma SubmitTask_spec:
  "conns (SubmitTask t c) = conns c"
  "mset (broadcastQueue (SubmitTask t c)) + mset (ephemeral (SubmitTask t c)) =
     add_mset t (mset (broadcastQueue c) + mset (ephemeral c))"
  "length (broadcastQueue c) \<le> queueCap \<Longrightarrow> length (broadcastQueue (SubmitTask t c)) \<le> queueCap"
  by (auto simp: SubmitTask_def)

section \<open>The invariant\<close>

lemma fan_inv_step:
  assumes "fan_step N marshal s s'" "fan_inv s"
  shows "fan_inv s'"
  using assms
proof cases
  case (broadcast reqID gameCode event ts c)
  then show ?thesis using assms(2) fanout_frame(1) [OF broadcast(2)] by (auto simp: fan_inv_def waiting_def)
next
  case (send reqID userID gameCode event ts c)
  then show ?thesis using assms(2) fanout_frame(2) [OF send(2)] by (auto simp: fan_inv_def waiting_def)
next
  case (submit as t ts bs)
  then show ?thesis using assms(2) SubmitTask_spec [where t = t and c = "cli s"]
    by (auto simp: fan_inv_def waiting_def ac_simps)
next
  case (take t q)
  then show ?thesis using assms(2) by (auto simp: fan_inv_def waiting_def)
next
  case (run_worker t r c)
  note sp = runTask_spec [OF run_worker(3)]
  have "length (remove1 t (busy s)) \<le> poolSize" using assms(2) by (auto simp: fan_inv_def length_remove1)
  moreover have "did (conns c) x" if "x \<in> set (ran s)" for x
    using that assms(2) sp did_mono unfolding fan_inv_def by blast
  ultimately show ?thesis using assms(2) sp run_worker(1,2)
    by (auto simp: fan_inv_def waiting_def)
next
  case (run_ephemeral t r c)
  note sp = runTask_spec [OF run_ephemeral(3)]
  have "did (conns c) x" if "x \<in> set (ran s)" for x
    using that assms(2) sp did_mono unfolding fan_inv_def by blast
  then show ?thesis using assms(2) sp run_ephemeral(1,2)
    by (auto simp: fan_inv_def waiting_def)
next
  case (push serviceName services)
  then show ?thesis using assms(2) by (auto simp: fan_inv_def waiting_def onServices_def)
qed

lemma fan_reach_inv: "fan_reach N marshal s \<Longrightarrow> fan_inv s"
proof (induction rule: fan_reach.induct)
  case (start s)
  then show ?case by (auto simp: fan_init_def fan_inv_def waiting_def NewBaseClient_def)
next
  case (step s t)
  then show ?case using fan_inv_step by blast
qed

section \<open>Completion\<close>

definition weight :: "'n fan_sys \<Rightarrow> nat" where
  "weight s = 3 * length (concat (callers s)) + 2 * length (broadcastQueue (cli s)) +
     2 * length (ephemeral (cli s)) + length (busy s)"

lemma waiting_step:
  assumes "waiting s \<noteq> {#}"
  shows "\<exists>s'. fan_step N marshal s s' \<and> asked s' = asked s \<and> weight s' < weight s"
proof -
  consider (worker) t where "t \<in> set (busy s)" | (goroutine) t where "t \<in> set (ephemeral (cli s))"
    | (queued) t q where "busy s = []" "broadcastQueue (cli s) = t # q"
    | (caller) ts where "ts \<in> set (callers s)" "ts \<noteq> []"
    using assms by (cases "busy s"; cases "broadcastQueue (cli s)"; cases "ephemeral (cli s)") (auto simp: waiting_def)
  then show ?thesis
  proof cases
    case worker
    obtain r c where r: "runTask N t (cli s) = (r, c)" by fastforce
    have len: "length (remove1 t (busy s)) < length (busy s)"
      using worker by (auto simp: length_remove1 intro: diff_less length_pos_if_in_set)
    show ?thesis
      by (intro exI conjI, rule run_worker [OF worker r])
        (use len runTask_spec [OF r] in \<open>simp_all add: weight_def\<close>)
  next
    case goroutine
    obtain r c where r: "runTask N t (cli s) = (r, c)" by fastforce
    have len: "length (remove1 t (ephemeral (cli s))) < length (ephemeral (cli s))"
      using goroutine by (auto simp: length_remove1 intro: diff_less length_pos_if_in_set)
    show ?thesis
      by (intro exI conjI, rule run_ephemeral [OF goroutine r])
        (use len runTask_spec [OF r] in \<open>simp_all add: weight_def\<close>)
  next
    case queued
    then have room: "length (busy s) < poolSize" by (simp add: poolSize_def)
    show ?thesis
      by (intro exI conjI, rule fan_step.take [OF queued(2) room]) (simp_all add: weight_def queued)
  next
    case caller
    then obtain as bs t ts' where c: "callers s = as @ (t # ts') # bs"
      by (metis split_list list.exhaust)
    show ?thesis
      by (intro exI conjI, rule submit [OF c]) (simp_all add: weight_def c SubmitTask_def)
  qed
qed

lemma completes: "\<exists>s'. (fan_step N marshal)\<^sup>*\<^sup>* s s' \<and> asked s' = asked s \<and> waiting s' = {#}"
proof (induction s rule: measure_induct_rule [of weight])
  case (less s)
  show ?case
  proof (cases "waiting s = {#}")
    case True
    then show ?thesis by blast
  next
    case False
    from waiting_step [OF this, of N marshal] obtain s1
      where s1: "fan_step N marshal s s1" "asked s1 = asked s" "weight s1 < weight s" by blast
    from less [OF s1(3)] obtain s' where s': "(fan_step N marshal)\<^sup>*\<^sup>* s1 s'" "asked s' = asked s1" "waiting s' = {#}"
      by blast
    from s1(1) s'(1) have "(fan_step N marshal)\<^sup>*\<^sup>* s s'" by (rule converse_rtranclp_into_rtranclp)
    with s1(2) s'(2,3) show ?thesis by auto
  qed
qed

lemma fan_reach_steps: "(fan_step N marshal)\<^sup>*\<^sup>* s s' \<Longrightarrow> fan_reach N marshal s \<Longrightarrow> fan_reach N marshal s'"
  by (induction rule: rtranclp_induct) (auto intro: fan_reach.step)

section \<open>Properties\<close>

text \<open>C28. No event to the gateways is lost or sent twice by the client.  In every interleaving of callers,
  workers, goroutines and registry pushes, each task of each \<^verbatim>\<open>Broadcast\<close> and \<^verbatim>\<open>SendToUser\<close> is at one place:
  in the loop of its caller, in the queue of at most 1024, with one of at most twenty workers, with a
  goroutine of its own, or done; a task that is done has made its call exactly once, with the request ID
  of its caller, over the one connection of its address, or has logged that the dial failed.\<close>

theorem fanout_exactly_once:
  assumes "fan_reach N marshal s"
  shows "mset (asked s) = mset (concat (callers s)) + mset (broadcastQueue (cli s)) + mset (ephemeral (cli s)) +
       mset (busy s) + mset (map fst (ran s)) \<and>
     length (broadcastQueue (cli s)) \<le> 1024 \<and> length (busy s) \<le> 20 \<and>
     (\<forall>(t, r) \<in> set (ran s). \<forall>call. r = Inr call \<longrightarrow>
        gc_req call = task_req t \<and> gc_md call = withRequestID (task_reqID t) [] \<and>
        conns (cli s) (task_addr t) = Some (gc_conn call))"
  using fan_reach_inv [OF assms] unfolding fan_inv_def waiting_def did_def queueCap_def poolSize_def
  by (auto split: sum.splits)

text \<open>C29. A broadcast gets through: once a client that knows the gateways has begun one, there is a continuation
  in which, with no further call, every known gateway has been called once with the event (or its dial has
  failed), and so has every other task that was open.\<close>

theorem broadcast_reaches_every_gateway:
  assumes "fan_reach N marshal s" "cachedAddrs ''gateway-service'' (cli s) = Some addrs" "marshal event = None"
  shows "\<exists>s'. (fan_step N marshal)\<^sup>*\<^sup>* s s' \<and> waiting s' = {#} \<and>
     mset (map fst (ran s')) = mset (asked s) +
       image_mset (\<lambda>a. GatewayTask a reqID (BroadcastCall \<lparr>brq_GameCode = gameCode, brq_Event = event\<rparr>)) (mset addrs) \<and>
     (\<forall>x \<in> set (ran s'). did (conns (cli s')) x)"
proof -
  let ?ts = "map (\<lambda>a. GatewayTask a reqID (BroadcastCall \<lparr>brq_GameCode = gameCode, brq_Event = event\<rparr>)) addrs"
  let ?s1 = "s\<lparr>cli := cli s, callers := callers s @ [?ts], asked := asked s @ ?ts\<rparr>"
  have b: "client_Broadcast N marshal reqID gameCode event (cli s) = (?ts, cli s)"
    using assms(2,3) by (simp add: client_Broadcast_def GetServiceAddrs_def)
  from completes [of N marshal ?s1] obtain s' where
    s': "(fan_step N marshal)\<^sup>*\<^sup>* ?s1 s'" "asked s' = asked s @ ?ts" "waiting s' = {#}" by auto
  have run: "(fan_step N marshal)\<^sup>*\<^sup>* s s'"
    by (rule converse_rtranclp_into_rtranclp [OF fan_step.broadcast [OF b] s'(1)])
  with fan_reach_inv [OF fan_reach_steps [OF run assms(1)]] s'(2,3) show ?thesis
    by (intro exI [of _ s']) (auto simp: fan_inv_def)
qed

text \<open>A client of the toy network that has begun a broadcast.\<close>

definition toy_fan :: "nat fan_sys" where
  "toy_fan =
     (let (ts, c) = client_Broadcast toy_network (\<lambda>_. None) ''r-1'' ''color_game'' (OtherMsg ''x'') (NewBaseClient 0)
      in \<lparr>cli = c, callers = [ts], busy = [], asked = ts, ran = []\<rparr>)"

lemma toy_fan_reach: "fan_reach toy_network (\<lambda>_. None) toy_fan"
proof -
  let ?s = "\<lparr>cli = NewBaseClient (0 :: nat), callers = [], busy = [], asked = [], ran = []\<rparr>"
  obtain ts c where b: "client_Broadcast toy_network (\<lambda>_. None) ''r-1'' ''color_game'' (OtherMsg ''x'') (NewBaseClient 0)
      = (ts, c)" by fastforce
  have "fan_step toy_network (\<lambda>_. None) ?s (?s\<lparr>cli := c, callers := callers ?s @ [ts], asked := asked ?s @ ts\<rparr>)"
    using b by (intro fan_step.broadcast) simp
  moreover have "fan_reach toy_network (\<lambda>_. None) ?s" by (rule fan_reach.start) (auto simp: fan_init_def)
  ultimately show ?thesis by (simp add: toy_fan_def b fan_reach.step)
qed

lemma toy_fan_addrs: "cachedAddrs ''gateway-service'' (cli toy_fan) = Some [''10.0.0.1:9000'', ''10.0.0.2:9000'']"
  by (simp add: toy_fan_def toy_network_def client_Broadcast_def GetServiceAddrs_def fetchAddrs_def cachedAddrs_def
      ensureSubscribed_def NewBaseClient_def Let_def)

theorem fanout_exactly_once_witness:
  "mset (asked toy_fan) = mset (concat (callers toy_fan)) \<and> length (asked toy_fan) = 2"
proof -
  have "mset (asked toy_fan) = mset (concat (callers toy_fan)) + mset (broadcastQueue (cli toy_fan)) +
      mset (ephemeral (cli toy_fan)) + mset (busy toy_fan) + mset (map fst (ran toy_fan))"
    using fanout_exactly_once [OF toy_fan_reach] by blast
  then show ?thesis
    by (simp add: toy_fan_def toy_network_def client_Broadcast_def GetServiceAddrs_def fetchAddrs_def cachedAddrs_def
        ensureSubscribed_def NewBaseClient_def Let_def)
qed

theorem broadcast_reaches_every_gateway_witness:
  "\<exists>s'. (fan_step toy_network (\<lambda>_. None))\<^sup>*\<^sup>* toy_fan s' \<and> waiting s' = {#} \<and> length (ran s') = 4"
proof -
  from broadcast_reaches_every_gateway [OF toy_fan_reach toy_fan_addrs,
      where event = "OtherMsg ''y''" and reqID = "''r-2''" and gameCode = "''color_game''"]
  obtain s' where s': "(fan_step toy_network (\<lambda>_. None))\<^sup>*\<^sup>* toy_fan s'" "waiting s' = {#}"
    and ran: "mset (map fst (ran s')) = mset (asked toy_fan) + image_mset (\<lambda>a. GatewayTask a ''r-2'' (BroadcastCall
      \<lparr>brq_GameCode = ''color_game'', brq_Event = OtherMsg ''y''\<rparr>)) (mset [''10.0.0.1:9000'', ''10.0.0.2:9000''])"
    by blast
  have "length (asked toy_fan) = 2"
    by (simp add: toy_fan_def toy_network_def client_Broadcast_def GetServiceAddrs_def fetchAddrs_def cachedAddrs_def
        ensureSubscribed_def NewBaseClient_def Let_def)
  with s' arg_cong [OF ran, of size] show ?thesis by auto
qed

end
