(* ===== verification/Grpc_Services.thy ===== *)
theory Grpc_Services
  imports Grpc_Client Wallet Gateway Gms_UseCase
begin

text \<open>
  The services behind the base client: the wallet (\<^verbatim>\<open>pkg/grpc_client/base/wallet.go\<close>) and the game
  (\<^verbatim>\<open>pkg/grpc_client/color_game/client.go\<close>).  The remote servers are parameters: a record of calls
  over a connection, which can fail in transport, with a state of their own.
\<close>

section \<open>The world of a client\<close>

record ('n, 'v) rpc_world =
  rw_client :: "'n BaseClient"
  rw_server :: 'v
  rw_clock :: "nat \<Rightarrow> go_time"
  rw_reads :: nat

type_synonym rpc_md = "(string \<times> string) list"

text \<open>\<^verbatim>\<open>time.Now().UnixNano()\<close>\<close>

definition nowNano :: "('n, 'v) rpc_world \<Rightarrow> int64 \<times> ('n, 'v) rpc_world" where
  "nowNano w = (word_of_int (rw_clock w (rw_reads w)), w\<lparr>rw_reads := Suc (rw_reads w)\<rparr>)"

definition connect :: "'n network \<Rightarrow> string \<Rightarrow> ('n, 'v) rpc_world \<Rightarrow> conn go_result \<times> ('n, 'v) rpc_world" where
  "connect N serviceName w = (case GetLBConn N serviceName (rw_client w) of (r, c) \<Rightarrow> (r, w\<lparr>rw_client := c\<rparr>))"

definition call :: "('v \<Rightarrow> 'b go_result \<times> 'v) \<Rightarrow> ('n, 'v) rpc_world \<Rightarrow> 'b go_result \<times> ('n, 'v) rpc_world" where
  "call f w = (case f (rw_server w) of (r, v) \<Rightarrow> (r, w\<lparr>rw_server := v\<rparr>))"

lemma connect_server [simp]: "connect N serviceName w = (r, w') \<Longrightarrow> rw_server w' = rw_server w"
  by (auto simp: connect_def split: prod.splits)

section \<open>The wallet\<close>

record wallet_BalanceRsp =
  wbr_Balance :: int64
  wbr_Success :: bool
  wbr_Message :: string

record wallet_MoveReq =
  wmq_PlayerId :: int64
  wmq_Amount :: int64
  wmq_TxId :: string
  wmq_Metadata :: string

record wallet_PlaceBetReq =
  wpq_PlayerId :: int64
  wpq_Amount :: int64
  wpq_GameRoundId :: string
  wpq_TxId :: string

record wallet_MoveRsp =
  wmr_NewBalance :: int64
  wmr_Success :: bool
  wmr_Message :: string

record 'v wallet_stub =
  wst_GetBalance :: "conn \<Rightarrow> rpc_md \<Rightarrow> int64 \<Rightarrow> 'v \<Rightarrow> wallet_BalanceRsp go_result \<times> 'v"
  wst_Withdraw :: "conn \<Rightarrow> rpc_md \<Rightarrow> wallet_MoveReq \<Rightarrow> 'v \<Rightarrow> wallet_MoveRsp go_result \<times> 'v"
  wst_Deposit :: "conn \<Rightarrow> rpc_md \<Rightarrow> wallet_MoveReq \<Rightarrow> 'v \<Rightarrow> wallet_MoveRsp go_result \<times> 'v"
  wst_PlaceBet :: "conn \<Rightarrow> rpc_md \<Rightarrow> wallet_PlaceBetReq \<Rightarrow> 'v \<Rightarrow> wallet_MoveRsp go_result \<times> 'v"

definition getWalletClient :: "'n network \<Rightarrow> ('n, 'v) rpc_world \<Rightarrow> conn go_result \<times> ('n, 'v) rpc_world" where
  "getWalletClient N w = connect N ''wallet-service'' w"

definition client_GetBalance ::
    "'n network \<Rightarrow> 'v wallet_stub \<Rightarrow> string \<Rightarrow> int64 \<Rightarrow> ('n, 'v) rpc_world \<Rightarrow> int64 go_result \<times> ('n, 'v) rpc_world" where
  "client_GetBalance N S reqID userID w =
     (case getWalletClient N w of
        (Inl err, w) \<Rightarrow> (Inl err, w)
      | (Inr conn, w) \<Rightarrow>
          (case call (wst_GetBalance S conn (withRequestID reqID []) userID) w of
             (Inl err, w) \<Rightarrow> (Inl (''rpc GetBalance failed: '' @ err), w)
           | (Inr rsp, w) \<Rightarrow>
               if \<not> wbr_Success rsp then (Inl (''wallet error: '' @ wbr_Message rsp), w)
               else (Inr (wbr_Balance rsp), w)))"

text \<open>The answers of the three calls that move money are read alike.\<close>

definition move_result :: "string \<Rightarrow> wallet_MoveRsp go_result \<Rightarrow> int64 go_result" where
  "move_result rpc r =
     (case r of
        Inl err \<Rightarrow> Inl (''rpc '' @ rpc @ '' failed: '' @ err)
      | Inr rsp \<Rightarrow>
          if \<not> wmr_Success rsp then Inl (''wallet error: '' @ wmr_Message rsp) else Inr (wmr_NewBalance rsp))"

definition reason_json :: "string \<Rightarrow> string" where
  "reason_json reason = [CHR ''{'', CHR 0x22] @ ''reason'' @ [CHR 0x22] @ '': '' @ [CHR 0x22] @ reason @ [CHR 0x22, CHR ''}'']"

definition client_DeductBalance ::
    "'n network \<Rightarrow> 'v wallet_stub \<Rightarrow> string \<Rightarrow> int64 \<Rightarrow> int64 \<Rightarrow> string \<Rightarrow> ('n, 'v) rpc_world
      \<Rightarrow> int64 go_result \<times> ('n, 'v) rpc_world" where
  "client_DeductBalance N S reqID userID amount reason w =
     (case getWalletClient N w of
        (Inl err, w) \<Rightarrow> (Inl err, w)
      | (Inr conn, w) \<Rightarrow>
          (let (nano, w) = nowNano w;
               (r, w) = call (wst_Withdraw S conn (withRequestID reqID [])
                  \<lparr>wmq_PlayerId = userID, wmq_Amount = amount,
                   wmq_TxId = ''deduct-'' @ itoa (sint userID) @ ''-'' @ itoa (sint nano),
                   wmq_Metadata = reason_json reason\<rparr>) w
           in (move_result ''Withdraw'' r, w)))"

definition client_AddBalance ::
    "'n network \<Rightarrow> 'v wallet_stub \<Rightarrow> string \<Rightarrow> int64 \<Rightarrow> int64 \<Rightarrow> string \<Rightarrow> ('n, 'v) rpc_world
      \<Rightarrow> int64 go_result \<times> ('n, 'v) rpc_world" where
  "client_AddBalance N S reqID userID amount reason w =
     (case getWalletClient N w of
        (Inl err, w) \<Rightarrow> (Inl err, w)
      | (Inr conn, w) \<Rightarrow>
          (let (nano, w) = nowNano w;
               (r, w) = call (wst_Deposit S conn (withRequestID reqID [])
                  \<lparr>wmq_PlayerId = userID, wmq_Amount = amount,
                   wmq_TxId = ''add-'' @ itoa (sint userID) @ ''-'' @ itoa (sint nano),
                   wmq_Metadata = reason_json reason\<rparr>) w
           in (move_result ''Deposit'' r, w)))"

definition bet_TxId :: "int64 \<Rightarrow> string \<Rightarrow> string" where
  "bet_TxId userID roundID = ''bet-'' @ itoa (sint userID) @ ''-'' @ roundID"

definition client_PlaceBet ::
    "'n network \<Rightarrow> 'v wallet_stub \<Rightarrow> string \<Rightarrow> int64 \<Rightarrow> int64 \<Rightarrow> string \<Rightarrow> ('n, 'v) rpc_world
      \<Rightarrow> int64 go_result \<times> ('n, 'v) rpc_world" where
  "client_PlaceBet N S reqID userID amount roundID w =
     (case getWalletClient N w of
        (Inl err, w) \<Rightarrow> (Inl err, w)
      | (Inr conn, w) \<Rightarrow>
          (let (r, w) = call (wst_PlaceBet S conn (withRequestID reqID [])
                  \<lparr>wpq_PlayerId = userID, wpq_Amount = amount, wpq_GameRoundId = roundID,
                   wpq_TxId = bet_TxId userID roundID\<rparr>) w
           in (move_result ''PlaceBet'' r, w)))"

section \<open>The game\<close>

record 'v game_stub =
  gst_RecordBet :: "conn \<Rightarrow> ColorGameRecordBetReq \<Rightarrow> 'v \<Rightarrow> ColorGameRecordBetRsp go_result \<times> 'v"
  gst_GetCurrentRound :: "conn \<Rightarrow> ColorGameGetCurrentRoundReq \<Rightarrow> 'v \<Rightarrow> ColorGameGetCurrentRoundRsp go_result \<times> 'v"
  gst_PlaceBet :: "conn \<Rightarrow> ColorGamePlaceBetReq \<Rightarrow> 'v \<Rightarrow> ColorGamePlaceBetRsp go_result \<times> 'v"
  gst_GetState :: "conn \<Rightarrow> ColorGameGetStateReq \<Rightarrow> 'v \<Rightarrow> ColorGameGetStateRsp go_result \<times> 'v"
  gst_RoundResult :: "conn \<Rightarrow> ColorGameRoundResultReq \<Rightarrow> 'v \<Rightarrow> ColorGameRoundResultRsp go_result \<times> 'v"

definition client_RecordBet ::
    "'n network \<Rightarrow> 'v game_stub \<Rightarrow> ('n, 'v) rpc_world \<Rightarrow> ColorGameRecordBetReq
      \<Rightarrow> ColorGameRecordBetRsp go_result \<times> ('n, 'v) rpc_world" where
  "client_RecordBet N S w req =
     (case connect N ''gms-service'' w of
        (Inl err, w) \<Rightarrow> (Inl err, w)
      | (Inr conn, w) \<Rightarrow> call (gst_RecordBet S conn req) w)"

definition client_GetCurrentRound ::
    "'n network \<Rightarrow> 'v game_stub \<Rightarrow> ('n, 'v) rpc_world \<Rightarrow> ColorGameGetCurrentRoundReq
      \<Rightarrow> ColorGameGetCurrentRoundRsp go_result \<times> ('n, 'v) rpc_world" where
  "client_GetCurrentRound N S w req =
     (case connect N ''gms-service'' w of
        (Inl err, w) \<Rightarrow> (Inl err, w)
      | (Inr conn, w) \<Rightarrow> call (gst_GetCurrentRound S conn req) w)"

definition client_gs_PlaceBet ::
    "'n network \<Rightarrow> 'v game_stub \<Rightarrow> ('n, 'v) rpc_world \<Rightarrow> ColorGamePlaceBetReq
      \<Rightarrow> ColorGamePlaceBetRsp go_result \<times> ('n, 'v) rpc_world" where
  "client_gs_PlaceBet N S w req =
     (case connect N ''gs-service'' w of
        (Inl err, w) \<Rightarrow> (Inl err, w)
      | (Inr conn, w) \<Rightarrow> call (gst_PlaceBet S conn req) w)"

definition client_GetState ::
    "'n network \<Rightarrow> 'v game_stub \<Rightarrow> ('n, 'v) rpc_world \<Rightarrow> ColorGameGetStateReq
      \<Rightarrow> ColorGameGetStateRsp go_result \<times> ('n, 'v) rpc_world" where
  "client_GetState N S w req =
     (case connect N ''gs-service'' w of
        (Inl err, w) \<Rightarrow> (Inl err, w)
      | (Inr conn, w) \<Rightarrow> call (gst_GetState S conn req) w)"

definition client_RoundResult ::
    "'n network \<Rightarrow> 'v game_stub \<Rightarrow> ('n, 'v) rpc_world \<Rightarrow> ColorGameRoundResultReq
      \<Rightarrow> ColorGameRoundResultRsp go_result \<times> ('n, 'v) rpc_world" where
  "client_RoundResult N S w req =
     (case connect N ''gs-service'' w of
        (Inl err, w) \<Rightarrow> (Inl err, w)
      | (Inr conn, w) \<Rightarrow> call (gst_RoundResult S conn req) w)"

text \<open>The client as the services it implements.\<close>

definition clientGms :: "'n network \<Rightarrow> 'v game_stub \<Rightarrow> ('n, 'v) rpc_world GMSService" where
  "clientGms N S = \<lparr>svc_RecordBet = client_RecordBet N S, svc_GetCurrentRound = client_GetCurrentRound N S\<rparr>"

definition clientGs :: "'n network \<Rightarrow> 'v game_stub \<Rightarrow> ('n, 'v) rpc_world ColorGameGSService" where
  "clientGs N S = \<lparr>gsv_PlaceBet = client_gs_PlaceBet N S, gsv_GetState = client_GetState N S\<rparr>"

section \<open>The transaction ID of a bet\<close>

text \<open>What \<^verbatim>\<open>wallet.proto\<close> says of \<^verbatim>\<open>tx_id\<close>, that it is for idempotency: a bet under an ID that is booked changes
  nothing and is answered as the first time, or the call fails.\<close>

definition idempotent_bets :: "'v wallet_stub \<Rightarrow> ('v \<Rightarrow> string \<rightharpoonup> wallet_MoveRsp) \<Rightarrow> bool" where
  "idempotent_bets S booked \<longleftrightarrow> (\<forall>conn md req v r v'. wst_PlaceBet S conn md req v = (r, v') \<longrightarrow>
     (case booked v (wpq_TxId req) of
        Some rsp \<Rightarrow> v' = v \<and> (r = Inr rsp \<or> (\<exists>err. r = Inl err))
      | None \<Rightarrow> (\<forall>rsp. r = Inr rsp \<longrightarrow> wmr_Success rsp \<longrightarrow> booked v' (wpq_TxId req) = Some rsp)))"

lemma client_PlaceBet_cases:
  assumes "client_PlaceBet N S reqID u a r w = (res, w')"
  obtains (no_conn) err where "res = Inl err" "rw_server w' = rw_server w"
  | (called) conn x where
      "wst_PlaceBet S conn (withRequestID reqID [])
         \<lparr>wpq_PlayerId = u, wpq_Amount = a, wpq_GameRoundId = r, wpq_TxId = bet_TxId u r\<rparr> (rw_server w)
       = (x, rw_server w')" "res = move_result ''PlaceBet'' x"
  using assms
  by (auto simp: client_PlaceBet_def getWalletClient_def call_def Let_def split: sum.splits prod.splits)

lemma move_result_Inr: "move_result rpc x = Inr b \<longleftrightarrow> (\<exists>rsp. x = Inr rsp \<and> wmr_Success rsp \<and> wmr_NewBalance rsp = b)"
  by (auto simp: move_result_def split: sum.splits)

text \<open>C30. The transaction ID of a bet does not tell two bets of a player in one round apart: when the wallet server
  treats it as its proto says and a bet has been charged, every further bet of that player in that round, of
  whatever amount, leaves the wallet as it is; it is reported as charged, with the balance of the first,
  unless the call fails.\<close>

theorem second_bet_is_free:
  assumes "idempotent_bets S booked"
    and "client_PlaceBet N S reqID u a r w = (Inr b, w1)"
    and "rw_server w2 = rw_server w1" "client_PlaceBet N S reqID' u a' r w2 = (res, w3)"
  shows "rw_server w3 = rw_server w1 \<and> (res = Inr b \<or> (\<exists>err. res = Inl err))"
proof -
  from assms(2) obtain conn x where
    x: "wst_PlaceBet S conn (withRequestID reqID [])
         \<lparr>wpq_PlayerId = u, wpq_Amount = a, wpq_GameRoundId = r, wpq_TxId = bet_TxId u r\<rparr> (rw_server w)
       = (x, rw_server w1)" "move_result ''PlaceBet'' x = Inr b"
    by (cases rule: client_PlaceBet_cases) auto
  from x(2) obtain rsp where rsp: "x = Inr rsp" "wmr_Success rsp" "wmr_NewBalance rsp = b"
    by (auto simp: move_result_Inr)
  have booked: "booked (rw_server w1) (bet_TxId u r) = Some rsp"
    using assms(1) x(1) rsp unfolding idempotent_bets_def by (fastforce split: option.splits)
  from assms(4) show ?thesis
  proof (cases rule: client_PlaceBet_cases)
    case no_conn
    then show ?thesis using assms(3) by simp
  next
    case (called conn' y)
    then have "rw_server w3 = rw_server w1 \<and> (y = Inr rsp \<or> (\<exists>err. y = Inl err))"
      using assms(1,3) booked unfolding idempotent_bets_def by (fastforce split: option.splits)
    then show ?thesis using called(2) rsp by (auto simp: move_result_def)
  qed
qed

text \<open>A wallet server that books every bet under its ID, with accounts that start at 1000.\<close>

type_synonym toy_bank = "(string \<times> wallet_MoveRsp) list \<times> (int64 \<Rightarrow> int64)"

definition toy_bank_bet :: "conn \<Rightarrow> rpc_md \<Rightarrow> wallet_PlaceBetReq \<Rightarrow> toy_bank \<Rightarrow> wallet_MoveRsp go_result \<times> toy_bank" where
  "toy_bank_bet conn md req v =
     (case v of (book, bal) \<Rightarrow>
        (case map_of book (wpq_TxId req) of
           Some rsp \<Rightarrow> (Inr rsp, v)
         | None \<Rightarrow>
             (let b = bal (wpq_PlayerId req) - wpq_Amount req;
                  rsp = \<lparr>wmr_NewBalance = b, wmr_Success = True, wmr_Message = []\<rparr>
              in (Inr rsp, (wpq_TxId req, rsp) # book, bal(wpq_PlayerId req := b)))))"

definition toy_bank_stub :: "toy_bank wallet_stub" where
  "toy_bank_stub =
     \<lparr>wst_GetBalance = \<lambda>conn md u v. (Inr \<lparr>wbr_Balance = snd v u, wbr_Success = True, wbr_Message = []\<rparr>, v),
      wst_Withdraw = \<lambda>conn md req v. (Inl ''unimplemented'', v),
      wst_Deposit = \<lambda>conn md req v. (Inl ''unimplemented'', v), wst_PlaceBet = toy_bank_bet\<rparr>"

definition toy_rpc :: "(nat, toy_bank) rpc_world" where
  "toy_rpc = \<lparr>rw_client = NewBaseClient 0, rw_server = ([], \<lambda>_. 1000), rw_clock = \<lambda>_. 0, rw_reads = 0\<rparr>"

lemmas toy_rpc_defs = toy_rpc_def toy_bank_stub_def toy_bank_bet_def toy_network_def client_PlaceBet_def
  getWalletClient_def connect_def call_def GetLBConn_def GetServiceAddrs_def fetchAddrs_def cachedAddrs_def
  ensureSubscribed_def getConnDirect_def NewBaseClient_def move_result_def

lemma toy_bank_idempotent: "idempotent_bets toy_bank_stub (\<lambda>v. map_of (fst v))"
  by (auto simp: idempotent_bets_def toy_bank_stub_def toy_bank_bet_def Let_def split: option.splits prod.splits)

text \<open>User 7 bets 100 and then 500 in the same round and has paid 100.\<close>

theorem second_bet_is_free_witness:
  "\<exists>w1 w3 res. client_PlaceBet toy_network toy_bank_stub [] 7 100 ''R1'' toy_rpc = (Inr 900, w1) \<and>
     client_PlaceBet toy_network toy_bank_stub [] 7 500 ''R1'' w1 = (res, w3) \<and> snd (rw_server w3) 7 = 900"
proof -
  obtain w1 where w1: "client_PlaceBet toy_network toy_bank_stub [] 7 100 ''R1'' toy_rpc = (Inr 900, w1)"
    "snd (rw_server w1) 7 = 900"
    by (simp add: toy_rpc_defs Let_def)
  obtain res w3 where w3: "client_PlaceBet toy_network toy_bank_stub [] 7 500 ''R1'' w1 = (res, w3)" by fastforce
  from second_bet_is_free [OF toy_bank_idempotent w1(1) refl w3] w1 w3 show ?thesis by auto
qed

end
