(* ===== verification/Admin.thy ===== *)
theory Admin
  imports Grpc_Client
begin

text \<open>
  Performance data over gRPC: the server of \<^verbatim>\<open>pkg/admin/server.go\<close>, which profiles its process and
  streams the profiles in chunks, and \<^verbatim>\<open>CollectPerformance\<close> of \<^verbatim>\<open>pkg/grpc_client/base/client.go\<close>, which
  puts them together.  What the Go runtime records is a parameter (\<open>profile_run\<close>).
\<close>

section \<open>Messages\<close>

type_synonym DataType = int32

definition CPU_PROFILE :: DataType where "CPU_PROFILE = 1"
definition TRACE_DATA :: DataType where "TRACE_DATA = 2"
definition HEAP_SNAPSHOT :: DataType where "HEAP_SNAPSHOT = 3"
definition GOROUTINE_DUMP :: DataType where "GOROUTINE_DUMP = 4"
definition BLOCK_PROFILE :: DataType where "BLOCK_PROFILE = 5"
definition MUTEX_PROFILE :: DataType where "MUTEX_PROFILE = 6"

lemmas data_types = CPU_PROFILE_def TRACE_DATA_def HEAP_SNAPSHOT_def GOROUTINE_DUMP_def BLOCK_PROFILE_def
  MUTEX_PROFILE_def

record CollectReq =
  DurationSeconds :: int32

record CollectRespChunk =
  ch_DataType :: DataType
  ch_Data :: string
  ch_Timestamp :: int64
  ch_ServiceName :: string

record CollectResp =
  CpuProfile :: string
  TraceData :: string
  HeapSnapshot :: string
  GoroutineDump :: string
  cr_Timestamp :: int64
  ServiceName :: string
  BlockProfile :: string
  MutexProfile :: string

section \<open>The server\<close>

text \<open>What the runtime does while the server collects: whether profiling and tracing start, whether the client
  cancels before a duration is over, and the recorded data; a profile the runtime does not know is empty.\<close>

record profile_run =
  pr_StartCPUProfile :: "go_error option"
  pr_TraceStart :: "go_error option"
  pr_cancelled :: "go_duration \<Rightarrow> go_error option"
  pr_cpu :: string
  pr_trace :: string
  pr_heap :: "string go_result"
  pr_Lookup :: "string \<Rightarrow> string option"
  pr_hostname :: string
  pr_now :: go_time

text \<open>The switches of the runtime.\<close>

record profiling =
  blockRate :: int
  mutexFraction :: int
  cpuOn :: bool
  traceOn :: bool

definition collect_duration :: "CollectReq \<Rightarrow> go_duration" where
  "collect_duration req =
     (let duration = sint (DurationSeconds req) * Second in if duration \<le> 0 then 30 * Second else duration)"

definition chunkSize :: nat where
  "chunkSize = 32 * 1024"

text \<open>\<open>send\<close> is \<^verbatim>\<open>stream.Send\<close>, over the state of the stream.\<close>

function send_chunks ::
    "('s \<Rightarrow> CollectRespChunk \<Rightarrow> go_error option \<times> 's) \<Rightarrow> int64 \<Rightarrow> string \<Rightarrow> DataType \<Rightarrow> string \<Rightarrow> 's
      \<Rightarrow> go_error option \<times> 's" where
  "send_chunks send timestamp hostname dataType data s =
     (if data = [] then (None, s)
      else case send s \<lparr>ch_DataType = dataType, ch_Data = take chunkSize data, ch_Timestamp = timestamp,
                        ch_ServiceName = hostname\<rparr> of
             (Some err, s) \<Rightarrow> (Some err, s)
           | (None, s) \<Rightarrow> send_chunks send timestamp hostname dataType (drop chunkSize data) s)"
  by pat_completeness auto
termination by (relation "measure (\<lambda>(_, _, _, _, data, _). length data)") (auto simp: chunkSize_def)

declare send_chunks.simps [simp del]

fun send_all ::
    "('s \<Rightarrow> CollectRespChunk \<Rightarrow> go_error option \<times> 's) \<Rightarrow> int64 \<Rightarrow> string \<Rightarrow> (DataType \<times> string) list \<Rightarrow> 's
      \<Rightarrow> go_error option \<times> 's" where
  "send_all send timestamp hostname [] s = (None, s)"
| "send_all send timestamp hostname ((dataType, data) # rest) s =
     (case send_chunks send timestamp hostname dataType data s of
        (Some err, s) \<Rightarrow> (Some err, s)
      | (None, s) \<Rightarrow> send_all send timestamp hostname rest s)"

definition looked_up :: "profile_run \<Rightarrow> string \<Rightarrow> string" where
  "looked_up run name = (case pr_Lookup run name of Some data \<Rightarrow> data | None \<Rightarrow> [])"

text \<open>The deferred function switches the block and mutex profiles off on every path.\<close>

definition CollectPerformanceData ::
    "profile_run \<Rightarrow> ('s \<Rightarrow> CollectRespChunk \<Rightarrow> go_error option \<times> 's) \<Rightarrow> CollectReq \<Rightarrow> profiling \<Rightarrow> 's
      \<Rightarrow> go_error option \<times> profiling \<times> 's" where
  "CollectPerformanceData run send req p s =
     (let duration = collect_duration req;
          p = p\<lparr>blockRate := 1, mutexFraction := 1\<rparr>;
          restore = (\<lambda>p. p\<lparr>blockRate := 0, mutexFraction := 0\<rparr>)
      in case pr_StartCPUProfile run of
           Some err \<Rightarrow> (Some (''could not start CPU profile: '' @ err), restore p, s)
         | None \<Rightarrow>
         (let p = p\<lparr>cpuOn := True\<rparr>
          in case pr_TraceStart run of
            Some err \<Rightarrow> (let p = p\<lparr>cpuOn := False\<rparr> in (Some (''could not start trace: '' @ err), restore p, s))
          | None \<Rightarrow>
            (let p = p\<lparr>traceOn := True\<rparr>
             in case pr_cancelled run duration of
                  Some err \<Rightarrow> (let p = p\<lparr>cpuOn := False, traceOn := False\<rparr> in (Some err, restore p, s))
                | None \<Rightarrow>
                  (let p = p\<lparr>cpuOn := False, traceOn := False\<rparr> in
                   case pr_heap run of
                     Inl err \<Rightarrow> (Some (''could not write heap profile: '' @ err), restore p, s)
                   | Inr heapBuf \<Rightarrow>
                     (case send_all send (Unix (pr_now run)) (pr_hostname run)
                             [(CPU_PROFILE, pr_cpu run), (TRACE_DATA, pr_trace run), (HEAP_SNAPSHOT, heapBuf),
                              (GOROUTINE_DUMP, looked_up run ''goroutine''), (BLOCK_PROFILE, looked_up run ''block''),
                              (MUTEX_PROFILE, looked_up run ''mutex'')] s of
                        (err, s) \<Rightarrow> (err, restore p, s))))))"

section \<open>The client\<close>

text \<open>What \<^verbatim>\<open>stream.Recv\<close> gives, up to the end of the stream.\<close>

datatype recv = Chunk CollectRespChunk | RecvError go_error

definition put_data :: "CollectRespChunk \<Rightarrow> CollectResp \<Rightarrow> CollectResp" where
  "put_data chunk result =
     (let dt = ch_DataType chunk; d = ch_Data chunk
      in if dt = CPU_PROFILE then result\<lparr>CpuProfile := CpuProfile result @ d\<rparr>
         else if dt = TRACE_DATA then result\<lparr>TraceData := TraceData result @ d\<rparr>
         else if dt = HEAP_SNAPSHOT then result\<lparr>HeapSnapshot := HeapSnapshot result @ d\<rparr>
         else if dt = GOROUTINE_DUMP then result\<lparr>GoroutineDump := GoroutineDump result @ d\<rparr>
         else if dt = BLOCK_PROFILE then result\<lparr>BlockProfile := BlockProfile result @ d\<rparr>
         else if dt = MUTEX_PROFILE then result\<lparr>MutexProfile := MutexProfile result @ d\<rparr>
         else result)"

fun collect :: "recv list \<Rightarrow> CollectResp \<Rightarrow> CollectResp go_result" where
  "collect [] result = Inr result"
| "collect (RecvError err # _) result = Inl (''stream recv failed: '' @ err)"
| "collect (Chunk chunk # rest) result =
     (let result = (if ch_Timestamp chunk \<noteq> 0 then result\<lparr>cr_Timestamp := ch_Timestamp chunk\<rparr> else result);
          result = (if ch_ServiceName chunk \<noteq> [] then result\<lparr>ServiceName := ch_ServiceName chunk\<rparr> else result)
      in collect rest (put_data chunk result))"

definition emptyResp :: CollectResp where
  "emptyResp =
     \<lparr>CpuProfile = [], TraceData = [], HeapSnapshot = [], GoroutineDump = [], cr_Timestamp = 0, ServiceName = [],
      BlockProfile = [], MutexProfile = []\<rparr>"

text \<open>\<open>stream\<close> opens the call over a connection; the result is an error or what will be received.\<close>

definition CollectPerformance ::
    "'n network \<Rightarrow> (conn \<Rightarrow> CollectReq \<Rightarrow> recv list go_result) \<Rightarrow> string \<Rightarrow> addr \<Rightarrow> int32 \<Rightarrow> 'n BaseClient
      \<Rightarrow> CollectResp go_result \<times> 'n BaseClient" where
  "CollectPerformance N stream serviceName targetInstance duration c =
     (case (if targetInstance \<noteq> [] then getConnDirect N targetInstance c else GetLBConn N serviceName c) of
        (Inl err, c) \<Rightarrow> (Inl err, c)
      | (Inr conn, c) \<Rightarrow>
          (case stream conn \<lparr>DurationSeconds = duration\<rparr> of
             Inl err \<Rightarrow> (Inl err, c)
           | Inr received \<Rightarrow> (collect received emptyResp, c)))"

section \<open>The chunks of a profile\<close>

text \<open>A stream that takes every chunk.\<close>

definition keep :: "CollectRespChunk list \<Rightarrow> CollectRespChunk \<Rightarrow> go_error option \<times> CollectRespChunk list" where
  "keep cs chunk = (None, cs @ [chunk])"

abbreviation (input) chunk_of :: "int64 \<Rightarrow> string \<Rightarrow> DataType \<Rightarrow> string \<Rightarrow> CollectRespChunk" where
  "chunk_of ts host dt d \<equiv> \<lparr>ch_DataType = dt, ch_Data = d, ch_Timestamp = ts, ch_ServiceName = host\<rparr>"

definition add_data :: "int64 \<Rightarrow> string \<Rightarrow> DataType \<Rightarrow> string \<Rightarrow> CollectResp \<Rightarrow> CollectResp" where
  "add_data ts host dt d r =
     (if d = [] then r
      else put_data (chunk_of ts host dt d)
        (r\<lparr>cr_Timestamp := (if ts \<noteq> 0 then ts else cr_Timestamp r),
           ServiceName := (if host \<noteq> [] then host else ServiceName r)\<rparr>))"

lemma add_data_append:
  "add_data ts host dt d2 (add_data ts host dt d1 r) = add_data ts host dt (d1 @ d2) r"
  by (simp add: add_data_def put_data_def Let_def)

lemma add_data_fields:
  "CpuProfile (add_data ts host dt d r) = CpuProfile r @ (if dt = CPU_PROFILE then d else [])"
  "TraceData (add_data ts host dt d r) = TraceData r @ (if dt = TRACE_DATA then d else [])"
  "HeapSnapshot (add_data ts host dt d r) = HeapSnapshot r @ (if dt = HEAP_SNAPSHOT then d else [])"
  "GoroutineDump (add_data ts host dt d r) = GoroutineDump r @ (if dt = GOROUTINE_DUMP then d else [])"
  "BlockProfile (add_data ts host dt d r) = BlockProfile r @ (if dt = BLOCK_PROFILE then d else [])"
  "MutexProfile (add_data ts host dt d r) = MutexProfile r @ (if dt = MUTEX_PROFILE then d else [])"
  "cr_Timestamp (add_data ts host dt d r) = (if d = [] \<or> ts = 0 then cr_Timestamp r else ts)"
  "ServiceName (add_data ts host dt d r) = (if d = [] \<or> host = [] then ServiceName r else host)"
  by (simp_all add: add_data_def put_data_def data_types Let_def)

lemma collect_chunk:
  "d \<noteq> [] \<Longrightarrow> collect (Chunk (chunk_of ts host dt d) # rest) r = collect rest (add_data ts host dt d r)"
  by (simp add: add_data_def)

lemma send_chunks_keep:
  "\<exists>cs. send_chunks keep ts host dt data s = (None, s @ cs) \<and>
     (\<forall>c \<in> set cs. ch_Data c \<noteq> [] \<and> length (ch_Data c) \<le> chunkSize) \<and>
     (\<forall>rest r. collect (map Chunk cs @ rest) r = collect rest (add_data ts host dt data r))"
proof (induction data arbitrary: s rule: length_induct)
  case (1 data)
  show ?case
  proof (cases "data = []")
    case True
    then show ?thesis by (simp add: send_chunks.simps add_data_def)
  next
    case False
    let ?c = "chunk_of ts host dt (take chunkSize data)"
    have ne: "take chunkSize data \<noteq> []" using False by (simp add: chunkSize_def)
    have "length (drop chunkSize data) < length data" using False by (simp add: chunkSize_def)
    with 1 obtain cs where cs:
      "send_chunks keep ts host dt (drop chunkSize data) (s @ [?c]) = (None, (s @ [?c]) @ cs)"
      "\<forall>c \<in> set cs. ch_Data c \<noteq> [] \<and> length (ch_Data c) \<le> chunkSize"
      "\<forall>rest r. collect (map Chunk cs @ rest) r = collect rest (add_data ts host dt (drop chunkSize data) r)"
      by blast
    have "send_chunks keep ts host dt data s = (None, s @ ?c # cs)"
      using cs(1) False by (subst send_chunks.simps) (simp add: keep_def)
    moreover have "collect (map Chunk (?c # cs) @ rest) r = collect rest (add_data ts host dt data r)" for rest r
      using cs(3) add_data_append [of ts host dt "drop chunkSize data" "take chunkSize data" r]
      by (simp add: collect_chunk [OF ne] del: collect.simps)
    ultimately show ?thesis using cs(2) ne
      by (intro exI [of _ "?c # cs"]) auto
  qed
qed

lemma send_all_keep:
  "\<exists>cs. send_all keep ts host ps s = (None, s @ cs) \<and>
     (\<forall>c \<in> set cs. ch_Data c \<noteq> [] \<and> length (ch_Data c) \<le> chunkSize) \<and>
     (\<forall>r. collect (map Chunk cs) r = Inr (fold (\<lambda>(dt, d). add_data ts host dt d) ps r))"
proof (induction ps arbitrary: s)
  case Nil
  then show ?case by simp
next
  case (Cons p ps)
  obtain dt d where p: "p = (dt, d)" by (cases p)
  obtain cs where cs: "send_chunks keep ts host dt d s = (None, s @ cs)"
      "\<forall>c \<in> set cs. ch_Data c \<noteq> [] \<and> length (ch_Data c) \<le> chunkSize"
      "\<forall>rest r. collect (map Chunk cs @ rest) r = collect rest (add_data ts host dt d r)"
    using send_chunks_keep [of ts host dt d s] by blast
  obtain ds where ds: "send_all keep ts host ps (s @ cs) = (None, (s @ cs) @ ds)"
      "\<forall>c \<in> set ds. ch_Data c \<noteq> [] \<and> length (ch_Data c) \<le> chunkSize"
      "\<forall>r. collect (map Chunk ds) r = Inr (fold (\<lambda>(dt, d). add_data ts host dt d) ps r)"
    using Cons.IH [of "s @ cs"] by blast
  show ?case using cs ds by (intro exI [of _ "cs @ ds"]) (auto simp: p)
qed

lemma restored:
  assumes "CollectPerformanceData run send req p s = (err, p', s')"
  shows "blockRate p' = 0 \<and> mutexFraction p' = 0 \<and>
     (pr_StartCPUProfile run = None \<longrightarrow> \<not> cpuOn p') \<and> (pr_StartCPUProfile run \<noteq> None \<longrightarrow> cpuOn p' = cpuOn p)"
  using assms by (auto simp: CollectPerformanceData_def Let_def split: option.splits sum.splits prod.splits)

text \<open>C31. The profiles arrive as they were recorded: whatever the six profiles hold, the client puts the server's
  chunks, none of which is empty or above 32 KiB, together to exactly these six, with the time and the
  host of the server, and the process of the server is left with profiling switched off.\<close>

theorem profile_roundtrip:
  assumes "pr_StartCPUProfile run = None" "pr_TraceStart run = None"
    and "pr_cancelled run (collect_duration req) = None" "pr_heap run = Inr heap"
  shows "\<exists>cs p' r. CollectPerformanceData run keep req p [] = (None, p', cs) \<and>
     (\<forall>c \<in> set cs. ch_Data c \<noteq> [] \<and> length (ch_Data c) \<le> 32768) \<and>
     collect (map Chunk cs) emptyResp = Inr r \<and>
     CpuProfile r = pr_cpu run \<and> TraceData r = pr_trace run \<and> HeapSnapshot r = heap \<and>
     GoroutineDump r = looked_up run ''goroutine'' \<and> BlockProfile r = looked_up run ''block'' \<and>
     MutexProfile r = looked_up run ''mutex'' \<and>
     (pr_cpu run \<noteq> [] \<longrightarrow> cr_Timestamp r = Unix (pr_now run) \<and> ServiceName r = pr_hostname run) \<and>
     p' = p\<lparr>blockRate := 0, mutexFraction := 0, cpuOn := False, traceOn := False\<rparr>"
proof -
  let ?ps = "[(CPU_PROFILE, pr_cpu run), (TRACE_DATA, pr_trace run), (HEAP_SNAPSHOT, heap),
      (GOROUTINE_DUMP, looked_up run ''goroutine''), (BLOCK_PROFILE, looked_up run ''block''),
      (MUTEX_PROFILE, looked_up run ''mutex'')]"
  obtain cs where cs: "send_all keep (Unix (pr_now run)) (pr_hostname run) ?ps [] = (None, [] @ cs)"
      "\<forall>c \<in> set cs. ch_Data c \<noteq> [] \<and> length (ch_Data c) \<le> chunkSize"
      "\<forall>r. collect (map Chunk cs) r = Inr (fold (\<lambda>(dt, d). add_data (Unix (pr_now run)) (pr_hostname run) dt d) ?ps r)"
    using send_all_keep [of "Unix (pr_now run)" "pr_hostname run" ?ps "[]"] by blast
  have "CollectPerformanceData run keep req p [] =
      (None, p\<lparr>blockRate := 0, mutexFraction := 0, cpuOn := False, traceOn := False\<rparr>, cs)"
    using cs(1) assms by (simp add: CollectPerformanceData_def Let_def del: send_all.simps)
  moreover obtain r where
    r: "r = fold (\<lambda>(dt, d). add_data (Unix (pr_now run)) (pr_hostname run) dt d) ?ps emptyResp" by simp
  moreover have "CpuProfile r = pr_cpu run" "TraceData r = pr_trace run" "HeapSnapshot r = heap"
      "GoroutineDump r = looked_up run ''goroutine''" "BlockProfile r = looked_up run ''block''"
      "MutexProfile r = looked_up run ''mutex''"
      "pr_cpu run \<noteq> [] \<longrightarrow> cr_Timestamp r = Unix (pr_now run) \<and> ServiceName r = pr_hostname run"
    unfolding r by (simp_all add: add_data_fields data_types emptyResp_def)
  ultimately show ?thesis using cs(2,3) unfolding chunkSize_def by fastforce
qed

definition sample_run :: profile_run where
  "sample_run =
     \<lparr>pr_StartCPUProfile = None, pr_TraceStart = None, pr_cancelled = \<lambda>_. None, pr_cpu = ''cpu'', pr_trace = [],
      pr_heap = Inr ''heap'', pr_Lookup = \<lambda>name. if name = ''mutex'' then Some ''m'' else None,
      pr_hostname = ''gs-1'', pr_now = 5 * Second\<rparr>"

theorem profile_roundtrip_witness:
  "\<exists>cs p' r. CollectPerformanceData sample_run keep \<lparr>DurationSeconds = 0\<rparr>
       \<lparr>blockRate = 0, mutexFraction = 0, cpuOn = False, traceOn = False\<rparr> [] = (None, p', cs) \<and>
     collect (map Chunk cs) emptyResp = Inr r \<and> CpuProfile r = ''cpu'' \<and> HeapSnapshot r = ''heap'' \<and>
     MutexProfile r = ''m'' \<and> GoroutineDump r = [] \<and> ServiceName r = ''gs-1''"
proof -
  have run: "pr_StartCPUProfile sample_run = None" "pr_TraceStart sample_run = None"
    "pr_cancelled sample_run (collect_duration \<lparr>DurationSeconds = 0\<rparr>) = None" "pr_heap sample_run = Inr ''heap''"
    by (simp_all add: sample_run_def)
  have data: "pr_cpu sample_run = ''cpu''" "looked_up sample_run ''mutex'' = ''m''"
    "looked_up sample_run ''goroutine'' = []" "pr_hostname sample_run = ''gs-1''"
    by (simp_all add: sample_run_def looked_up_def)
  show ?thesis
    using profile_roundtrip [OF run, of "\<lparr>blockRate = 0, mutexFraction = 0, cpuOn = False, traceOn = False\<rparr>"]
    unfolding data by auto
qed

end
