(* ===== verification/Logging.thy ===== *)
theory Logging
  imports Go_Time
begin

text \<open>
  Logging: the buffered writer \<^verbatim>\<open>pkg/logger/smart_writer.go\<close> on top of the standard library's
  \<^verbatim>\<open>bufio.Writer\<close>, the request IDs of \<^verbatim>\<open>request_id.go\<close>, and the contexts that carry loggers and request
  IDs through \<^verbatim>\<open>logger.go\<close>, \<^verbatim>\<open>middleware.go\<close> and \<^verbatim>\<open>gorm_adapter.go\<close>.  A logger is the list of
  the fields it adds to each event; zerolog's formatting and the log files are not modelled.
\<close>

section \<open>The buffer of the standard library\<close>

text \<open>\<open>write\<close> is the \<^verbatim>\<open>Write\<close> method of the underlying writer: the number of bytes it took, and an error.\<close>

type_synonym 'o writer = "'o \<Rightarrow> string \<Rightarrow> (nat \<times> go_error option) \<times> 'o"

record 'o bufio_Writer =
  bw_buf :: string
  bw_err :: "go_error option"
  bw_out :: 'o

definition bufSize :: nat where
  "bufSize = 256 * 1024"

definition ErrShortWrite :: go_error where
  "ErrShortWrite = ''short write''"

definition buf_Flush :: "'o writer \<Rightarrow> 'o bufio_Writer \<Rightarrow> go_error option \<times> 'o bufio_Writer" where
  "buf_Flush write b =
     (case bw_err b of
        Some err \<Rightarrow> (Some err, b)
      | None \<Rightarrow>
          if bw_buf b = [] then (None, b)
          else case write (bw_out b) (bw_buf b) of
                 ((n, err), out') \<Rightarrow>
                   (let err = (if n < length (bw_buf b) \<and> err = None then Some ErrShortWrite else err)
                    in case err of
                         Some e \<Rightarrow> (Some e, b\<lparr>bw_buf := drop n (bw_buf b), bw_err := Some e, bw_out := out'\<rparr>)
                       | None \<Rightarrow> (None, b\<lparr>bw_buf := [], bw_out := out'\<rparr>)))"

text \<open>\<^verbatim>\<open>Write\<close>: as long as \<open>p\<close> does not fit, the buffer is filled and flushed, or, when it is empty, \<open>p\<close> is
  written directly.  Nothing bounds the loop when the underlying writer takes nothing and reports no
  error.\<close>

partial_function (option) buf_Write ::
    "'o writer \<Rightarrow> string \<Rightarrow> nat \<Rightarrow> 'o bufio_Writer \<Rightarrow> ((nat \<times> go_error option) \<times> 'o bufio_Writer) option" where
  "buf_Write write p nn b =
     (if bufSize - length (bw_buf b) < length p \<and> bw_err b = None then
        (if bw_buf b = [] then
           (case write (bw_out b) p of
              ((n, err), out') \<Rightarrow> buf_Write write (drop n p) (nn + n) (b\<lparr>bw_err := err, bw_out := out'\<rparr>))
         else
           (let n = bufSize - length (bw_buf b);
                b = snd (buf_Flush write (b\<lparr>bw_buf := bw_buf b @ take n p\<rparr>))
            in buf_Write write (drop n p) (nn + n) b))
      else case bw_err b of
             Some err \<Rightarrow> Some ((nn, Some err), b)
           | None \<Rightarrow> Some ((nn + length p, None), b\<lparr>bw_buf := bw_buf b @ p\<rparr>))"

section \<open>SmartWriter\<close>

text \<open>Its methods hold the mutex throughout, so that concurrent calls and the flusher take turns.\<close>

record 'o SmartWriter =
  bufWriter :: "'o bufio_Writer"
  stopChan_closed :: bool

definition NewSmartWriter :: "'o \<Rightarrow> 'o SmartWriter" where
  "NewSmartWriter out' = \<lparr>bufWriter = \<lparr>bw_buf = [], bw_err = None, bw_out = out'\<rparr>, stopChan_closed = False\<rparr>"

text \<open>\<^verbatim>\<open>bytes.Contains\<close>\<close>

definition contains :: "string \<Rightarrow> string \<Rightarrow> bool" where
  "contains s pat \<longleftrightarrow> list_ex (\<lambda>k. take (length pat) (drop k s) = pat) [0..<Suc (length s)]"

definition quoted :: "string \<Rightarrow> string" where
  "quoted s = CHR 0x22 # s @ [CHR 0x22]"

definition isError :: "string \<Rightarrow> bool" where
  "isError p \<longleftrightarrow> contains p (quoted ''level'' @ '':'' @ quoted ''error'') \<or>
                contains p (quoted ''level'' @ '':'' @ quoted ''fatal'')"

definition sw_Write ::
    "'o writer \<Rightarrow> string \<Rightarrow> 'o SmartWriter \<Rightarrow> ((nat \<times> go_error option) \<times> 'o SmartWriter) option" where
  "sw_Write write p sw =
     (case buf_Write write p 0 (bufWriter sw) of
        None \<Rightarrow> None
      | Some (r, b) \<Rightarrow>
          let b = (if isError p then snd (buf_Flush write b) else b) in Some (r, sw\<lparr>bufWriter := b\<rparr>))"

definition Sync :: "'o writer \<Rightarrow> 'o SmartWriter \<Rightarrow> go_error option \<times> 'o SmartWriter" where
  "Sync write sw = (case buf_Flush write (bufWriter sw) of (err, b) \<Rightarrow> (err, sw\<lparr>bufWriter := b\<rparr>))"

text \<open>Closing a second time closes a closed channel, a panic.\<close>

definition sw_Close :: "'o writer \<Rightarrow> 'o SmartWriter \<Rightarrow> (go_error option \<times> 'o SmartWriter) option" where
  "sw_Close write sw = (if stopChan_closed sw then None else Some (Sync write (sw\<lparr>stopChan_closed := True\<rparr>)))"

text \<open>What can happen to a writer: calls, and ticks of the flusher, which has ended when \<^verbatim>\<open>Close\<close> returns.\<close>

datatype sw_op = DoWrite string | DoTick | DoSync | DoClose

fun sw_do :: "'o writer \<Rightarrow> sw_op \<Rightarrow> 'o SmartWriter \<Rightarrow> 'o SmartWriter option" where
  "sw_do write (DoWrite p) sw = map_option snd (sw_Write write p sw)"
| "sw_do write DoTick sw = (if stopChan_closed sw then Some sw else Some (snd (Sync write sw)))"
| "sw_do write DoSync sw = Some (snd (Sync write sw))"
| "sw_do write DoClose sw = map_option snd (sw_Close write sw)"

fun sw_run :: "'o writer \<Rightarrow> sw_op list \<Rightarrow> 'o SmartWriter \<Rightarrow> 'o SmartWriter option" where
  "sw_run write [] sw = Some sw"
| "sw_run write (a # as) sw = (case sw_do write a sw of None \<Rightarrow> None | Some sw \<Rightarrow> sw_run write as sw)"

section \<open>Request IDs\<close>

definition hex_lower :: "nat \<Rightarrow> char" where
  "hex_lower d = ''0123456789abcdef'' ! (d mod 16)"

definition EncodeToString :: "nat list \<Rightarrow> string" where
  "EncodeToString bs = concat (map (\<lambda>b. [hex_lower (b div 16), hex_lower b]) bs)"

text \<open>The counter is of 64 bits; the clock and three random bytes are arguments.\<close>

definition GenerateRequestID ::
    "(go_time \<Rightarrow> int) \<Rightarrow> go_time \<Rightarrow> nat list \<Rightarrow> 64 word \<Rightarrow> string \<times> 64 word" where
  "GenerateRequestID tz now randomBytes counter =
     (let count = counter + 1
      in (format14 tz now @ ''-'' @ pad_int 6 (uint count) @ ''-'' @ EncodeToString randomBytes, count))"

definition ShortRequestID :: "nat list \<Rightarrow> 64 word \<Rightarrow> string \<times> 64 word" where
  "ShortRequestID randomBytes counter =
     (let count = counter + 1 in (pad_int 6 (uint count) @ ''-'' @ EncodeToString randomBytes, count))"

section \<open>Contexts\<close>

type_synonym log_fields = "(string \<times> string) list"

record log_ctx =
  ctx_RequestID :: "string option"
  ctx_Logger :: "log_fields option"

definition Background :: log_ctx where
  "Background = \<lparr>ctx_RequestID = None, ctx_Logger = None\<rparr>"

definition WithRequestID :: "log_fields \<Rightarrow> log_ctx \<Rightarrow> string \<Rightarrow> log_ctx" where
  "WithRequestID globalLogger ctx requestID =
     ctx\<lparr>ctx_RequestID := Some requestID, ctx_Logger := Some (globalLogger @ [(''request_id'', requestID)])\<rparr>"

text \<open>A nil context is \<open>None\<close>.\<close>

definition FromContext :: "log_fields \<Rightarrow> log_ctx option \<Rightarrow> log_fields" where
  "FromContext globalLogger ctx =
     (case ctx of
        None \<Rightarrow> globalLogger
      | Some ctx \<Rightarrow>
          (case ctx_Logger ctx of
             Some logger \<Rightarrow> logger
           | None \<Rightarrow>
               (case ctx_RequestID ctx of
                  Some requestID \<Rightarrow>
                    if requestID \<noteq> [] then globalLogger @ [(''request_id'', requestID)] else globalLogger
                | None \<Rightarrow> globalLogger)))"

definition GetRequestID :: "log_ctx option \<Rightarrow> string" where
  "GetRequestID ctx =
     (case ctx of
        None \<Rightarrow> []
      | Some ctx \<Rightarrow> (case ctx_RequestID ctx of Some requestID \<Rightarrow> requestID | None \<Rightarrow> []))"

text \<open>The fields come from a map: \<open>kvs\<close> is the order in which it is traversed.\<close>

definition WithFields :: "log_fields \<Rightarrow> log_ctx \<Rightarrow> log_fields \<Rightarrow> log_ctx" where
  "WithFields globalLogger ctx kvs =
     ctx\<lparr>ctx_Logger := Some (fold (\<lambda>f logger. logger @ [f]) kvs (FromContext globalLogger (Some ctx)))\<rparr>"

text \<open>zerolog's levels, ordered by severity.\<close>

datatype Level = DebugLevel | InfoLevel | WarnLevel | ErrorLevel | FatalLevel

fun level_rank :: "Level \<Rightarrow> nat" where
  "level_rank DebugLevel = 0"
| "level_rank InfoLevel = 1"
| "level_rank WarnLevel = 2"
| "level_rank ErrorLevel = 3"
| "level_rank FatalLevel = 4"

instantiation Level :: linorder
begin

definition less_eq_Level :: "Level \<Rightarrow> Level \<Rightarrow> bool" where
  "l \<le> l' \<longleftrightarrow> level_rank l \<le> level_rank l'"

definition less_Level :: "Level \<Rightarrow> Level \<Rightarrow> bool" where
  "l < l' \<longleftrightarrow> level_rank l < level_rank l'"

instance
proof
  fix l l' :: Level
  show "l \<le> l' \<Longrightarrow> l' \<le> l \<Longrightarrow> l = l'" by (cases l; cases l'; simp add: less_eq_Level_def)
qed (auto simp: less_eq_Level_def less_Level_def)

end

definition parseLevel :: "string \<Rightarrow> Level" where
  "parseLevel level =
     (if level = ''debug'' then DebugLevel
      else if level = ''info'' then InfoLevel
      else if level = ''warn'' then WarnLevel
      else if level = ''error'' then ErrorLevel
      else InfoLevel)"

text \<open>The caller of an event: the file with its parent directory.  Both loops run down to index 1.\<close>

fun after_slash :: "string \<Rightarrow> nat \<Rightarrow> nat \<Rightarrow> string option" where
  "after_slash file n 0 = None"
| "after_slash file n (Suc i) =
     (if file ! Suc i = CHR ''/''
      then (if n = 0 then Some (drop (i + 2) file) else after_slash file (n - 1) i)
      else after_slash file n i)"

definition CallerMarshal :: "string \<Rightarrow> int \<Rightarrow> string" where
  "CallerMarshal file line =
     (let short = (case after_slash file 0 (length file - 1) of Some s \<Rightarrow> s | None \<Rightarrow> file);
          short = (case after_slash file 1 (length file - 1) of Some s \<Rightarrow> s | None \<Rightarrow> short)
      in short @ '':'' @ itoa line)"

section \<open>Middleware\<close>

text \<open>The request ID of an HTTP request: that of its header, or a new one, which \<open>fresh\<close> makes; it goes into
  the response header and the context.\<close>

definition GinMiddleware ::
    "log_fields \<Rightarrow> (64 word \<Rightarrow> string \<times> 64 word) \<Rightarrow> string \<Rightarrow> log_ctx \<Rightarrow> 64 word
      \<Rightarrow> (string \<times> log_ctx) \<times> 64 word" where
  "GinMiddleware globalLogger fresh header ctx counter =
     (let (requestID, counter) = (if header = [] then fresh counter else (header, counter))
      in ((requestID, WithRequestID globalLogger ctx requestID), counter))"

definition HTTPMiddleware ::
    "log_fields \<Rightarrow> (64 word \<Rightarrow> string \<times> 64 word) \<Rightarrow> string \<Rightarrow> log_ctx \<Rightarrow> 64 word
      \<Rightarrow> (string \<times> log_ctx) \<times> 64 word" where
  "HTTPMiddleware globalLogger fresh header ctx counter =
     (let (requestID, counter) = (if header = [] then fresh counter else (header, counter))
      in ((requestID, WithRequestID globalLogger ctx requestID), counter))"

definition WebSocketContext ::
    "log_fields \<Rightarrow> (64 word \<Rightarrow> string \<times> 64 word) \<Rightarrow> string \<Rightarrow> string \<Rightarrow> 64 word \<Rightarrow> log_ctx \<times> 64 word" where
  "WebSocketContext globalLogger fresh query header counter =
     (let requestID = query;
          requestID = (if requestID = [] then header else requestID);
          (requestID, counter) = (if requestID = [] then fresh counter else (requestID, counter))
      in (WithRequestID globalLogger Background requestID, counter))"

section \<open>The logger of gorm\<close>

datatype gorm_level = Silent | GormError | GormWarn | GormInfo

fun gorm_rank :: "gorm_level \<Rightarrow> nat" where
  "gorm_rank Silent = 1"
| "gorm_rank GormError = 2"
| "gorm_rank GormWarn = 3"
| "gorm_rank GormInfo = 4"

instantiation gorm_level :: linorder
begin

definition less_eq_gorm_level :: "gorm_level \<Rightarrow> gorm_level \<Rightarrow> bool" where
  "l \<le> l' \<longleftrightarrow> gorm_rank l \<le> gorm_rank l'"

definition less_gorm_level :: "gorm_level \<Rightarrow> gorm_level \<Rightarrow> bool" where
  "l < l' \<longleftrightarrow> gorm_rank l < gorm_rank l'"

instance
proof
  fix l l' :: gorm_level
  show "l \<le> l' \<Longrightarrow> l' \<le> l \<Longrightarrow> l = l'" by (cases l; cases l'; simp add: less_eq_gorm_level_def)
qed (auto simp: less_eq_gorm_level_def less_gorm_level_def)

end

record GormLogger =
  SlowThreshold :: go_duration
  LogLevel :: gorm_level

definition NewGormLogger :: GormLogger where
  "NewGormLogger = \<lparr>SlowThreshold = 200 * 1000000, LogLevel = GormWarn\<rparr>"

definition LogMode :: "GormLogger \<Rightarrow> gorm_level \<Rightarrow> GormLogger" where
  "LogMode l level = l\<lparr>LogLevel := level\<rparr>"

text \<open>The level at which a query is logged, if it is.  The error is not \<^verbatim>\<open>ErrRecordNotFound\<close> if \<open>real\<close>.\<close>

definition gorm_Trace :: "GormLogger \<Rightarrow> go_duration \<Rightarrow> go_error option \<Rightarrow> (go_error \<Rightarrow> bool) \<Rightarrow> Level option" where
  "gorm_Trace l elapsed err real =
     (if LogLevel l \<le> Silent then None
      else if (case err of Some e \<Rightarrow> real e | None \<Rightarrow> False)
      then (if GormError \<le> LogLevel l then Some ErrorLevel else None)
      else if SlowThreshold l < elapsed \<and> SlowThreshold l \<noteq> 0
      then (if GormWarn \<le> LogLevel l then Some WarnLevel else None)
      else (if GormInfo \<le> LogLevel l then Some InfoLevel else None))"

section \<open>Nothing is lost while the writer works\<close>

text \<open>What has been written: what \<open>view\<close> sees of the outside, followed by the buffer.\<close>

abbreviation seen :: "('o \<Rightarrow> string) \<Rightarrow> 'o bufio_Writer \<Rightarrow> string" where
  "seen view b \<equiv> view (bw_out b) @ bw_buf b"

definition buf_ok :: "'o bufio_Writer \<Rightarrow> bool" where
  "buf_ok b \<longleftrightarrow> bw_err b = None \<and> length (bw_buf b) \<le> bufSize"

definition sw_ok :: "'o SmartWriter \<Rightarrow> bool" where
  "sw_ok sw \<longleftrightarrow> buf_ok (bufWriter sw)"

text \<open>What a run has written, and whether its last operation flushes.\<close>

fun op_text :: "sw_op \<Rightarrow> string" where
  "op_text (DoWrite p) = p"
| "op_text _ = []"

fun op_flushes :: "sw_op \<Rightarrow> bool" where
  "op_flushes (DoWrite p) = isError p"
| "op_flushes DoTick = False"
| "op_flushes _ = True"

lemma Write_fits:
  assumes "bw_err b = None" "length p \<le> bufSize - length (bw_buf b)"
  shows "buf_Write write p nn b = Some ((nn + length p, None), b\<lparr>bw_buf := bw_buf b @ p\<rparr>)"
  using assms by (subst buf_Write.simps) simp

text \<open>The interface of the writer below: it takes everything, and \<open>view\<close> sees it at the end.\<close>

locale sink =
  fixes put :: "'o writer" and view :: "'o \<Rightarrow> string"
  assumes takes: "\<exists>out'. put out p = ((length p, None), out') \<and> view out' = view out @ p"
begin

lemma Flush_takes:
  assumes "bw_err b = None"
  shows "\<exists>b'. buf_Flush put b = (None, b') \<and> bw_buf b' = [] \<and> bw_err b' = None \<and> view (bw_out b') = seen view b"
proof (cases "bw_buf b = []")
  case True
  with assms show ?thesis by (simp add: buf_Flush_def)
next
  case False
  from takes [of "bw_out b" "bw_buf b"] obtain out' where
    "put (bw_out b) (bw_buf b) = ((length (bw_buf b), None), out')" "view out' = seen view b" by blast
  with assms False show ?thesis by (simp add: buf_Flush_def)
qed

lemma Write_direct:
  assumes "bw_err b = None" "bw_buf b = []"
  shows "\<exists>b'. buf_Write put p nn b = Some ((nn + length p, None), b') \<and> buf_ok b' \<and> seen view b' = seen view b @ p"
proof (cases "length p \<le> bufSize")
  case True
  with assms Write_fits [of b p put nn] show ?thesis by (simp add: buf_ok_def)
next
  case False
  from takes [of "bw_out b" p] obtain out' where
    out': "put (bw_out b) p = ((length p, None), out')" "view out' = view (bw_out b) @ p" by blast
  with assms False have "buf_Write put p nn b = buf_Write put [] (nn + length p) (b\<lparr>bw_err := None, bw_out := out'\<rparr>)"
    by (subst buf_Write.simps) simp
  with assms out'(2) show ?thesis by (simp add: Write_fits buf_ok_def)
qed

lemma Write_takes:
  assumes "buf_ok b"
  shows "\<exists>b'. buf_Write put p nn b = Some ((nn + length p, None), b') \<and> buf_ok b' \<and> seen view b' = seen view b @ p"
proof -
  consider (fits) "length p \<le> bufSize - length (bw_buf b)" | (direct) "bw_buf b = []"
    | (fill) "\<not> length p \<le> bufSize - length (bw_buf b)" "bw_buf b \<noteq> []" by blast
  then show ?thesis
  proof cases
    case fits
    with assms Write_fits [of b p put nn] show ?thesis by (auto simp: buf_ok_def)
  next
    case direct
    with assms Write_direct show ?thesis by (simp add: buf_ok_def)
  next
    case fill
    let ?n = "bufSize - length (bw_buf b)"
    from Flush_takes [of "b\<lparr>bw_buf := bw_buf b @ take ?n p\<rparr>"] assms obtain b1 where b1:
      "buf_Flush put (b\<lparr>bw_buf := bw_buf b @ take ?n p\<rparr>) = (None, b1)" "bw_buf b1 = []" "bw_err b1 = None"
      "view (bw_out b1) = seen view b @ take ?n p" by (auto simp: buf_ok_def)
    have "buf_Write put p nn b = buf_Write put (drop ?n p) (nn + ?n) b1"
      using assms fill b1(1) by (subst buf_Write.simps) (simp add: buf_ok_def Let_def)
    moreover from Write_direct [OF b1(3,2), of "drop ?n p" "nn + ?n"] obtain b' where
      "buf_Write put (drop ?n p) (nn + ?n) b1 = Some ((nn + ?n + length (drop ?n p), None), b')"
      "buf_ok b'" "seen view b' = seen view b1 @ drop ?n p" by blast
    ultimately show ?thesis using fill b1 by auto
  qed
qed

lemma Sync_takes:
  assumes "sw_ok sw"
  shows "\<exists>sw'. Sync put sw = (None, sw') \<and> sw_ok sw' \<and> bw_buf (bufWriter sw') = [] \<and>
     seen view (bufWriter sw') = seen view (bufWriter sw) \<and> stopChan_closed sw' = stopChan_closed sw"
  using assms Flush_takes [of "bufWriter sw"] by (auto simp: Sync_def sw_ok_def buf_ok_def)

lemma do_takes:
  assumes "sw_ok sw" "a = DoClose \<Longrightarrow> \<not> stopChan_closed sw"
  shows "\<exists>sw'. sw_do put a sw = Some sw' \<and> sw_ok sw' \<and>
     seen view (bufWriter sw') = seen view (bufWriter sw) @ op_text a \<and>
     (op_flushes a \<or> a = DoTick \<and> \<not> stopChan_closed sw \<longrightarrow> bw_buf (bufWriter sw') = []) \<and>
     (stopChan_closed sw' \<longleftrightarrow> stopChan_closed sw \<or> a = DoClose)"
proof (cases a)
  case (DoWrite p)
  from assms(1) Write_takes [of "bufWriter sw" p 0] obtain b where b:
    "buf_Write put p 0 (bufWriter sw) = Some ((length p, None), b)" "buf_ok b"
    "seen view b = seen view (bufWriter sw) @ p" by (auto simp: sw_ok_def)
  from b(2) Flush_takes [of b] obtain b' where
    "buf_Flush put b = (None, b')" "bw_buf b' = []" "bw_err b' = None" "view (bw_out b') = seen view b"
    by (auto simp: buf_ok_def)
  then show ?thesis using DoWrite b by (auto simp: sw_Write_def sw_ok_def buf_ok_def Let_def)
next
  case DoClose
  with assms Sync_takes [of "sw\<lparr>stopChan_closed := True\<rparr>"] show ?thesis by (auto simp: sw_Close_def sw_ok_def)
qed (use assms(1) Sync_takes [of sw] in auto)

lemma run_takes:
  assumes "sw_ok sw" "count_list as DoClose + (if stopChan_closed sw then 1 else 0) \<le> 1"
  shows "\<exists>sw'. sw_run put as sw = Some sw' \<and> sw_ok sw' \<and>
     seen view (bufWriter sw') = seen view (bufWriter sw) @ concat (map op_text as) \<and>
     (as \<noteq> [] \<longrightarrow> op_flushes (last as) \<longrightarrow> bw_buf (bufWriter sw') = [])"
  using assms
proof (induction as arbitrary: sw)
  case Nil
  then show ?case by simp
next
  case (Cons a as)
  have "a = DoClose \<Longrightarrow> \<not> stopChan_closed sw" using Cons.prems(2) by auto
  from do_takes [OF Cons.prems(1) this] obtain sw1 where
    sw1: "sw_do put a sw = Some sw1" "sw_ok sw1"
      "seen view (bufWriter sw1) = seen view (bufWriter sw) @ op_text a"
      "op_flushes a \<longrightarrow> bw_buf (bufWriter sw1) = []"
      "stopChan_closed sw1 \<longleftrightarrow> stopChan_closed sw \<or> a = DoClose" by blast
  have "count_list as DoClose + (if stopChan_closed sw1 then 1 else 0) \<le> 1"
    using Cons.prems(2) sw1(5) by (auto split: if_splits)
  from Cons.IH [OF sw1(2) this] sw1 show ?case by auto
qed

end

text \<open>A file that takes everything.\<close>

definition append_to :: "string writer" where
  "append_to out' p = ((length p, None), out' @ p)"

interpretation disk: sink append_to "\<lambda>s. s"
  by unfold_locales (simp add: append_to_def)

text \<open>A writer below that always fails and leaves what is seen as it was: nothing is ever seen.\<close>

lemma failing_write_unseen:
  assumes fails: "\<And>out p. \<exists>n e out'. put out p = ((n, Some e), out') \<and> view out' = view out"
    and run: "sw_do put a sw = Some sw'"
  shows "view (bw_out (bufWriter sw')) = view (bw_out (bufWriter sw))"
proof -
  have flush: "view (bw_out (snd (buf_Flush put b))) = view (bw_out b) \<and>
      (bw_buf b \<noteq> [] \<longrightarrow> bw_err (snd (buf_Flush put b)) \<noteq> None)" for b
    using fails [of "bw_out b" "bw_buf b"] by (auto simp: buf_Flush_def split: option.split)
  have stuck: "buf_Write put p nn b = Some ((nn, bw_err b), b)" if "bw_err b \<noteq> None" for p nn b
    using that by (subst buf_Write.simps) auto
  have written: "view (bw_out b') = view (bw_out b)" if W: "buf_Write put p nn b = Some (r, b')" for p nn b r b'
  proof (cases "bufSize - length (bw_buf b) < length p \<and> bw_err b = None")
    case full: True
    let ?n = "bufSize - length (bw_buf b)"
    show ?thesis
    proof (cases "bw_buf b = []")
      case True
      then show ?thesis using W fails [of "bw_out b" p] full by (subst (asm) buf_Write.simps) (auto simp: stuck)
    next
      case False
      then show ?thesis using W flush [of "b\<lparr>bw_buf := bw_buf b @ take ?n p\<rparr>"] full
        by (subst (asm) buf_Write.simps) (auto simp: stuck Let_def)
    qed
  next
    case False
    with W show ?thesis by (subst (asm) buf_Write.simps) (auto split: option.splits)
  qed
  from run show ?thesis
    by (cases a) (auto simp: sw_Write_def Sync_def sw_Close_def Let_def split_beta flush dest!: written split: option.splits if_splits)
qed

section \<open>Properties\<close>

text \<open>C39. The log is complete and in order.  Over any sequence of writes, ticks of the flusher, syncs and at
  most one close, on a file that takes what it is given, every operation returns, and the file followed by
  the buffer of at most 256 KiB is exactly what was written; after an error record, a sync or the close
  everything is in the file.\<close>

theorem log_complete_and_ordered:
  assumes "count_list ops DoClose \<le> 1"
  shows "\<exists>sw. sw_run append_to ops (NewSmartWriter []) = Some sw \<and>
     bw_out (bufWriter sw) @ bw_buf (bufWriter sw) = concat (map op_text ops) \<and>
     length (bw_buf (bufWriter sw)) \<le> 262144 \<and>
     (ops \<noteq> [] \<longrightarrow> op_flushes (last ops) \<longrightarrow> bw_out (bufWriter sw) = concat (map op_text ops))"
proof -
  have "sw_ok (NewSmartWriter [])" by (simp add: sw_ok_def NewSmartWriter_def buf_ok_def)
  from disk.run_takes [OF this, of ops] assms obtain sw where
    "sw_run append_to ops (NewSmartWriter []) = Some sw" "sw_ok sw"
    "seen (\<lambda>s. s) (bufWriter sw) = concat (map op_text ops)"
    "ops \<noteq> [] \<longrightarrow> op_flushes (last ops) \<longrightarrow> bw_buf (bufWriter sw) = []" by (auto simp: NewSmartWriter_def)
  then show ?thesis by (auto simp: sw_ok_def buf_ok_def bufSize_def)
qed

theorem log_complete_and_ordered_witness:
  "\<exists>sw. sw_run append_to [DoWrite ''a'', DoTick, DoWrite ''b'', DoClose] (NewSmartWriter []) = Some sw \<and>
     bw_out (bufWriter sw) = ''ab''"
  using log_complete_and_ordered [of "[DoWrite ''a'', DoTick, DoWrite ''b'', DoClose]"] by auto

text \<open>One failed write ends the log.  The error of the buffer is never cleared: after it, whatever is called,
  no record reaches the file and none is buffered, even when the file has room again.\<close>

theorem failed_write_ends_log:
  assumes "bw_err (bufWriter sw) = Some err" "sw_run write ops sw = Some sw'"
  shows "bufWriter sw' = bufWriter sw"
proof -
  have "bufWriter sw2 = bufWriter sw1"
    if "bw_err (bufWriter sw1) = Some err" "sw_do write a sw1 = Some sw2" for a sw1 sw2
    using that by (cases a) (auto simp: sw_Write_def Sync_def sw_Close_def buf_Flush_def buf_Write.simps Let_def
        split: if_splits)
  with assms show ?thesis
    by (induction ops arbitrary: sw) (auto split: option.splits, metis)
qed

text \<open>A disk that is full once: the records after the failed one never arrive.\<close>

definition full_once :: "(bool \<times> string) writer" where
  "full_once s p = (case s of (True, t) \<Rightarrow> ((0, Some ''no space left on device''), (False, t))
     | (False, t) \<Rightarrow> ((length p, None), (False, t @ p)))"

theorem failed_write_ends_log_witness:
  "\<exists>sw sw'. sw_run full_once [DoWrite ''a'', DoTick] (NewSmartWriter (True, [])) = Some sw \<and>
     sw_run full_once [DoWrite ''b'', DoTick] sw = Some sw' \<and> bw_out (bufWriter sw') = (False, [])"
proof -
  let ?sw = "\<lparr>bufWriter = \<lparr>bw_buf = ''a'', bw_err = Some ''no space left on device'', bw_out = (False, [])\<rparr>,
      stopChan_closed = False\<rparr>"
  have run: "sw_run full_once [DoWrite ''a'', DoTick] (NewSmartWriter (True, [])) = Some ?sw"
    by (simp add: NewSmartWriter_def sw_Write_def Write_fits bufSize_def Sync_def buf_Flush_def full_once_def
        isError_def contains_def quoted_def)
  obtain sw' where sw': "sw_run full_once [DoWrite ''b'', DoTick] ?sw = Some sw'"
    by (simp add: sw_Write_def buf_Write.simps Sync_def buf_Flush_def isError_def contains_def quoted_def)
  from failed_write_ends_log [OF _ sw', of "''no space left on device''"]
  have "bufWriter sw' = bufWriter ?sw" by simp
  with run sw' show ?thesis by auto
qed

text \<open>Request IDs made under different counts differ, whatever the clock and the random bytes.\<close>

lemma hex_no_minus: "CHR ''-'' \<notin> set (EncodeToString bs)"
proof -
  have "hex_lower d \<in> set ''0123456789abcdef''" for d
    unfolding hex_lower_def by (rule nth_mem) simp
  moreover have "CHR ''-'' \<notin> set ''0123456789abcdef''" by simp
  ultimately have "hex_lower d \<noteq> CHR ''-''" for d by metis
  then show ?thesis by (auto simp: EncodeToString_def) (metis)+
qed

lemma request_ids_distinct:
  assumes "GenerateRequestID tz t bs c = (i, d)" "GenerateRequestID tz' t' bs' c' = (i', d')" "c \<noteq> c'"
  shows "i \<noteq> i'"
proof
  assume "i = i'"
  then have eq: "(format14 tz t @ ''-'' @ pad_int 6 (uint (c + 1))) @ CHR ''-'' # EncodeToString bs =
      (format14 tz' t' @ ''-'' @ pad_int 6 (uint (c' + 1))) @ CHR ''-'' # EncodeToString bs'"
    using assms by (auto simp: GenerateRequestID_def Let_def)
  from sep_suffix_inj [OF this hex_no_minus hex_no_minus]
  have parts: "format14 tz t @ CHR ''-'' # pad_int 6 (uint (c + 1)) = format14 tz' t' @ CHR ''-'' # pad_int 6 (uint (c' + 1))"
    by simp
  have no_minus: "CHR ''-'' \<notin> set (pad_int 6 (uint x))" for x :: "64 word"
  proof -
    have "CHR ''-'' \<notin> decimal_chars" by (simp add: decimal_chars_def)
    moreover have "pad_int 6 (uint x) = pad 6 (nat_digits (nat (uint x)))" by (simp add: pad_int_def)
    ultimately show ?thesis using set_pad by (metis subsetD)
  qed
  have "pad_int 6 (uint (c + 1)) = pad_int 6 (uint (c' + 1))"
    using sep_suffix_inj [OF parts no_minus no_minus] by (rule conjunct2)
  then have "uint (c + 1) = uint (c' + 1)" by (rule pad_int_inj)
  then have "c + 1 = c' + 1" by (rule word_uint_eqI)
  with assms(3) show False by (metis add_right_imp_eq)
qed

end
