(* ===== verification/Gs_State.thy ===== *)
theory Gs_State
  imports Gs_UseCase Go_Rfc3339 Gateway
begin

text \<open>
  The state of a round as a player sees it: \<^verbatim>\<open>GetState\<close> of the adapters of the game service, which turn
  the map of \<^verbatim>\<open>GetCurrentRound\<close> into JSON, and the local adapter as the service the gateway calls.
\<close>

definition player_bet_json :: "string \<times> int64 \<Rightarrow> json" where
  "player_bet_json b = JObj [(''amount'', json_int (sint (snd b))), (''color'', JStr (fst b))]"

text \<open>The keys of a map are sorted; the local adapter adds the key \<^verbatim>\<open>type\<close>.\<close>

definition state_json :: "(go_time \<Rightarrow> int) \<Rightarrow> (string \<times> json) list \<Rightarrow> round_info \<Rightarrow> string option" where
  "state_json tz extra state =
     (case time_json tz (ri_betting_end state) of
        None \<Rightarrow> None
      | Some bettingEnd \<Rightarrow>
          Some (json_enc (JObj ([(''betting_end'', bettingEnd),
                                 (''player_bets'', JArr (map player_bet_json (ri_player_bets state))),
                                 (''round_id'', JStr (ri_round_id state)), (''state'', JStr (ri_state state))] @ extra))))"

text \<open>The local adapter ignores an error of the encoder and answers with no JSON.\<close>

definition local_GetState ::
    "(go_time \<Rightarrow> int) \<Rightarrow> ('r, 'm, 'w, 'd) GSUseCase \<Rightarrow> ColorGameGetStateReq \<Rightarrow> ('r, 'm, 'w, 'd) gs_world
      \<Rightarrow> ColorGameGetStateRsp \<times> ('r, 'm, 'w, 'd) gs_world" where
  "local_GetState tz uc req w =
     (case gs_GetCurrentRound uc (gsq_UserId req) w of
        (Inl err, w) \<Rightarrow> (\<lparr>gss_ErrorCode = INTERNAL_ERROR, gss_StateJson = []\<rparr>, w)
      | (Inr state, w) \<Rightarrow>
          (\<lparr>gss_ErrorCode = SUCCESS,
            gss_StateJson = (case state_json tz [(''type'', JStr ''state'')] state of Some s \<Rightarrow> s | None \<Rightarrow> [])\<rparr>, w))"

definition grpc_GetState ::
    "(go_time \<Rightarrow> int) \<Rightarrow> ('r, 'm, 'w, 'd) GSUseCase \<Rightarrow> ColorGameGetStateReq \<Rightarrow> ('r, 'm, 'w, 'd) gs_world
      \<Rightarrow> ColorGameGetStateRsp \<times> ('r, 'm, 'w, 'd) gs_world" where
  "grpc_GetState tz uc req w =
     (case gs_GetCurrentRound uc (gsq_UserId req) w of
        (Inl err, w) \<Rightarrow> (\<lparr>gss_ErrorCode = INTERNAL_ERROR, gss_StateJson = []\<rparr>, w)
      | (Inr state, w) \<Rightarrow>
          (case state_json tz [] state of
             None \<Rightarrow> (\<lparr>gss_ErrorCode = INTERNAL_ERROR, gss_StateJson = []\<rparr>, w)
           | Some stateJSON \<Rightarrow> (\<lparr>gss_ErrorCode = SUCCESS, gss_StateJson = stateJSON\<rparr>, w)))"

definition grpc_PlaceBet ::
    "('r, 'm, 'w, 'd) GSUseCase \<Rightarrow> ColorGamePlaceBetReq \<Rightarrow> ('r, 'm, 'w, 'd) gs_world
      \<Rightarrow> ColorGamePlaceBetRsp \<times> ('r, 'm, 'w, 'd) gs_world" where
  "grpc_PlaceBet uc req w =
     (case gs_PlaceBet uc (pbq_UserId req) (pbq_Color req) (pbq_Amount req) w of
        (Inl err, w) \<Rightarrow> (\<lparr>pbs_ErrorCode = INTERNAL_ERROR, pbs_BetId = [], pbs_Error = err\<rparr>, w)
      | (Inr bet, w) \<Rightarrow>
          (\<lparr>pbs_ErrorCode = SUCCESS, pbs_BetId = BetID (heap (gs_store w) bet), pbs_Error = []\<rparr>, w))"

text \<open>The adapters as the game service of the gateway; their methods return no error.\<close>

definition gsLocal ::
    "(go_time \<Rightarrow> int) \<Rightarrow> ('r, 'm, 'w, 'd) GSUseCase \<Rightarrow> ('r, 'm, 'w, 'd) gs_world ColorGameGSService" where
  "gsLocal tz uc =
     \<lparr>gsv_PlaceBet = \<lambda>w req. (case handler_PlaceBet uc req w of (rsp, w) \<Rightarrow> (Inr rsp, w)),
      gsv_GetState = \<lambda>w req. (case local_GetState tz uc req w of (rsp, w) \<Rightarrow> (Inr rsp, w))\<rparr>"

definition gsGrpc ::
    "(go_time \<Rightarrow> int) \<Rightarrow> ('r, 'm, 'w, 'd) GSUseCase \<Rightarrow> ('r, 'm, 'w, 'd) gs_world ColorGameGSService" where
  "gsGrpc tz uc =
     \<lparr>gsv_PlaceBet = \<lambda>w req. (case grpc_PlaceBet uc req w of (rsp, w) \<Rightarrow> (Inr rsp, w)),
      gsv_GetState = \<lambda>w req. (case grpc_GetState tz uc req w of (rsp, w) \<Rightarrow> (Inr rsp, w))\<rparr>"

end
