(* ===== verification/System.thy ===== *)
theory System
  imports Gs_State Gs_Props Gateway_Props
begin

text \<open>
  The monolith, \<^verbatim>\<open>cmd/color_game/monolith/main.go\<close>, with the components wired as it wires them: the
  messages of players go through the gateway to the game service, the events of the game machine to the
  gateway and, at the result, to the settlement, whose notifications go to the gateway.  Then one bet
  is followed from the player's message to the money.
\<close>

section \<open>The wiring\<close>

record 'd monolith =
  mono_gs :: "(MemBets, GMSUseCase, MockService, 'd) gs_world"
  mono_mgr :: Manager
  mono_rounds :: "gms_call list"
  mono_tasks :: "settlement_task list"

text \<open>The gateway handler is called directly.  \<open>late\<close> is what the other goroutines do to the manager while a
  send to a full connection blocks.\<close>

definition deliver :: "(Manager \<Rightarrow> Manager) \<Rightarrow> gs_message \<Rightarrow> Manager \<Rightarrow> Manager" where
  "deliver late msg m =
     (case msg of
        gs_message.Broadcast gameCode event \<Rightarrow> gw_Broadcast gameCode event m
      | gs_message.SendToUser userID gameCode event \<Rightarrow> gw_SendToUser userID gameCode event (late m) m)"

text \<open>A message of a player, read by the pump of the connection.\<close>

definition mono_message ::
    "(MemBets, GMSUseCase, MockService, 'd) gs_world GatewayUseCase \<Rightarrow> (Manager \<Rightarrow> Manager) \<Rightarrow> int64 \<Rightarrow> string
      \<Rightarrow> 'd monolith \<Rightarrow> 'd monolith" where
  "mono_message guc late userID message M =
     (case onMessage guc userID message (late (mono_mgr M)) (mono_gs M) (mono_mgr M) of
        (w, m) \<Rightarrow> M\<lparr>mono_gs := w, mono_mgr := m\<rparr>)"

text \<open>An event of the game machine, handled by \<^verbatim>\<open>handleGameEvent\<close>: its calls reach the gateway handler, the
  round repository and the game service, which leaves the settlement to a goroutine.\<close>

definition mono_call :: "gms_call \<Rightarrow> 'd monolith \<Rightarrow> 'd monolith" where
  "mono_call call M =
     (case call of
        GatewayBroadcast gameCode event \<Rightarrow> M\<lparr>mono_mgr := gw_Broadcast gameCode event (mono_mgr M)\<rparr>
      | GSRoundResult req \<Rightarrow> M\<lparr>mono_tasks := mono_tasks M @ [snd (local_RoundResult req)]\<rparr>
      | _ \<Rightarrow> M\<lparr>mono_rounds := mono_rounds M @ [call]\<rparr>)"

definition mono_event :: "go_time \<Rightarrow> GameEvent \<Rightarrow> 'd monolith \<Rightarrow> 'd monolith" where
  "mono_event now event M = fold mono_call (fst (handleGameEvent now (gs_gms (mono_gs M)) event)) M"

text \<open>The goroutine of a settlement: what it hands to the gateway is delivered in order.\<close>

definition mono_settle ::
    "(MemBets, GMSUseCase, MockService, 'd) GSUseCase \<Rightarrow> (Manager \<Rightarrow> Manager) \<Rightarrow> settlement_task
      \<Rightarrow> 'd monolith \<Rightarrow> 'd monolith option" where
  "mono_settle uc late task M =
     (case SettleRound uc (task_round task) (task_color task) (mono_gs M) of
        None \<Rightarrow> None
      | Some (_, w) \<Rightarrow>
          Some (M\<lparr>mono_gs := w,
                  mono_mgr := fold (deliver late) (drop (length (gs_sent (mono_gs M))) (gs_sent w)) (mono_mgr M)\<rparr>))"

section \<open>What one connection is given\<close>

text \<open>\<open>got c msgs m m'\<close>: between \<open>m\<close> and \<open>m'\<close> the clients stay, and exactly \<open>msgs\<close> are queued for
  connection \<open>c\<close>.\<close>

definition got :: "nat \<Rightarrow> string list \<Rightarrow> Manager \<Rightarrow> Manager \<Rightarrow> bool" where
  "got c msgs m m' \<longleftrightarrow> clients m' = clients m \<and> enqueued (conns m' c) = enqueued (conns m c) @ msgs \<and>
     length (Send (conns m' c)) \<le> length (Send (conns m c)) + length msgs"

text \<open>While a send blocks, the pumps write and connections may be closed.\<close>

definition others_write :: "(Manager \<Rightarrow> Manager) \<Rightarrow> bool" where
  "others_write late \<longleftrightarrow> (\<forall>m c. got c [] m (late m))"

lemma got_refl: "got c [] m m"
  by (simp add: got_def)

lemma got_trans: "got c xs m m' \<Longrightarrow> got c ys m' m'' \<Longrightarrow> got c (xs @ ys) m m''"
  by (auto simp: got_def)

lemma got_onConn: "d \<noteq> c \<Longrightarrow> got c [] m (onConn d f m)"
  by (simp add: got_def)

lemma got_push: "got c [msg] m (push msg c m)"
  by (simp add: got_def push_onConn pushConn_def)

lemma got_Broadcast:
  assumes "distinct (map snd (clients m))" "c \<in> snd ` set (clients m)" "length (Send (conns m c)) < sendCap"
  shows "got c [msg] m (Ws_Manager.Broadcast msg m)"
  using fold_onConn [OF assms(1), of "offerConn msg" m c] assms(2,3)
  by (simp add: got_def Broadcast_def offer_onConn offerConn_def pushConn_def)

lemma got_SendToUser:
  assumes "map_of (clients m) u = Some c" "length (Send (conns m c)) < sendCap"
  shows "got c [msg] m (Ws_Manager.SendToUser u msg l m)"
  using assms got_push by (simp add: SendToUser_def hasRoom_def)

lemma got_other:
  assumes "distinct (map snd (clients m))" "map_of (clients m) u = Some c" "v \<noteq> u" "got c [] m l"
  shows "got c [] m (Ws_Manager.SendToUser v msg l m)"
proof (cases "map_of (clients m) v")
  case (Some d)
  have "d \<noteq> c"
  proof
    assume "d = c"
    then have "(v, c) \<in> set (clients m)" "(u, c) \<in> set (clients m)" using Some assms(2) by (auto dest: map_of_SomeD)
    with assms(1,3) inj_onD [of snd "set (clients m)" "(v, c)" "(u, c)"] show False by (simp add: distinct_map)
  qed
  then have "got c [] m (onConn d f m)" "got c [] m (onConn d f l)" for f
    using assms(4) got_trans [of c "[]" m l "[]"] by (auto simp: got_onConn)
  then show ?thesis using Some by (simp add: SendToUser_def push_onConn CloseWithReason_onConn)
qed (simp add: SendToUser_def got_refl)

lemma got_write: "got c [] m (pump_write ok d m)"
  by (auto simp: got_def pump_write_onConn writeConn_def closeConn_def split: list.splits option.splits)

text \<open>What a message of the game service is for user \<open>u\<close>.\<close>

fun for_user :: "int64 \<Rightarrow> gs_message \<Rightarrow> string list" where
  "for_user u (gs_message.Broadcast gameCode event) =
     (case convertEvent gameCode event of Some t \<Rightarrow> [t] | None \<Rightarrow> [])"
| "for_user u (gs_message.SendToUser v gameCode event) =
     (case convertEvent gameCode event of Some t \<Rightarrow> if v = u then [t] else [] | None \<Rightarrow> [])"

lemma got_deliver:
  assumes "others_write late" "distinct (map snd (clients m))" "map_of (clients m) u = Some c"
    and "length (Send (conns m c)) + length (for_user u msg) \<le> sendCap"
  shows "got c (for_user u msg) m (deliver late msg m)"
proof -
  have c: "c \<in> snd ` set (clients m)" using map_of_SomeD [OF assms(3)] by force
  have l: "got c [] m (late m)" using assms(1) by (simp add: others_write_def)
  show ?thesis
  proof (cases msg)
    case (Broadcast g e)
    with assms(4) show ?thesis using got_Broadcast [OF assms(2) c]
      by (auto simp: deliver_def gw_Broadcast_def got_refl split: option.splits)
  next
    case (SendToUser v g e)
    with assms(4) show ?thesis using got_SendToUser [OF assms(3)] got_other [OF assms(2,3) _ l]
      by (auto simp: deliver_def gw_SendToUser_def got_refl split: option.splits)
  qed
qed

lemma got_delivers:
  assumes "others_write late" "distinct (map snd (clients m))" "map_of (clients m) u = Some c"
    and "length (Send (conns m c)) + length (concat (map (for_user u) msgs)) \<le> sendCap"
  shows "got c (concat (map (for_user u) msgs)) m (fold (deliver late) msgs m)"
  using assms(2-4)
proof (induction msgs arbitrary: m)
  case Nil
  then show ?case by (simp add: got_refl)
next
  case (Cons msg msgs)
  let ?m = "deliver late msg m"
  have g: "got c (for_user u msg) m ?m" using Cons.prems by (intro got_deliver [OF assms(1)]) auto
  then have "got c (concat (map (for_user u) msgs)) ?m (fold (deliver late) msgs ?m)"
    using Cons.prems by (intro Cons.IH) (auto simp: got_def)
  from got_trans [OF g this] show ?case by simp
qed

section \<open>One bet, from the message to the money\<close>

text \<open>The texts a winning bet of \<open>a\<close> leads to.\<close>

definition event_text :: "GameEvent \<Rightarrow> string" where
  "event_text event =
     json_enc (round_state_json ''color_game''
       \<lparr>brc_RoundId = ev_RoundID event, brc_State = ev_Type event,
        brc_BettingEndTimestamp = ev_BettingEndTimestamp event, brc_LeftTime = ev_LeftTime event\<rparr>)"

definition win_text :: "string \<Rightarrow> Color \<Rightarrow> string \<Rightarrow> int64 \<Rightarrow> string" where
  "win_text r c betID a =
     json_enc (settlement_json ''color_game''
       \<lparr>sbr_RoundId = r, sbr_WinningColor = c, sbr_BetId = betID, sbr_BetColor = c, sbr_BetAmount = a,
        sbr_WinAmount = 2 * a, sbr_IsWinner = True\<rparr>)"

definition round_text :: "string \<Rightarrow> Color \<Rightarrow> string" where
  "round_text r c =
     json_enc (settlement_json ''color_game''
       \<lparr>sbr_RoundId = r, sbr_WinningColor = c, sbr_BetId = [], sbr_BetColor = 0, sbr_BetAmount = 0,
        sbr_WinAmount = 0, sbr_IsWinner = False\<rparr>)"

lemma for_user_notes:
  "concat (map (for_user u) (map (settleNote r c) bs)) =
     map (\<lambda>b. json_enc (settlement_json ''color_game''
       \<lparr>sbr_RoundId = r, sbr_WinningColor = c, sbr_BetId = BetID b, sbr_BetColor = bet_Color b, sbr_BetAmount = Amount b,
        sbr_WinAmount = calculateWin b c, sbr_IsWinner = 0 < sint (calculateWin b c)\<rparr>)) (filter (\<lambda>b. UserID b = u) bs)"
  by (induction bs) (simp_all add: settleNote_def convertEvent_def)

lemma for_user_round: "for_user u (settleBroadcast r c) = [round_text r c]"
  by (simp add: settleBroadcast_def convertEvent_def round_text_def)

text \<open>A bet the game machine service records, whichever it is.\<close>

lemma accepted_bet:
  fixes w :: "(MemBets, 'm, MockService, 'd) gs_world"
  assumes "uc = NewGSUseCase memRepo orders gms mockWallet gateway overflow"
    and "mem_table T w" "0 \<le> sint u" "0 \<le> sint a" "T + sint a \<le> 2 ^ 52"
    and "bet_outcome gms (gs_gms w) u c a = (True, Some r, g)"
  shows "\<exists>p w' B'. gs_PlaceBet uc u c a w = (Inr p, w') \<and> mem_table (T + sint a) w' \<and> gs_gms w' = g \<and>
     gs_ids w' = gs_ids w \<and> gs_sent w' = gs_sent w \<and>
     (\<forall>v. wallet_balance mockWallet (gs_wallet w') v =
        wallet_balance mockWallet (gs_wallet w) v - (if v = u then a else 0)) \<and>
     mem_pending (gs_store w') r = B' \<and>
     raised_or_added r u c a (gs_ids w (gs_nextId w)) (mem_pending (gs_store w) r) B' \<and>
     bet_matches r u c (heap (gs_store w') p) \<and> heap (gs_store w') p \<in># B'"
proof -
  have gms: "gmsService uc = gms" by (simp add: assms(1) NewGSUseCase_def)
  note inst = monolith.PlaceBet_effect [where orders = orders and gms = gms and gateway = gateway and overflow = overflow,
      folded assms(1)] monolith.PlaceBet_accepted [where orders = orders and gms = gms
      and gateway = gateway and overflow = overflow, folded assms(1)]
  have table: "monolith.table T w" using assms(2) by (simp only: mem_table_iff)
  have out: "bet_outcome (gmsService uc) (gs_gms w) u c a = (True, Some r, g)" using assms(6) by (simp only: gms)
  from inst(1) [OF table assms(3-5) out TrueI] obtain res w' where
    w': "gs_PlaceBet uc u c a w = (res, w')" "monolith.table (T + sint a) w'" "gs_gms w' = g"
      "\<forall>v. wallet_balance mockWallet (gs_wallet w') v =
        wallet_balance mockWallet (gs_wallet w) v - (if True \<and> u = v then a else 0)" "gs_sent w' = gs_sent w" by blast
  from inst(2) [OF table assms(3) TrueI out] w'(1) obtain p B' where
    p: "res = Inr p" "mem_pending (gs_store w') = (mem_pending (gs_store w))(r := B')"
      "raised_or_added r u c a (gs_ids w (gs_nextId w)) (mem_pending (gs_store w) r) B'" "gs_ids w' = gs_ids w"
      "bet_matches r u c (heap (gs_store w') p)" "heap (gs_store w') p \<in># B'"
    by auto
  show ?thesis
    by (intro exI [of _ p] exI [of _ w'] exI [of _ B']) (use w' p in \<open>auto simp: mem_table_iff\<close>)
qed

text \<open>A player's message that is a bet the game machine accepts.\<close>

lemma mono_message_bet:
  assumes "uc = NewGSUseCase memRepo orders gmsLocal mockWallet True overflow" "colorGameSvc guc = gsLocal tz uc"
    and "mem_table T (mono_gs M)" "0 \<le> sint u" "0 \<le> sint a" "T + sint a \<le> 2 ^ 52"
    and "valid_utf8 color" "map_of ColorGameReward_value (''REWARD_'' @ to_upper color) = Some c"
    and "bet_outcome gmsLocal (gs_gms (mono_gs M)) u c a = (True, Some r, g)"
    and "map_of (clients (mono_mgr M)) u = Some d" "length (Send (conns (mono_mgr M) d)) < sendCap"
    and "M1 = mono_message guc late u (json_enc (bet_message color a)) M"
  shows "\<exists>b B'. got d [json_enc (place_bet_rsp SUCCESS (BetID b) [])] (mono_mgr M) (mono_mgr M1) \<and> mem_table (T + sint a) (mono_gs M1) \<and>
     gs_gms (mono_gs M1) = g \<and> gs_ids (mono_gs M1) = gs_ids (mono_gs M) \<and> gs_sent (mono_gs M1) = gs_sent (mono_gs M) \<and>
     (\<forall>v. wallet_balance mockWallet (gs_wallet (mono_gs M1)) v =
        wallet_balance mockWallet (gs_wallet (mono_gs M)) v - (if v = u then a else 0)) \<and>
     mem_pending (gs_store (mono_gs M1)) r = B' \<and>
     raised_or_added r u c a (gs_ids (mono_gs M) (gs_nextId (mono_gs M))) (mem_pending (gs_store (mono_gs M)) r) B' \<and>
     bet_matches r u c b \<and> b \<in># B' \<and> mono_tasks M1 = mono_tasks M"
proof -
  let ?w = "mono_gs M"
  from accepted_bet [OF assms(1,3-6,9)] obtain p w' B' where
    w': "gs_PlaceBet uc u c a ?w = (Inr p, w')" "mem_table (T + sint a) w'" "gs_gms w' = g" "gs_ids w' = gs_ids ?w"
      "gs_sent w' = gs_sent ?w"
      "\<forall>v. wallet_balance mockWallet (gs_wallet w') v = wallet_balance mockWallet (gs_wallet ?w) v - (if v = u then a else 0)"
      "mem_pending (gs_store w') r = B'"
      "raised_or_added r u c a (gs_ids ?w (gs_nextId ?w)) (mem_pending (gs_store ?w) r) B'"
      "bet_matches r u c (heap (gs_store w') p)" "heap (gs_store w') p \<in># B'" by blast
  let ?b = "heap (gs_store w') p" and ?reply = "json_enc (place_bet_rsp SUCCESS (BetID (heap (gs_store w') p)) [])"
  have "HandleMessage guc u (json_enc (bet_message color a)) ?w = (Inr ?reply, w')"
    using w'(1) assms(7,8)
    by (simp add: HandleMessage_bet handleColorGame_def payload_of_bet assms(2) gsLocal_def handler_PlaceBet_def)
  then have M1: "M1 = M\<lparr>mono_gs := w', mono_mgr := Ws_Manager.SendToUser u ?reply (late (mono_mgr M)) (mono_mgr M)\<rparr>"
    by (simp add: assms(12) mono_message_def onMessage_def)
  show ?thesis
    using got_SendToUser [OF assms(10,11), of ?reply] w'(2-)
    by (intro exI [of _ ?b] exI [of _ B']) (auto simp: M1)
qed

text \<open>An event of a phase: it is shown, and the result starts a settlement.\<close>

definition shown_types :: "ColorGameState set" where
  "shown_types = {GAME_STATE_ROUND_STARTED, GAME_STATE_BETTING, GAME_STATE_DRAWING, GAME_STATE_RESULT,
     GAME_STATE_ROUND_ENDED, GAME_STATE_STOPPED}"

definition event_tasks :: "GameEvent \<Rightarrow> settlement_task list" where
  "event_tasks e =
     (case ev_Data e of
        ColorData c \<Rightarrow> if ev_Type e = GAME_STATE_RESULT then [SettleWith True (ev_RoundID e) c] else []
      | _ \<Rightarrow> [])"

lemma mono_event_effect:
  assumes "ev_Type e \<in> shown_types"
    and "gatewayBroadcaster (gs_gms (mono_gs M))" "gsBroadcaster (gs_gms (mono_gs M))"
    and "distinct (map snd (clients (mono_mgr M)))" "map_of (clients (mono_mgr M)) u = Some d"
    and "length (Send (conns (mono_mgr M) d)) < sendCap"
    and "M' = mono_event now e M"
  shows "mono_gs M' = mono_gs M \<and> got d [event_text e] (mono_mgr M) (mono_mgr M') \<and>
     mono_tasks M' = mono_tasks M @ event_tasks e"
proof -
  have d: "d \<in> snd ` set (clients (mono_mgr M))" using map_of_SomeD [OF assms(5)] by force
  show ?thesis
    using assms(1-3) got_Broadcast [OF assms(4) d assms(6)]
    by (cases "gameRoundRepo (gs_gms (mono_gs M))"; cases "ev_Type e = GAME_STATE_RESULT"; cases "ev_Data e")
      (auto simp: assms(7) mono_event_def handleGameEvent_def eventBroadcast_def mono_call_def gw_Broadcast_def
        convertEvent_def event_text_def local_RoundResult_def shown_types_def event_tasks_def Let_def)
qed

lemma no_bet: "\<forall>b \<in># B. UserID b \<noteq> u \<Longrightarrow> filter_mset (\<lambda>b. UserID b = u) B = {#}"
  by (induction B) auto

lemma new_bet:
  "raised_or_added r u c a betID B B' \<Longrightarrow> \<forall>b \<in># B. UserID b \<noteq> u \<Longrightarrow>
   \<exists>now. B' = add_mset (NewBet betID now r u c a) B"
  by (auto simp: raised_or_added_def bet_matches_def)

lemma single_bet:
  assumes "mset bs = B'" "raised_or_added r u c a betID B B'" "\<forall>b \<in># B. UserID b \<noteq> u"
  shows "\<exists>now. filter (\<lambda>b. UserID b = u) bs = [NewBet betID now r u c a]"
proof -
  from new_bet [OF assms(2,3)] obtain now where B': "B' = add_mset (NewBet betID now r u c a) B" ..
  have "filter_mset (\<lambda>b. UserID b = u) B = {#}" using assms(3) by (rule no_bet)
  then have "mset (filter (\<lambda>b. UserID b = u) bs) = {#NewBet betID now r u c a#}"
    using assms(1) B' by (simp add: NewBet_def)
  then show ?thesis by (metis mset_single_iff_right)
qed

lemma only_bet_id:
  assumes "raised_or_added r u c a betID B B'" "\<forall>b \<in># B. UserID b \<noteq> u" "b \<in># B'" "bet_matches r u c b"
  shows "BetID b = betID"
proof -
  have u: "UserID b = u" using assms(4) by (simp add: bet_matches_def)
  from new_bet [OF assms(1,2)] obtain now where "B' = add_mset (NewBet betID now r u c a) B" ..
  with assms(2,3) u have b: "b = NewBet betID now r u c a" by auto
  show ?thesis by (subst b) (simp add: NewBet_def)
qed

lemma stake_none: "\<forall>b \<in># B. UserID b \<noteq> u \<Longrightarrow> stake B u c = 0"
  by (induction B) auto

text \<open>The settlement of a round in which \<open>u\<close> has one bet, on the color that wins.\<close>

lemma settle_one_bet:
  fixes w :: "(MemBets, 'm, MockService, 'd) gs_world"
  assumes "uc = NewGSUseCase memRepo orders gms mockWallet True overflow" "orders_persist uc rows"
    and "mem_table T w" "T \<le> 2 ^ 52"
    and "raised_or_added r u c a betID B (mem_pending (gs_store w) r)" "\<forall>b \<in># B. UserID b \<noteq> u"
    and "0 < sint a" "sint a \<le> 2 ^ 52"
  shows "\<exists>sum w' msgs. SettleRound uc r c w = Some (Inr sum, w') \<and> gs_sent w' = gs_sent w @ msgs \<and>
     concat (map (for_user u) msgs) = [win_text r c betID a, round_text r c] \<and>
     wallet_balance mockWallet (gs_wallet w') u = wallet_balance mockWallet (gs_wallet w) u + 2 * a \<and> gs_gms w' = gs_gms w"
proof -
  let ?own = "filter (\<lambda>b. UserID b = u)"
  have table: "monolith.table T w" using assms(3) by (simp only: mem_table_iff)
  have inv: "mem_inv (gs_store w)" using assms(3) by (simp add: mem_table_def)
  have uc: "gs_gateway uc" by (simp add: assms(1) NewGSUseCase_def)
  from monolith.SettleRound_effect [where orders = orders and gms = gms and gateway = True and overflow = overflow,
      folded assms(1), OF inv monolith.table_payable [OF table assms(4)] assms(2), of r c] uc
  obtain sum w' bs where w': "SettleRound uc r c w = Some (Inr sum, w')"
    "mset bs = mem_pending (gs_store w) r"
    "wallet_balance mockWallet (gs_wallet w') u = wallet_balance mockWallet (gs_wallet w) u + winnings bs c u"
    "gs_sent w' = gs_sent w @ map (settleNote r c) bs @ [settleBroadcast r c]" "gs_gms w' = gs_gms w" by auto
  from single_bet [OF w'(2) assms(5,6)] obtain now where own: "?own bs = [NewBet betID now r u c a]" ..
  have win: "winnings bs c u = 2 * a"
    using raised_stake [OF assms(5), of u c] stake_none [OF assms(6), of c] by (simp add: winnings_stake w'(2))
  have "concat (map (for_user u) (map (settleNote r c) bs @ [settleBroadcast r c])) =
      [win_text r c betID a, round_text r c]"
  proof -
    have "fair_amount a" using assms(7,8) by (simp add: fair_amount_def)
    from sint_double [OF this] have "0 < sint (a * 2)" using assms(7) by simp
    then show ?thesis
      by (simp only: map_append concat_append for_user_notes own)
        (simp add: for_user_round win_text_def NewBet_def calculateWin_def mult.commute)
  qed
  with w' win show ?thesis by metis
qed

lemma mono_settle_bet:
  assumes "uc = NewGSUseCase memRepo orders gmsLocal mockWallet True overflow" "orders_persist uc rows"
    and "mem_table T (mono_gs M)" "T \<le> 2 ^ 52" "others_write late"
    and "raised_or_added r u c a betID B (mem_pending (gs_store (mono_gs M)) r)" "\<forall>b \<in># B. UserID b \<noteq> u"
    and "0 < sint a" "sint a \<le> 2 ^ 52"
    and "distinct (map snd (clients (mono_mgr M)))" "map_of (clients (mono_mgr M)) u = Some d"
    and "length (Send (conns (mono_mgr M) d)) + 2 \<le> sendCap"
  shows "\<exists>M'. mono_settle uc late (SettleWith True r c) M = Some M' \<and>
     got d [win_text r c betID a, round_text r c] (mono_mgr M) (mono_mgr M') \<and>
     wallet_balance mockWallet (gs_wallet (mono_gs M')) u =
       wallet_balance mockWallet (gs_wallet (mono_gs M)) u + 2 * a \<and>
     gs_gms (mono_gs M') = gs_gms (mono_gs M)"
proof -
  from settle_one_bet [OF assms(1-4,6-9)] obtain sum w' msgs where
    w': "SettleRound uc r c (mono_gs M) = Some (Inr sum, w')" "gs_sent w' = gs_sent (mono_gs M) @ msgs"
      "concat (map (for_user u) msgs) = [win_text r c betID a, round_text r c]"
      "wallet_balance mockWallet (gs_wallet w') u = wallet_balance mockWallet (gs_wallet (mono_gs M)) u + 2 * a"
      "gs_gms w' = gs_gms (mono_gs M)" by blast
  from got_delivers [OF assms(5,10,11), of msgs] assms(12) w'(3)
  have "got d [win_text r c betID a, round_text r c] (mono_mgr M) (fold (deliver late) msgs (mono_mgr M))" by simp
  then show ?thesis using w' by (simp add: mono_settle_def)
qed


definition sample_monolith :: "BetOrder list monolith" where
  "sample_monolith =
     \<lparr>mono_gs = sample_world sample_gms, mono_mgr = run_register 0 (snd (Register 7 NewManager)),
      mono_rounds = [], mono_tasks = []\<rparr>"

definition sample_guc :: "(MemBets, GMSUseCase, MockService, BetOrder list) gs_world GatewayUseCase" where
  "sample_guc = \<lparr>colorGameSvc = gsLocal (\<lambda>_. 0) (sample_gs gmsLocal), jsonError = ''bad'', floatFormat = id\<rparr>"

lemma sample_start:
  "mem_table 0 (mono_gs sample_monolith)" "mem_pending (gs_store (mono_gs sample_monolith)) = (\<lambda>_. {#})"
  "ws_reach (mono_mgr sample_monolith)"
  "map_of (clients (mono_mgr sample_monolith)) 7 = Some 0" "Send (conns (mono_mgr sample_monolith) 0) = []"
  "enqueued (conns (mono_mgr sample_monolith) 0) = []"
  "valid_utf8 ''red''" "map_of ColorGameReward_value (''REWARD_'' @ to_upper ''red'') = Some REWARD_RED"
  "colorGameSvc sample_guc = gsLocal (\<lambda>_. 0) (sample_gs gmsLocal)" "others_write id"
  "''0'' = gs_ids (mono_gs sample_monolith) (gs_nextId (mono_gs sample_monolith))"
proof -
  let ?M = sample_monolith
  show "mem_table 0 (mono_gs ?M)" "mem_pending (gs_store (mono_gs ?M)) = (\<lambda>_. {#})"
    using sample_world_table by (simp_all add: sample_monolith_def)
  show "ws_reach (mono_mgr ?M)"
  proof (rule ws_reach.step [OF ws_reach.start])
    show "ws_step NewManager (mono_mgr ?M)" unfolding sample_monolith_def monolith.simps
      by (rule connect) (simp add: Register_def NewManager_def)
  qed
  show "map_of (clients (mono_mgr ?M)) 7 = Some 0" "Send (conns (mono_mgr ?M) 0) = []"
    "enqueued (conns (mono_mgr ?M) 0) = []"
    by (simp_all add: sample_monolith_def ws_defs NewManager_def newConnection_def)
  show "valid_utf8 ''red''" by (rule ascii_valid_utf8) (simp add: byte_def)
  show "map_of ColorGameReward_value (''REWARD_'' @ to_upper ''red'') = Some REWARD_RED" by code_simp
  show "''0'' = gs_ids (mono_gs ?M) (gs_nextId (mono_gs ?M))"
    by (simp add: sample_monolith_def sample_world_def sample_id_of_def itoa_def nat_digits.simps digit_char_def)
qed (simp_all add: sample_guc_def others_write_def got_refl)

lemma sample_outcome:
  "bet_outcome gmsLocal (gs_gms (mono_gs sample_monolith)) 7 REWARD_RED 100 =
     (True, Some ''R1'', snd (snd (bet_outcome gmsLocal sample_gms 7 REWARD_RED 100)))"
  "gatewayBroadcaster (snd (snd (bet_outcome gmsLocal sample_gms 7 REWARD_RED 100)))"
  "gsBroadcaster (snd (snd (bet_outcome gmsLocal sample_gms 7 REWARD_RED 100)))"
  by (simp_all add: sample_monolith_def sample_world_def sample_gms_evals bet_outcome_def isValidColor_def)

end
