(* ===== verification/Accounts.thy ===== *)
theory Accounts
  imports User_Props
begin

text \<open>
  The tables of the user module stay well-formed: whatever requests are served, in whatever order and
  with whatever failures of the database, names, e-mail addresses and identifiers of accounts stay unique,
  only hashes of admissible passwords are stored, and every session belongs to an account.
\<close>

section \<open>Well-formed tables\<close>

definition account_ok :: "crypto \<Rightarrow> User \<Rightarrow> bool" where
  "account_ok C u \<longleftrightarrow> user_Username u \<noteq> [] \<and> user_Email u \<noteq> [] \<and> user_Status u = UserStatusActive \<and>
     (\<exists>salt password. 6 \<le> length password \<and> bcrypt_Generate C salt password = Inr (user_PasswordHash u))"

definition accounts_ok :: "crypto \<Rightarrow> User list \<Rightarrow> Session list \<Rightarrow> bool" where
  "accounts_ok C us ss \<longleftrightarrow> list_all (account_ok C) us \<and> distinct (map user_Username us) \<and>
     distinct (map user_Email us) \<and> distinct (map user_UserID us) \<and>
     list_all (\<lambda>s. ses_UserID s \<in> set (map user_UserID us)) ss"

text \<open>What gorm documents beyond \<open>users_ok\<close> and \<open>sessions_ok\<close>: a statement that fails changes nothing, and
  the update of one column leaves the others.\<close>

definition no_login :: "User \<Rightarrow> User" where
  "no_login u = u\<lparr>user_LastLoginAt := None\<rparr>"

definition failures_keep :: "'d gorm \<Rightarrow> ('d \<Rightarrow> User list) \<Rightarrow> ('d \<Rightarrow> Session list) \<Rightarrow> bool" where
  "failures_keep G us ss \<longleftrightarrow>
     (\<forall>d s e d'. gn_Create G d s = (Some e, d') \<longrightarrow> us d' = us d \<and> ss d' = ss d) \<and>
     (\<forall>d s e d'. gn_Updates G d s = (Some e, d') \<longrightarrow> us d' = us d \<and> ss d' = ss d) \<and>
     (\<forall>d c e d'. gn_Delete G d c = (Some e, d') \<longrightarrow> us d' = us d \<and> ss d' = ss d) \<and>
     (\<forall>d i t e d'. gu_UpdateLastLogin G d i t = (e, d') \<longrightarrow> map no_login (us d') = map no_login (us d))"

text \<open>The requests that reach the use case.\<close>

datatype user_call =
    CallRegister string string string
  | CallLogin string string
  | CallRefresh string
  | CallLogout string
  | CallValidate string

fun user_serve :: "'d UserUseCase \<Rightarrow> user_call \<Rightarrow> 'd user_world \<Rightarrow> 'd user_world" where
  "user_serve uc (CallRegister username password email) w = snd (user_Register uc username password email w)"
| "user_serve uc (CallLogin username password) w = snd (Login uc username password w)"
| "user_serve uc (CallRefresh refreshToken) w = snd (RefreshToken uc refreshToken w)"
| "user_serve uc (CallLogout token) w = snd (Logout uc token w)"
| "user_serve uc (CallValidate token) w = snd (ValidateToken uc token w)"

section \<open>Every statement keeps them well-formed\<close>

lemma no_login_sel [simp]:
  "user_Username (no_login u) = user_Username u" "user_Email (no_login u) = user_Email u"
  "user_UserID (no_login u) = user_UserID u" "account_ok C (no_login u) = account_ok C u"
  by (simp_all add: no_login_def account_ok_def)

lemma accounts_ok_no_login: "accounts_ok C (map no_login us) ss \<longleftrightarrow> accounts_ok C us ss"
  by (simp add: accounts_ok_def list.pred_map comp_def image_image)

definition tables_laws :: "'d gorm \<Rightarrow> ('d \<Rightarrow> User list) \<Rightarrow> ('d \<Rightarrow> Session list) \<Rightarrow> bool" where
  "tables_laws G us ss \<longleftrightarrow> users_ok G us ss \<and> sessions_ok G us ss \<and> failures_keep G us ss"

lemma laws_users: "tables_laws G us ss \<Longrightarrow> users_ok G us ss"
  and laws_sessions: "tables_laws G us ss \<Longrightarrow> sessions_ok G us ss"
  and laws_failures: "tables_laws G us ss \<Longrightarrow> failures_keep G us ss"
  by (simp_all add: tables_laws_def)

lemma UpdateLastLogin_ok:
  assumes L: "tables_laws G us ss" and run: "UpdateLastLogin G i w = (e, w')"
    and ok: "accounts_ok C (us (uw_db w)) (ss (uw_db w))"
  shows "accounts_ok C (us (uw_db w')) (ss (uw_db w'))"
proof -
  from run obtain t x where t: "gu_UpdateLastLogin G (uw_db w) i t = (x, uw_db w')"
    by (auto simp: UpdateLastLogin_def userNow_def split: prod.splits)
  then have "map no_login (us (uw_db w')) = map no_login (us (uw_db w))"
    using laws_failures [OF L] unfolding failures_keep_def by blast
  moreover have "ss (uw_db w') = ss (uw_db w)" by (rule users_LastLogin [OF laws_users [OF L] t])
  ultimately show ?thesis using ok by (metis accounts_ok_no_login)
qed

lemma session_Create_ok:
  assumes L: "tables_laws G us ss" and run: "session_Create G s d = (e, d')"
    and ok: "accounts_ok C (us d) (ss d)" "ses_UserID s \<in> user_UserID ` set (us d)"
  shows "accounts_ok C (us d') (ss d')"
proof -
  obtain x where x: "gn_Create G d s = (x, d')" using run by (auto simp: session_Create_def split: prod.splits)
  show ?thesis
  proof (cases x)
    case None
    with sessions_Create [OF laws_sessions [OF L]] x ok show ?thesis by (fastforce simp: accounts_ok_def)
  next
    case (Some e)
    with laws_failures [OF L] x have "us d' = us d \<and> ss d' = ss d" unfolding failures_keep_def by blast
    with ok show ?thesis by simp
  qed
qed

lemma session_Update_ok:
  assumes L: "tables_laws G us ss" and run: "session_Update G s d = (e, d')" and ok: "accounts_ok C (us d) (ss d)"
  shows "accounts_ok C (us d') (ss d')"
proof -
  obtain x where x: "gn_Updates G d s = (x, d')" using run by (auto simp: session_Update_def split: prod.splits)
  show ?thesis
  proof (cases x)
    case None
    with sessions_Updates [OF laws_sessions [OF L]] x ok show ?thesis by (auto simp: accounts_ok_def list_all_iff)
  next
    case (Some e)
    with laws_failures [OF L] x have "us d' = us d \<and> ss d' = ss d" unfolding failures_keep_def by blast
    with ok show ?thesis by simp
  qed
qed

lemma delete_ok:
  assumes L: "tables_laws G us ss" and run: "gn_Delete G d c = (x, d')" and ok: "accounts_ok C (us d) (ss d)"
  shows "accounts_ok C (us d') (ss d')"
proof (cases x)
  case None
  with sessions_Delete [OF laws_sessions [OF L]] run ok show ?thesis by (auto simp: accounts_ok_def list_all_iff)
next
  case (Some e)
  with laws_failures [OF L] run have "us d' = us d \<and> ss d' = ss d" unfolding failures_keep_def by blast
  with ok show ?thesis by simp
qed

section \<open>Every request keeps them well-formed\<close>

lemma Register_ok:
  assumes L: "tables_laws (uc_db uc) us ss" and run: "user_Register uc username password email w = (r, w')"
    and ok: "accounts_ok (uc_crypto uc) (us (uw_db w)) (ss (uw_db w))"
  shows "accounts_ok (uc_crypto uc) (us (uw_db w')) (ss (uw_db w'))"
proof (cases r)
  case (Inl err)
  with run users_Create_fails [OF laws_users [OF L]] ok show ?thesis
    by (auto simp: user_Register_def user_Create_def Let_def split: sum.splits if_splits prod.splits bool.splits)
next
  case (Inr userID)
  with run have reg: "user_Register uc username password email w = (Inr userID, w')" by simp
  have email: "email \<noteq> []" using reg by (auto simp: user_Register_def split: if_splits)
  obtain hashed user d' where x: "username \<noteq> []" "6 \<le> length password"
    "UsernameExists (uc_db uc) username (uw_db w) = Inr False"
    "EmailExists (uc_db uc) email (uw_db w) = Inr False"
    "bcrypt_Generate (uc_crypto uc) (uw_salts w) password = Inr hashed"
    "gu_Create (uc_db uc) (uw_db w)
       \<lparr>user_UserID = 0, user_Username = username, user_PasswordHash = hashed, user_Email = email,
        user_Status = UserStatusActive, user_CreatedAt = zero_time, user_LastLoginAt = None\<rparr>
       = (Inr user, d')" "w' = w\<lparr>uw_salts := Suc (uw_salts w), uw_db := d'\<rparr>"
    using reg by (auto elim!: user_RegisterE simp: user_Create_def split: sum.splits prod.splits)
  have fresh: "username \<notin> user_Username ` set (us (uw_db w))" "email \<notin> user_Email ` set (us (uw_db w))"
    using x(3,4) exists_sound [OF laws_users [OF L]]
    by (fastforce simp: UsernameExists_def EmailExists_def split: sum.splits)+
  from users_Create [OF laws_users [OF L] x(6)] obtain i t where
    new: "us d' = us (uw_db w) @ [user]" "ss d' = ss (uw_db w)" "i \<notin> user_UserID ` set (us (uw_db w))"
      "user = \<lparr>user_UserID = i, user_Username = username, user_PasswordHash = hashed, user_Email = email,
        user_Status = UserStatusActive, user_CreatedAt = t, user_LastLoginAt = None\<rparr>" by auto
  then have "account_ok (uc_crypto uc) user" using x(1,2,5) email by (auto simp: account_ok_def)
  with new fresh ok x(7) show ?thesis by (auto simp: accounts_ok_def list_all_iff)
qed

lemma Login_ok:
  assumes L: "tables_laws (uc_db uc) us ss" and run: "Login uc username password w = (r, w')"
    and ok: "accounts_ok C (us (uw_db w)) (ss (uw_db w))"
  shows "accounts_ok C (us (uw_db w')) (ss (uw_db w'))"
proof (cases "\<exists>user w1 tok expiresAt rt w2 e d'. GetByUsername (uc_db uc) username (uw_db w) = Inr user \<and>
    generateToken uc (user_UserID user) (user_Username user) w = (Inr (tok, expiresAt), w1) \<and>
    generateRefreshToken w1 = (Inr rt, w2) \<and>
    session_Create (uc_db uc) \<lparr>ses_SessionID = rt, ses_UserID = user_UserID user, ses_Token = tok,
       ses_ExpiresAt = expiresAt + refreshGrace, ses_CreatedAt = zero_time\<rparr> (uw_db w2) = (e, d') \<and>
    w' = (if e = None then snd (UpdateLastLogin (uc_db uc) (user_UserID user) (w2\<lparr>uw_db := d'\<rparr>)) else w2\<lparr>uw_db := d'\<rparr>)")
  case True
  then obtain user w1 tok expiresAt rt w2 e d' where x: "GetByUsername (uc_db uc) username (uw_db w) = Inr user"
    "generateToken uc (user_UserID user) (user_Username user) w = (Inr (tok, expiresAt), w1)"
    "generateRefreshToken w1 = (Inr rt, w2)"
    "session_Create (uc_db uc) \<lparr>ses_SessionID = rt, ses_UserID = user_UserID user, ses_Token = tok,
       ses_ExpiresAt = expiresAt + refreshGrace, ses_CreatedAt = zero_time\<rparr> (uw_db w2) = (e, d')"
    "w' = (if e = None then snd (UpdateLastLogin (uc_db uc) (user_UserID user) (w2\<lparr>uw_db := d'\<rparr>)) else w2\<lparr>uw_db := d'\<rparr>)"
    by blast
  have db: "uw_db w2 = uw_db w" using generateToken_db [OF x(2)] generateRefreshToken_db [OF x(3)] by simp
  with GetByUsername_sound [OF laws_users [OF L] x(1)] ok have
    "accounts_ok C (us d') (ss d')" by (intro session_Create_ok [OF L x(4)]) auto
  then show ?thesis using x(5) UpdateLastLogin_ok [OF L prod.collapse [symmetric], of _ "w2\<lparr>uw_db := d'\<rparr>"] by simp
next
  case False
  then have "uw_db w' = uw_db w" using run generateToken_db generateRefreshToken_db
    unfolding Login_def by (fastforce split: sum.splits if_splits prod.splits option.splits simp: Let_def)
  with ok show ?thesis by simp
qed

lemma RefreshToken_ok:
  assumes L: "tables_laws (uc_db uc) us ss" and run: "RefreshToken uc rt w = (r, w')"
    and ok: "accounts_ok C (us (uw_db w)) (ss (uw_db w))"
  shows "accounts_ok C (us (uw_db w')) (ss (uw_db w'))"
proof -
  let ?D = "\<lambda>d'. d' = uw_db w \<or> (\<exists>i e. session_Delete (uc_db uc) i (uw_db w) = (e, d')) \<or>
      (\<exists>s e. session_Update (uc_db uc) s (uw_db w) = (e, d'))"
  have keep: "?D (uw_db w')"
  proof (cases "GetBySessionID (uc_db uc) rt (uw_db w)")
    case session: (Inr session)
    show ?thesis
    proof (cases "uw_clock w (uw_reads w) > ses_ExpiresAt session")
      case True
      obtain e d where "session_Delete (uc_db uc) (ses_SessionID session) (uw_db w) = (e, d)" by fastforce
      with run session True have "session_Delete (uc_db uc) (ses_SessionID session) (uw_db w) = (e, uw_db w')"
        by (auto simp: RefreshToken_def userNow_def)
      then show ?thesis by blast
    next
      case False
      let ?w = "w\<lparr>uw_reads := Suc (uw_reads w)\<rparr>"
      show ?thesis
      proof (cases "\<exists>user tok w1. GetByID (uc_db uc) (ses_UserID session) (uw_db w) = Inr user \<and> IsActive user \<and>
          generateToken uc (user_UserID user) (user_Username user) ?w = (Inr tok, w1)")
        case True
        then obtain user tok expiresAt w1 where x: "GetByID (uc_db uc) (ses_UserID session) (uw_db w) = Inr user"
          "IsActive user" "generateToken uc (user_UserID user) (user_Username user) ?w = (Inr (tok, expiresAt), w1)"
          by auto
        obtain e d where up: "session_Update (uc_db uc) (session\<lparr>ses_Token := tok\<rparr>) (uw_db w) = (e, d)" by fastforce
        have "uw_db w1 = uw_db w" using generateToken_db [OF x(3)] by simp
        with run session False x up have "uw_db w' = d"
          by (cases e) (auto simp: RefreshToken_def userNow_def)
        with up show ?thesis by blast
      next
        case no: False
        have "uw_db w' = uw_db w"
        proof (cases "GetByID (uc_db uc) (ses_UserID session) (uw_db w)")
          case (Inl e)
          with run session False show ?thesis by (auto simp: RefreshToken_def userNow_def)
        next
          case user: (Inr user)
          obtain g w1 where g: "generateToken uc (user_UserID user) (user_Username user) ?w = (g, w1)" by fastforce
          with run session False user no generateToken_db [OF g] show ?thesis
            by (cases g) (auto simp: RefreshToken_def userNow_def split: if_splits)
        qed
        then show ?thesis by blast
      qed
    qed
  qed (use run in \<open>auto simp: RefreshToken_def\<close>)
  from keep show ?thesis
  proof (elim disjE exE)
    fix i e
    assume "session_Delete (uc_db uc) i (uw_db w) = (e, uw_db w')"
    then show ?thesis using delete_ok [OF L _ ok] by (auto simp: session_Delete_def split: prod.splits)
  next
    fix s e
    assume "session_Update (uc_db uc) s (uw_db w) = (e, uw_db w')"
    then show ?thesis by (rule session_Update_ok [OF L _ ok])
  qed (use ok in simp)
qed

lemma user_serve_ok:
  assumes L: "tables_laws (uc_db uc) us ss" and ok: "accounts_ok (uc_crypto uc) (us (uw_db w)) (ss (uw_db w))"
  shows "accounts_ok (uc_crypto uc) (us (uw_db (user_serve uc call w))) (ss (uw_db (user_serve uc call w)))"
proof (cases call)
  case (CallRegister username password email)
  then show ?thesis using Register_ok [OF L prod.collapse [symmetric] ok] by simp
next
  case (CallLogin username password)
  then show ?thesis using Login_ok [OF L prod.collapse [symmetric] ok] by simp
next
  case (CallRefresh rt)
  then show ?thesis using RefreshToken_ok [OF L prod.collapse [symmetric] ok] by simp
next
  case (CallLogout token)
  then show ?thesis using delete_ok [OF L _ ok] by (auto simp: Logout_def DeleteByToken_def split: prod.splits)
next
  case (CallValidate token)
  then show ?thesis using ok by (simp add: ValidateToken_def userNow_def Let_def)
qed

text \<open>C16. The tables of the user module keep their type.  Whatever requests are served, in any order and whatever
  statements of the database fail, every account has a name, an address and the hash of a password of at
  least six characters, names, addresses and identifiers differ, and every session belongs to an account.\<close>

theorem accounts_stay_ok:
  assumes "tables_laws (uc_db uc) us ss" "accounts_ok (uc_crypto uc) (us (uw_db w)) (ss (uw_db w))"
    and "w' = fold (user_serve uc) calls w"
  shows "accounts_ok (uc_crypto uc) (us (uw_db w')) (ss (uw_db w'))"
  unfolding assms(3) using assms(2)
  by (induction calls arbitrary: w) (simp_all add: user_serve_ok [OF assms(1)])

theorem accounts_stay_ok_witness:
  "accounts_ok sample_crypto (fst (uw_db ana_logged_in)) (snd (uw_db ana_logged_in))"
proof -
  have laws: "tables_laws table_gorm fst snd"
    using table_users_ok table_sessions_ok
    by (auto simp: tables_laws_def failures_keep_def table_gorm_def no_login_def)
  have "ana_logged_in =
      fold (user_serve sample_users) [CallRegister ''ana'' ''secret'' ''a@b'', CallLogin ''ana'' ''secret''] no_users"
    by (simp add: ana_register ana_login)
  from accounts_stay_ok [OF _ _ this, of fst snd] laws show ?thesis
    by (simp add: accounts_ok_def no_users_def)
qed

end
