(* ===== verification/Pprof_Sessions.thy ===== *)
theory Pprof_Sessions
  imports Go_Base "HOL-Library.AList" "HOL-Library.Sublist" "HOL-Library.Multiset"
begin

text \<open>
  The table of profile viewers of the operations server (\<^verbatim>\<open>cmd/ops/main.go\<close>): \<^verbatim>\<open>GetOrStartPprofSession\<close>,
  the monitor of idle viewers, the goroutine that waits for a viewer, and the clean-up after a deletion.
  Each of them holds \<^verbatim>\<open>pprofMutex\<close> while it works, so each is one step; processes end at any time.
\<close>

section \<open>State\<close>

text \<open>A started command, and a session, whose command is named by its position in the list of started
  commands.  Ports are what the operating system gives.\<close>

record pprof_cmd =
  pc_tool :: string
  pc_port :: int
  pc_path :: string

record PprofSession =
  ps_Port :: int
  ps_Cmd :: nat
  ps_LastAccess :: go_time

text \<open>\<open>pw_ended\<close>: the processes \<^verbatim>\<open>Wait\<close> has returned for, with whether they exited by themselves, which is what
  \<^verbatim>\<open>ProcessState.Exited\<close> reports.  The operating system answers the requests for ports and the starts.\<close>

record pprof_world =
  pw_sessions :: "(string \<times> PprofSession) list"
  pw_cmds :: "pprof_cmd list"
  pw_ended :: "(nat \<times> bool) list"
  pw_killed :: "nat list"
  pw_clock :: "nat \<Rightarrow> go_time"
  pw_reads :: nat
  pw_ports :: "nat \<Rightarrow> int go_result"
  pw_draws :: nat
  pw_start :: "nat \<Rightarrow> go_error option"
  pw_starts :: nat

definition pprofNow :: "pprof_world \<Rightarrow> go_time \<times> pprof_world" where
  "pprofNow w = (pw_clock w (pw_reads w), w\<lparr>pw_reads := Suc (pw_reads w)\<rparr>)"

definition Exited :: "pprof_world \<Rightarrow> nat \<Rightarrow> bool" where
  "Exited w c \<longleftrightarrow> (c, True) \<in> set (pw_ended w)"

text \<open>The command that was started, \<^verbatim>\<open>go tool pprof\<close>, is one process here, and \<^verbatim>\<open>Kill\<close> ends it at once.\<close>

definition kill_process :: "nat \<Rightarrow> pprof_world \<Rightarrow> pprof_world" where
  "kill_process c w = w\<lparr>pw_killed := pw_killed w @ [c]\<rparr>"

definition getFreePort :: "pprof_world \<Rightarrow> int go_result \<times> pprof_world" where
  "getFreePort w = (pw_ports w (pw_draws w), w\<lparr>pw_draws := Suc (pw_draws w)\<rparr>)"

definition start_cmd :: "pprof_cmd \<Rightarrow> pprof_world \<Rightarrow> nat go_result \<times> pprof_world" where
  "start_cmd cmd w =
     (let err = pw_start w (pw_starts w); w = w\<lparr>pw_starts := Suc (pw_starts w)\<rparr>
      in case err of
           Some e \<Rightarrow> (Inl (''failed to start tool: '' @ e), w)
         | None \<Rightarrow> (Inr (length (pw_cmds w)), w\<lparr>pw_cmds := pw_cmds w @ [cmd]\<rparr>))"

section \<open>Opening a viewer\<close>

definition MaxPprofSessions :: nat where
  "MaxPprofSessions = 2"

text \<open>The loop over a Go map takes the entries in any order: \<open>iter\<close> gives the order of this pass.\<close>

fun oldestSession :: "(string \<times> PprofSession) list \<Rightarrow> (string \<times> go_time) option \<Rightarrow> (string \<times> go_time) option" where
  "oldestSession [] acc = acc"
| "oldestSession ((k, s) # rest) acc =
     oldestSession rest
       (case acc of
          None \<Rightarrow> Some (k, ps_LastAccess s)
        | Some (oldestKey, oldestTime) \<Rightarrow>
            if ps_LastAccess s < oldestTime then Some (k, ps_LastAccess s) else acc)"

definition evictOldest ::
    "((string \<times> PprofSession) list \<Rightarrow> (string \<times> PprofSession) list) \<Rightarrow> pprof_world \<Rightarrow> pprof_world" where
  "evictOldest iter w =
     (if length (pw_sessions w) \<ge> MaxPprofSessions then
        (case oldestSession (iter (pw_sessions w)) None of
           Some (oldestKey, _) \<Rightarrow>
             if oldestKey \<noteq> [] then
               (case map_of (pw_sessions w) oldestKey of
                  Some s \<Rightarrow> kill_process (ps_Cmd s) (w\<lparr>pw_sessions := AList.delete oldestKey (pw_sessions w)\<rparr>)
                | None \<Rightarrow> w)
             else w
         | None \<Rightarrow> w)
      else w)"

definition viewer_cmd :: "string \<Rightarrow> int \<Rightarrow> pprof_cmd" where
  "viewer_cmd targetPath port =
     \<lparr>pc_tool = (if suffix ''trace.out'' targetPath then ''trace'' else ''pprof''),
      pc_port = port, pc_path = targetPath\<rparr>"

definition GetOrStartPprofSession ::
    "((string \<times> PprofSession) list \<Rightarrow> (string \<times> PprofSession) list) \<Rightarrow> string \<Rightarrow> pprof_world
      \<Rightarrow> int go_result \<times> pprof_world" where
  "GetOrStartPprofSession iter targetPath w =
     (let w = w\<lparr>pw_sessions := filter (\<lambda>(k, s). \<not> Exited w (ps_Cmd s)) (pw_sessions w)\<rparr>
      in case map_of (pw_sessions w) targetPath of
           Some s \<Rightarrow>
             (let (now, w) = pprofNow w
              in (Inr (ps_Port s),
                  w\<lparr>pw_sessions := AList.update targetPath (s\<lparr>ps_LastAccess := now\<rparr>) (pw_sessions w)\<rparr>))
         | None \<Rightarrow>
             (case getFreePort (evictOldest iter w) of
                (Inl err, w) \<Rightarrow> (Inl err, w)
              | (Inr port, w) \<Rightarrow>
                  (case start_cmd (viewer_cmd targetPath port) w of
                     (Inl err, w) \<Rightarrow> (Inl err, w)
                   | (Inr cmd, w) \<Rightarrow>
                       (let (now, w) = pprofNow w
                        in (Inr port,
                            w\<lparr>pw_sessions := AList.update targetPath
                                \<lparr>ps_Port = port, ps_Cmd = cmd, ps_LastAccess = now\<rparr> (pw_sessions w)\<rparr>)))))"

text \<open>The goroutine started with a viewer, once \<^verbatim>\<open>Wait\<close> has returned.\<close>

definition waitPprof :: "string \<Rightarrow> nat \<Rightarrow> pprof_world \<Rightarrow> pprof_world" where
  "waitPprof targetPath cmd w =
     (case map_of (pw_sessions w) targetPath of
        Some s \<Rightarrow> if ps_Cmd s = cmd then w\<lparr>pw_sessions := AList.delete targetPath (pw_sessions w)\<rparr> else w
      | None \<Rightarrow> w)"

section \<open>Closing viewers\<close>

definition maxIdle :: go_duration where
  "maxIdle = 15 * 60 * Second"

fun cleanupSessions :: "go_time \<Rightarrow> (string \<times> PprofSession) list \<Rightarrow> pprof_world \<Rightarrow> pprof_world" where
  "cleanupSessions now [] w = w"
| "cleanupSessions now ((k, s) # rest) w =
     (if Exited w (ps_Cmd s)
      then cleanupSessions now rest (w\<lparr>pw_sessions := AList.delete k (pw_sessions w)\<rparr>)
      else if now - ps_LastAccess s > maxIdle
      then cleanupSessions now rest (kill_process (ps_Cmd s) (w\<lparr>pw_sessions := AList.delete k (pw_sessions w)\<rparr>))
      else cleanupSessions now rest w)"

text \<open>A tick of the monitor.\<close>

definition pprofCleanup :: "pprof_world \<Rightarrow> pprof_world" where
  "pprofCleanup w = (let (now, w) = pprofNow w in cleanupSessions now (pw_sessions w) w)"

text \<open>The sessions of a deleted folder.\<close>

fun dropSessions :: "string \<Rightarrow> (string \<times> PprofSession) list \<Rightarrow> pprof_world \<Rightarrow> pprof_world" where
  "dropSessions folder [] w = w"
| "dropSessions folder ((k, s) # rest) w =
     (if prefix (folder @ ''/'') k \<or> prefix (folder @ [CHR 0x5C]) k
      then dropSessions folder rest (kill_process (ps_Cmd s) w\<lparr>pw_sessions := AList.delete k (pw_sessions w)\<rparr>)
      else dropSessions folder rest w)"

definition deleteSessions :: "string \<Rightarrow> pprof_world \<Rightarrow> pprof_world" where
  "deleteSessions folder w = dropSessions folder (pw_sessions w) w"

section \<open>Steps\<close>

inductive pprof_step :: "pprof_world \<Rightarrow> pprof_world \<Rightarrow> bool" where
  openViewer: "\<lbrakk>targetPath \<noteq> []; \<And>xs. set (iter xs) = set xs; GetOrStartPprofSession iter targetPath w = (r, w')\<rbrakk> \<Longrightarrow> pprof_step w w'"
| tick: "pprof_step w (pprofCleanup w)"
| processEnds: "c < length (pw_cmds w) \<Longrightarrow> pprof_step w (w\<lparr>pw_ended := (c, byItself) # pw_ended w\<rparr>)"
| waited: "(c, byItself) \<in> set (pw_ended w) \<Longrightarrow> c < length (pw_cmds w) \<Longrightarrow>
     pprof_step w (waitPprof (pc_path (pw_cmds w ! c)) c w)"
| folderDeleted: "pprof_step w (deleteSessions folder w)"

inductive pprof_reach :: "pprof_world \<Rightarrow> bool" where
  start: "pw_sessions w = [] \<Longrightarrow> pw_cmds w = [] \<Longrightarrow> pw_killed w = [] \<Longrightarrow> pw_ended w = [] \<Longrightarrow> pprof_reach w"
| step: "pprof_reach w \<Longrightarrow> pprof_step w w' \<Longrightarrow> pprof_reach w'"

section \<open>The invariant\<close>

definition session_ok :: "pprof_world \<Rightarrow> string \<times> PprofSession \<Rightarrow> bool" where
  "session_ok w = (\<lambda>(k, s). k \<noteq> [] \<and> ps_Cmd s < length (pw_cmds w) \<and> pc_path (pw_cmds w ! ps_Cmd s) = k \<and>
     pc_port (pw_cmds w ! ps_Cmd s) = ps_Port s \<and> ps_Cmd s \<notin> set (pw_killed w))"

definition session_cmds :: "pprof_world \<Rightarrow> nat set" where
  "session_cmds w = (\<lambda>(k, s). ps_Cmd s) ` set (pw_sessions w)"

definition pprof_inv :: "pprof_world \<Rightarrow> bool" where
  "pprof_inv w \<longleftrightarrow> length (pw_sessions w) \<le> MaxPprofSessions \<and> distinct (map fst (pw_sessions w)) \<and>
     (\<forall>x \<in> set (pw_sessions w). session_ok w x) \<and> set (pw_killed w) \<subseteq> {..< length (pw_cmds w)} \<and>
     (\<forall>c < length (pw_cmds w). c \<in> session_cmds w \<or> c \<in> set (pw_killed w) \<or> c \<in> fst ` set (pw_ended w))"

text \<open>The running viewers.\<close>

definition live :: "pprof_world \<Rightarrow> nat set" where
  "live w = {c. c < length (pw_cmds w) \<and> c \<notin> set (pw_killed w) \<and> c \<notin> fst ` set (pw_ended w)}"

lemma inv_live: "pprof_inv w \<Longrightarrow> live w \<subseteq> session_cmds w"
  by (auto simp: pprof_inv_def live_def)

text \<open>Sessions may go when their commands are killed or have ended.\<close>

lemma inv_filter:
  assumes "pprof_inv w" "pw_sessions w' = filter P (pw_sessions w)" "pw_killed w' = pw_killed w @ K"
    and "pw_cmds w' = pw_cmds w" "pw_ended w' = pw_ended w" "set K \<subseteq> session_cmds w"
    and "\<And>k s. (k, s) \<in> set (pw_sessions w) \<Longrightarrow> \<not> P (k, s) \<Longrightarrow> ps_Cmd s \<in> set K \<or> ps_Cmd s \<in> fst ` set (pw_ended w)"
    and "\<And>k s. (k, s) \<in> set (pw_sessions w) \<Longrightarrow> P (k, s) \<Longrightarrow> ps_Cmd s \<notin> set K"
  shows "pprof_inv w'"
  unfolding pprof_inv_def
proof (intro conjI ballI allI impI)
  show "length (pw_sessions w') \<le> MaxPprofSessions"
    using assms(1,2) by (auto simp: pprof_inv_def intro: le_trans [OF length_filter_le])
  show "distinct (map fst (pw_sessions w'))" using assms(1,2) by (simp add: pprof_inv_def distinct_map_filter)
  show "session_ok w' x" if "x \<in> set (pw_sessions w')" for x
    using assms(1-4,8) that by (auto simp: pprof_inv_def session_ok_def)
  show "set (pw_killed w') \<subseteq> {..< length (pw_cmds w')}"
    using assms(1,3,4,6) by (fastforce simp: pprof_inv_def session_ok_def session_cmds_def)
  fix c
  assume "c < length (pw_cmds w')"
  with assms(1,4) consider "c \<in> session_cmds w" | "c \<in> set (pw_killed w)" | "c \<in> fst ` set (pw_ended w)"
    by (auto simp: pprof_inv_def)
  then show "c \<in> session_cmds w' \<or> c \<in> set (pw_killed w') \<or> c \<in> fst ` set (pw_ended w')"
  proof cases
    case 1
    then obtain k s where ks: "(k, s) \<in> set (pw_sessions w)" "c = ps_Cmd s" by (auto simp: session_cmds_def)
    show ?thesis
    proof (cases "P (k, s)")
      case True
      with ks assms(2) have "(k, s) \<in> set (pw_sessions w')" by simp
      with ks(2) show ?thesis unfolding session_cmds_def by force
    next
      case False
      with assms(3,5,7) ks show ?thesis by auto
    qed
  qed (use assms(3,5) in auto)
qed

lemma inv_session: "pprof_inv w \<Longrightarrow> (k, s) \<in> set (pw_sessions w) \<Longrightarrow> session_ok w (k, s)"
  unfolding pprof_inv_def by blast

lemma inv_key: "pprof_inv w \<Longrightarrow> (k, s) \<in> set (pw_sessions w) \<Longrightarrow> (k, t) \<in> set (pw_sessions w) \<Longrightarrow> t = s"
  unfolding pprof_inv_def by (metis eq_key_imp_eq_value)

lemma same_cmd: "pprof_inv w \<Longrightarrow> (k, s) \<in> set (pw_sessions w) \<Longrightarrow> (k', s') \<in> set (pw_sessions w) \<Longrightarrow>
    ps_Cmd s' = ps_Cmd s \<Longrightarrow> k' = k"
  using inv_session [of w k s] inv_session [of w k' s'] by (simp add: session_ok_def)

lemma inv_close:
  assumes "pprof_inv w" "(k, s) \<in> set (pw_sessions w)"
  shows "pprof_inv (kill_process (ps_Cmd s) (w\<lparr>pw_sessions := AList.delete k (pw_sessions w)\<rparr>))"
    and "ps_Cmd s \<in> fst ` set (pw_ended w) \<Longrightarrow> pprof_inv (w\<lparr>pw_sessions := AList.delete k (pw_sessions w)\<rparr>)"
proof -
  let ?v = "w\<lparr>pw_sessions := AList.delete k (pw_sessions w)\<rparr>"
  have P: "pw_sessions ?v = filter (\<lambda>x. fst x \<noteq> k) (pw_sessions w)"
    by (auto simp: AList.delete_eq intro!: filter_cong)
  show "pprof_inv (kill_process (ps_Cmd s) ?v)"
  proof (rule inv_filter [OF assms(1), where K = "[ps_Cmd s]" and P = "\<lambda>x. fst x \<noteq> k"])
    fix k' s'
    assume m: "(k', s') \<in> set (pw_sessions w)"
    { assume "\<not> fst (k', s') \<noteq> k"
      then have "s' = s" using inv_key [OF assms] m by simp
      then show "ps_Cmd s' \<in> set [ps_Cmd s] \<or> ps_Cmd s' \<in> fst ` set (pw_ended w)" by simp }
    { assume "fst (k', s') \<noteq> k"
      then show "ps_Cmd s' \<notin> set [ps_Cmd s]" using same_cmd [OF assms m] by auto }
  qed (use assms(2) in \<open>auto simp: kill_process_def P [simplified] session_cmds_def\<close>)
  assume e: "ps_Cmd s \<in> fst ` set (pw_ended w)"
  show "pprof_inv ?v"
  proof (rule inv_filter [OF assms(1), where K = "[]" and P = "\<lambda>x. fst x \<noteq> k"])
    fix k' s'
    assume m: "(k', s') \<in> set (pw_sessions w)" "\<not> fst (k', s') \<noteq> k"
    then have "s' = s" using inv_key [OF assms] by simp
    with e show "ps_Cmd s' \<in> set [] \<or> ps_Cmd s' \<in> fst ` set (pw_ended w)" by simp
  qed (simp_all add: P [simplified])
qed

lemma kill_process_sel [simp]:
  "pw_sessions (kill_process c w) = pw_sessions w" "pw_cmds (kill_process c w) = pw_cmds w"
  "pw_ended (kill_process c w) = pw_ended w" "pw_reads (kill_process c w) = pw_reads w"
  "Exited (kill_process c w) = Exited w" "pw_killed (kill_process c w) = pw_killed w @ [c]"
  by (simp_all add: kill_process_def Exited_def fun_eq_iff)

lemma exited_ended: "Exited w c \<Longrightarrow> c \<in> fst ` set (pw_ended w)"
  by (force simp: Exited_def)

lemma rest_remain:
  assumes "distinct (map fst ((k, s) # rest))" "set ((k, s) # rest) \<subseteq> set xs"
  shows "set rest \<subseteq> set (AList.delete k xs)"
  using assms by (force simp: AList.delete_eq)

lemma cleanup_inv:
  "pprof_inv w \<Longrightarrow> distinct (map fst xs) \<Longrightarrow> set xs \<subseteq> set (pw_sessions w) \<Longrightarrow> pprof_inv (cleanupSessions now xs w)"
proof (induction xs arbitrary: w)
  case (Cons x xs)
  obtain k s where x: "x = (k, s)" by (cases x)
  from Cons.prems x have m: "(k, s) \<in> set (pw_sessions w)" "distinct (map fst ((k, s) # xs))"
    "set ((k, s) # xs) \<subseteq> set (pw_sessions w)" by auto
  note c = inv_close [OF Cons.prems(1) m(1)] and r = rest_remain [OF m(2,3)]
  show ?case
    using Cons.IH [OF c(1)] Cons.IH [OF c(2)] Cons.IH [OF Cons.prems(1)] m(2,3) r exited_ended by (simp add: x)
qed simp

lemma drop_inv:
  "pprof_inv w \<Longrightarrow> distinct (map fst xs) \<Longrightarrow> set xs \<subseteq> set (pw_sessions w) \<Longrightarrow> pprof_inv (dropSessions folder xs w)"
proof (induction xs arbitrary: w)
  case (Cons x xs)
  obtain k s where x: "x = (k, s)" by (cases x)
  from Cons.prems x have m: "(k, s) \<in> set (pw_sessions w)" "distinct (map fst ((k, s) # xs))"
    "set ((k, s) # xs) \<subseteq> set (pw_sessions w)" by auto
  have "kill_process (ps_Cmd s) w\<lparr>pw_sessions := AList.delete k (pw_sessions w)\<rparr> =
      kill_process (ps_Cmd s) (w\<lparr>pw_sessions := AList.delete k (pw_sessions w)\<rparr>)" by (simp add: kill_process_def)
  with Cons.IH [OF inv_close(1) [OF Cons.prems(1) m(1)]] Cons.IH [OF Cons.prems(1)] m(2,3) rest_remain [OF m(2,3)]
  show ?case by (simp add: x)
qed simp

lemma inv_same:
  "pprof_inv w \<Longrightarrow> pw_sessions w' = pw_sessions w \<Longrightarrow> pw_killed w' = pw_killed w \<Longrightarrow> pw_cmds w' = pw_cmds w \<Longrightarrow>
   pw_ended w' = pw_ended w \<Longrightarrow> pprof_inv w'"
  by (simp add: pprof_inv_def session_ok_def session_cmds_def)

section \<open>Opening keeps the invariant\<close>

lemma oldestSession_key:
  "oldestSession xs acc = Some (k, t) \<Longrightarrow> acc = Some (k, t) \<or> (\<exists>s. (k, s) \<in> set xs \<and> t = ps_LastAccess s)"
  by (induction xs acc rule: oldestSession.induct) (auto split: option.splits if_splits)

lemma oldestSession_le:
  "oldestSession xs acc = Some (k, t) \<Longrightarrow>
   (\<forall>(k', s) \<in> set xs. t \<le> ps_LastAccess s) \<and> (\<forall>k' t'. acc = Some (k', t') \<longrightarrow> t \<le> t')"
  by (induction xs acc rule: oldestSession.induct) (fastforce split: option.splits if_splits)+

lemma oldestSession_some: "xs \<noteq> [] \<or> acc \<noteq> None \<Longrightarrow> \<exists>k t. oldestSession xs acc = Some (k, t)"
  by (induction xs acc rule: oldestSession.induct) (auto split: option.splits)

text \<open>With two sessions, the one opened or used longest ago is closed.\<close>

lemma evictOldest_effect:
  assumes "pprof_inv w" "\<And>xs. set (iter xs) = set xs"
  shows "(length (pw_sessions w) < MaxPprofSessions \<and> evictOldest iter w = w) \<or>
    (length (pw_sessions w) = MaxPprofSessions \<and>
     (\<exists>k s. (k, s) \<in> set (pw_sessions w) \<and> (\<forall>(k', s') \<in> set (pw_sessions w). ps_LastAccess s \<le> ps_LastAccess s') \<and>
       evictOldest iter w = kill_process (ps_Cmd s) (w\<lparr>pw_sessions := AList.delete k (pw_sessions w)\<rparr>)))"
proof (cases "length (pw_sessions w) \<ge> MaxPprofSessions")
  case True
  then have full: "length (pw_sessions w) = MaxPprofSessions" using assms(1) by (simp add: pprof_inv_def)
  then have "pw_sessions w \<noteq> []" by (auto simp: MaxPprofSessions_def)
  with assms(2) [of "pw_sessions w"] have "iter (pw_sessions w) \<noteq> []" by (metis set_empty)
  with oldestSession_some obtain k t where o: "oldestSession (iter (pw_sessions w)) None = Some (k, t)" by blast
  from oldestSession_key [OF o] assms(2) obtain s where s: "(k, s) \<in> set (pw_sessions w)" "t = ps_LastAccess s" by auto
  have "\<forall>(k', s') \<in> set (pw_sessions w). ps_LastAccess s \<le> ps_LastAccess s'"
    using oldestSession_le [OF o] assms(2) s(2) by auto
  moreover have "map_of (pw_sessions w) k = Some s" "k \<noteq> []"
    using assms(1) s(1) by (auto simp: pprof_inv_def session_ok_def)
  ultimately show ?thesis using full s o by (auto simp: evictOldest_def)
next
  case False
  then show ?thesis by (simp add: evictOldest_def)
qed

lemma inv_filter_exited:
  "pprof_inv w \<Longrightarrow> pprof_inv (w\<lparr>pw_sessions := filter (\<lambda>(k, s). \<not> Exited w (ps_Cmd s)) (pw_sessions w)\<rparr>)"
  by (rule inv_filter [where K = "[]" and P = "\<lambda>(k, s). \<not> Exited w (ps_Cmd s)"]) (auto dest: exited_ended)

lemma evict_inv:
  assumes "pprof_inv w" "\<And>xs. set (iter xs) = set xs"
  shows "pprof_inv (evictOldest iter w)" and "length (pw_sessions (evictOldest iter w)) < MaxPprofSessions"
    and "set (pw_sessions (evictOldest iter w)) \<subseteq> set (pw_sessions w)"
proof -
  from evictOldest_effect [OF assms]
  have "pprof_inv (evictOldest iter w) \<and> length (pw_sessions (evictOldest iter w)) < MaxPprofSessions \<and>
      set (pw_sessions (evictOldest iter w)) \<subseteq> set (pw_sessions w)"
  proof (elim disjE conjE exE)
    fix k s
    assume m: "length (pw_sessions w) = MaxPprofSessions" "(k, s) \<in> set (pw_sessions w)"
      "evictOldest iter w = kill_process (ps_Cmd s) (w\<lparr>pw_sessions := AList.delete k (pw_sessions w)\<rparr>)"
    have "length (AList.delete k (pw_sessions w)) < length (pw_sessions w)"
      using m(2) by (auto simp: AList.delete_eq intro: length_filter_less [of "(k, s)"])
    with m inv_close(1) [OF assms(1) m(2)] show ?thesis by (simp add: AList.delete_eq subset_iff)
  qed (use assms(1) in simp)
  then show "pprof_inv (evictOldest iter w)" "length (pw_sessions (evictOldest iter w)) < MaxPprofSessions"
    "set (pw_sessions (evictOldest iter w)) \<subseteq> set (pw_sessions w)" by auto
qed

text \<open>A new session in a table with room.\<close>

lemma inv_insert:
  assumes inv: "pprof_inv w" and room: "length (pw_sessions w) < MaxPprofSessions" and new: "k \<notin> fst ` set (pw_sessions w)"
    and k: "k \<noteq> []"
    and w': "pw_sessions w' = AList.update k \<lparr>ps_Port = port, ps_Cmd = length (pw_cmds w), ps_LastAccess = now\<rparr> (pw_sessions w)"
      "pw_cmds w' = pw_cmds w @ [viewer_cmd k port]" "pw_killed w' = pw_killed w" "pw_ended w' = pw_ended w"
  shows "pprof_inv w'"
proof -
  let ?s = "\<lparr>ps_Port = port, ps_Cmd = length (pw_cmds w), ps_LastAccess = now\<rparr>"
  have up: "AList.update k ?s xs = xs @ [(k, ?s)]" if "k \<notin> fst ` set xs" for xs :: "(string \<times> PprofSession) list"
    using that by (induction xs) auto
  have ss: "pw_sessions w' = pw_sessions w @ [(k, ?s)]" using w'(1) up [OF new] by simp
  have cmds: "session_cmds w' = insert (length (pw_cmds w)) (session_cmds w)" by (simp add: ss session_cmds_def)
  have "session_ok w' (k, ?s)" using k inv w' by (auto simp: pprof_inv_def session_ok_def viewer_cmd_def)
  moreover have "session_ok w' x" if "x \<in> set (pw_sessions w)" for x
    using inv that w' by (cases x) (auto simp: pprof_inv_def session_ok_def nth_append)
  moreover have "c \<in> session_cmds w' \<or> c \<in> set (pw_killed w') \<or> c \<in> fst ` set (pw_ended w')" if "c < length (pw_cmds w')" for c
    using inv that w'(2-4) cmds by (auto simp: pprof_inv_def less_Suc_eq)
  moreover have "set (pw_killed w') \<subseteq> {..< length (pw_cmds w')}" using inv w'(2,3) by (auto simp: pprof_inv_def)
  ultimately show ?thesis using inv room new ss unfolding pprof_inv_def by auto
qed

text \<open>An open session that is used again.\<close>

lemma update_entries: "set (AList.update k v xs) \<subseteq> insert (k, v) (set xs)"
  by (induction xs) auto

lemma inv_touch:
  assumes inv: "pprof_inv w" and old: "map_of (pw_sessions w) k = Some s"
    and w': "pw_sessions w' = AList.update k (s\<lparr>ps_LastAccess := now\<rparr>) (pw_sessions w)"
      "pw_cmds w' = pw_cmds w" "pw_killed w' = pw_killed w" "pw_ended w' = pw_ended w"
  shows "pprof_inv w'"
proof -
  have keys: "map fst (AList.update k v xs) = map fst xs" "map (ps_Cmd \<circ> snd) (AList.update k (t\<lparr>ps_LastAccess := now\<rparr>) xs) = map (ps_Cmd \<circ> snd) xs"
    if "map_of xs k = Some t" for v t and xs :: "(string \<times> PprofSession) list"
    using that by (induction xs) (auto split: if_splits)
  have cmds: "session_cmds v = set (map (ps_Cmd \<circ> snd) (pw_sessions v))" for v
    by (force simp: session_cmds_def)
  have "session_cmds w' = session_cmds w" using keys(2) [OF old] by (simp only: cmds w'(1))
  moreover have "map fst (pw_sessions w') = map fst (pw_sessions w)" using keys(1) [OF old] w'(1) by simp
  moreover from this have "length (pw_sessions w') = length (pw_sessions w)" by (metis length_map)
  moreover have "session_ok w' x" if "x \<in> set (pw_sessions w')" for x
  proof -
    have "x = (k, s\<lparr>ps_LastAccess := now\<rparr>) \<or> x \<in> set (pw_sessions w)"
      using that update_entries w'(1) by fastforce
    then show ?thesis using inv inv_session [OF inv map_of_SomeD [OF old]] w'(2,3)
      by (auto simp: pprof_inv_def session_ok_def)
  qed
  ultimately show ?thesis using inv w'(2-4) unfolding pprof_inv_def by auto
qed

lemma open_inv:
  assumes "pprof_inv w" "targetPath \<noteq> []" "\<And>xs. set (iter xs) = set xs"
    and run: "GetOrStartPprofSession iter targetPath w = (r, w')"
  shows "pprof_inv w'"
    and "r = Inr port \<Longrightarrow> \<exists>s. map_of (pw_sessions w') targetPath = Some s \<and> ps_Port s = port"
proof -
  let ?w = "w\<lparr>pw_sessions := filter (\<lambda>(k, s). \<not> Exited w (ps_Cmd s)) (pw_sessions w)\<rparr>"
  have inv: "pprof_inv ?w" by (rule inv_filter_exited [OF assms(1)])
  have "pprof_inv w' \<and> (\<forall>port. r = Inr port \<longrightarrow> (\<exists>s. map_of (pw_sessions w') targetPath = Some s \<and> ps_Port s = port))"
  proof (cases "map_of (pw_sessions ?w) targetPath")
    case (Some s)
    let ?v = "?w\<lparr>pw_reads := Suc (pw_reads ?w), pw_sessions :=
      AList.update targetPath (s\<lparr>ps_LastAccess := pw_clock ?w (pw_reads ?w)\<rparr>) (pw_sessions ?w)\<rparr>"
    have "r = Inr (ps_Port s)" "w' = ?v"
      using run Some by (simp_all add: GetOrStartPprofSession_def pprofNow_def Let_def)
    moreover have "pprof_inv ?v" by (rule inv_touch [OF inv Some]) simp_all
    ultimately show ?thesis by (simp add: AList.update_conv')
  next
    case None
    let ?e = "evictOldest iter ?w"
    let ?p = "?e\<lparr>pw_draws := Suc (pw_draws ?e)\<rparr>"
    let ?q = "?p\<lparr>pw_starts := Suc (pw_starts ?p)\<rparr>"
    note e = evict_inv [OF inv assms(3)]
    have new: "targetPath \<notin> fst ` set (pw_sessions ?e)" using None e(3) by (auto simp: map_of_eq_None_iff)
    have pq: "pprof_inv ?p" "pprof_inv ?q" using inv_same [OF e(1), of ?p] inv_same [OF e(1), of ?q] by simp_all
    show ?thesis
    proof (cases "pw_ports ?e (pw_draws ?e)")
      case (Inl err)
      then show ?thesis
        using run None pq(1) by (auto simp: GetOrStartPprofSession_def getFreePort_def Let_def)
    next
      case port: (Inr port)
      show ?thesis
      proof (cases "pw_start ?p (pw_starts ?p)")
        case (Some err)
        then show ?thesis using run None pq(2) port
          by (auto simp: GetOrStartPprofSession_def getFreePort_def start_cmd_def Let_def)
      next
        case start: None
        let ?s = "\<lparr>ps_Port = port, ps_Cmd = length (pw_cmds ?e), ps_LastAccess = pw_clock ?e (pw_reads ?e)\<rparr>"
        let ?v = "?q\<lparr>pw_cmds := pw_cmds ?e @ [viewer_cmd targetPath port], pw_reads := Suc (pw_reads ?e),
          pw_sessions := AList.update targetPath ?s (pw_sessions ?e)\<rparr>"
        have "r = Inr port" "w' = ?v"
          using run None port start
          by (simp_all add: GetOrStartPprofSession_def getFreePort_def start_cmd_def pprofNow_def Let_def)
        moreover have "pprof_inv ?v" by (rule inv_insert [OF e(1,2) new assms(2)]) simp_all
        ultimately show ?thesis by (simp add: AList.update_conv')
      qed
    qed
  qed
  then show "pprof_inv w'" "r = Inr port \<Longrightarrow> \<exists>s. map_of (pw_sessions w') targetPath = Some s \<and> ps_Port s = port"
    by simp_all
qed

lemma pprof_step_inv: "pprof_step w w' \<Longrightarrow> pprof_inv w \<Longrightarrow> pprof_inv w'"
proof (induction rule: pprof_step.induct)
  case (openViewer targetPath iter w r w')
  then show ?case using open_inv(1) by blast
next
  case (tick w)
  let ?v = "w\<lparr>pw_reads := Suc (pw_reads w)\<rparr>"
  have "pprof_inv ?v" using inv_same [OF tick, of ?v] by simp
  then show ?case using cleanup_inv [of ?v "pw_sessions w"]
    by (simp add: pprofCleanup_def pprofNow_def pprof_inv_def)
next
  case (processEnds c w byItself)
  then show ?case by (auto simp: pprof_inv_def session_ok_def session_cmds_def)
next
  case (waited c byItself w)
  then have c: "c \<in> fst ` set (pw_ended w)" by force
  show ?case
  proof (cases "map_of (pw_sessions w) (pc_path (pw_cmds w ! c))")
    case (Some s)
    then show ?thesis using inv_close(2) [OF waited.prems map_of_SomeD [OF Some]] waited.prems c
      by (auto simp: waitPprof_def)
  qed (use waited.prems in \<open>simp add: waitPprof_def\<close>)
next
  case (folderDeleted w folder)
  then show ?case using drop_inv [of w "pw_sessions w"] by (simp add: deleteSessions_def pprof_inv_def)
qed

lemma pprof_reach_inv: "pprof_reach w \<Longrightarrow> pprof_inv w"
proof (induction rule: pprof_reach.induct)
  case (start w)
  then show ?case by (simp add: pprof_inv_def session_cmds_def)
next
  case (step w w')
  then show ?case using pprof_step_inv by blast
qed

section \<open>Properties\<close>

text \<open>C32. Viewers of profiles are bounded and none is lost.  In every interleaving of openings, ticks of the
  monitor, deletions, ends of processes and their waiters, at most two viewer processes are running, each
  of them has its session in the table, under the path and with the port it was started with, and no path
  has two of them.\<close>

theorem pprof_viewers_bounded:
  assumes "pprof_reach w"
  shows "finite (live w) \<and> card (live w) \<le> 2 \<and>
     (\<forall>c \<in> live w. \<exists>s. map_of (pw_sessions w) (pc_path (pw_cmds w ! c)) = Some s \<and> ps_Cmd s = c \<and>
        ps_Port s = pc_port (pw_cmds w ! c))"
proof -
  note inv = pprof_reach_inv [OF assms]
  have "session_cmds w = set (map (\<lambda>(k, s). ps_Cmd s) (pw_sessions w))" by (simp add: session_cmds_def)
  then have "card (session_cmds w) \<le> length (pw_sessions w)" "finite (session_cmds w)"
    by (metis card_length length_map) (simp add: session_cmds_def)
  with inv inv_live [OF inv] have "finite (live w)" "card (live w) \<le> 2"
    by (auto simp: pprof_inv_def MaxPprofSessions_def intro: finite_subset dest: card_mono)
  moreover have "\<exists>s. map_of (pw_sessions w) (pc_path (pw_cmds w ! c)) = Some s \<and> ps_Cmd s = c \<and>
      ps_Port s = pc_port (pw_cmds w ! c)" if "c \<in> live w" for c
  proof -
    from inv_live [OF inv] that obtain k s where "(k, s) \<in> set (pw_sessions w)" "c = ps_Cmd s"
      by (auto simp: session_cmds_def)
    with inv_session [OF inv] inv show ?thesis by (fastforce simp: session_ok_def pprof_inv_def)
  qed
  ultimately show ?thesis by blast
qed

text \<open>Three viewers are opened, the first is used again before the third is: the second is closed.\<close>

definition sample_pprof :: pprof_world where
  "sample_pprof = \<lparr>pw_sessions = [], pw_cmds = [], pw_ended = [], pw_killed = [], pw_clock = \<lambda>n. int n * Second,
     pw_reads = 0, pw_ports = \<lambda>n. Inr (5000 + int n), pw_draws = 0, pw_start = \<lambda>_. None, pw_starts = 0\<rparr>"

definition sample_opened :: pprof_world where
  "sample_opened = fold (\<lambda>p w. snd (GetOrStartPprofSession rev p w)) [''/a'', ''/b'', ''/a'', ''/c''] sample_pprof"

lemma sample_opened_reach: "pprof_reach sample_opened"
proof -
  have open_step: "pprof_reach w \<Longrightarrow> p \<noteq> [] \<Longrightarrow> pprof_reach (snd (GetOrStartPprofSession rev p w))" for p w
    by (rule pprof_reach.step, assumption, rule openViewer [where iter = rev and targetPath = p])
      (auto intro: prod.collapse [symmetric])
  have "pprof_reach sample_pprof" by (rule pprof_reach.start) (simp_all add: sample_pprof_def)
  then show ?thesis unfolding sample_opened_def by (simp add: open_step)
qed

lemmas pprof_evals = GetOrStartPprofSession_def pprofNow_def Exited_def evictOldest_def MaxPprofSessions_def
  getFreePort_def start_cmd_def viewer_cmd_def kill_process_def Let_def

theorem pprof_viewers_bounded_witness:
  "card (live sample_opened) \<le> 2 \<and> live sample_opened = {0, 2} \<and>
   map_of (pw_sessions sample_opened) ''/c'' = Some \<lparr>ps_Port = 5002, ps_Cmd = 2, ps_LastAccess = 3 * Second\<rparr>"
proof -
  have w: "sample_opened = sample_pprof\<lparr>
      pw_sessions := [(''/a'', \<lparr>ps_Port = 5000, ps_Cmd = 0, ps_LastAccess = 2 * Second\<rparr>),
                      (''/c'', \<lparr>ps_Port = 5002, ps_Cmd = 2, ps_LastAccess = 3 * Second\<rparr>)],
      pw_cmds := [\<lparr>pc_tool = ''pprof'', pc_port = 5000, pc_path = ''/a''\<rparr>,
                  \<lparr>pc_tool = ''pprof'', pc_port = 5001, pc_path = ''/b''\<rparr>,
                  \<lparr>pc_tool = ''pprof'', pc_port = 5002, pc_path = ''/c''\<rparr>],
      pw_killed := [1], pw_reads := 4, pw_draws := 3, pw_starts := 3\<rparr>"
    by (simp add: sample_opened_def sample_pprof_def pprof_evals suffix_def Second_def)
  have "live sample_opened = {0, 2}" by (auto simp: w live_def sample_pprof_def less_Suc_eq numeral_3_eq_3)
  with pprof_viewers_bounded [OF sample_opened_reach] show ?thesis by (simp add: w)
qed

end
