(* ===== verification/Go_Strings.thy ===== *)
theory Go_Strings
  imports Json "HOL-Library.Sublist"
begin

text \<open>
  What the program uses of \<^verbatim>\<open>strings\<close>, \<^verbatim>\<open>strconv\<close> and \<^verbatim>\<open>path/filepath\<close>: splitting, replacing, decimal
  numbers, and the cleaning of paths (of a system whose separator is the slash).
\<close>

section \<open>Strings\<close>

text \<open>\<^verbatim>\<open>strings.Split\<close> for a separator that is not empty; \<open>cur\<close> is the part being read.\<close>

function splitFrom :: "string \<Rightarrow> string \<Rightarrow> string \<Rightarrow> string list" where
  "splitFrom sep cur [] = [cur]"
| "splitFrom sep cur (c # cs) =
     (if prefix sep (c # cs) then cur # splitFrom sep [] (drop (length sep - 1) cs)
      else splitFrom sep (cur @ [c]) cs)"
  by pat_completeness auto
termination by (relation "measure (\<lambda>(_, _, s). length s)") auto

definition Split :: "string \<Rightarrow> string \<Rightarrow> string list" where
  "Split s sep = splitFrom sep [] s"

definition ReplaceChar :: "char \<Rightarrow> char \<Rightarrow> string \<Rightarrow> string" where
  "ReplaceChar old new = map (\<lambda>c. if c = old then new else c)"

definition Contains :: "string \<Rightarrow> string \<Rightarrow> bool" where
  "Contains s sub \<longleftrightarrow> list_ex (prefix sub) (suffixes s)"

definition backslash :: char where
  "backslash = CHR 0x5C"

text \<open>A separator that begins with a character the text does not have is not found.\<close>

lemma splitFrom_none: "d \<notin> set s \<Longrightarrow> splitFrom (d # sep) cur s = [cur @ s]"
  by (induction "d # sep" cur s rule: splitFrom.induct) auto

lemma splitFrom_append:
  "d \<notin> set s \<Longrightarrow> splitFrom (d # sep) cur (s @ (d # sep) @ t) = (cur @ s) # splitFrom (d # sep) [] t"
proof (induction s arbitrary: cur)
  case Nil
  have "prefix (d # sep) (d # sep @ t)" "drop (length (d # sep) - 1) (sep @ t) = t" by (simp_all add: prefix_def)
  then show ?case by simp
qed auto

lemma Split_none: "d \<notin> set s \<Longrightarrow> Split s (d # sep) = [s]"
  by (simp add: Split_def splitFrom_none)

lemma Split_append: "d \<notin> set s \<Longrightarrow> Split (s @ (d # sep) @ t) (d # sep) = s # Split t (d # sep)"
  using splitFrom_append [of d s sep "[]" t] by (simp add: Split_def)

lemma Split_join: "Split (s @ d # t) [d] = Split s [d] @ Split t [d]"
proof -
  have "splitFrom [d] cur (s @ d # t) = splitFrom [d] cur s @ splitFrom [d] [] t" for cur
  proof (induction s arbitrary: cur)
    case (Cons a s)
    then show ?case by (cases "a = d") (simp_all add: prefix_def)
  qed (simp add: prefix_def)
  then show ?thesis by (simp add: Split_def)
qed

lemma Split_nonempty: "Split s sep \<noteq> []"
proof -
  have "splitFrom sep cur s \<noteq> []" for cur by (induction sep cur s rule: splitFrom.induct) auto
  then show ?thesis by (simp add: Split_def)
qed

lemma Contains_single: "Contains s [c] \<longleftrightarrow> c \<in> set s"
  by (induction s) (auto simp: Contains_def)

section \<open>Numbers\<close>

text \<open>\<^verbatim>\<open>strconv.ParseInt(s, 10, 64)\<close>, which is also \<^verbatim>\<open>strconv.Atoi\<close>: a value comes with an error, too.\<close>

definition ParseInt :: "string \<Rightarrow> int64 \<times> go_error option" where
  "ParseInt s =
     (let neg = (s \<noteq> [] \<and> hd s = CHR ''-'');
          ds = (if s \<noteq> [] \<and> (hd s = CHR ''-'' \<or> hd s = CHR ''+'') then tl s else s);
          n = int (digits_value ds 0)
      in if ds = [] \<or> \<not> list_all is_digit ds then (0, Some ''invalid syntax'')
         else if neg \<and> n > 2 ^ 63 then (word_of_int (- (2 ^ 63)), Some ''value out of range'')
         else if \<not> neg \<and> n \<ge> 2 ^ 63 then (word_of_int (2 ^ 63 - 1), Some ''value out of range'')
         else (word_of_int (if neg then - n else n), None))"

lemma ParseInt_itoa:
  assumes "0 \<le> i" "i < 2 ^ 63"
  shows "ParseInt (itoa i) = (word_of_int i, None)"
proof -
  let ?ds = "nat_digits (nat i)"
  have ds: "list_all is_digit ?ds" "?ds \<noteq> []" by (rule nat_digits_is_digit) (rule nat_digits_nonempty)
  have signs: "is_digit c \<Longrightarrow> c \<noteq> CHR ''-'' \<and> c \<noteq> CHR ''+''" for c by (auto simp: is_digit_def byte_def)
  have "is_digit (hd ?ds)" using ds by (simp add: list_all_iff)
  from signs [OF this] have hd: "hd ?ds \<noteq> CHR ''-''" "hd ?ds \<noteq> CHR ''+''" by simp_all
  have "itoa i = ?ds" using assms(1) by (simp add: itoa_def)
  moreover have "int (digits_value ?ds 0) = i" using assms(1) by (simp add: digits_value_nat_digits)
  ultimately show ?thesis using assms(2) ds hd by (simp only: ParseInt_def Let_def) simp
qed

section \<open>Paths\<close>

text \<open>\<^verbatim>\<open>filepath.Clean\<close> of a rooted path: the elements left when empty ones, \<^verbatim>\<open>.\<close> and \<^verbatim>\<open>..\<close> are worked off.\<close>

definition cleanStep :: "string \<Rightarrow> string list \<Rightarrow> string list" where
  "cleanStep e p = (if e = [] \<or> e = ''.'' then p else if e = ''..'' then butlast p else p @ [e])"

definition pathOf :: "string list \<Rightarrow> string" where
  "pathOf p = (if p = [] then ''/'' else concat (map (\<lambda>e. CHR ''/'' # e) p))"

definition elements :: "string \<Rightarrow> string list" where
  "elements path = fold cleanStep (Split path ''/'') []"

text \<open>\<^verbatim>\<open>filepath.Join(base, elem)\<close> for a rooted \<open>base\<close>.\<close>

definition Join :: "string \<Rightarrow> string \<Rightarrow> string" where
  "Join base elem = pathOf (elements (if elem = [] then base else base @ ''/'' @ elem))"

text \<open>The elements of a clean path.\<close>

definition clean_path :: "string list \<Rightarrow> bool" where
  "clean_path p \<longleftrightarrow> (\<forall>e \<in> set p. e \<noteq> [] \<and> e \<noteq> ''.'' \<and> e \<noteq> ''..'' \<and> CHR ''/'' \<notin> set e)"

lemma fold_clean: "clean_path p \<Longrightarrow> fold cleanStep p q = q @ p"
  by (induction p arbitrary: q) (auto simp: cleanStep_def clean_path_def)

lemma Split_pathOf:
  assumes "clean_path p" "p \<noteq> []"
  shows "Split (pathOf p) ''/'' = [] # p"
proof -
  have "Split (concat (map (\<lambda>e. CHR ''/'' # e) q)) ''/'' = [] # q" if "clean_path q" for q
    using that
  proof (induction q rule: rev_induct)
    case Nil
    then show ?case by (simp add: Split_def)
  next
    case (snoc e q)
    then have "Split e ''/'' = [e]" by (simp add: clean_path_def Split_none)
    then show ?case using snoc Split_join [of "concat (map (\<lambda>e. CHR ''/'' # e) q)" "CHR ''/''" e]
      by (simp add: clean_path_def)
  qed
  with assms show ?thesis by (simp add: pathOf_def)
qed

lemma elements_pathOf [simp]:
  assumes "clean_path p"
  shows "elements (pathOf p) = p"
proof (cases "p = []")
  case True
  then show ?thesis by (simp add: elements_def pathOf_def Split_def prefix_def cleanStep_def)
next
  case False
  with assms show ?thesis using fold_clean [OF assms, of "[]"]
    by (simp add: elements_def Split_pathOf cleanStep_def)
qed

lemma elements_join: "elements (a @ ''/'' @ b) = fold cleanStep (Split b ''/'') (elements a)"
  using Split_join [of a "CHR ''/''" b] by (simp add: elements_def)

lemma Join_elements: "Join base e = pathOf (fold cleanStep (Split e ''/'') (elements base))"
proof (cases "e = []")
  case True
  then show ?thesis by (simp add: Join_def Split_def cleanStep_def)
next
  case False
  then show ?thesis using elements_join [of base e] by (simp add: Join_def)
qed

end
