(* ===== verification/Ops.thy ===== *)
theory Ops
  imports Pprof_Sessions Go_Strings Admin Grpc_Services User_Adapters "HOL-Library.Char_ord" "HOL-Library.List_Lexorder"
begin

text \<open>
  The operations server, \<^verbatim>\<open>cmd/ops/main.go\<close>: projects, the list of services, the registry of methods that
  can be called.  A handler is given the first JSON value of the body, if the decoder
  reads one, and answers with a status and a value.
\<close>

section \<open>Projects\<close>

record ProjectConfig =
  pjc_ID :: string
  pjc_Name :: string
  pjc_NacosHost :: string
  pjc_NacosPort :: string
  pjc_Namespace :: string

text \<open>The client of a project, which embeds the base client, over a state \<open>'c\<close>.\<close>

record 'c ops_client =
  oc_ValidateToken :: "string \<Rightarrow> 'c \<Rightarrow> (int64 \<times> string \<times> go_time) go_result \<times> 'c"
  oc_GetBalance :: "int64 \<Rightarrow> 'c \<Rightarrow> int64 go_result \<times> 'c"
  oc_AddBalance :: "int64 \<Rightarrow> int64 \<Rightarrow> string \<Rightarrow> 'c \<Rightarrow> int64 go_result \<times> 'c"
  oc_GetCurrentRound :: "ColorGameGetCurrentRoundReq \<Rightarrow> 'c \<Rightarrow> json go_result \<times> 'c"
  oc_GetState :: "ColorGameGetStateReq \<Rightarrow> 'c \<Rightarrow> json go_result \<times> 'c"
  oc_Broadcast :: "string \<Rightarrow> proto_message \<Rightarrow> 'c \<Rightarrow> 'c"
  oc_CollectPerformance :: "string \<Rightarrow> addr \<Rightarrow> int32 \<Rightarrow> 'c \<Rightarrow> CollectResp go_result \<times> 'c"
  oc_GetAllServicesList :: "'c \<Rightarrow> string list go_result \<times> 'c"
  oc_GetServices :: "string \<Rightarrow> 'c \<Rightarrow> addr list go_result \<times> 'c"

record 'c ProjectContext =
  pj_Config :: ProjectConfig
  pj_Client :: "'c ops_client"

type_synonym 'c projects = "(string \<times> 'c ProjectContext) list"

text \<open>\<open>newClient\<close> is \<^verbatim>\<open>NewNacosClient\<close> and what is built on it; a project whose registry cannot be created is left out.
  \<^verbatim>\<open>projects\<close> and \<^verbatim>\<open>projectList\<close> hold the same projects: the list is kept in its order.\<close>

definition ops_getEnv :: "(string \<Rightarrow> string option) \<Rightarrow> string \<Rightarrow> string \<Rightarrow> string" where
  "ops_getEnv env key fallback = (case env key of Some value \<Rightarrow> value | None \<Rightarrow> fallback)"

definition colorGameProject :: "(string \<Rightarrow> string option) \<Rightarrow> ProjectConfig" where
  "colorGameProject env =
     \<lparr>pjc_ID = ''color_game'', pjc_Name = ''Color Game'', pjc_NacosHost = ops_getEnv env ''NACOS_HOST'' ''localhost'',
      pjc_NacosPort = ops_getEnv env ''NACOS_PORT'' ''8848'', pjc_Namespace = ops_getEnv env ''NACOS_NAMESPACE'' ''public''\<rparr>"

fun initProjects :: "(ProjectConfig \<Rightarrow> 'c ops_client go_result) \<Rightarrow> ProjectConfig list \<Rightarrow> 'c projects" where
  "initProjects newClient [] = []"
| "initProjects newClient (cfg # cfgs) =
     (case newClient cfg of
        Inl err \<Rightarrow> initProjects newClient cfgs
      | Inr client \<Rightarrow> (pjc_ID cfg, \<lparr>pj_Config = cfg, pj_Client = client\<rparr>) # initProjects newClient cfgs)"

definition getProjectContext :: "'c projects \<Rightarrow> string \<Rightarrow> 'c ProjectContext go_result" where
  "getProjectContext projects pid =
     (case map_of projects pid of
        Some p \<Rightarrow> Inr p
      | None \<Rightarrow> Inl (''project '' @ [CHR 0x27] @ pid @ [CHR 0x27] @ '' not found''))"

type_synonym ops_reply = "nat \<times> json"

section \<open>Services\<close>

definition instances_json :: "addr list go_result \<Rightarrow> json \<times> nat" where
  "instances_json r =
     (case r of Inr (a # as) \<Rightarrow> (JArr (map JStr (a # as)), length (a # as)) | _ \<Rightarrow> (JNull, 0))"

fun serviceInfos :: "'c ops_client \<Rightarrow> string list \<Rightarrow> 'c \<Rightarrow> json list \<times> 'c" where
  "serviceInfos C [] c = ([], c)"
| "serviceInfos C (s # ss) c =
     (let (addrs, c) = oc_GetServices C s c;
          (insts, n) = instances_json addrs;
          (rest, c) = serviceInfos C ss c
      in (JObj [(''name'', JStr s), (''instances'', insts), (''count'', json_int (int n))] # rest, c))"

definition handleListServices :: "'c projects \<Rightarrow> string \<Rightarrow> 'c \<Rightarrow> ops_reply \<times> 'c" where
  "handleListServices projects query c =
     (let projectID = (if query = [] \<and> projects \<noteq> [] then pjc_ID (pj_Config (snd (hd projects))) else query)
      in case getProjectContext projects projectID of
           Inl err \<Rightarrow> ((400, error_json err), c)
         | Inr p \<Rightarrow>
             (case oc_GetAllServicesList (pj_Client p) c of
                (Inl err, c) \<Rightarrow> ((500, error_json err), c)
              | (Inr services, c) \<Rightarrow>
                  (case serviceInfos (pj_Client p) services c of (infos, c) \<Rightarrow> ((200, JArr infos), c))))"

section \<open>Methods\<close>

record generic_body =
  gb_Project :: string
  gb_Method :: string
  gb_Payload :: "json option"

definition generic_fields :: "(string \<times> (json \<Rightarrow> generic_body \<Rightarrow> generic_body option)) list" where
  "generic_fields =
     [(''project'', str_field (\<lambda>s b. b\<lparr>gb_Project := s\<rparr>)), (''method'', str_field (\<lambda>s b. b\<lparr>gb_Method := s\<rparr>)),
      (''payload'', raw_field (\<lambda>j b. b\<lparr>gb_Payload := Some j\<rparr>))]"

record method_req =
  mr_Token :: string
  mr_UserID :: int64
  mr_Amount :: int64
  mr_Reason :: string
  mr_GameCode :: string
  mr_RoundID :: string
  mr_State :: string

definition no_req :: method_req where
  "no_req = \<lparr>mr_Token = [], mr_UserID = 0, mr_Amount = 0, mr_Reason = [], mr_GameCode = [], mr_RoundID = [], mr_State = []\<rparr>"

text \<open>Each method reads its own struct; a payload that is missing is the empty text, which is no JSON.\<close>

definition read_req :: "(string \<times> (json \<Rightarrow> method_req \<Rightarrow> method_req option)) list \<Rightarrow> json option \<Rightarrow> method_req option" where
  "read_req fs payload = Option.bind payload (struct_of fs no_req)"

definition "token_field = (''token'', str_field (\<lambda>s r. r\<lparr>mr_Token := s\<rparr>))"
definition "user_field = (''user_id'', int64_field (\<lambda>i r. r\<lparr>mr_UserID := i\<rparr>))"
definition "balance_fields =
  [user_field, (''amount'', int64_field (\<lambda>i r. r\<lparr>mr_Amount := i\<rparr>)), (''reason'', str_field (\<lambda>s r. r\<lparr>mr_Reason := s\<rparr>))]"
definition "broadcast_fields =
  [(''game_code'', str_field (\<lambda>s r. r\<lparr>mr_GameCode := s\<rparr>)), (''round_id'', str_field (\<lambda>s r. r\<lparr>mr_RoundID := s\<rparr>)),
   (''state'', str_field (\<lambda>s r. r\<lparr>mr_State := s\<rparr>))]"

text \<open>The handlers.  \<open>tz\<close> and \<open>jsonErr\<close> are the zone and the text of a JSON error; \<^verbatim>\<open>TestBroadcast\<close> always announces
  the betting phase, whatever state the request names.\<close>

definition call_ValidateToken ::
    "(go_time \<Rightarrow> int) \<Rightarrow> string \<Rightarrow> 'c ops_client \<Rightarrow> json option \<Rightarrow> 'c \<Rightarrow> json go_result \<times> 'c" where
  "call_ValidateToken tz jsonErr C payload c =
     (case read_req [token_field] payload of
        None \<Rightarrow> (Inl (''invalid json: '' @ jsonErr), c)
      | Some req \<Rightarrow>
          (case oc_ValidateToken C (mr_Token req) c of
             (Inl err, c) \<Rightarrow> (Inl err, c)
           | (Inr (uid, username, expiry), c) \<Rightarrow>
               (Inr (JObj [(''expires_at'', JStr (rfc3339 tz expiry)), (''user_id'', json_int (sint uid)),
                           (''username'', JStr username), (''valid'', JBool True)]), c)))"

definition call_GetBalance :: "string \<Rightarrow> 'c ops_client \<Rightarrow> json option \<Rightarrow> 'c \<Rightarrow> json go_result \<times> 'c" where
  "call_GetBalance jsonErr C payload c =
     (case read_req [user_field] payload of
        None \<Rightarrow> (Inl jsonErr, c)
      | Some req \<Rightarrow>
          (case oc_GetBalance C (mr_UserID req) c of
             (Inl err, c) \<Rightarrow> (Inl err, c)
           | (Inr bal, c) \<Rightarrow> (Inr (JObj [(''balance'', json_int (sint bal))]), c)))"

definition call_AddBalance :: "string \<Rightarrow> 'c ops_client \<Rightarrow> json option \<Rightarrow> 'c \<Rightarrow> json go_result \<times> 'c" where
  "call_AddBalance jsonErr C payload c =
     (case read_req balance_fields payload of
        None \<Rightarrow> (Inl jsonErr, c)
      | Some req \<Rightarrow>
          (case oc_AddBalance C (mr_UserID req) (mr_Amount req) (mr_Reason req) c of
             (Inl err, c) \<Rightarrow> (Inl err, c)
           | (Inr newBal, c) \<Rightarrow> (Inr (JObj [(''new_balance'', json_int (sint newBal))]), c)))"

definition call_GetCurrentRound :: "string \<Rightarrow> 'c ops_client \<Rightarrow> json option \<Rightarrow> 'c \<Rightarrow> json go_result \<times> 'c" where
  "call_GetCurrentRound jsonErr C payload c =
     (case read_req [user_field] payload of
        None \<Rightarrow> (Inl jsonErr, c)
      | Some req \<Rightarrow> oc_GetCurrentRound C \<lparr>crq_UserId = mr_UserID req\<rparr> c)"

definition call_GetState :: "string \<Rightarrow> 'c ops_client \<Rightarrow> json option \<Rightarrow> 'c \<Rightarrow> json go_result \<times> 'c" where
  "call_GetState jsonErr C payload c =
     (case read_req [user_field] payload of
        None \<Rightarrow> (Inl jsonErr, c)
      | Some req \<Rightarrow> oc_GetState C \<lparr>gsq_UserId = mr_UserID req\<rparr> c)"

definition call_TestBroadcast :: "string \<Rightarrow> 'c ops_client \<Rightarrow> json option \<Rightarrow> 'c \<Rightarrow> json go_result \<times> 'c" where
  "call_TestBroadcast jsonErr C payload c =
     (case read_req broadcast_fields payload of
        None \<Rightarrow> (Inl jsonErr, c)
      | Some req \<Rightarrow>
          (Inr (JObj [(''game_code'', JStr (mr_GameCode req)), (''message'', JStr ''Broadcast sent''),
                      (''round_id'', JStr (mr_RoundID req)), (''success'', JBool True)]),
           oc_Broadcast C (mr_GameCode req)
             (RoundStateMsg \<lparr>brc_RoundId = mr_RoundID req, brc_State = GAME_STATE_BETTING,
                brc_BettingEndTimestamp = 0, brc_LeftTime = 0\<rparr>) c))"

definition methodRegistry ::
    "(go_time \<Rightarrow> int) \<Rightarrow> string \<Rightarrow> (string \<times> ('c ops_client \<Rightarrow> json option \<Rightarrow> 'c \<Rightarrow> json go_result \<times> 'c)) list" where
  "methodRegistry tz jsonErr =
     [(''ValidateToken'', call_ValidateToken tz jsonErr), (''GetBalance'', call_GetBalance jsonErr),
      (''AddBalance'', call_AddBalance jsonErr), (''GetCurrentRound'', call_GetCurrentRound jsonErr),
      (''GetState'', call_GetState jsonErr), (''TestBroadcast'', call_TestBroadcast jsonErr)]"

definition handleGenericCall ::
    "(go_time \<Rightarrow> int) \<Rightarrow> string \<Rightarrow> 'c projects \<Rightarrow> json option \<Rightarrow> 'c \<Rightarrow> ops_reply \<times> 'c" where
  "handleGenericCall tz jsonErr projects body c =
     (case Option.bind body (struct_of generic_fields \<lparr>gb_Project = [], gb_Method = [], gb_Payload = None\<rparr>) of
        None \<Rightarrow> ((400, error_json ''Invalid request format''), c)
      | Some b \<Rightarrow>
          (case getProjectContext projects (gb_Project b) of
             Inl err \<Rightarrow> ((400, error_json err), c)
           | Inr p \<Rightarrow>
               (case map_of (methodRegistry tz jsonErr) (gb_Method b) of
                  None \<Rightarrow> ((400, error_json (''Method '' @ [CHR 0x27] @ gb_Method b @ [CHR 0x27] @ '' not found'')), c)
                | Some handler \<Rightarrow>
                    (case handler (pj_Client p) (gb_Payload b) c of
                       (Inl err, c) \<Rightarrow> ((500, error_json err), c)
                     | (Inr result, c) \<Rightarrow> ((200, result), c)))))"

end
