(* ===== verification/Ops_Profiles.thy ===== *)
theory Ops_Profiles
  imports Ops
begin

text \<open>
  The profiles of the operations server: recording them into a folder of its storage, listing, viewing and
  deleting them (\<^verbatim>\<open>handleRecordPerformance\<close>, \<^verbatim>\<open>handleListPerformanceHistory\<close>, \<^verbatim>\<open>handlePprofProxy\<close>,
  \<^verbatim>\<open>handleDeletePerformanceHistory\<close>).  The file system is a list of directories and of files, by the elements
  of their paths; which operations fail is a parameter.
\<close>

section \<open>The file system\<close>

type_synonym path = "string list"

record file_system =
  fs_dirs :: "path list"
  fs_files :: "(path \<times> string) list"

record ops_os =
  os_MkdirFails :: "path \<Rightarrow> go_error option"
  os_WriteFails :: "path \<Rightarrow> go_error option"
  os_RemoveFails :: "path \<Rightarrow> go_error option"

text \<open>A path is read from the working directory; without symbolic links, \<^verbatim>\<open>..\<close> is lexical.\<close>

definition resolve :: "path \<Rightarrow> string \<Rightarrow> path" where
  "resolve cwd p = (if prefix ''/'' p then elements p else fold cleanStep (Split p ''/'') cwd)"

definition MkdirAll :: "ops_os \<Rightarrow> path \<Rightarrow> file_system \<Rightarrow> go_error option \<times> file_system" where
  "MkdirAll os p fs =
     (case os_MkdirFails os p of
        Some err \<Rightarrow> (Some err, fs)
      | None \<Rightarrow> (None, fs\<lparr>fs_dirs := fs_dirs fs @ filter (\<lambda>d. d \<notin> set (fs_dirs fs)) (prefixes p)\<rparr>))"

definition WriteFile :: "ops_os \<Rightarrow> path \<Rightarrow> string \<Rightarrow> file_system \<Rightarrow> go_error option \<times> file_system" where
  "WriteFile os p data fs =
     (case os_WriteFails os p of
        Some err \<Rightarrow> (Some err, fs)
      | None \<Rightarrow> (None, fs\<lparr>fs_files := AList.update p data (fs_files fs)\<rparr>))"

text \<open>A removal that fails is read as one that removes nothing; the system may have removed part.\<close>

definition RemoveAll :: "ops_os \<Rightarrow> path \<Rightarrow> file_system \<Rightarrow> go_error option \<times> file_system" where
  "RemoveAll os p fs =
     (case os_RemoveFails os p of
        Some err \<Rightarrow> (Some err, fs)
      | None \<Rightarrow> (None, \<lparr>fs_dirs = filter (\<lambda>d. \<not> prefix p d) (fs_dirs fs),
                        fs_files = filter (\<lambda>(f, _). \<not> prefix p f) (fs_files fs)\<rparr>))"

definition child_of :: "path \<Rightarrow> path \<Rightarrow> bool" where
  "child_of p q \<longleftrightarrow> q \<noteq> [] \<and> butlast q = p"

text \<open>The names of the entries and whether they are directories, sorted by name.\<close>

definition ReadDir :: "path \<Rightarrow> file_system \<Rightarrow> (string \<times> bool) list" where
  "ReadDir p fs =
     sort_key fst (map (\<lambda>d. (last d, True)) (filter (child_of p) (fs_dirs fs)) @
                   map (\<lambda>(f, _). (last f, False)) (filter (\<lambda>(f, _). child_of p f) (fs_files fs)))"

record 'c ops_world =
  ow_client :: 'c
  ow_fs :: file_system
  ow_pprof :: pprof_world
  ow_clock :: "nat \<Rightarrow> go_time"
  ow_reads :: nat

definition storage :: string where
  "storage = ''./storage/pprof''"

section \<open>Recording\<close>

record record_body =
  rb_Project :: string
  rb_Service :: string
  rb_Instance :: string
  rb_Duration :: int32

definition int32_field :: "(int32 \<Rightarrow> 'f \<Rightarrow> 'f) \<Rightarrow> json \<Rightarrow> 'f \<Rightarrow> 'f option" where
  "int32_field upd j x =
     (case j of
        JNum l \<Rightarrow> (case parse_int l of
                    Some i \<Rightarrow> if - (2 ^ 31) \<le> i \<and> i < 2 ^ 31 then Some (upd (word_of_int i) x) else None
                  | None \<Rightarrow> None)
      | JNull \<Rightarrow> Some x
      | _ \<Rightarrow> None)"

definition record_fields :: "(string \<times> (json \<Rightarrow> record_body \<Rightarrow> record_body option)) list" where
  "record_fields =
     [(''project'', str_field (\<lambda>s b. b\<lparr>rb_Project := s\<rparr>)), (''service'', str_field (\<lambda>s b. b\<lparr>rb_Service := s\<rparr>)),
      (''instance'', str_field (\<lambda>s b. b\<lparr>rb_Instance := s\<rparr>)), (''duration'', int32_field (\<lambda>d b. b\<lparr>rb_Duration := d\<rparr>))]"

definition clampDuration :: "int32 \<Rightarrow> int32" where
  "clampDuration d =
     (let d = (if sint d \<le> 0 then 30 else d) in if sint d > 600 then 600 else d)"

definition safeInstance :: "string \<Rightarrow> string" where
  "safeInstance inst = (let s = ReplaceChar CHR '':'' CHR ''-'' inst in if s = [] then ''unknown'' else s)"

definition folderName :: "int64 \<Rightarrow> string \<Rightarrow> string \<Rightarrow> string" where
  "folderName timestamp service inst = itoa (sint timestamp) @ ''__'' @ service @ ''__'' @ inst"

fun writeFiles ::
    "ops_os \<Rightarrow> path \<Rightarrow> string \<Rightarrow> (string \<times> string \<times> string) list \<Rightarrow> file_system
      \<Rightarrow> (string \<times> string) list \<times> file_system" where
  "writeFiles os cwd folder [] fs = ([], fs)"
| "writeFiles os cwd folder ((key, name, data) # rest) fs =
     (let (url, fs) =
        (if data = [] then ([], fs)
         else case WriteFile os (resolve cwd (storage @ ''/'' @ folder @ ''/'' @ name)) data fs of
                (Some err, fs) \<Rightarrow> ([], fs)
              | (None, fs) \<Rightarrow> (folder @ ''/'' @ name, fs));
          (urls, fs) = writeFiles os cwd folder rest fs
      in ((key, url) # urls, fs))"

definition profileFiles :: "CollectResp \<Rightarrow> (string \<times> string \<times> string) list" where
  "profileFiles resp =
     [(''cpu'', ''cpu.prof'', CpuProfile resp), (''trace'', ''trace.out'', TraceData resp),
      (''heap'', ''heap.prof'', HeapSnapshot resp), (''goroutine'', ''goroutine.prof'', GoroutineDump resp),
      (''block'', ''block.prof'', BlockProfile resp), (''mutex'', ''mutex.prof'', MutexProfile resp)]"

definition handleRecordPerformance ::
    "ops_os \<Rightarrow> path \<Rightarrow> 'c projects \<Rightarrow> json option \<Rightarrow> 'c ops_world \<Rightarrow> ops_reply \<times> 'c ops_world" where
  "handleRecordPerformance os cwd projects body w =
     (case Option.bind body (struct_of record_fields
             \<lparr>rb_Project = [], rb_Service = [], rb_Instance = [], rb_Duration = 0\<rparr>) of
        None \<Rightarrow> ((400, error_json ''Invalid request''), w)
      | Some b \<Rightarrow>
          (case getProjectContext projects (rb_Project b) of
             Inl err \<Rightarrow> ((400, error_json err), w)
           | Inr p \<Rightarrow>
               (case oc_CollectPerformance (pj_Client p) (rb_Service b) (rb_Instance b) (clampDuration (rb_Duration b))
                       (ow_client w) of
                  (Inl err, c) \<Rightarrow> ((500, error_json (''RPC failed: '' @ err)), w\<lparr>ow_client := c\<rparr>)
                | (Inr resp, c) \<Rightarrow>
                    (let timestamp = Unix (ow_clock w (ow_reads w));
                         w = w\<lparr>ow_client := c, ow_reads := Suc (ow_reads w)\<rparr>;
                         folder = folderName timestamp (rb_Service b) (safeInstance (rb_Instance b))
                     in case MkdirAll os (resolve cwd (storage @ ''/'' @ folder)) (ow_fs w) of
                          (Some err, fs) \<Rightarrow> ((500, error_json ''Failed to create storage dir''), w\<lparr>ow_fs := fs\<rparr>)
                        | (None, fs) \<Rightarrow>
                            (case writeFiles os cwd folder (profileFiles resp) fs of
                               (files, fs) \<Rightarrow>
                                 ((200, JObj [(''files'', JObj (map_entries (map (\<lambda>(k, u). (k, JStr u)) files))),
                                              (''instance'', JStr (rb_Instance b)),
                                              (''service_name'', JStr (rb_Service b)), (''success'', JBool True),
                                              (''timestamp'', json_int (sint timestamp))]),
                                  w\<lparr>ow_fs := fs\<rparr>))))))"

section \<open>Listing\<close>

record HistoryItem =
  hi_Folder :: string
  hi_Timestamp :: int64
  hi_ServiceName :: string
  hi_Instance :: string
  hi_Files :: "(string \<times> string) list"

text \<open>\<^verbatim>\<open>TrimSuffix(name, filepath.Ext(name))\<close>\<close>

definition fileStem :: "string \<Rightarrow> string" where
  "fileStem name =
     (if CHR ''.'' \<in> set name then rev (tl (dropWhile (\<lambda>c. c \<noteq> CHR ''.'') (rev name))) else name)"

definition historyFiles :: "string \<Rightarrow> (string \<times> bool) list \<Rightarrow> (string \<times> string) list" where
  "historyFiles folder entries =
     fold (\<lambda>(name, isDir) files.
        if isDir then files
        else AList.update (if name = ''trace.out'' then ''trace'' else fileStem name) (folder @ ''/'' @ name) files)
       entries []"

definition historyItem :: "path \<Rightarrow> file_system \<Rightarrow> string \<Rightarrow> HistoryItem option" where
  "historyItem dir fs name =
     (let parts = Split name ''__''
      in if length parts < 2 then None
         else Some \<lparr>hi_Folder = name, hi_Timestamp = fst (ParseInt (parts ! 0)), hi_ServiceName = parts ! 1,
                    hi_Instance = (if length parts \<ge> 3 then ReplaceChar CHR ''-'' CHR '':'' (parts ! 2) else ''unknown''),
                    hi_Files = historyFiles name (ReadDir (dir @ [name]) fs)\<rparr>)"

definition listHistory :: "ops_os \<Rightarrow> path \<Rightarrow> 'c ops_world \<Rightarrow> HistoryItem list \<times> 'c ops_world" where
  "listHistory os cwd w =
     (let dir = resolve cwd storage;
          fs = snd (MkdirAll os dir (ow_fs w));
          entries = ReadDir dir fs
      in (List.map_filter (\<lambda>(name, isDir). if isDir then historyItem dir fs name else None) entries,
          w\<lparr>ow_fs := fs\<rparr>))"

definition history_json :: "HistoryItem \<Rightarrow> json" where
  "history_json i =
     JObj [(''folder'', JStr (hi_Folder i)), (''timestamp'', json_int (sint (hi_Timestamp i))),
           (''service_name'', JStr (hi_ServiceName i)), (''instance'', JStr (hi_Instance i)),
           (''files'', JObj (map_entries (map (\<lambda>(k, u). (k, JStr u)) (hi_Files i))))]"

text \<open>Reading a storage that could not be created fails.\<close>

definition handleListPerformanceHistory :: "ops_os \<Rightarrow> path \<Rightarrow> 'c ops_world \<Rightarrow> ops_reply \<times> 'c ops_world" where
  "handleListPerformanceHistory os cwd w =
     (case listHistory os cwd w of
        (items, w) \<Rightarrow>
          if resolve cwd storage \<notin> set (fs_dirs (ow_fs w))
          then ((500, error_json ''Failed to list directory''), w)
          else ((200, JArr (map history_json items)), w))"

section \<open>Downloading\<close>

text \<open>The files of the storage are served under \<^verbatim>\<open>/performance/download\<close>: the rest of the path is cleaned as a
  rooted path and looked up below the storage.\<close>

definition download :: "path \<Rightarrow> string \<Rightarrow> 'c ops_world \<Rightarrow> string option" where
  "download cwd filepath w = map_of (fs_files (ow_fs w)) (resolve cwd storage @ elements filepath)"

section \<open>Viewing\<close>

text \<open>\<^verbatim>\<open>base64.RawURLEncoding.DecodeString\<close>: line breaks are skipped, left-over bits ignored.\<close>

definition b64_value :: "char \<Rightarrow> nat option" where
  "b64_value c =
     (let b = byte c
      in if 65 \<le> b \<and> b \<le> 90 then Some (b - 65)
         else if 97 \<le> b \<and> b \<le> 122 then Some (b - 71)
         else if 48 \<le> b \<and> b \<le> 57 then Some (b + 4)
         else if c = CHR ''-'' then Some 62 else if c = CHR ''_'' then Some 63 else None)"

fun b64_bytes :: "nat list \<Rightarrow> string option" where
  "b64_bytes [] = Some []"
| "b64_bytes [a] = None"
| "b64_bytes [a, b] = Some [byte_char (a * 4 + b div 16)]"
| "b64_bytes [a, b, c] = Some [byte_char (a * 4 + b div 16), byte_char ((b mod 16) * 16 + c div 4)]"
| "b64_bytes (a # b # c # d # rest) =
     map_option (\<lambda>s. byte_char (a * 4 + b div 16) # byte_char ((b mod 16) * 16 + c div 4) #
                     byte_char ((c mod 4) * 64 + d) # s) (b64_bytes rest)"

definition b64_decode :: "string \<Rightarrow> string option" where
  "b64_decode s =
     (let cs = filter (\<lambda>c. byte c \<noteq> 10 \<and> byte c \<noteq> 13) s
      in if list_all (\<lambda>c. b64_value c \<noteq> None) cs then b64_bytes (map (\<lambda>c. the (b64_value c)) cs) else None)"

datatype proxy_reply = PlainText nat string | ForwardTo int string

definition handlePprofProxy ::
    "((string \<times> PprofSession) list \<Rightarrow> (string \<times> PprofSession) list) \<Rightarrow> path \<Rightarrow> string \<Rightarrow> string \<Rightarrow> 'c ops_world
      \<Rightarrow> proxy_reply \<times> 'c ops_world" where
  "handlePprofProxy iter cwd safeKey proxyPath w =
     (case b64_decode safeKey of
        None \<Rightarrow> (PlainText 400 ''Invalid key'', w)
      | Some relPath \<Rightarrow>
          (let absStorage = pathOf (resolve cwd storage); targetPath = Join absStorage relPath
           in if \<not> prefix absStorage targetPath then (PlainText 403 ''Access denied'', w)
              else case GetOrStartPprofSession iter targetPath (ow_pprof w) of
                     (Inl err, p) \<Rightarrow> (PlainText 500 (''Failed to start pprof: '' @ err), w\<lparr>ow_pprof := p\<rparr>)
                   | (Inr port, p) \<Rightarrow> (ForwardTo port proxyPath, w\<lparr>ow_pprof := p\<rparr>)))"

text \<open>The \<^verbatim>\<open>Location\<close> header of the viewer's answer.\<close>

definition proxyLocation :: "string \<Rightarrow> string \<Rightarrow> string" where
  "proxyLocation safeKey loc = (if prefix ''/'' loc then ''/api/performance/ui/'' @ safeKey @ loc else loc)"

section \<open>Deleting\<close>

definition folder_refused :: "string \<Rightarrow> bool" where
  "folder_refused folder \<longleftrightarrow> Contains folder ''..'' \<or> Contains folder ''/'' \<or> Contains folder [backslash]"

fun deleteFolders :: "ops_os \<Rightarrow> path \<Rightarrow> string list \<Rightarrow> 'c ops_world \<Rightarrow> nat \<times> 'c ops_world" where
  "deleteFolders os cwd [] w = (0, w)"
| "deleteFolders os cwd (folder # folders) w =
     (let baseDir = pathOf (resolve cwd storage); targetPath = Join baseDir folder
      in if folder_refused folder \<or> \<not> prefix baseDir targetPath then deleteFolders os cwd folders w
         else case RemoveAll os (elements targetPath) (ow_fs w) of
                (Some err, fs) \<Rightarrow> deleteFolders os cwd folders (w\<lparr>ow_fs := fs\<rparr>)
              | (None, fs) \<Rightarrow>
                  (case deleteFolders os cwd folders
                          (w\<lparr>ow_fs := fs, ow_pprof := deleteSessions folder (ow_pprof w)\<rparr>) of
                     (n, w) \<Rightarrow> (Suc n, w)))"

fun str_list :: "json list \<Rightarrow> string list option" where
  "str_list [] = Some []"
| "str_list (JStr s # js) = map_option ((#) s) (str_list js)"
| "str_list (JNull # js) = map_option ((#) []) (str_list js)"
| "str_list (_ # js) = None"

definition folders_field :: "json \<Rightarrow> string list \<Rightarrow> string list option" where
  "folders_field j x = (case j of JArr js \<Rightarrow> str_list js | JNull \<Rightarrow> Some [] | _ \<Rightarrow> None)"

definition handleDeletePerformanceHistory ::
    "ops_os \<Rightarrow> path \<Rightarrow> json option \<Rightarrow> 'c ops_world \<Rightarrow> ops_reply \<times> 'c ops_world" where
  "handleDeletePerformanceHistory os cwd body w =
     (case Option.bind body (struct_of [(''folders'', folders_field)] []) of
        None \<Rightarrow> ((400, error_json ''Invalid request''), w)
      | Some folders \<Rightarrow>
          (case deleteFolders os cwd folders w of
             (deletedCount, w) \<Rightarrow>
               ((200, JObj [(''deleted'', json_int (int deletedCount)), (''success'', JBool True)]), w)))"

end
