(* ===== verification/Ops_Props.thy ===== *)
theory Ops_Props
  imports Ops_Profiles
begin

text \<open>
  The properties of the operations server: what is recorded is listed as it was recorded, and what a deletion
  removes.
\<close>

section \<open>Paths of the storage\<close>

lemma splitFrom_no_sep: "d \<notin> set cur \<Longrightarrow> \<forall>e \<in> set (splitFrom [d] cur s). d \<notin> set e"
proof (induction s arbitrary: cur)
  case (Cons a s)
  note Cons.IH [of "[]"] Cons.IH [of "cur @ [a]"]
  with Cons.prems show ?case by (cases "a = d") (simp_all add: prefix_def)
qed simp

lemma Split_no_sep: "e \<in> set (Split s [d]) \<Longrightarrow> d \<notin> set e"
  using splitFrom_no_sep [of d "[]" s] by (simp add: Split_def)

lemma clean_cleanStep: "clean_path p \<Longrightarrow> CHR ''/'' \<notin> set e \<Longrightarrow> clean_path (cleanStep e p)"
  by (auto simp: clean_path_def cleanStep_def dest: in_set_butlastD)

lemma clean_fold: "clean_path p \<Longrightarrow> \<forall>e \<in> set es. CHR ''/'' \<notin> set e \<Longrightarrow> clean_path (fold cleanStep es p)"
  by (induction es arbitrary: p) (auto simp: clean_cleanStep)

lemma storage_no_root: "\<not> prefix ''/'' (storage @ s)"
  by (simp add: storage_def)

lemma clean_storage: "clean_path cwd \<Longrightarrow> clean_path (resolve cwd storage)"
  using storage_no_root [of "[]"] by (auto simp: resolve_def intro: clean_fold dest: Split_no_sep)

lemma resolve_below:
  assumes "CHR ''/'' \<notin> set e" "e \<noteq> []" "e \<noteq> ''.''" "e \<noteq> ''..''"
  shows "resolve cwd (storage @ s @ ''/'' @ e) = resolve cwd (storage @ s) @ [e]"
proof -
  have "Split (storage @ s @ ''/'' @ e) ''/'' = Split (storage @ s) ''/'' @ [e]"
    using Split_join [of "storage @ s" "CHR ''/''" e] assms(1) by (simp add: Split_none)
  moreover have "\<not> prefix ''/'' (storage @ s @ ''/'' @ e)" "\<not> prefix ''/'' (storage @ s)"
    using storage_no_root [of "s @ ''/'' @ e"] storage_no_root [of s] by simp_all
  ultimately show ?thesis using assms by (simp add: resolve_def cleanStep_def)
qed

section \<open>Deleting\<close>

definition removed_path :: "path \<Rightarrow> string \<Rightarrow> path" where
  "removed_path cwd f = resolve cwd storage @ (if f = [] \<or> f = ''.'' then [] else [f])"

lemma pathOf_prefix: "prefix (pathOf p) (pathOf (p @ q))"
  by (cases q) (auto simp: pathOf_def prefix_def)

lemma accepted_target:
  assumes "clean_path cwd" "\<not> folder_refused f"
  shows "elements (Join (pathOf (resolve cwd storage)) f) = removed_path cwd f"
    and "prefix (pathOf (resolve cwd storage)) (Join (pathOf (resolve cwd storage)) f)"
proof -
  note base = clean_storage [OF assms(1)]
  have f: "CHR ''/'' \<notin> set f" "f \<noteq> ''..''"
    using assms(2) by (auto simp: folder_refused_def Contains_single) (simp add: Contains_def)
  have J: "Join (pathOf (resolve cwd storage)) f = pathOf (removed_path cwd f)"
    using f base by (simp add: Join_elements Split_none cleanStep_def removed_path_def)
  have "clean_path (removed_path cwd f)"
    using base f by (auto simp: removed_path_def clean_path_def)
  then show "elements (Join (pathOf (resolve cwd storage)) f) = removed_path cwd f" by (simp add: J)
  show "prefix (pathOf (resolve cwd storage)) (Join (pathOf (resolve cwd storage)) f)"
    unfolding J removed_path_def by (rule pathOf_prefix)
qed

text \<open>The names under which a folder is looked for among the viewers never begin a path.\<close>

lemma dropSessions_none:
  assumes "f \<noteq> []" "hd f \<noteq> CHR ''/''" "\<forall>(k, s) \<in> set xs. prefix ''/'' k"
  shows "dropSessions f xs w = w"
  using assms(3)
proof (induction xs arbitrary: w)
  case (Cons x xs)
  obtain k s c cs where x: "x = (k, s)" "f = c # cs" using assms(1) by (cases x; cases f) auto
  then have "\<not> prefix (f @ g) k" for g using Cons.prems assms(2) by (auto simp: prefix_def)
  then show ?case using Cons x by simp
qed simp

lemma delete_keeps_viewers:
  assumes "\<not> folder_refused f" "f \<noteq> []" "\<forall>(k, s) \<in> set (pw_sessions p). prefix ''/'' k"
  shows "deleteSessions f p = p"
proof -
  have "CHR ''/'' \<notin> set f" using assms(1) by (simp add: folder_refused_def Contains_single)
  then have "hd f \<noteq> CHR ''/''" using assms(2) by (cases f) auto
  then show ?thesis using dropSessions_none assms(2,3) by (simp add: deleteSessions_def)
qed

definition deleted :: "ops_os \<Rightarrow> path \<Rightarrow> string \<Rightarrow> bool" where
  "deleted os cwd f \<longleftrightarrow> \<not> folder_refused f \<and> os_RemoveFails os (removed_path cwd f) = None"

lemma deleteFolders_Cons:
  assumes "clean_path cwd"
  shows "deleteFolders os cwd (f # fs) w =
     (if deleted os cwd f
      then (case deleteFolders os cwd fs
                (w\<lparr>ow_fs := snd (RemoveAll os (removed_path cwd f) (ow_fs w)),
                   ow_pprof := deleteSessions f (ow_pprof w)\<rparr>) of (n, w) \<Rightarrow> (Suc n, w))
      else deleteFolders os cwd fs w)"
proof (cases "folder_refused f")
  case True
  then show ?thesis by (simp add: deleted_def)
next
  case False
  with accepted_target [OF assms False] show ?thesis
    by (simp add: deleted_def RemoveAll_def split: option.split)
qed

lemma deleteFolders_effect:
  assumes "clean_path cwd" "deleteFolders os cwd folders w = (n, w')"
    and "\<forall>(k, s) \<in> set (pw_sessions (ow_pprof w)). prefix ''/'' k"
    and "gone = filter (deleted os cwd) folders"
  shows "n = length gone \<and>
     fs_files (ow_fs w') = filter (\<lambda>(p, _). \<forall>f \<in> set gone. \<not> prefix (removed_path cwd f) p) (fs_files (ow_fs w)) \<and>
     fs_dirs (ow_fs w') = filter (\<lambda>p. \<forall>f \<in> set gone. \<not> prefix (removed_path cwd f) p) (fs_dirs (ow_fs w)) \<and>
     ([] \<notin> set gone \<longrightarrow> ow_pprof w' = ow_pprof w)"
  using assms(2-4)
proof (induction folders arbitrary: w n gone)
  case (Cons f fs)
  show ?case
  proof (cases "deleted os cwd f")
    case False
    with Cons show ?thesis by (simp add: deleteFolders_Cons [OF assms(1)] del: deleteFolders.simps)
  next
    case True
    let ?v = "w\<lparr>ow_fs := snd (RemoveAll os (removed_path cwd f) (ow_fs w)), ow_pprof := deleteSessions f (ow_pprof w)\<rparr>"
    obtain m where m: "deleteFolders os cwd fs ?v = (m, w')" "n = Suc m"
      using Cons.prems(1) True
      by (auto simp: deleteFolders_Cons [OF assms(1)] simp del: deleteFolders.simps split: prod.splits)
    have sub: "set (pw_sessions (dropSessions g xs p)) \<subseteq> set (pw_sessions p)" for g xs p
      by (induction g xs p rule: dropSessions.induct) (auto simp: AList.delete_eq)
    have "\<forall>(k, s) \<in> set (pw_sessions (ow_pprof ?v)). prefix ''/'' k"
      using Cons.prems(2) sub [of f "pw_sessions (ow_pprof w)" "ow_pprof w"] by (auto simp: deleteSessions_def)
    from Cons.IH [OF m(1) this refl]
    have IH: "m = length (filter (deleted os cwd) fs)"
      "fs_files (ow_fs w') = filter (\<lambda>(p, _). \<forall>f \<in> set (filter (deleted os cwd) fs). \<not> prefix (removed_path cwd f) p) (fs_files (ow_fs ?v))"
      "fs_dirs (ow_fs w') = filter (\<lambda>p. \<forall>f \<in> set (filter (deleted os cwd) fs). \<not> prefix (removed_path cwd f) p) (fs_dirs (ow_fs ?v))"
      "[] \<notin> set (filter (deleted os cwd) fs) \<longrightarrow> ow_pprof w' = ow_pprof ?v" by blast+
    have rm: "snd (RemoveAll os (removed_path cwd f) (ow_fs w)) =
        \<lparr>fs_dirs = filter (\<lambda>d. \<not> prefix (removed_path cwd f) d) (fs_dirs (ow_fs w)),
         fs_files = filter (\<lambda>(g, _). \<not> prefix (removed_path cwd f) g) (fs_files (ow_fs w))\<rparr>"
      using True by (simp add: RemoveAll_def deleted_def)
    have "[] \<notin> set gone \<longrightarrow> ow_pprof w' = ow_pprof w"
      using IH(4) delete_keeps_viewers [of f "ow_pprof w"] True Cons.prems(2,3) by (auto simp: deleted_def)
    with IH(1-3) m(2) True Cons.prems(3) rm show ?thesis
      by (auto simp: case_prod_unfold intro!: filter_cong)
  qed
qed simp

lemma whole_storage_accepted: "\<not> folder_refused []" "\<not> folder_refused ''.''"
  by (simp_all add: folder_refused_def Contains_def prefix_def backslash_def)

text \<open>C33. What a deletion removes.  Exactly the accepted folders that the system lets go are counted and removed,
  with all below them; nothing outside the storage is touched.  But the guard accepts the empty name and
  \<^verbatim>\<open>.\<close>: where the system does not refuse, a request with one of them counts it and leaves no
  file and no directory of the storage.  And unless the empty name is among those removed, the viewers of
  the deleted profiles are not closed, because their sessions are kept under absolute paths.\<close>

theorem deletion_spec:
  assumes "clean_path cwd" "deleteFolders os cwd folders w = (n, w')"
    and "\<forall>(k, s) \<in> set (pw_sessions (ow_pprof w)). prefix ''/'' k"
    and "gone = filter (deleted os cwd) folders"
  shows "n = length gone \<and>
     fs_files (ow_fs w') = filter (\<lambda>(p, _). \<forall>f \<in> set gone. \<not> prefix (removed_path cwd f) p) (fs_files (ow_fs w)) \<and>
     fs_dirs (ow_fs w') = filter (\<lambda>p. \<forall>f \<in> set gone. \<not> prefix (removed_path cwd f) p) (fs_dirs (ow_fs w)) \<and>
     ([] \<notin> set gone \<longrightarrow> ow_pprof w' = ow_pprof w) \<and>
     (\<forall>f \<in> set folders. f \<in> {[], ''.''} \<and> os_RemoveFails os (resolve cwd storage) = None \<longrightarrow>
        f \<in> set gone \<and> (\<forall>p \<in> fst ` set (fs_files (ow_fs w')) \<union> set (fs_dirs (ow_fs w')).
          \<not> prefix (resolve cwd storage) p))"
proof (intro conjI ballI impI)
  note effect = deleteFolders_effect [OF assms]
  from effect show "n = length gone"
    "fs_files (ow_fs w') = filter (\<lambda>(p, _). \<forall>f \<in> set gone. \<not> prefix (removed_path cwd f) p) (fs_files (ow_fs w))"
    "fs_dirs (ow_fs w') = filter (\<lambda>p. \<forall>f \<in> set gone. \<not> prefix (removed_path cwd f) p) (fs_dirs (ow_fs w))"
    by blast+
  show "ow_pprof w' = ow_pprof w" if "[] \<notin> set gone" using effect that by blast
  fix f assume f: "f \<in> set folders" "f \<in> {[], ''.''} \<and> os_RemoveFails os (resolve cwd storage) = None"
  then show gone: "f \<in> set gone" using whole_storage_accepted by (auto simp: assms(4) deleted_def removed_path_def)
  fix p assume "p \<in> fst ` set (fs_files (ow_fs w')) \<union> set (fs_dirs (ow_fs w'))"
  with effect gone have "\<not> prefix (removed_path cwd f) p" by auto
  with f(2) show "\<not> prefix (resolve cwd storage) p" by (auto simp: removed_path_def)
qed

definition sample_os :: ops_os where
  "sample_os = \<lparr>os_MkdirFails = \<lambda>_. None, os_WriteFails = \<lambda>_. None, os_RemoveFails = \<lambda>_. None\<rparr>"

definition sample_fs :: file_system where
  "sample_fs =
     \<lparr>fs_dirs = [[''srv''], [''srv'', ''storage''], [''srv'', ''storage'', ''pprof''], [''srv'', ''storage'', ''pprof'', ''1__gs__a'']],
      fs_files = [([''srv'', ''main''], ''x''), ([''srv'', ''storage'', ''pprof'', ''1__gs__a'', ''cpu.prof''], ''y'')]\<rparr>"

definition sample_ops :: "unit ops_world" where
  "sample_ops = \<lparr>ow_client = (), ow_fs = sample_fs, ow_pprof = sample_opened, ow_clock = \<lambda>_. 170 * Second, ow_reads = 0\<rparr>"

lemma sample_viewers: "\<forall>(k, s) \<in> set (pw_sessions (ow_pprof sample_ops)). prefix ''/'' k"
  by (simp add: sample_ops_def sample_opened_def sample_pprof_def pprof_evals suffix_def Second_def prefix_def)

lemma srv_clean: "clean_path [''srv'']" "resolve [''srv''] storage = [''srv'', ''storage'', ''pprof'']"
  by (simp add: clean_path_def)
    (simp add: resolve_def storage_def Split_def prefix_def cleanStep_def)

text \<open>A request to delete \<^verbatim>\<open>.\<close> removes every profile; one for \<^verbatim>\<open>..\<close> nothing.\<close>

theorem deletion_spec_witness:
  "\<exists>w'. deleteFolders sample_os [''srv''] [''..'', ''.''] sample_ops = (1, w') \<and>
     fs_files (ow_fs w') = [([''srv'', ''main''], ''x'')] \<and> ow_pprof w' = sample_opened"
proof -
  obtain n w' where run: "deleteFolders sample_os [''srv''] [''..'', ''.''] sample_ops = (n, w')" by fastforce
  have refused: "folder_refused ''..''" "\<not> folder_refused ''.''"
    by (simp_all add: folder_refused_def Contains_def prefix_def backslash_def)
  have gone: "filter (deleted sample_os [''srv'']) [''..'', ''.''] = [''.'']"
    using refused by (simp add: deleted_def sample_os_def)
  from deletion_spec [OF srv_clean(1) run sample_viewers gone [symmetric]] run show ?thesis
    by (simp add: removed_path_def srv_clean sample_ops_def sample_fs_def prefix_def)
qed

section \<open>Recording and listing\<close>

lemma historyFiles_lookup:
  assumes "inj_on key N" "\<And>n. key n = (if n = ''trace.out'' then ''trace'' else fileStem n)"
    and "\<forall>(n, d) \<in> set es. n \<in> N \<and> \<not> d"
  shows "map_of (historyFiles folder es) k =
     (if k \<in> key ` fst ` set es then Some (folder @ ''/'' @ the_inv_into N key k) else None)"
proof -
  let ?f = "\<lambda>(name, isDir) files. if isDir then files
        else AList.update (if name = ''trace.out'' then ''trace'' else fileStem name) (folder @ ''/'' @ name) files"
  have "map_of (fold ?f es acc) k =
      (if k \<in> key ` fst ` set es then Some (folder @ ''/'' @ the_inv_into N key k) else map_of acc k)" for acc
    using assms(3)
  proof (induction es arbitrary: acc)
    case (Cons e es)
    obtain n d where e: "e = (n, d)" by (cases e)
    with Cons.prems have n: "n \<in> N" "\<not> d" by auto
    have step: "?f e acc = AList.update (key n) (folder @ ''/'' @ n) acc" using e n(2) assms(2) by simp
    have "the_inv_into N key (key n) = n" by (rule the_inv_into_f_f [OF assms(1) n(1)])
    with Cons.IH [of "?f e acc"] Cons.prems show ?case
      unfolding fold.simps comp_def step by (auto simp: e AList.update_conv')
  qed simp
  from this [of "[]"] show ?thesis by (simp add: historyFiles_def)
qed

text \<open>The names of the files and the keys they are listed under.\<close>

definition profileNames :: "string set" where
  "profileNames = {''cpu.prof'', ''trace.out'', ''heap.prof'', ''goroutine.prof'', ''block.prof'', ''mutex.prof''}"

definition fileKey :: "string \<Rightarrow> string" where
  "fileKey n = (if n = ''trace.out'' then ''trace'' else fileStem n)"

lemma fileKeys:
  "fileKey ''cpu.prof'' = ''cpu''" "fileKey ''trace.out'' = ''trace''" "fileKey ''heap.prof'' = ''heap''"
  "fileKey ''goroutine.prof'' = ''goroutine''" "fileKey ''block.prof'' = ''block''" "fileKey ''mutex.prof'' = ''mutex''"
  by (simp_all add: fileKey_def fileStem_def)

lemma fileKey_inj: "inj_on fileKey profileNames"
  by (simp add: profileNames_def fileKeys)

lemma profileFiles_keys: "(k, n, d) \<in> set (profileFiles resp) \<Longrightarrow> n \<in> profileNames \<and> k = fileKey n"
  by (auto simp: profileFiles_def profileNames_def fileKeys)

lemma profileFiles_data:
  "(k, n, d) \<in> set (profileFiles resp) \<Longrightarrow> (k', n, d') \<in> set (profileFiles resp) \<Longrightarrow> d' = d"
  by (auto simp: profileFiles_def)

lemma profileNames_elem: "n \<in> profileNames \<Longrightarrow> CHR ''/'' \<notin> set n \<and> n \<noteq> [] \<and> n \<noteq> ''.'' \<and> n \<noteq> ''..''"
  by (auto simp: profileNames_def)

definition one_element :: "string \<Rightarrow> bool" where
  "one_element f \<longleftrightarrow> CHR ''/'' \<notin> set f \<and> f \<noteq> [] \<and> f \<noteq> ''.'' \<and> f \<noteq> ''..''"

lemma resolve_file:
  assumes "one_element folder" "n \<in> profileNames"
  shows "resolve cwd (storage @ ''/'' @ folder) = resolve cwd storage @ [folder]"
    and "resolve cwd (storage @ ''/'' @ folder @ ''/'' @ n) = resolve cwd storage @ [folder, n]"
  using resolve_below [of folder cwd "[]"] resolve_below [of n cwd "''/'' @ folder"] assms
    profileNames_elem [OF assms(2)] by (simp_all add: one_element_def)

lemma update_keys_set: "fst ` set (AList.update k v xs) = insert k (fst ` set xs)"
  by (simp add: AList.dom_update)

definition with_data :: "(string \<times> string \<times> string) list \<Rightarrow> (string \<times> string \<times> string) set" where
  "with_data L = {t \<in> set L. snd (snd t) \<noteq> []}"

lemma writeFiles_effect:
  assumes "os_WriteFails os = (\<lambda>_. None)" "one_element folder" "\<forall>(k, n, d) \<in> set L. n \<in> profileNames"
  shows "fst ` set (fs_files (snd (writeFiles os cwd folder L fs))) =
      fst ` set (fs_files fs) \<union> (\<lambda>t. resolve cwd storage @ [folder, fst (snd t)]) ` with_data L \<and>
     fs_dirs (snd (writeFiles os cwd folder L fs)) = fs_dirs fs"
  using assms(3)
proof (induction L arbitrary: fs)
  case (Cons e L)
  obtain k n d where e: "e = (k, n, d)" by (cases e)
  with Cons.prems have n: "n \<in> profileNames" by auto
  show ?case
  proof (cases "d = []")
    case True
    then have "snd (writeFiles os cwd folder (e # L) fs) = snd (writeFiles os cwd folder L fs)"
      by (simp add: e split_beta)
    moreover have "with_data (e # L) = with_data L" using True by (auto simp: e with_data_def)
    ultimately show ?thesis using Cons.IH [of fs] Cons.prems by simp
  next
    case False
    let ?fs = "fs\<lparr>fs_files := AList.update (resolve cwd storage @ [folder, n]) d (fs_files fs)\<rparr>"
    have "snd (writeFiles os cwd folder (e # L) fs) = snd (writeFiles os cwd folder L ?fs)"
      using False resolve_file(2) [OF assms(2) n] assms(1) by (simp add: e WriteFile_def split_beta)
    moreover have "fst ` set (fs_files ?fs) = insert (resolve cwd storage @ [folder, n]) (fst ` set (fs_files fs))"
      by (simp add: update_keys_set)
    moreover have "with_data (e # L) = insert e (with_data L)" using False by (auto simp: e with_data_def)
    ultimately show ?thesis using Cons.IH [of ?fs] Cons.prems e by auto
  qed
qed (simp add: with_data_def)

text \<open>A file with data is there afterwards with this data, and is served.\<close>

lemma writeFiles_keeps:
  assumes "os_WriteFails os = (\<lambda>_. None)" "one_element folder" "\<forall>(k, n, d) \<in> set L. n \<in> profileNames"
    and "d \<noteq> []" "\<forall>(k', n', d') \<in> set L. n' = n \<longrightarrow> d' = d"
    and "(\<exists>k. (k, n, d) \<in> set L) \<or> map_of (fs_files fs) (resolve cwd storage @ [folder, n]) = Some d"
  shows "map_of (fs_files (snd (writeFiles os cwd folder L fs))) (resolve cwd storage @ [folder, n]) = Some d"
  using assms(3,5,6)
proof (induction L arbitrary: fs)
  case (Cons e L)
  obtain k n' d' where e: "e = (k, n', d')" by (cases e)
  with Cons.prems have n': "n' \<in> profileNames" by auto
  show ?case
  proof (cases "d' = []")
    case True
    then have "snd (writeFiles os cwd folder (e # L) fs) = snd (writeFiles os cwd folder L fs)"
      by (simp add: e split_beta)
    with Cons.IH [of fs] Cons.prems e True assms(4) show ?thesis by auto
  next
    case False
    let ?fs = "fs\<lparr>fs_files := AList.update (resolve cwd storage @ [folder, n']) d' (fs_files fs)\<rparr>"
    have "snd (writeFiles os cwd folder (e # L) fs) = snd (writeFiles os cwd folder L ?fs)"
      using False resolve_file(2) [OF assms(2) n'] assms(1) by (simp add: e WriteFile_def split_beta)
    with Cons.IH [of ?fs] Cons.prems e show ?thesis by (auto simp: AList.update_conv')
  qed
qed simp

lemma elements_file:
  assumes "one_element folder" "n \<in> profileNames"
  shows "elements (folder @ ''/'' @ n) = [folder, n]"
proof -
  have "CHR ''/'' \<notin> set folder" "CHR ''/'' \<notin> set n" using assms profileNames_elem by (auto simp: one_element_def)
  then have "Split (folder @ ''/'' @ n) ''/'' = [folder, n]"
    using Split_join [of folder "CHR ''/''" n] by (simp add: Split_none)
  then show ?thesis using assms profileNames_elem by (simp add: elements_def cleanStep_def one_element_def)
qed

lemma recorded_download:
  assumes "one_element folder" "os_WriteFails os = (\<lambda>_. None)"
    and "ow_fs w = snd (writeFiles os cwd folder (profileFiles resp) fs)" "(k, n, d) \<in> set (profileFiles resp)" "d \<noteq> []"
  shows "download cwd (folder @ ''/'' @ n) w = Some d"
proof -
  have names: "\<forall>(k, n, d) \<in> set (profileFiles resp). n \<in> profileNames" using profileFiles_keys by blast
  have same: "\<forall>(k', n', d') \<in> set (profileFiles resp). n' = n \<longrightarrow> d' = d"
    using profileFiles_data [OF assms(4)] by blast
  have "n \<in> profileNames" using assms(4) names by blast
  note el = elements_file [OF assms(1) this]
  have "map_of (fs_files (ow_fs w)) (resolve cwd storage @ [folder, n]) = Some d"
    unfolding assms(3) using assms(4) by (intro writeFiles_keeps [OF assms(2,1) names assms(5) same]) blast
  then show ?thesis unfolding download_def el by simp
qed

lemma ReadDir_set:
  "set (ReadDir p fs) = (\<lambda>d. (last d, True)) ` {d \<in> set (fs_dirs fs). child_of p d} \<union>
     (\<lambda>f. (last f, False)) ` {f \<in> fst ` set (fs_files fs). child_of p f}"
  by (force simp: ReadDir_def)

lemma child_of_snoc [simp]: "child_of p (p @ [n])"
  by (simp add: child_of_def)

text \<open>What a folder that was just recorded holds.\<close>

lemma recorded_entries:
  assumes "one_element folder" "os_WriteFails os = (\<lambda>_. None)"
    and "\<forall>f \<in> fst ` set (fs_files fs). \<not> child_of (resolve cwd storage @ [folder]) f"
    and "\<forall>d \<in> set (fs_dirs fs'). \<not> child_of (resolve cwd storage @ [folder]) d"
    and "fs_files fs' = fs_files (snd (writeFiles os cwd folder (profileFiles resp) fs))"
  shows "set (ReadDir (resolve cwd storage @ [folder]) fs') = (\<lambda>t. (fst (snd t), False)) ` with_data (profileFiles resp)"
proof -
  let ?p = "resolve cwd storage @ [folder]"
  have "\<forall>(k, n, d) \<in> set (profileFiles resp). n \<in> profileNames" using profileFiles_keys by blast
  note w = writeFiles_effect [OF assms(2,1) this, of cwd fs, folded assms(5)]
  have "{d \<in> set (fs_dirs fs'). child_of ?p d} = {}" using assms(4) by auto
  moreover have "child_of ?p (resolve cwd storage @ [folder, n])" for n
    by (simp add: child_of_def butlast_append)
  then have "{f \<in> fst ` set (fs_files fs'). child_of ?p f} =
      (\<lambda>t. resolve cwd storage @ [folder, fst (snd t)]) ` with_data (profileFiles resp)"
    using w assms(3) by blast
  ultimately show ?thesis by (simp only: ReadDir_set image_empty image_image) simp
qed

lemma recorded_files:
  assumes "set es = (\<lambda>t. (fst (snd t), False)) ` with_data (profileFiles resp)"
    and "(k, n, d) \<in> set (profileFiles resp)"
  shows "map_of (historyFiles folder es) k = (if d = [] then None else Some (folder @ ''/'' @ n))"
proof -
  note kn = profileFiles_keys [OF assms(2)]
  have "k \<in> fileKey ` fst ` set es \<longleftrightarrow> d \<noteq> []"
  proof
    assume "k \<in> fileKey ` fst ` set es"
    then obtain k' n' d' where x: "(k', n', d') \<in> set (profileFiles resp)" "d' \<noteq> []" "fileKey n' = k"
      by (auto simp: assms(1) with_data_def)
    then have "n' = n" using kn profileFiles_keys [OF x(1)] inj_onD [OF fileKey_inj] by auto
    with profileFiles_data [OF x(1)] assms(2) x(2) show "d \<noteq> []" by auto
  next
    assume "d \<noteq> []"
    with assms(2) kn show "k \<in> fileKey ` fst ` set es" by (force simp: assms(1) with_data_def)
  qed
  moreover have "the_inv_into profileNames fileKey k = n"
    using kn the_inv_into_f_f [OF fileKey_inj] by simp
  moreover have "\<forall>(n, d) \<in> set es. n \<in> profileNames \<and> \<not> d" using profileFiles_keys by (auto simp: assms(1) with_data_def)
  ultimately show ?thesis
    using historyFiles_lookup [of fileKey profileNames es folder k] fileKey_inj by (simp add: fileKey_def)
qed

text \<open>The name of a folder and what is read from it.\<close>

lemma folderName_elem:
  assumes "CHR ''/'' \<notin> set svc" "CHR ''/'' \<notin> set inst"
  shows "one_element (folderName ts svc inst)"
proof -
  have "CHR ''/'' \<notin> set (itoa i)" for i using itoa_decimal [of i] by (auto simp: decimal_chars_def)
  moreover have "CHR ''_'' \<in> set (folderName ts svc inst)" by (simp add: folderName_def)
  ultimately show ?thesis using assms by (auto simp: one_element_def folderName_def)
qed

lemma folderName_parts:
  assumes "CHR ''_'' \<notin> set svc" "CHR ''_'' \<notin> set inst"
  shows "Split (folderName ts svc inst) ''__'' = [itoa (sint ts), svc, inst]"
proof -
  have "CHR ''_'' \<notin> set (itoa i)" for i using itoa_decimal [of i] by (auto simp: decimal_chars_def)
  with assms show ?thesis
    using Split_append [of "CHR ''_''" "itoa (sint ts)" "''_''" "svc @ ''__'' @ inst"]
      Split_append [of "CHR ''_''" svc "''_''" inst] Split_none [of "CHR ''_''" inst "''_''"]
    by (simp add: folderName_def)
qed

lemma folder_item:
  assumes "CHR ''_'' \<notin> set svc" "CHR ''_'' \<notin> set inst" "0 \<le> sint ts"
    and "folder = folderName ts svc (safeInstance inst)"
  shows "historyItem dir fs folder = Some \<lparr>hi_Folder = folder, hi_Timestamp = ts, hi_ServiceName = svc,
     hi_Instance = (if inst = [] then ''unknown'' else ReplaceChar CHR ''-'' CHR '':'' inst), hi_Files = historyFiles folder (ReadDir (dir @ [folder]) fs)\<rparr>"
proof -
  have "CHR ''_'' \<notin> set (safeInstance inst)" using assms(2) by (auto simp: safeInstance_def ReplaceChar_def)
  then have parts: "Split folder ''__'' = [itoa (sint ts), svc, safeInstance inst]"
    using folderName_parts assms(1,4) by simp
  have "ReplaceChar CHR ''-'' CHR '':'' (safeInstance inst) =
      (if inst = [] then ''unknown'' else ReplaceChar CHR ''-'' CHR '':'' inst)"
    by (auto simp: safeInstance_def ReplaceChar_def)
  moreover have "fst (ParseInt (itoa (sint ts))) = ts"
    using ParseInt_itoa [of "sint ts"] assms(3) sint_lt [of ts] by simp
  ultimately show ?thesis by (simp add: historyItem_def parts)
qed

lemma child_prefix: "child_of p q \<Longrightarrow> prefix p q"
  by (metis child_of_def prefix_def append_butlast_last_id)

lemma prefixes_no_child:
  assumes "d \<in> set (prefixes q)" "prefix q p"
  shows "\<not> child_of p d"
proof
  assume "child_of p d"
  then have "length d = Suc (length p)" by (auto simp: child_of_def)
  moreover have "length d \<le> length q" "length q \<le> length p" using assms by (auto dest: prefix_length_le)
  ultimately show False by simp
qed

lemma MkdirAll_ok:
  "os_MkdirFails os = (\<lambda>_. None) \<Longrightarrow>
   MkdirAll os p fs = (None, fs\<lparr>fs_dirs := fs_dirs fs @ filter (\<lambda>d. d \<notin> set (fs_dirs fs)) (prefixes p)\<rparr>)"
  by (simp add: MkdirAll_def)

lemma list_item:
  assumes "(folder, True) \<in> set (ReadDir (resolve cwd storage) fs)" "fs = snd (MkdirAll os (resolve cwd storage) (ow_fs w))"
    and "historyItem (resolve cwd storage) fs folder = Some item"
  shows "item \<in> set (fst (listHistory os cwd w))"
  using assms(1,3) by (force simp: listHistory_def Let_def List.map_filter_def assms(2) [symmetric])

text \<open>What a request to record writes.\<close>

lemma record_writes:
  assumes "os_MkdirFails os = (\<lambda>_. None)"
    and "struct_of record_fields \<lparr>rb_Project = [], rb_Service = [], rb_Instance = [], rb_Duration = 0\<rparr> body = Some b"
    and "getProjectContext projects (rb_Project b) = Inr p"
    and "oc_CollectPerformance (pj_Client p) (rb_Service b) (rb_Instance b) (clampDuration (rb_Duration b))
      (ow_client w) = (Inr resp, c)"
    and "CHR ''/'' \<notin> set (rb_Service b)" "CHR ''/'' \<notin> set (rb_Instance b)"
    and "folder = folderName (Unix (ow_clock w (ow_reads w))) (rb_Service b) (safeInstance (rb_Instance b))"
    and "handleRecordPerformance os cwd projects (Some body) w = (reply, w')"
  shows "one_element folder" "fst reply = 200"
    "ow_fs w' = snd (writeFiles os cwd folder (profileFiles resp)
       (snd (MkdirAll os (resolve cwd storage @ [folder]) (ow_fs w))))"
proof -
  have "CHR ''/'' \<notin> set (safeInstance (rb_Instance b))" using assms(6) by (auto simp: safeInstance_def ReplaceChar_def)
  then show one: "one_element folder" using assms(5,7) folderName_elem by auto
  have dir: "resolve cwd (storage @ CHR ''/'' # folder) = resolve cwd storage @ [folder]"
    using resolve_below [of folder cwd "[]"] one by (simp add: one_element_def)
  show "fst reply = 200" "ow_fs w' = snd (writeFiles os cwd folder (profileFiles resp)
       (snd (MkdirAll os (resolve cwd storage @ [folder]) (ow_fs w))))"
    using assms(8)
    by (auto simp: handleRecordPerformance_def assms(2-4) assms(7) [symmetric] dir MkdirAll_ok [OF assms(1)]
        Let_def split_beta)
qed

text \<open>C34. What is recorded is listed.  When the profiles of an instance have been collected and could be written
  into a new folder, and the names of the service and of the instance have no slash and no underscore (the
  separator of the folder name), the history has an entry with the time and the service of the request,
  with the instance as the folder name keeps it (a dash comes back as a colon, so that
  \<^verbatim>\<open>gs-0:9090\<close> is listed as \<^verbatim>\<open>gs:0:9090\<close>, and an empty instance as \<^verbatim>\<open>unknown\<close>), and with a link
  to each profile that had data and to no other; and what is served under a link is the profile.\<close>

theorem recorded_profile_listed:
  assumes "clean_path cwd" "os_MkdirFails os = (\<lambda>_. None)" "os_WriteFails os = (\<lambda>_. None)"
    and body: "struct_of record_fields \<lparr>rb_Project = [], rb_Service = [], rb_Instance = [], rb_Duration = 0\<rparr> body = Some b"
    and proj: "getProjectContext projects (rb_Project b) = Inr p"
    and collected: "oc_CollectPerformance (pj_Client p) (rb_Service b) (rb_Instance b) (clampDuration (rb_Duration b))
      (ow_client w) = (Inr resp, c)"
    and names: "{CHR ''/'', CHR ''_''} \<inter> set (rb_Service b) = {}" "{CHR ''/'', CHR ''_''} \<inter> set (rb_Instance b) = {}"
    and time: "ts = Unix (ow_clock w (ow_reads w))" "0 \<le> sint ts"
    and folder: "folder = folderName ts (rb_Service b) (safeInstance (rb_Instance b))"
    and fresh: "\<forall>q \<in> set (fs_dirs (ow_fs w)) \<union> fst ` set (fs_files (ow_fs w)). \<not> prefix (resolve cwd storage @ [folder]) q"
    and run: "handleRecordPerformance os cwd projects (Some body) w = (reply, w')"
  shows "fst reply = 200 \<and> (\<exists>item \<in> set (fst (listHistory os cwd w')).
     hi_Folder item = folder \<and> hi_Timestamp item = ts \<and> hi_ServiceName item = rb_Service b \<and>
     hi_Instance item = (if rb_Instance b = [] then ''unknown'' else ReplaceChar CHR ''-'' CHR '':'' (rb_Instance b)) \<and>
     (\<forall>(k, n, d) \<in> set (profileFiles resp).
        map_of (hi_Files item) k = (if d = [] then None else Some (folder @ ''/'' @ n)) \<and>
        (d \<noteq> [] \<longrightarrow> download cwd (folder @ ''/'' @ n) w' = Some d)))"
proof -
  let ?base = "resolve cwd storage"
  have slash: "CHR ''/'' \<notin> set (rb_Service b)" "CHR ''/'' \<notin> set (rb_Instance b)" using names by auto
  define fs1 where "fs1 = snd (MkdirAll os (?base @ [folder]) (ow_fs w))"
  have fs1: "fs1 = (ow_fs w)\<lparr>fs_dirs := fs_dirs (ow_fs w) @
      filter (\<lambda>d. d \<notin> set (fs_dirs (ow_fs w))) (prefixes (?base @ [folder]))\<rparr>"
    by (simp add: fs1_def MkdirAll_ok [OF assms(2)])
  note writes = record_writes [OF assms(2) body proj collected slash folder [unfolded time(1)] run, folded fs1_def]
  note one = writes(1) and ok = writes(2,3)
  define fs2 where "fs2 = snd (MkdirAll os ?base (ow_fs w'))"
  have fs2: "fs2 = (ow_fs w')\<lparr>fs_dirs := fs_dirs (ow_fs w') @ filter (\<lambda>d. d \<notin> set (fs_dirs (ow_fs w'))) (prefixes ?base)\<rparr>"
    by (simp add: fs2_def MkdirAll_ok [OF assms(2)])
  have "\<forall>(k, n, d) \<in> set (profileFiles resp). n \<in> profileNames" using profileFiles_keys by blast
  note dirs = writeFiles_effect [OF assms(3) one this, of cwd fs1, folded ok(2), THEN conjunct2]
  have mem: "?base @ [folder] \<in> set (fs_dirs fs2)" by (auto simp: fs2 dirs fs1)
  have no_child: "\<forall>d \<in> set (fs_dirs fs2). \<not> child_of (?base @ [folder]) d"
    using fresh child_prefix [of "?base @ [folder]"] prefixes_no_child [of _ "?base @ [folder]" "?base @ [folder]"]
      prefixes_no_child [of _ ?base "?base @ [folder]"]
    by (auto simp: fs2 dirs fs1)
  have files: "\<forall>f \<in> fst ` set (fs_files fs1). \<not> child_of (?base @ [folder]) f"
    using fresh child_prefix [of "?base @ [folder]"] by (auto simp: fs1)
  have "fs_files fs2 = fs_files (snd (writeFiles os cwd folder (profileFiles resp) fs1))" by (simp add: fs2 ok(2))
  note entries = recorded_entries [OF one assms(3) files no_child this]
  let ?item = "\<lparr>hi_Folder = folder, hi_Timestamp = ts, hi_ServiceName = rb_Service b,
    hi_Instance = (if rb_Instance b = [] then ''unknown'' else ReplaceChar CHR ''-'' CHR '':'' (rb_Instance b)),
    hi_Files = historyFiles folder (ReadDir (?base @ [folder]) fs2)\<rparr>"
  have item: "historyItem ?base fs2 folder = Some ?item"
    using names time(2) by (intro folder_item [OF _ _ _ folder]) auto
  have "(folder, True) \<in> set (ReadDir ?base fs2)"
    unfolding ReadDir_set using mem by (intro UnI1 image_eqI [of _ _ "?base @ [folder]"]) simp_all
  from list_item [OF this fs2_def item] have "?item \<in> set (fst (listHistory os cwd w'))" .
  moreover have "\<forall>(k, n, d) \<in> set (profileFiles resp).
      map_of (hi_Files ?item) k = (if d = [] then None else Some (folder @ ''/'' @ n))"
    using recorded_files [OF entries] by auto
  moreover have "\<forall>(k, n, d) \<in> set (profileFiles resp). d \<noteq> [] \<longrightarrow> download cwd (folder @ ''/'' @ n) w' = Some d"
    using recorded_download [OF one assms(3) ok(2)] by blast
  ultimately show ?thesis using ok(1) by (intro conjI bexI [of _ ?item]) auto
qed

text \<open>The heap of an instance that has no other profile.\<close>

definition sample_resp :: CollectResp where
  "sample_resp = emptyResp\<lparr>HeapSnapshot := ''hh''\<rparr>"

definition sample_client :: "unit ops_client" where
  "sample_client =
     \<lparr>oc_ValidateToken = \<lambda>_ c. (Inl ''down'', c), oc_GetBalance = \<lambda>_ c. (Inr 5, c), oc_AddBalance = \<lambda>_ a _ c. (Inr (5 + a), c),
      oc_GetCurrentRound = \<lambda>_ c. (Inl ''down'', c), oc_GetState = \<lambda>_ c. (Inl ''down'', c), oc_Broadcast = \<lambda>_ _ c. c,
      oc_CollectPerformance = \<lambda>_ _ d c. (if d = 600 then Inr sample_resp else Inl ''busy'', c),
      oc_GetAllServicesList = \<lambda>c. (Inr [''gs''], c), oc_GetServices = \<lambda>_ c. (Inr [''h:9''], c)\<rparr>"

definition sample_projects :: "unit projects" where
  "sample_projects = initProjects (\<lambda>_. Inr sample_client) [colorGameProject (\<lambda>_. None)]"

definition sample_request :: json where
  "sample_request = JObj [(''project'', JStr ''color_game''), (''service'', JStr ''gs''), (''instance'', JStr ''h:9''),
     (''duration'', json_int 700)]"

theorem recorded_profile_listed_witness:
  "\<exists>w'. handleRecordPerformance sample_os [''srv''] sample_projects (Some sample_request) sample_ops =
       (fst (handleRecordPerformance sample_os [''srv''] sample_projects (Some sample_request) sample_ops), w') \<and>
     (\<exists>item \<in> set (fst (listHistory sample_os [''srv''] w')).
       hi_Folder item = ''170__gs__h-9'' \<and> hi_Timestamp item = 170 \<and> hi_Instance item = ''h:9'' \<and>
       map_of (hi_Files item) ''heap'' = Some ''170__gs__h-9/heap.prof'' \<and> map_of (hi_Files item) ''cpu'' = None) \<and>
     download [''srv''] ''170__gs__h-9/heap.prof'' w' = Some ''hh''"
proof -
  let ?b = "\<lparr>rb_Project = ''color_game'', rb_Service = ''gs'', rb_Instance = ''h:9'', rb_Duration = 700\<rparr>"
  let ?p = "\<lparr>pj_Config = colorGameProject (\<lambda>_. None), pj_Client = sample_client\<rparr>"
  obtain reply w' where run:
    "handleRecordPerformance sample_os [''srv''] sample_projects (Some sample_request) sample_ops = (reply, w')" by fastforce
  have os: "os_MkdirFails sample_os = (\<lambda>_. None)" "os_WriteFails sample_os = (\<lambda>_. None)" by (simp_all add: sample_os_def)
  have body: "struct_of record_fields \<lparr>rb_Project = [], rb_Service = [], rb_Instance = [], rb_Duration = 0\<rparr> sample_request = Some ?b"
    by (simp add: struct_of_def sample_request_def record_fields_def find_field_def str_field_def int32_field_def json_int_def)
  have proj: "getProjectContext sample_projects (rb_Project ?b) = Inr ?p"
    by (simp add: getProjectContext_def sample_projects_def colorGameProject_def)
  have clamp: "clampDuration 700 = 600" by code_simp
  have collected: "oc_CollectPerformance (pj_Client ?p) (rb_Service ?b) (rb_Instance ?b) (clampDuration (rb_Duration ?b))
      (ow_client sample_ops) = (Inr sample_resp, ())" by (simp add: sample_client_def clamp)
  have ts: "170 = Unix (ow_clock sample_ops (ow_reads sample_ops))" by (simp add: sample_ops_def Unix_def Second_def)
  have "itoa 170 = ''170''" by (simp add: itoa_def nat_digits.simps digit_char_def)
  then have name: "''170__gs__h-9'' = folderName 170 (rb_Service ?b) (safeInstance (rb_Instance ?b))"
    by (simp add: folderName_def safeInstance_def ReplaceChar_def)
  have fresh: "\<forall>q \<in> set (fs_dirs (ow_fs sample_ops)) \<union> fst ` set (fs_files (ow_fs sample_ops)).
      \<not> prefix (resolve [''srv''] storage @ [''170__gs__h-9'']) q"
    by (simp add: srv_clean sample_ops_def sample_fs_def prefix_def)
  have names: "{CHR ''/'', CHR ''_''} \<inter> set (rb_Service ?b) = {}" "{CHR ''/'', CHR ''_''} \<inter> set (rb_Instance ?b) = {}"
    "0 \<le> sint (170 :: int64)" by simp_all
  have files: "(''heap'', ''heap.prof'', ''hh'') \<in> set (profileFiles sample_resp)" "(''cpu'', ''cpu.prof'', []) \<in> set (profileFiles sample_resp)"
    by (simp_all add: profileFiles_def sample_resp_def emptyResp_def)
  from recorded_profile_listed [OF srv_clean(1) os body proj collected names(1,2) ts names(3) name fresh run]
  obtain item where item: "item \<in> set (fst (listHistory sample_os [''srv''] w'))" "hi_Folder item = ''170__gs__h-9''"
    "hi_Timestamp item = 170" "hi_Instance item = ''h:9''"
    "\<forall>(k, n, d) \<in> set (profileFiles sample_resp).
       map_of (hi_Files item) k = (if d = [] then None else Some (''170__gs__h-9'' @ ''/'' @ n)) \<and>
       (d \<noteq> [] \<longrightarrow> download [''srv''] (''170__gs__h-9'' @ ''/'' @ n) w' = Some d)" by (auto simp: ReplaceChar_def)
  have "map_of (hi_Files item) ''heap'' = Some ''170__gs__h-9/heap.prof''" "map_of (hi_Files item) ''cpu'' = None"
    "download [''srv''] ''170__gs__h-9/heap.prof'' w' = Some ''hh''"
    using bspec [OF item(5) files(1)] bspec [OF item(5) files(2)] by simp_all
  with run item(1-4) show ?thesis by (intro exI [of _ w']) auto
qed

section \<open>The storage does not hold what it should\<close>

text \<open>The name of the service is not checked when an instance is given: the profiles go to any directory.\<close>

lemma service_escapes_storage:
  "resolve [''srv''] (storage @ ''/'' @ folderName 170 ''/../../../etc'' ''h'') = [''srv'', ''etc__h'']"
  by (simp add: resolve_def storage_def folderName_def Split_def prefix_def cleanStep_def itoa_def nat_digits.simps
      digit_char_def)

text \<open>A dash in the name of an instance is listed as a colon.\<close>

lemma dash_becomes_colon:
  "map_option hi_Instance (historyItem dir fs (folderName 170 ''gs'' (safeInstance ''gs-0:9090''))) = Some ''gs:0:9090''"
  using folder_item [of "''gs''" "''gs-0:9090''" 170, OF _ _ _ refl] by (simp add: ReplaceChar_def)

text \<open>The check of the viewer compares texts, not paths: a directory beside the storage passes.\<close>

lemma viewer_leaves_storage:
  "Join (pathOf [''srv'', ''storage'', ''pprof'']) ''../pprof-old/x'' = ''/srv/storage/pprof-old/x'' \<and>
   prefix (pathOf [''srv'', ''storage'', ''pprof'']) ''/srv/storage/pprof-old/x''"
  by (simp add: Join_def elements_def pathOf_def Split_def prefix_def cleanStep_def)

end
