(* ===== verification/Net_Url.thy ===== *)
theory Net_Url
  imports Go_Strings
begin

text \<open>
  What the program uses of \<^verbatim>\<open>net/url\<close>: the text of a URL the robot dials, and the query a server reads of it.
\<close>

section \<open>Queries\<close>

definition unhex :: "char \<Rightarrow> nat option" where
  "unhex c =
     (let b = byte c
      in if 48 \<le> b \<and> b \<le> 57 then Some (b - 48)
         else if 97 \<le> b \<and> b \<le> 102 then Some (b - 87)
         else if 65 \<le> b \<and> b \<le> 70 then Some (b - 55) else None)"

text \<open>\<^verbatim>\<open>url.QueryUnescape\<close>\<close>

fun QueryUnescape :: "string \<Rightarrow> string option" where
  "QueryUnescape [] = Some []"
| "QueryUnescape (c # s) =
     (if c = CHR ''%'' then
        (case s of
           a # b # rest \<Rightarrow>
             (case (unhex a, unhex b) of
                (Some x, Some y) \<Rightarrow> map_option ((#) (byte_char (16 * x + y))) (QueryUnescape rest)
              | _ \<Rightarrow> None)
         | _ \<Rightarrow> None)
      else map_option ((#) (if c = CHR ''+'' then CHR '' '' else c)) (QueryUnescape s))"

text \<open>\<^verbatim>\<open>URL.Query\<close>: pieces that cannot be read are left out; \<^verbatim>\<open>Get\<close> gives the first value of a name.\<close>

definition queryPair :: "string \<Rightarrow> (string \<times> string) option" where
  "queryPair piece =
     (if piece = [] \<or> CHR '';'' \<in> set piece then None
      else case (QueryUnescape (takeWhile (\<lambda>c. c \<noteq> CHR ''='') piece),
                 QueryUnescape (tl (dropWhile (\<lambda>c. c \<noteq> CHR ''='') piece))) of
             (Some k, Some v) \<Rightarrow> Some (k, v)
           | _ \<Rightarrow> None)"

definition QueryGet :: "string \<Rightarrow> string \<Rightarrow> string" where
  "QueryGet rawQuery key =
     (case map_of (List.map_filter queryPair (Split rawQuery ''&'')) key of Some v \<Rightarrow> v | None \<Rightarrow> [])"

text \<open>Characters that stand for themselves, which are those of a signed token: base64url and dots.\<close>

definition url_safe :: "string \<Rightarrow> bool" where
  "url_safe s \<longleftrightarrow> set s \<inter> {CHR ''%'', CHR ''+'', CHR ''&'', CHR '';'', CHR ''='', CHR ''#''} = {}"

lemma QueryUnescape_safe: "url_safe s \<Longrightarrow> QueryUnescape s = Some s"
  by (induction s) (auto simp: url_safe_def)

lemma QueryGet_single:
  assumes "url_safe v" "url_safe k" "k \<noteq> []"
  shows "QueryGet (k @ ''='' @ v) k = v"
proof -
  let ?p = "k @ CHR ''='' # v"
  have "takeWhile (\<lambda>c. c \<noteq> CHR ''='') ?p = k" "dropWhile (\<lambda>c. c \<noteq> CHR ''='') ?p = CHR ''='' # v"
    using assms(2) by (auto simp: url_safe_def takeWhile_append dropWhile_append)
  moreover have "CHR '';'' \<notin> set ?p" "CHR ''&'' \<notin> set ?p" using assms(1,2) by (auto simp: url_safe_def)
  ultimately have "queryPair ?p = Some (k, v)" "Split ?p ''&'' = [?p]"
    using assms by (simp_all add: queryPair_def QueryUnescape_safe Split_none)
  then show ?thesis by (simp add: QueryGet_def List.map_filter_def)
qed

section \<open>URLs\<close>

text \<open>\<^verbatim>\<open>URL.String\<close> for a host of host characters, a clean path and a query that is not empty.\<close>

definition urlString :: "string \<Rightarrow> string \<Rightarrow> string \<Rightarrow> string \<Rightarrow> string" where
  "urlString scheme host path rawQuery = scheme @ ''://'' @ host @ path @ ''?'' @ rawQuery"

end
