(* ===== verification/Robot.thy ===== *)
theory Robot
  imports Gateway_Props User_Adapters Net_Url
begin

text \<open>
  The load robot, \<^verbatim>\<open>cmd/color_game/test_robot/main.go\<close>: logging in and registering over HTTP with retries, and
  the loop that answers each announced betting phase with one bet.  The HTTP server, the WebSocket and the
  random numbers are parameters; the lengths of the pauses have no effect but time.
\<close>

section \<open>State\<close>

record Robot =
  rob_ID :: int
  rob_UserHost :: string
  rob_WSHost :: string
  rob_Username :: string
  rob_Password :: string
  rob_Token :: string
  rob_UserID :: int64

definition NewRobot :: "int \<Rightarrow> string \<Rightarrow> string \<Rightarrow> Robot" where
  "NewRobot rid userHost wsHost =
     \<lparr>rob_ID = rid, rob_UserHost = userHost, rob_WSHost = wsHost, rob_Username = ''robot_user_'' @ itoa rid,
      rob_Password = ''password123'', rob_Token = [], rob_UserID = 0\<rparr>"

text \<open>The answer to a POST: a failed request, or a status and the first JSON value of the body.\<close>

datatype http_rsp = RequestFailed go_error | Response nat "json option"

type_synonym 'h post = "string \<Rightarrow> json \<Rightarrow> 'h \<Rightarrow> http_rsp \<times> 'h"

section \<open>Registering and logging in\<close>

record robot_rsp =
  rr_UserID :: int64
  rr_Token :: string
  rr_Error :: string

text \<open>The structs of the answers; the fields no code reads are left out, but must have their type.\<close>

definition registerRsp_fields :: "(string \<times> (json \<Rightarrow> robot_rsp \<Rightarrow> robot_rsp option)) list" where
  "registerRsp_fields =
     [(''user_id'', int64_field (\<lambda>i r. r\<lparr>rr_UserID := i\<rparr>)),
      (''success'', \<lambda>j r. case j of JBool _ \<Rightarrow> Some r | JNull \<Rightarrow> Some r | _ \<Rightarrow> None),
      (''error'', str_field (\<lambda>s r. r\<lparr>rr_Error := s\<rparr>))]"

definition loginRsp_fields :: "(string \<times> (json \<Rightarrow> robot_rsp \<Rightarrow> robot_rsp option)) list" where
  "loginRsp_fields =
     [(''user_id'', int64_field (\<lambda>i r. r\<lparr>rr_UserID := i\<rparr>)), (''token'', str_field (\<lambda>s r. r\<lparr>rr_Token := s\<rparr>)),
      (''error'', str_field (\<lambda>s r. r\<lparr>rr_Error := s\<rparr>))]"

definition errorRsp_fields :: "(string \<times> (json \<Rightarrow> robot_rsp \<Rightarrow> robot_rsp option)) list" where
  "errorRsp_fields = [(''error'', str_field (\<lambda>s r. r\<lparr>rr_Error := s\<rparr>))]"

definition decodeRsp :: "(string \<times> (json \<Rightarrow> robot_rsp \<Rightarrow> robot_rsp option)) list \<Rightarrow> json option \<Rightarrow> robot_rsp option" where
  "decodeRsp fs body = Option.bind body (struct_of fs \<lparr>rr_UserID = 0, rr_Token = [], rr_Error = []\<rparr>)"

text \<open>The loops: \<open>n\<close> attempts are left, \<open>err\<close> is the last error; \<open>decodeErr\<close> is the text of a decoding error.\<close>

fun registerLoop :: "'h post \<Rightarrow> go_error \<Rightarrow> nat \<Rightarrow> go_error \<Rightarrow> Robot \<Rightarrow> 'h \<Rightarrow> (go_error option \<times> Robot) \<times> 'h" where
  "registerLoop post decodeErr 0 err r h = ((Some (''register failed after 20 retries: '' @ err), r), h)"
| "registerLoop post decodeErr (Suc n) err r h =
     (case post (''http://'' @ rob_UserHost r @ ''/api/users/register'')
             (JObj [(''email'', JStr (rob_Username r @ ''@example.com'')), (''password'', JStr (rob_Password r)),
                    (''username'', JStr (rob_Username r))]) h of
        (RequestFailed e, h) \<Rightarrow> registerLoop post decodeErr n e r h
      | (Response status body, h) \<Rightarrow>
          if status = StatusTooManyRequests then registerLoop post decodeErr n ''rate limited (429)'' r h
          else if status \<noteq> StatusOK then
            (case decodeRsp errorRsp_fields body of
               Some rsp \<Rightarrow>
                 if rr_Error rsp = ''username already exists'' then ((None, r), h)
                 else registerLoop post decodeErr n (rr_Error rsp) r h
             | None \<Rightarrow> registerLoop post decodeErr n (''HTTP '' @ itoa (int status)) r h)
          else
            (case decodeRsp registerRsp_fields body of
               None \<Rightarrow> registerLoop post decodeErr n decodeErr r h
             | Some rsp \<Rightarrow> ((None, r\<lparr>rob_UserID := rr_UserID rsp\<rparr>), h)))"

fun loginLoop :: "'h post \<Rightarrow> go_error \<Rightarrow> nat \<Rightarrow> go_error \<Rightarrow> Robot \<Rightarrow> 'h \<Rightarrow> (go_error option \<times> Robot) \<times> 'h" where
  "loginLoop post decodeErr 0 err r h = ((Some (''login failed after 5 retries: '' @ err), r), h)"
| "loginLoop post decodeErr (Suc n) err r h =
     (case post (''http://'' @ rob_UserHost r @ ''/api/users/login'')
             (JObj [(''password'', JStr (rob_Password r)), (''username'', JStr (rob_Username r))]) h of
        (RequestFailed e, h) \<Rightarrow> loginLoop post decodeErr n e r h
      | (Response status body, h) \<Rightarrow>
          if status = StatusTooManyRequests then loginLoop post decodeErr n ''rate limited (429)'' r h
          else if status \<noteq> StatusOK then
            (case decodeRsp errorRsp_fields body of
               Some rsp \<Rightarrow> loginLoop post decodeErr n (rr_Error rsp) r h
             | None \<Rightarrow> loginLoop post decodeErr n (''HTTP '' @ itoa (int status)) r h)
          else
            (case decodeRsp loginRsp_fields body of
               None \<Rightarrow> loginLoop post decodeErr n decodeErr r h
             | Some rsp \<Rightarrow> ((None, r\<lparr>rob_Token := rr_Token rsp, rob_UserID := rr_UserID rsp\<rparr>), h)))"

definition robot_Register :: "'h post \<Rightarrow> go_error \<Rightarrow> Robot \<Rightarrow> 'h \<Rightarrow> (go_error option \<times> Robot) \<times> 'h" where
  "robot_Register post decodeErr r h = registerLoop post decodeErr 20 [] r h"

definition robot_Login :: "'h post \<Rightarrow> go_error \<Rightarrow> Robot \<Rightarrow> 'h \<Rightarrow> (go_error option \<times> Robot) \<times> 'h" where
  "robot_Login post decodeErr r h = loginLoop post decodeErr 5 [] r h"

section \<open>Getting in\<close>

text \<open>The first part of \<^verbatim>\<open>Run\<close>: what it does before it connects.\<close>

definition robot_enter :: "'h post \<Rightarrow> go_error \<Rightarrow> Robot \<Rightarrow> 'h \<Rightarrow> (go_error option \<times> Robot) \<times> 'h" where
  "robot_enter post decodeErr r h =
     (case robot_Login post decodeErr r h of
        ((None, r), h) \<Rightarrow> ((None, r), h)
      | ((Some _, r), h) \<Rightarrow>
          (case robot_Register post decodeErr r h of
             ((Some err, r), h) \<Rightarrow> ((Some (''register failed: '' @ err), r), h)
           | ((None, r), h) \<Rightarrow>
               (case robot_Login post decodeErr r h of
                  ((Some err, r), h) \<Rightarrow> ((Some (''login after register failed: '' @ err), r), h)
                | ((None, r), h) \<Rightarrow> ((None, r), h))))"

text \<open>The dial; a token goes into the query as it is.\<close>

definition ws_query :: "Robot \<Rightarrow> string" where
  "ws_query r = ''token='' @ rob_Token r"

definition ConnectWS :: "(string \<Rightarrow> 'h \<Rightarrow> go_error option \<times> 'h) \<Rightarrow> Robot \<Rightarrow> 'h \<Rightarrow> go_error option \<times> 'h" where
  "ConnectWS dial r h = dial (urlString ''ws'' (rob_WSHost r) ''/ws'' (ws_query r)) h"

text \<open>\<^verbatim>\<open>Run\<close> up to its loop, which starts at \<open>robot_start\<close> below when there is no error.\<close>

definition robot_Run ::
    "'h post \<Rightarrow> (string \<Rightarrow> 'h \<Rightarrow> go_error option \<times> 'h) \<Rightarrow> go_error \<Rightarrow> Robot \<Rightarrow> 'h \<Rightarrow> (go_error option \<times> Robot) \<times> 'h" where
  "robot_Run post dial decodeErr r h =
     (case robot_enter post decodeErr r h of
        ((Some err, r), h) \<Rightarrow> ((Some err, r), h)
      | ((None, r), h) \<Rightarrow>
          (case ConnectWS dial r h of
             (Some err, h) \<Rightarrow> ((Some (''websocket connect failed: '' @ err), r), h)
           | (None, h) \<Rightarrow> ((None, r), h)))"

section \<open>Playing\<close>

record robot_event =
  re_Game :: string
  re_Command :: string
  re_Data :: "json option"

definition robot_event_fields :: "(string \<times> (json \<Rightarrow> robot_event \<Rightarrow> robot_event option)) list" where
  "robot_event_fields =
     [(''game'', str_field (\<lambda>s e. e\<lparr>re_Game := s\<rparr>)), (''command'', str_field (\<lambda>s e. e\<lparr>re_Command := s\<rparr>)),
      (''data'', raw_field (\<lambda>j e. e\<lparr>re_Data := Some j\<rparr>))]"

record robot_data =
  rd_RoundID :: string
  rd_State :: string

definition robot_data_fields :: "(string \<times> (json \<Rightarrow> robot_data \<Rightarrow> robot_data option)) list" where
  "robot_data_fields =
     [(''round_id'', str_field (\<lambda>s d. d\<lparr>rd_RoundID := s\<rparr>)), (''state'', str_field (\<lambda>s d. d\<lparr>rd_State := s\<rparr>))]"

text \<open>The variables of the loop: \<^verbatim>\<open>currentRoundID\<close> and whether the timer is running.  A timer that is reset gives no
  value it held back, as of the version of Go the module asks for.\<close>

record robot_loop =
  rl_round :: string
  rl_timer :: bool

definition scheduleBet :: "robot_loop \<Rightarrow> robot_loop" where
  "scheduleBet l = l\<lparr>rl_timer := True\<rparr>"

definition handleMessage :: "string \<Rightarrow> robot_loop \<Rightarrow> robot_loop" where
  "handleMessage message l =
     (case Option.bind (json_parse message) (struct_of robot_event_fields \<lparr>re_Game = [], re_Command = [], re_Data = None\<rparr>) of
        None \<Rightarrow> l
      | Some event \<Rightarrow>
          if re_Command event = ''ColorGameRoundStateBRC'' then
            (case Option.bind (re_Data event) (struct_of robot_data_fields \<lparr>rd_RoundID = [], rd_State = []\<rparr>) of
               None \<Rightarrow> l
             | Some d \<Rightarrow>
                 if rd_State d = ''GAME_STATE_BETTING'' then scheduleBet (l\<lparr>rl_round := rd_RoundID d\<rparr>) else l)
          else l)"

text \<open>The text of a bet, for two random numbers below 3 and 10; the encoder ends it with a line feed.\<close>

definition robotBet :: "nat \<Rightarrow> nat \<Rightarrow> string" where
  "robotBet c a =
     json_enc (JObj [(''command'', JStr ''ColorGamePlaceBetREQ''),
                     (''data'', JObj [(''amount'', json_int (int ((a + 1) * 10))),
                                      (''color'', JStr ([''red'', ''green'', ''blue''] ! c))]),
                     (''game_code'', JStr ''color_game'')]) @ [CHR 0x0A]"

text \<open>The robot and its read pump: at most 10 messages wait in the channel.  \<open>rw_announced\<close> counts the messages that
  announced a betting phase.\<close>

record robot_world =
  rw_chan :: "string list"
  rw_open :: bool
  rw_loop :: robot_loop
  rw_sent :: "string list"
  rw_announced :: nat
  rw_running :: bool

definition announces :: "string \<Rightarrow> bool" where
  "announces message \<longleftrightarrow> rl_timer (handleMessage message \<lparr>rl_round = [], rl_timer = False\<rparr>)"

text \<open>A write that fails is only logged.\<close>

inductive robot_step :: "robot_world \<Rightarrow> robot_world \<Rightarrow> bool" where
  receive: "rw_open w \<Longrightarrow> length (rw_chan w) < 10 \<Longrightarrow> robot_step w (w\<lparr>rw_chan := rw_chan w @ [m]\<rparr>)"
| readError: "rw_open w \<Longrightarrow> robot_step w (w\<lparr>rw_open := False\<rparr>)"
| handle: "rw_running w \<Longrightarrow> rw_chan w = m # ms \<Longrightarrow>
     robot_step w (w\<lparr>rw_chan := ms, rw_loop := handleMessage m (rw_loop w),
       rw_announced := rw_announced w + (if announces m then 1 else 0)\<rparr>)"
| closed: "rw_running w \<Longrightarrow> rw_chan w = [] \<Longrightarrow> \<not> rw_open w \<Longrightarrow> robot_step w (w\<lparr>rw_running := False\<rparr>)"
| bet: "rw_running w \<Longrightarrow> rl_timer (rw_loop w) \<Longrightarrow> c < 3 \<Longrightarrow> a < 10 \<Longrightarrow>
     robot_step w (w\<lparr>rw_loop := (rw_loop w)\<lparr>rl_timer := False\<rparr>, rw_sent := rw_sent w @ [robotBet c a]\<rparr>)"
| betFails: "rw_running w \<Longrightarrow> rl_timer (rw_loop w) \<Longrightarrow>
     robot_step w (w\<lparr>rw_loop := (rw_loop w)\<lparr>rl_timer := False\<rparr>\<rparr>)"

definition robot_start :: robot_world where
  "robot_start = \<lparr>rw_chan = [], rw_open = True, rw_loop = \<lparr>rl_round = [], rl_timer = False\<rparr>, rw_sent = [],
     rw_announced = 0, rw_running = True\<rparr>"

inductive robot_reach :: "robot_world \<Rightarrow> bool" where
  start: "robot_reach robot_start"
| step: "robot_reach w \<Longrightarrow> robot_step w w' \<Longrightarrow> robot_reach w'"

section \<open>Properties\<close>

lemma handleMessage_cases: "handleMessage m l = l \<or> (announces m \<and> rl_timer (handleMessage m l))"
  by (auto simp: handleMessage_def announces_def scheduleBet_def split: option.splits)

text \<open>A robot bets only when it was told to.  In every interleaving of its read pump, its loop and its timer, the
  bets it has sent, with the one its timer may still be waiting to send, are no more than the betting phases
  announced to it, every one is a bet on a color of the game of 10 to 100, and never more than ten messages
  wait.\<close>

theorem robot_bets_when_told:
  assumes "robot_reach w"
  shows "length (rw_sent w) + (if rl_timer (rw_loop w) then 1 else 0) \<le> rw_announced w \<and>
     set (rw_sent w) \<subseteq> {robotBet c a |c a. c < 3 \<and> a < 10} \<and> length (rw_chan w) \<le> 10"
  using assms
proof (induction rule: robot_reach.induct)
  case start
  then show ?case by (simp add: robot_start_def)
next
  case (step w w')
  from step(2) step(3) show ?case
  proof cases
    case (handle m ms)
    with step(3) handleMessage_cases [of m "rw_loop w"] show ?thesis by (auto split: if_splits)
  qed auto
qed

text \<open>The name of the betting phase belongs to it alone.\<close>

lemma state_String_betting: "state_String s = ''GAME_STATE_BETTING'' \<longleftrightarrow> s = GAME_STATE_BETTING"
proof (cases "map_of ColorGameState_name s")
  case None
  have "set ''GAME_STATE_BETTING'' \<subseteq> insert (CHR ''-'') decimal_chars" if "itoa i = ''GAME_STATE_BETTING''" for i
    using itoa_decimal [of i] that by metis
  then have "itoa i \<noteq> ''GAME_STATE_BETTING''" for i by (auto simp: decimal_chars_def)
  with None show ?thesis by (auto simp: state_String_def enum_String_def ColorGameState_name_def split: if_splits)
next
  case (Some n)
  then show ?thesis by (auto simp: state_String_def enum_String_def ColorGameState_name_def split: if_splits)
qed

lemma handleMessage_round_state:
  assumes "valid_utf8 gc" "valid_utf8 (brc_RoundId e)"
  shows "handleMessage (json_enc (round_state_json gc e)) l =
     (if brc_State e = GAME_STATE_BETTING then l\<lparr>rl_round := brc_RoundId e, rl_timer := True\<rparr> else l)"
proof -
  have "json_parse (json_enc (round_state_json gc e)) = Some (round_state_json gc e)"
    by (rule json_parse_enc [OF json_wf_round_state [OF assms]])
  then show ?thesis
    by (simp add: handleMessage_def round_state_json_def struct_of_def robot_event_fields_def robot_data_fields_def
        find_field_def str_field_def raw_field_def state_String_betting scheduleBet_def)
qed

lemma handleMessage_settlement:
  assumes "valid_utf8 gc" "valid_utf8 (sbr_RoundId e)" "valid_utf8 (sbr_BetId e)"
  shows "handleMessage (json_enc (settlement_json gc e)) l = l"
  using json_parse_enc [OF json_wf_settlement [OF assms]]
  by (simp add: handleMessage_def settlement_json_def struct_of_def robot_event_fields_def find_field_def str_field_def
      raw_field_def)

lemma HandleMessage_robotBet:
  assumes "c < 3" "a < 10" "col = [REWARD_RED, REWARD_GREEN, REWARD_BLUE] ! c"
  shows "\<exists>reply. HandleMessage uc userID (robotBet c a) g =
     (Inr reply, snd (gsv_PlaceBet (colorGameSvc uc) g \<lparr>pbq_UserId = userID, pbq_Color = col, pbq_Amount = word_of_nat ((a + 1) * 10)\<rparr>))"
proof -
  let ?data = "JObj [(''amount'', json_int (int ((a + 1) * 10))), (''color'', JStr ([''red'', ''green'', ''blue''] ! c))]"
  let ?j = "JObj [(''command'', JStr ''ColorGamePlaceBetREQ''), (''data'', ?data), (''game_code'', JStr ''color_game'')]"
  have names: "valid_utf8 ''red''" "valid_utf8 ''green''" "valid_utf8 ''blue''"
    by (rule ascii_valid_utf8, simp add: byte_def)+
  have colors: "map_of ColorGameReward_value (''REWARD_'' @ to_upper ''red'') = Some REWARD_RED"
    "map_of ColorGameReward_value (''REWARD_'' @ to_upper ''green'') = Some REWARD_GREEN"
    "map_of ColorGameReward_value (''REWARD_'' @ to_upper ''blue'') = Some REWARD_BLUE" by code_simp+
  have c: "c = 0 \<or> c = 1 \<or> c = 2" using assms(1) by auto
  then have "valid_utf8 ([''red'', ''green'', ''blue''] ! c)" using names by auto
  then have wf: "json_wf ?j" by simp
  have i: "sint (word_of_nat ((a + 1) * 10) :: int64) = int ((a + 1) * 10)"
    using assms(2) by (subst signed_of_nat) (simp add: signed_take_bit_int_eq_self)
  have env: "envelope_of ?j = Some \<lparr>req_Game = ''color_game'', req_Command = ''ColorGamePlaceBetREQ'', req_Data = Some ?data\<rparr>"
    by (simp add: envelope_of_def struct_of_def envelope_fields_def find_field_def str_field_def raw_field_def)
  have "parse_int64 (itoa (int ((a + 1) * 10))) = Some (word_of_nat ((a + 1) * 10))"
    using parse_int64_itoa [of "word_of_nat ((a + 1) * 10)"] by (simp only: i)
  then have pay: "payload_of ?data = Some \<lparr>pl_Color = [''red'', ''green'', ''blue''] ! c, pl_Amount = word_of_nat ((a + 1) * 10)\<rparr>"
    by (simp add: payload_of_def struct_of_def payload_fields_def find_field_def str_field_def int64_field_def json_int_def
        del: of_nat_add of_nat_mult of_nat_Suc)
  have col: "map_of ColorGameReward_value (''REWARD_'' @ to_upper ([''red'', ''green'', ''blue''] ! c)) = Some col"
    using c colors assms(3) by auto
  obtain r g' where call: "gsv_PlaceBet (colorGameSvc uc) g
      \<lparr>pbq_UserId = userID, pbq_Color = col, pbq_Amount = word_of_nat ((a + 1) * 10)\<rparr> = (r, g')" by fastforce
  have "HandleMessage uc userID (robotBet c a) g = handleColorGame uc userID ''ColorGamePlaceBetREQ'' (Some ?data) g"
    unfolding robotBet_def HandleMessage_def json_parse_line [OF wf] by (simp only: Option.bind.simps env) simp
  then show ?thesis using pay col call
    by (cases r) (simp_all add: handleColorGame_def del: of_nat_add of_nat_mult of_nat_Suc)
qed

text \<open>The robot and the gateway understand each other.  Of the events the gateway sends, exactly the betting
  phases of the rounds start the timer of the robot, and they set its round; and what the robot then writes
  is, for the gateway, one bet of its user on that color with that amount.\<close>

theorem robot_speaks_gateway:
  assumes "c < 3" "a < 10" "valid_utf8 gc" "utf8_event event" "convertEvent gc event = Some t"
  shows "handleMessage t l =
      (case event of
         RoundStateMsg e \<Rightarrow>
           if brc_State e = GAME_STATE_BETTING then l\<lparr>rl_round := brc_RoundId e, rl_timer := True\<rparr> else l
       | _ \<Rightarrow> l) \<and>
    (\<exists>reply. HandleMessage uc userID (robotBet c a) g =
       (Inr reply, snd (gsv_PlaceBet (colorGameSvc uc) g
          \<lparr>pbq_UserId = userID, pbq_Color = [REWARD_RED, REWARD_GREEN, REWARD_BLUE] ! c,
           pbq_Amount = word_of_nat ((a + 1) * 10)\<rparr>)))"
proof
  show "handleMessage t l =
      (case event of
         RoundStateMsg e \<Rightarrow>
           if brc_State e = GAME_STATE_BETTING then l\<lparr>rl_round := brc_RoundId e, rl_timer := True\<rparr> else l
       | _ \<Rightarrow> l)"
    using assms(3-5) by (cases event)
      (auto simp: convertEvent_def handleMessage_round_state handleMessage_settlement)
  show "\<exists>reply. HandleMessage uc userID (robotBet c a) g =
       (Inr reply, snd (gsv_PlaceBet (colorGameSvc uc) g
          \<lparr>pbq_UserId = userID, pbq_Color = [REWARD_RED, REWARD_GREEN, REWARD_BLUE] ! c,
           pbq_Amount = word_of_nat ((a + 1) * 10)\<rparr>))"
    by (rule HandleMessage_robotBet [OF assms(1,2) refl])
qed

definition sample_betting :: ColorGameRoundStateBRC where
  "sample_betting = \<lparr>brc_RoundId = ''R1'', brc_State = GAME_STATE_BETTING, brc_BettingEndTimestamp = 9, brc_LeftTime = 9\<rparr>"

theorem robot_speaks_gateway_witness:
  "handleMessage (json_enc (round_state_json ''color_game'' sample_betting)) \<lparr>rl_round = [], rl_timer = False\<rparr> =
     \<lparr>rl_round = ''R1'', rl_timer = True\<rparr> \<and>
   snd (HandleMessage logging_gateway 7 (robotBet 0 4) []) =
     [\<lparr>pbq_UserId = 7, pbq_Color = REWARD_RED, pbq_Amount = 50\<rparr>]"
proof -
  have "valid_utf8 ''R1''" by (rule ascii_valid_utf8, simp add: byte_def)
  then have "utf8_event (RoundStateMsg sample_betting)" by (simp add: sample_betting_def)
  moreover have "convertEvent ''color_game'' (RoundStateMsg sample_betting) = Some (json_enc (round_state_json ''color_game'' sample_betting))"
    by (simp add: convertEvent_def)
  ultimately show ?thesis
    using robot_speaks_gateway [of 0 4 "''color_game''" "RoundStateMsg sample_betting"
        "json_enc (round_state_json ''color_game'' sample_betting)" "\<lparr>rl_round = [], rl_timer = False\<rparr>" logging_gateway 7 "[]"]
    by (auto simp: sample_betting_def logging_gateway_def)
qed

text \<open>The announcement of a phase, the bet, and the end of the connection.\<close>

theorem robot_bets_when_told_witness:
  "\<exists>w. robot_reach w \<and> length (rw_sent w) \<le> rw_announced w \<and> rw_sent w = [robotBet 0 4] \<and> rw_announced w = 1"
proof -
  let ?m = "json_enc (round_state_json ''color_game'' sample_betting)"
  have "valid_utf8 ''R1''" by (rule ascii_valid_utf8, simp add: byte_def)
  then have h: "handleMessage ?m l = l\<lparr>rl_round := ''R1'', rl_timer := True\<rparr>" for l
    using handleMessage_round_state [of "''color_game''" sample_betting] by (simp add: sample_betting_def)
  let ?w1 = "robot_start\<lparr>rw_chan := [?m]\<rparr>"
  let ?w2 = "robot_start\<lparr>rw_loop := \<lparr>rl_round = ''R1'', rl_timer = True\<rparr>, rw_announced := 1\<rparr>"
  let ?w3 = "robot_start\<lparr>rw_loop := \<lparr>rl_round = ''R1'', rl_timer = False\<rparr>, rw_announced := 1, rw_sent := [robotBet 0 4]\<rparr>"
  have "robot_step robot_start ?w1" using receive [of robot_start ?m] by (simp add: robot_start_def)
  moreover have "robot_step ?w1 ?w2" using handle [of ?w1 ?m "[]"] by (simp add: robot_start_def announces_def h)
  moreover have "robot_step ?w2 ?w3" using bet [of ?w2 0 4] by (simp add: robot_start_def)
  ultimately have reach: "robot_reach ?w3" by (meson robot_reach.start robot_reach.step)
  from robot_bets_when_told [OF reach] reach show ?thesis by (intro exI [of _ ?w3]) simp
qed

end
