(* ===== verification/Robot_Access.thy ===== *)
theory Robot_Access
  imports Robot Accounts Access "HOL-Library.Sublist"
begin

text \<open>
  The robot and the user service together: the HTTP server of the user module as the robot's \<open>post\<close>, with
  a network that may lose a request or its answer and a rate limiter that may refuse it; and that the
  retries of the robot get it in.
\<close>

section \<open>The server behind the requests\<close>

text \<open>A request is refused by the network, or handled and its answer lost, or handled and answered.\<close>

datatype net_outcome = Refused go_error | Lost go_error | Answered

record 'd http_world =
  hw_users :: "'d user_world"
  hw_net :: "nat \<Rightarrow> net_outcome"
  hw_allow :: "nat \<Rightarrow> bool"
  hw_calls :: nat

text \<open>What gin makes of a body is \<open>bindReg\<close> and \<open>bindLogin\<close>.  The robot's decoder reads back the JSON of a
  response as the value it was made of.\<close>

record serveUserr =
  us_host :: string
  us_tz :: "go_time \<Rightarrow> int"
  us_bindReg :: "json \<Rightarrow> registerRequest go_result"
  us_bindLogin :: "json \<Rightarrow> loginRequest go_result"

definition http_serve ::
    "'d UserUseCase \<Rightarrow> serveUserr \<Rightarrow> bool \<Rightarrow> string \<Rightarrow> json \<Rightarrow> 'd user_world \<Rightarrow> (nat \<times> json) \<times> 'd user_world" where
  "http_serve uc S allow url body w =
     (let base = ''http://'' @ us_host S
      in if prefix base url
         then serveUser uc (us_tz S) allow
                \<lparr>urq_Method = ''POST'', urq_Path = drop (length base) url, urq_Register = us_bindReg S body,
                 urq_Login = us_bindLogin S body, urq_Authorization = []\<rparr> w
         else ((404, JNull), w))"

definition user_http :: "'d UserUseCase \<Rightarrow> serveUserr \<Rightarrow> 'd http_world post" where
  "user_http uc S url body h =
     (let n = hw_calls h; h = h\<lparr>hw_calls := Suc n\<rparr>
      in case hw_net h n of
           Refused err \<Rightarrow> (RequestFailed err, h)
         | Lost err \<Rightarrow>
             (RequestFailed err, h\<lparr>hw_users := snd (http_serve uc S (hw_allow h n) url body (hw_users h))\<rparr>)
         | Answered \<Rightarrow>
             (case http_serve uc S (hw_allow h n) url body (hw_users h) of
                ((status, j), w) \<Rightarrow> (Response status (Some j), h\<lparr>hw_users := w\<rparr>)))"

section \<open>A service that works\<close>

text \<open>What is assumed of the parts outside: the laws of tables and tokens, and that no statement fails without a
  reason; a new user fits into the table \<open>U\<close> the service starts from.\<close>

definition users_up :: "'d UserUseCase \<Rightarrow> ('d \<Rightarrow> User list) \<Rightarrow> ('d \<Rightarrow> Session list) \<Rightarrow> User list \<Rightarrow> bool" where
  "users_up uc us ss U \<longleftrightarrow> tables_laws (uc_db uc) us ss \<and> crypto_ok (uc_crypto uc) \<and>
     (\<forall>d c e. gu_First (uc_db uc) d c \<noteq> Inl (DbError e)) \<and>
     (\<forall>d c. length (us d) < 2 ^ 63 \<longrightarrow> (\<exists>n. gu_Count (uc_db uc) d c = Inr n)) \<and>
     (\<forall>d u. us d = U \<and> user_Username u \<notin> user_Username ` set U \<and> user_Email u \<notin> user_Email ` set U \<longrightarrow>
        (\<exists>v d'. gu_Create (uc_db uc) d u = (Inr v, d'))) \<and>
     (\<forall>d s. ses_SessionID s \<notin> ses_SessionID ` set (ss d) \<longrightarrow> (\<exists>d'. gn_Create (uc_db uc) d s = (None, d'))) \<and>
     (\<forall>salt p. length p \<le> 72 \<longrightarrow> (\<exists>h. bcrypt_Generate (uc_crypto uc) salt p = Inr h)) \<and>
     (\<forall>claims. json_wf claims \<longrightarrow> (\<exists>tok. jwt_Sign (uc_crypto uc) (jwtSecret uc) claims = Inr tok \<and> tok \<noteq> []))"

text \<open>The random identifiers of sessions are there, new, and differ.\<close>

definition draws_ok :: "('d \<Rightarrow> Session list) \<Rightarrow> 'd user_world \<Rightarrow> bool" where
  "draws_ok ss w \<longleftrightarrow> (\<forall>n \<ge> uw_draws w. \<exists>bs. uw_random w n = Inr bs \<and>
     User.EncodeToString bs \<notin> ses_SessionID ` set (ss (uw_db w)) \<and>
     (\<forall>m bs'. n < m \<longrightarrow> uw_random w m = Inr bs' \<longrightarrow> User.EncodeToString bs' \<noteq> User.EncodeToString bs))"

definition free_name :: "string \<Rightarrow> string \<Rightarrow> User list \<Rightarrow> bool" where
  "free_name name email U \<longleftrightarrow> name \<notin> user_Username ` set U \<and> email \<notin> user_Email ` set U"

definition own_account :: "crypto \<Rightarrow> string \<Rightarrow> string \<Rightarrow> User list \<Rightarrow> bool" where
  "own_account C name pw U \<longleftrightarrow> name \<in> user_Username ` set U \<and> length U < 2 ^ 63 \<and>
     (\<forall>u \<in> set U. user_Username u = name \<longrightarrow> IsActive u \<and> bcrypt_Compare C (user_PasswordHash u) pw = None)"

lemma own_account_no_login: "own_account C name pw (map no_login U) \<longleftrightarrow> own_account C name pw U"
  by (simp add: own_account_def image_image no_login_def IsActive_def)

section \<open>One request\<close>

lemma Login_free:
  assumes "users_up uc us ss U" "free_name name email (us (uw_db w))"
  shows "Login uc name pw w = (Inl ''invalid username or password'', w)"
proof -
  have "GetByUsername (uc_db uc) name (uw_db w) \<noteq> Inr u" for u
    using GetByUsername_sound [OF laws_users, of "uc_db uc" us ss name "uw_db w" u] assms
    by (auto simp: users_up_def free_name_def)
  then show ?thesis by (auto simp: Login_def split: sum.splits)
qed

lemma Login_own:
  assumes up: "users_up uc us ss U" and own: "own_account (uc_crypto uc) name pw (us (uw_db w))"
    and draws: "draws_ok ss w" and name: "valid_utf8 name"
  obtains uid tok rt expiresAt w' where "Login uc name pw w = (Inr (uid, tok, rt, expiresAt), w')"
    "own_account (uc_crypto uc) name pw (us (uw_db w'))" "draws_ok ss w'" "tok \<noteq> []"
    "uw_clock w' = uw_clock w" "expiresAt = uw_clock w (uw_reads w) + tokenDuration uc"
proof -
  note L = up [unfolded users_up_def]
  have laws: "tables_laws (uc_db uc) us ss" using L by blast
  obtain user where user: "GetByUsername (uc_db uc) name (uw_db w) = Inr user"
  proof (cases "gu_First (uc_db uc) (uw_db w) (UsernameIs name)")
    case (Inl e)
    with L users_NotFound [OF laws_users [OF laws], of "uw_db w" "UsernameIs name"] own show ?thesis
      by (cases e) (auto simp: own_account_def)
  qed (simp add: GetByUsername_def user_First_def that)
  from GetByUsername_sound [OF laws_users [OF laws] user] own
  have u: "user_Username user = name" "IsActive user"
    "bcrypt_Compare (uc_crypto uc) (user_PasswordHash user) pw = None" by (auto simp: own_account_def)
  let ?e = "uw_clock w (uw_reads w) + tokenDuration uc"
  obtain tok where tok: "generateToken uc (user_UserID user) (user_Username user) w = (Inr (tok, ?e), w\<lparr>uw_reads := Suc (Suc (uw_reads w))\<rparr>)"
    "tok \<noteq> []"
  proof -
    from L token_claims_wf [OF name] obtain tok where
      "jwt_Sign (uc_crypto uc) (jwtSecret uc) (token_claims (user_UserID user) name (Unix ?e)
         (Unix (uw_clock w (Suc (uw_reads w))))) = Inr tok" "tok \<noteq> []" by blast
    then show ?thesis by (intro that [of tok]) (simp_all add: generateToken_def userNow_def u(1))
  qed
  from draws obtain bs where bs: "uw_random w (uw_draws w) = Inr bs"
    "User.EncodeToString bs \<notin> ses_SessionID ` set (ss (uw_db w))"
    "\<forall>m bs'. uw_draws w < m \<longrightarrow> uw_random w m = Inr bs' \<longrightarrow> User.EncodeToString bs' \<noteq> User.EncodeToString bs"
    unfolding draws_ok_def by blast
  let ?s = "\<lparr>ses_SessionID = User.EncodeToString bs, ses_UserID = user_UserID user, ses_Token = tok,
      ses_ExpiresAt = ?e + refreshGrace, ses_CreatedAt = zero_time\<rparr>"
  from L bs(2) obtain d where d: "gn_Create (uc_db uc) (uw_db w) ?s = (None, d)" by fastforce
  from sessions_Create [OF laws_sessions [OF laws] d] obtain t where
    d': "us d = us (uw_db w)" "ss d = ss (uw_db w) @ [?s\<lparr>ses_CreatedAt := t\<rparr>]" by blast
  let ?w = "w\<lparr>uw_reads := Suc (Suc (uw_reads w)), uw_draws := Suc (uw_draws w), uw_db := d\<rparr>"
  obtain x d2 where d2: "gu_UpdateLastLogin (uc_db uc) d (user_UserID user) (uw_clock w (Suc (Suc (uw_reads w)))) = (x, d2)"
    by fastforce
  let ?w2 = "?w\<lparr>uw_reads := Suc (Suc (Suc (uw_reads w))), uw_db := d2\<rparr>"
  have run: "Login uc name pw w = (Inr (user_UserID user, tok, User.EncodeToString bs, ?e), ?w2)"
    by (simp add: Login_def user u(2,3) tok generateRefreshToken_def bs(1) session_Create_def d UpdateLastLogin_def
        userNow_def d2 Let_def)
  have "map no_login (us d2) = map no_login (us d)"
    using laws_failures [OF laws] d2 unfolding failures_keep_def by blast
  then have own2: "own_account (uc_crypto uc) name pw (us d2)" using own d'(1) by (metis own_account_no_login)
  have ssd: "ss d2 = ss d" by (rule users_LastLogin [OF laws_users [OF laws] d2])
  have "draws_ok ss ?w2"
    unfolding draws_ok_def
  proof (intro allI impI)
    fix n assume "uw_draws ?w2 \<le> n"
    then have n: "uw_draws w < n" by simp
    with draws obtain b where b: "uw_random w n = Inr b" "User.EncodeToString b \<notin> ses_SessionID ` set (ss (uw_db w))"
      "\<forall>m bs'. n < m \<longrightarrow> uw_random w m = Inr bs' \<longrightarrow> User.EncodeToString bs' \<noteq> User.EncodeToString b"
      unfolding draws_ok_def using less_imp_le by blast
    moreover have "User.EncodeToString b \<noteq> User.EncodeToString bs" using bs(3) n b(1) by blast
    ultimately show "\<exists>b. uw_random ?w2 n = Inr b \<and> User.EncodeToString b \<notin> ses_SessionID ` set (ss (uw_db ?w2)) \<and>
        (\<forall>m bs'. n < m \<longrightarrow> uw_random ?w2 m = Inr bs' \<longrightarrow> User.EncodeToString bs' \<noteq> User.EncodeToString b)"
      using ssd d'(2) by simp
  qed
  then show ?thesis using that [OF run] own2 tok(2) by simp
qed

lemma Register_free:
  assumes up: "users_up uc us ss U" and free: "free_name name email U" "us (uw_db w) = U" "length U + 1 < 2 ^ 63"
    and draws: "draws_ok ss w" and pw: "name \<noteq> []" "email \<noteq> []" "6 \<le> length pw" "length pw \<le> 72"
  obtains uid w' where "user_Register uc name pw email w = (Inr uid, w')"
    "own_account (uc_crypto uc) name pw (us (uw_db w'))" "draws_ok ss w'" "uw_clock w' = uw_clock w"
proof -
  note L = up [unfolded users_up_def]
  have laws: "tables_laws (uc_db uc) us ss" using L by blast
  have none: "gu_Count (uc_db uc) (uw_db w) c = Inr 0" if "\<forall>u \<in> set U. \<not> user_matches c u" for c
  proof -
    obtain n where n: "gu_Count (uc_db uc) (uw_db w) c = Inr n" using L free by fastforce
    from users_Count [OF laws_users [OF laws] n] that free(2) have "sint n = 0" by (simp add: filter_False)
    with n show ?thesis by (simp add: signed_eq_0_iff)
  qed
  have "gu_Count (uc_db uc) (uw_db w) (UsernameIs name) = Inr 0" "gu_Count (uc_db uc) (uw_db w) (EmailIs email) = Inr 0"
    by (rule none, use free(1) in \<open>auto simp: free_name_def\<close>)+
  then have exists: "UsernameExists (uc_db uc) name (uw_db w) = Inr False" "EmailExists (uc_db uc) email (uw_db w) = Inr False"
    by (simp_all add: UsernameExists_def EmailExists_def)
  obtain hash where hash: "bcrypt_Generate (uc_crypto uc) (uw_salts w) pw = Inr hash" using L pw by blast
  let ?u = "\<lparr>user_UserID = 0, user_Username = name, user_PasswordHash = hash, user_Email = email,
      user_Status = UserStatusActive, user_CreatedAt = zero_time, user_LastLoginAt = None\<rparr>"
  obtain v d where v: "gu_Create (uc_db uc) (uw_db w) ?u = (Inr v, d)"
    using L free unfolding free_name_def by fastforce
  from users_Create [OF laws_users [OF laws] v] free(2) obtain i t where
    d: "us d = U @ [?u\<lparr>user_UserID := i, user_CreatedAt := t\<rparr>]" "ss d = ss (uw_db w)" by auto
  have run: "user_Register uc name pw email w = (Inr (user_UserID v), w\<lparr>uw_salts := Suc (uw_salts w), uw_db := d\<rparr>)"
    using pw by (auto simp: user_Register_def exists hash user_Create_def v Let_def)
  have "own_account (uc_crypto uc) name pw (us d)"
    using d(1) free crypto_bcrypt [OF _ hash] L by (auto simp: own_account_def free_name_def IsActive_def)
  moreover have "draws_ok ss (w\<lparr>uw_salts := Suc (uw_salts w), uw_db := d\<rparr>)" using draws d(2) by (simp add: draws_ok_def)
  ultimately show ?thesis using that [OF run] by simp
qed

lemma Register_own:
  assumes up: "users_up uc us ss U" and own: "own_account C name pw0 (us (uw_db w))"
    and pw: "name \<noteq> []" "email \<noteq> []" "6 \<le> length pw"
  shows "user_Register uc name pw email w = (Inl ''username already exists'', w)"
proof -
  have laws: "tables_laws (uc_db uc) us ss" using up by (simp add: users_up_def)
  have "length (us (uw_db w)) < 2 ^ 63" using own by (simp add: own_account_def)
  then obtain n where n: "gu_Count (uc_db uc) (uw_db w) (UsernameIs name) = Inr n"
    using up unfolding users_up_def by blast
  have "filter (user_matches (UsernameIs name)) (us (uw_db w)) \<noteq> []"
    using own by (auto simp: own_account_def filter_empty_conv)
  with users_Count [OF laws_users [OF laws] n] have "0 < sint n" by simp
  with n pw show ?thesis by (auto simp: user_Register_def UsernameExists_def)
qed


section \<open>The retries\<close>

text \<open>What a token is good for.\<close>

definition admitted :: "'d UserUseCase \<Rightarrow> string \<Rightarrow> int64 \<Rightarrow> string \<Rightarrow> go_time \<Rightarrow> bool" where
  "admitted uc name uid tok expiresAt \<longleftrightarrow> tok \<noteq> [] \<and>
     (\<bar>sint uid\<bar> \<le> 2 ^ 53 \<and> 0 \<le> expiresAt div Second \<and> expiresAt div Second \<le> 2 ^ 53 \<longrightarrow>
       (\<forall>v. uw_clock v (uw_reads v) < expiresAt div Second * Second \<longrightarrow>
          fst (ValidateToken uc tok v) = Some (Inr (uid, name, expiresAt div Second * Second))))"

lemma Login_admitted:
  assumes "users_up uc us ss U" "Login uc name pw w = (Inr (uid, tok, rt, expiresAt), w')" "tok \<noteq> []" "valid_utf8 name"
  shows "admitted uc name uid tok expiresAt"
proof -
  obtain user w1 where x: "GetByUsername (uc_db uc) name (uw_db w) = Inr user" "uid = user_UserID user"
    "generateToken uc (user_UserID user) (user_Username user) w = (Inr (tok, expiresAt), w1)"
    using assms(2) by (rule LoginE)
  have L: "users_ok (uc_db uc) us ss" "crypto_ok (uc_crypto uc)" using assms(1) laws_users by (auto simp: users_up_def)
  have "user_Username user = name" using GetByUsername_sound [OF L(1) x(1)] by simp
  with generateToken_validates [OF L(2) x(3)] assms(3,4) x(2) show ?thesis unfolding admitted_def by simp
qed

text \<open>The robot's requests are bound as they are meant, and it talks to this server.\<close>

definition talks_to :: "serveUserr \<Rightarrow> Robot \<Rightarrow> bool" where
  "talks_to S r \<longleftrightarrow> rob_UserHost r = us_host S \<and>
     us_bindReg S (JObj [(''email'', JStr (rob_Username r @ ''@example.com'')), (''password'', JStr (rob_Password r)),
                         (''username'', JStr (rob_Username r))]) =
       Inr \<lparr>rgr_Username = rob_Username r, rgr_Password = rob_Password r, rgr_Email = rob_Username r @ ''@example.com''\<rparr> \<and>
     us_bindLogin S (JObj [(''password'', JStr (rob_Password r)), (''username'', JStr (rob_Username r))]) =
       Inr \<lparr>lgr_Username = rob_Username r, lgr_Password = rob_Password r\<rparr> \<and>
     valid_utf8 (rob_Username r) \<and> rob_Username r \<noteq> [] \<and> 6 \<le> length (rob_Password r) \<and> length (rob_Password r) \<le> 72"

lemma http_serve_routes:
  assumes "talks_to S r"
  shows "http_serve uc S allow (''http://'' @ rob_UserHost r @ ''/api/users/register'') body w =
      http_Register uc allow (us_bindReg S body) w"
    "http_serve uc S allow (''http://'' @ rob_UserHost r @ ''/api/users/login'') body w =
      http_Login uc (us_tz S) allow (us_bindLogin S body) w"
  using assms by (simp_all add: talks_to_def http_serve_def serveUser_def RegisterRoutes_def prefix_def Let_def)

abbreviation robot_email :: "Robot \<Rightarrow> string" where
  "robot_email r \<equiv> rob_Username r @ ''@example.com''"

definition good :: "'d http_world \<Rightarrow> nat \<Rightarrow> bool" where
  "good h n \<longleftrightarrow> hw_net h n = Answered \<and> hw_allow h n"

text \<open>Nothing but the tables, the reads and the count of calls changes.\<close>

definition same_net :: "'d http_world \<Rightarrow> 'd http_world \<Rightarrow> bool" where
  "same_net h h' \<longleftrightarrow> hw_net h' = hw_net h \<and> hw_allow h' = hw_allow h \<and>
     uw_clock (hw_users h') = uw_clock (hw_users h)"

lemma same_net_refl [simp]: "same_net h h"
  and same_net_trans: "same_net h h1 \<Longrightarrow> same_net h1 h2 \<Longrightarrow> same_net h h2"
  and same_net_good: "same_net h h' \<Longrightarrow> good h' = good h"
  by (auto simp: same_net_def good_def fun_eq_iff)

definition registered :: "'d UserUseCase \<Rightarrow> ('d \<Rightarrow> User list) \<Rightarrow> ('d \<Rightarrow> Session list) \<Rightarrow> Robot \<Rightarrow> 'd http_world \<Rightarrow> bool" where
  "registered uc us ss r h \<longleftrightarrow> draws_ok ss (hw_users h) \<and>
     own_account (uc_crypto uc) (rob_Username r) (rob_Password r) (us (uw_db (hw_users h)))"

definition unregistered :: "('d \<Rightarrow> User list) \<Rightarrow> ('d \<Rightarrow> Session list) \<Rightarrow> User list \<Rightarrow> Robot \<Rightarrow> 'd http_world \<Rightarrow> bool" where
  "unregistered us ss U r h \<longleftrightarrow> draws_ok ss (hw_users h) \<and> us (uw_db (hw_users h)) = U \<and> length U + 1 < 2 ^ 63 \<and>
     free_name (rob_Username r) (robot_email r) U"

abbreviation login_post where
  "login_post uc S r h \<equiv> user_http uc S (''http://'' @ rob_UserHost r @ ''/api/users/login'')
     (JObj [(''password'', JStr (rob_Password r)), (''username'', JStr (rob_Username r))]) h"

abbreviation register_post where
  "register_post uc S r h \<equiv> user_http uc S (''http://'' @ rob_UserHost r @ ''/api/users/register'')
     (JObj [(''email'', JStr (robot_email r)), (''password'', JStr (rob_Password r)), (''username'', JStr (rob_Username r))]) h"

text \<open>An answer that makes a loop try again.\<close>

definition retried :: "http_rsp \<Rightarrow> bool" where
  "retried rsp \<longleftrightarrow> (\<exists>e. rsp = RequestFailed e) \<or> (\<exists>j. rsp = Response StatusTooManyRequests (Some j))"

lemma user_http_served:
  assumes serve: "\<And>a. http_serve uc S a url body (hw_users h) =
      (if a then ((st, j), w') else ((StatusTooManyRequests, refusal), hw_users h))"
    and clock: "uw_clock w' = uw_clock (hw_users h)"
  obtains rsp h' where "user_http uc S url body h = (rsp, h')" "same_net h h'" "hw_calls h' = Suc (hw_calls h)"
    "hw_users h' \<in> {w', hw_users h}" "good h (hw_calls h) \<longrightarrow> rsp = Response st (Some j) \<and> hw_users h' = w'"
    "\<not> good h (hw_calls h) \<longrightarrow> retried rsp"
  using that [of "fst (user_http uc S url body h)" "snd (user_http uc S url body h)"] clock
  by (cases "hw_net h (hw_calls h)"; cases "hw_allow h (hw_calls h)")
    (simp_all add: user_http_def Let_def serve same_net_def good_def retried_def)

lemma login_post_registered:
  assumes up: "users_up uc us ss U" and t: "talks_to S r" and reg: "registered uc us ss r h"
  obtains rsp h' where "login_post uc S r h = (rsp, h')" "registered uc us ss r h'" "same_net h h'"
    "hw_calls h' = Suc (hw_calls h)" "\<not> good h (hw_calls h) \<longrightarrow> retried rsp"
    "good h (hw_calls h) \<longrightarrow> (\<exists>uid tok rt e k. rsp = Response StatusOK (Some (loginResponse uid tok rt (rfc3339 (us_tz S) e))) \<and>
       admitted uc (rob_Username r) uid tok e \<and> e = uw_clock (hw_users h) k + tokenDuration uc)"
proof -
  from t have name: "valid_utf8 (rob_Username r)" by (simp add: talks_to_def)
  from reg have own: "own_account (uc_crypto uc) (rob_Username r) (rob_Password r) (us (uw_db (hw_users h)))"
    "draws_ok ss (hw_users h)" by (simp_all add: registered_def)
  obtain uid tok rt e w' where L: "Login uc (rob_Username r) (rob_Password r) (hw_users h) = (Inr (uid, tok, rt, e), w')"
    "own_account (uc_crypto uc) (rob_Username r) (rob_Password r) (us (uw_db w'))" "draws_ok ss w'" "tok \<noteq> []"
    "uw_clock w' = uw_clock (hw_users h)" "e = uw_clock (hw_users h) (uw_reads (hw_users h)) + tokenDuration uc"
    by (rule Login_own [OF up own name])
  note A = Login_admitted [OF up L(1,4) name]
  have serve: "http_serve uc S a (''http://'' @ rob_UserHost r @ ''/api/users/login'')
     (JObj [(''password'', JStr (rob_Password r)), (''username'', JStr (rob_Username r))]) (hw_users h) =
     (if a then ((StatusOK, loginResponse uid tok rt (rfc3339 (us_tz S) e)), w')
      else ((StatusTooManyRequests, error_json ''too many login requests, please try again later''), hw_users h))" for a
    using t L(1) unfolding http_serve_routes [OF t] by (simp add: http_Login_def talks_to_def)
  obtain rsp h' where P: "login_post uc S r h = (rsp, h')" "same_net h h'" "hw_calls h' = Suc (hw_calls h)"
    "hw_users h' \<in> {w', hw_users h}"
    "good h (hw_calls h) \<longrightarrow> rsp = Response StatusOK (Some (loginResponse uid tok rt (rfc3339 (us_tz S) e))) \<and> hw_users h' = w'"
    "\<not> good h (hw_calls h) \<longrightarrow> retried rsp"
    by (rule user_http_served [OF serve L(5)])
  have "registered uc us ss r h'" using P(4) L(2,3) reg by (auto simp: registered_def)
  then show ?thesis using that [OF P(1) _ P(2,3)] P(5,6) A L(6) by blast
qed

lemma login_post_unregistered:
  assumes up: "users_up uc us ss U" and t: "talks_to S r" and reg: "unregistered us ss U r h"
  obtains rsp h' where "login_post uc S r h = (rsp, h')" "unregistered us ss U r h'" "same_net h h'"
    "hw_calls h' = Suc (hw_calls h)"
    "retried rsp \<or> rsp = Response StatusUnauth (Some (error_json ''invalid username or password''))"
proof -
  have L: "Login uc (rob_Username r) (rob_Password r) (hw_users h) = (Inl ''invalid username or password'', hw_users h)"
    by (rule Login_free [OF up, of "rob_Username r" "robot_email r"]) (use reg in \<open>simp add: unregistered_def\<close>)
  have serve: "http_serve uc S a (''http://'' @ rob_UserHost r @ ''/api/users/login'')
     (JObj [(''password'', JStr (rob_Password r)), (''username'', JStr (rob_Username r))]) (hw_users h) =
     (if a then ((StatusUnauth, error_json ''invalid username or password''), hw_users h)
      else ((StatusTooManyRequests, error_json ''too many login requests, please try again later''), hw_users h))" for a
    using t L unfolding http_serve_routes [OF t] by (simp add: http_Login_def talks_to_def)
  obtain rsp h' where P: "login_post uc S r h = (rsp, h')" "same_net h h'" "hw_calls h' = Suc (hw_calls h)"
    "hw_users h' \<in> {hw_users h, hw_users h}"
    "good h (hw_calls h) \<longrightarrow> rsp = Response StatusUnauth (Some (error_json ''invalid username or password'')) \<and> hw_users h' = hw_users h"
    "\<not> good h (hw_calls h) \<longrightarrow> retried rsp"
    by (rule user_http_served [OF serve refl])
  have "unregistered us ss U r h'" using P(4) reg by (auto simp: unregistered_def)
  then show ?thesis using that [OF P(1) _ P(2,3)] P(5,6) by blast
qed

text \<open>Registering: a request that was handled although its answer was lost makes the next one find the name taken,
  which the robot takes for a success.\<close>

lemma register_post:
  assumes up: "users_up uc us ss U" and t: "talks_to S r"
    and reg: "unregistered us ss U r h \<or> registered uc us ss r h"
  obtains rsp h' where "register_post uc S r h = (rsp, h')" "unregistered us ss U r h' \<or> registered uc us ss r h'"
    "same_net h h'" "hw_calls h' = Suc (hw_calls h)" "\<not> good h (hw_calls h) \<longrightarrow> retried rsp"
    "good h (hw_calls h) \<longrightarrow> registered uc us ss r h' \<and>
       ((\<exists>uid. rsp = Response StatusOK (Some (registerResponse uid True))) \<or>
        rsp = Response StatusInternalServerError (Some (error_json ''username already exists'')))"
proof -
  have pw: "rob_Username r \<noteq> []" "robot_email r \<noteq> []" "6 \<le> length (rob_Password r)" "length (rob_Password r) \<le> 72"
    using t by (simp_all add: talks_to_def)
  let ?serve = "\<lambda>a. http_serve uc S a (''http://'' @ rob_UserHost r @ ''/api/users/register'')
     (JObj [(''email'', JStr (robot_email r)), (''password'', JStr (rob_Password r)), (''username'', JStr (rob_Username r))])
     (hw_users h)"
  from reg show ?thesis
  proof
    assume reg: "unregistered us ss U r h"
    then obtain uid w' where L: "user_Register uc (rob_Username r) (rob_Password r) (robot_email r) (hw_users h) = (Inr uid, w')"
      "own_account (uc_crypto uc) (rob_Username r) (rob_Password r) (us (uw_db w'))" "draws_ok ss w'"
      "uw_clock w' = uw_clock (hw_users h)"
      unfolding unregistered_def using Register_free [OF up _ _ _ _ pw, of "hw_users h"] pw by metis
    have serve: "?serve a = (if a then ((StatusOK, registerResponse uid True), w')
       else ((StatusTooManyRequests, error_json ''too many registration requests, please try again later''), hw_users h))" for a
      using t L(1) unfolding http_serve_routes [OF t] by (simp add: http_Register_def talks_to_def)
    obtain rsp h' where P: "register_post uc S r h = (rsp, h')" "same_net h h'" "hw_calls h' = Suc (hw_calls h)"
      "hw_users h' \<in> {w', hw_users h}"
      "good h (hw_calls h) \<longrightarrow> rsp = Response StatusOK (Some (registerResponse uid True)) \<and> hw_users h' = w'"
      "\<not> good h (hw_calls h) \<longrightarrow> retried rsp" by (rule user_http_served [OF serve L(4)])
    from L(2,3) have 1: "hw_users h' = w' \<Longrightarrow> registered uc us ss r h'" by (simp add: registered_def)
    from reg have 2: "hw_users h' = hw_users h \<Longrightarrow> unregistered us ss U r h'" by (simp add: unregistered_def)
    show ?thesis by (rule that [OF P(1) _ P(2,3)]) (use P(4-6) 1 2 in blast)+
  next
    assume reg: "registered uc us ss r h"
    have L: "user_Register uc (rob_Username r) (rob_Password r) (robot_email r) (hw_users h) =
        (Inl ''username already exists'', hw_users h)"
      by (rule Register_own [where C = "uc_crypto uc" and ?pw0.0 = "rob_Password r", OF up _ pw(1-3)]) (use reg in \<open>simp add: registered_def\<close>)
    have serve: "?serve a = (if a then ((StatusInternalServerError, error_json ''username already exists''), hw_users h)
       else ((StatusTooManyRequests, error_json ''too many registration requests, please try again later''), hw_users h))" for a
      using t L unfolding http_serve_routes [OF t] by (simp add: http_Register_def talks_to_def)
    obtain rsp h' where P: "register_post uc S r h = (rsp, h')" "same_net h h'" "hw_calls h' = Suc (hw_calls h)"
      "hw_users h' \<in> {hw_users h, hw_users h}"
      "good h (hw_calls h) \<longrightarrow> rsp = Response StatusInternalServerError (Some (error_json ''username already exists'')) \<and> hw_users h' = hw_users h"
      "\<not> good h (hw_calls h) \<longrightarrow> retried rsp" by (rule user_http_served [OF serve refl])
    have 1: "registered uc us ss r h'" using P(4) reg by (auto simp: registered_def)
    show ?thesis by (rule that [OF P(1) _ P(2,3)]) (use P(5,6) 1 in blast)+
  qed
qed


lemma decode_answers:
  "decodeRsp loginRsp_fields (Some (loginResponse uid tok rt e)) = Some \<lparr>rr_UserID = uid, rr_Token = tok, rr_Error = []\<rparr>"
  "decodeRsp registerRsp_fields (Some (registerResponse uid ok)) = Some \<lparr>rr_UserID = uid, rr_Token = [], rr_Error = []\<rparr>"
  "decodeRsp errorRsp_fields (Some (error_json err)) = Some \<lparr>rr_UserID = 0, rr_Token = [], rr_Error = err\<rparr>"
  by (simp_all add: decodeRsp_def struct_of_def loginRsp_fields_def registerRsp_fields_def errorRsp_fields_def
      loginResponse_def registerResponse_def error_json_def find_field_def str_field_def int64_field_def json_int_def)

lemma login_retry:
  assumes "login_post uc S r h = (rsp, h')" "retried rsp"
  shows "\<exists>e. loginLoop (user_http uc S) dec (Suc n) err r h = loginLoop (user_http uc S) dec n e r h'"
  using assms by (auto simp: retried_def)

lemma register_retry:
  assumes "register_post uc S r h = (rsp, h')" "retried rsp"
  shows "\<exists>e. registerLoop (user_http uc S) dec (Suc n) err r h = registerLoop (user_http uc S) dec n e r h'"
  using assms by (auto simp: retried_def)

lemma next_good:
  assumes "\<exists>k < Suc n. good h (hw_calls h + k)" "\<not> good h (hw_calls h)" "same_net h h'" "hw_calls h' = Suc (hw_calls h)"
  shows "\<exists>k < n. good h' (hw_calls h' + k)"
proof -
  from assms(1) obtain k where k: "k < Suc n" "good h (hw_calls h + k)" by blast
  with assms(2) obtain j where "k = Suc j" by (cases k) auto
  with k assms(3,4) show ?thesis by (intro exI [of _ j]) (simp add: same_net_good)
qed

lemma loginLoop_registered:
  assumes up: "users_up uc us ss U" and t: "talks_to S r"
    and "registered uc us ss r h" "\<exists>k < n. good h (hw_calls h + k)"
  shows "\<exists>uid tok e k h'. loginLoop (user_http uc S) dec n err r h = ((None, r\<lparr>rob_Token := tok, rob_UserID := uid\<rparr>), h') \<and>
     admitted uc (rob_Username r) uid tok e \<and> e = uw_clock (hw_users h) k + tokenDuration uc"
  using assms(3,4)
proof (induction n arbitrary: err h)
  case (Suc n)
  obtain rsp h' where P: "login_post uc S r h = (rsp, h')" "registered uc us ss r h'" "same_net h h'"
    "hw_calls h' = Suc (hw_calls h)" "\<not> good h (hw_calls h) \<longrightarrow> retried rsp"
    "good h (hw_calls h) \<longrightarrow> (\<exists>uid tok rt e k. rsp = Response StatusOK (Some (loginResponse uid tok rt (rfc3339 (us_tz S) e))) \<and>
       admitted uc (rob_Username r) uid tok e \<and> e = uw_clock (hw_users h) k + tokenDuration uc)"
    by (rule login_post_registered [OF up t Suc.prems(1)])
  show ?case
  proof (cases "good h (hw_calls h)")
    case True
    with P(1,6) show ?thesis by (fastforce simp: decode_answers)
  next
    case False
    obtain e where e: "loginLoop (user_http uc S) dec (Suc n) err r h = loginLoop (user_http uc S) dec n e r h'"
      using login_retry [OF P(1)] P(5) False by blast
    have clock: "uw_clock (hw_users h') = uw_clock (hw_users h)" using P(3) by (simp add: same_net_def)
    show ?thesis unfolding e using Suc.IH [OF P(2) next_good [OF Suc.prems(2) False P(3,4)], of e] unfolding clock .
  qed
qed simp

lemma loginLoop_unregistered:
  assumes up: "users_up uc us ss U" and t: "talks_to S r" and "unregistered us ss U r h"
  shows "\<exists>e h'. loginLoop (user_http uc S) dec n err r h = ((Some e, r), h') \<and> unregistered us ss U r h' \<and> same_net h h'"
  using assms(3)
proof (induction n arbitrary: err h)
  case (Suc n)
  obtain rsp h' where P: "login_post uc S r h = (rsp, h')" "unregistered us ss U r h'" "same_net h h'"
    "hw_calls h' = Suc (hw_calls h)"
    "retried rsp \<or> rsp = Response StatusUnauth (Some (error_json ''invalid username or password''))"
    by (rule login_post_unregistered [OF up t Suc.prems])
  from P(5) have "\<exists>e. loginLoop (user_http uc S) dec (Suc n) err r h = loginLoop (user_http uc S) dec n e r h'"
    using login_retry [OF P(1)] P(1) by (auto simp: decode_answers)
  then obtain e where e: "loginLoop (user_http uc S) dec (Suc n) err r h = loginLoop (user_http uc S) dec n e r h'"
    by blast
  from Suc.IH [OF P(2), of e] same_net_trans [OF P(3)] show ?case unfolding e by blast
qed simp

lemma registerLoop_gets_through:
  assumes up: "users_up uc us ss U" and t: "talks_to S r"
    and "unregistered us ss U r h \<or> registered uc us ss r h" "\<exists>k < n. good h (hw_calls h + k)"
  shows "\<exists>uid h'. registerLoop (user_http uc S) dec n err r h = ((None, r\<lparr>rob_UserID := uid\<rparr>), h') \<and>
     registered uc us ss r h' \<and> same_net h h'"
  using assms(3,4)
proof (induction n arbitrary: err h)
  case (Suc n)
  obtain rsp h' where P: "register_post uc S r h = (rsp, h')" "unregistered us ss U r h' \<or> registered uc us ss r h'"
    "same_net h h'" "hw_calls h' = Suc (hw_calls h)" "\<not> good h (hw_calls h) \<longrightarrow> retried rsp"
    "good h (hw_calls h) \<longrightarrow> registered uc us ss r h' \<and>
       ((\<exists>uid. rsp = Response StatusOK (Some (registerResponse uid True))) \<or>
        rsp = Response StatusInternalServerError (Some (error_json ''username already exists'')))"
    by (rule register_post [OF up t Suc.prems(1)])
  show ?case
  proof (cases "good h (hw_calls h)")
    case True
    have "\<exists>uid. r = r\<lparr>rob_UserID := uid\<rparr>" by (rule exI [of _ "rob_UserID r"]) simp
    with True P(1,3,6) show ?thesis by (auto simp: decode_answers)
  next
    case False
    obtain e where e: "registerLoop (user_http uc S) dec (Suc n) err r h = registerLoop (user_http uc S) dec n e r h'"
      using register_retry [OF P(1)] P(5) False by blast
    from Suc.IH [OF P(2) next_good [OF Suc.prems(2) False P(3,4)], of e] same_net_trans [OF P(3)]
    show ?thesis unfolding e by blast
  qed
qed simp


section \<open>Properties\<close>

text \<open>C36. The robot gets in.  Its name is free or its own, the parts behind the user service work, and of any five
  requests in a row one is neither refused by the limiter nor lost, with its answer, by the network; requests
  whose answers were lost have been handled.  Then logging in, registering and logging in again ends without
  an error, and the URL the robot then dials opens a connection for the user it was told to be, until the
  token expires, if the token is written, as signed tokens are, in characters that stand for themselves.\<close>

theorem robot_gets_in:
  assumes up: "users_up uc us ss (us (uw_db (hw_users h)))"
    and r: "r = NewRobot i host ws" "talks_to S r"
    and start: "unregistered us ss (us (uw_db (hw_users h))) r h \<or> registered uc us ss r h"
    and net: "\<forall>m. \<exists>k < 5. good h (m + k)"
  shows "\<exists>uid tok e k h'.
     robot_enter (user_http uc S) dec r h = ((None, r\<lparr>rob_Token := tok, rob_UserID := uid\<rparr>), h') \<and>
     tok \<noteq> [] \<and> e = uw_clock (hw_users h) k + tokenDuration uc \<and>
     (url_safe tok \<and> \<bar>sint uid\<bar> \<le> 2 ^ 53 \<and> 0 \<le> e div Second \<and> e div Second \<le> 2 ^ 53 \<longrightarrow>
       (\<forall>v m. uw_clock v (uw_reads v) < e div Second * Second \<longrightarrow>
         (\<exists>v' m'. HandleWebSocket (local_ValidateToken uc) True
              (QueryGet (ws_query (r\<lparr>rob_Token := tok, rob_UserID := uid\<rparr>)) ''token'') v m =
                (Inr (Some (nextConn m)), v', m') \<and>
            map_of (clients m') uid = Some (nextConn m) \<and> conn_UserID (conns m' (nextConn m)) = uid)))"
proof -
  let ?post = "user_http uc S"
  have login: "\<exists>uid tok e k h'. robot_Login ?post dec (r\<lparr>rob_UserID := u\<rparr>) g =
        ((None, r\<lparr>rob_Token := tok, rob_UserID := uid\<rparr>), h') \<and>
      admitted uc (rob_Username r) uid tok e \<and> e = uw_clock (hw_users h) k + tokenDuration uc"
    if "registered uc us ss r g" "same_net h g" for u g
  proof -
    have "talks_to S (r\<lparr>rob_UserID := u\<rparr>)" "registered uc us ss (r\<lparr>rob_UserID := u\<rparr>) g"
      using r(2) that(1) by (simp_all add: talks_to_def registered_def)
    moreover have "\<exists>k < 5. good g (hw_calls g + k)" using net same_net_good [OF that(2)] by simp
    ultimately show ?thesis
      using loginLoop_registered [OF up, of S "r\<lparr>rob_UserID := u\<rparr>" g 5 dec "[]"] that(2)
      unfolding robot_Login_def same_net_def by (fastforce simp: numeral_eq_Suc)
  qed
  have "\<exists>uid tok e k h'. robot_enter ?post dec r h = ((None, r\<lparr>rob_Token := tok, rob_UserID := uid\<rparr>), h') \<and>
      admitted uc (rob_Username r) uid tok e \<and> e = uw_clock (hw_users h) k + tokenDuration uc"
    using start
  proof
    assume "registered uc us ss r h"
    from login [OF this same_net_refl, of "rob_UserID r"] show ?thesis by (force simp: robot_enter_def)
  next
    assume un: "unregistered us ss (us (uw_db (hw_users h))) r h"
    obtain e1 h1 where 1: "robot_Login ?post dec r h = ((Some e1, r), h1)"
      "unregistered us ss (us (uw_db (hw_users h))) r h1" "same_net h h1"
      using loginLoop_unregistered [OF up r(2) un] unfolding robot_Login_def by blast
    obtain k where "k < 5" "good h1 (hw_calls h1 + k)" using net same_net_good [OF 1(3)] by auto
    then have "\<exists>k < 20. good h1 (hw_calls h1 + k)" by (intro exI [of _ k]) simp
    then obtain u h2 where 2: "robot_Register ?post dec r h1 = ((None, r\<lparr>rob_UserID := u\<rparr>), h2)"
      "registered uc us ss r h2" "same_net h1 h2"
      using registerLoop_gets_through [OF up r(2) disjI1 [OF 1(2)]] unfolding robot_Register_def by blast
    from login [OF 2(2) same_net_trans [OF 1(3) 2(3)], of u] 1(1) 2(1) show ?thesis by (force simp: robot_enter_def)
  qed
  then obtain uid tok e k h' where E: "robot_enter ?post dec r h = ((None, r\<lparr>rob_Token := tok, rob_UserID := uid\<rparr>), h')"
    "admitted uc (rob_Username r) uid tok e" "e = uw_clock (hw_users h) k + tokenDuration uc" by blast
  have "\<exists>v' m'. HandleWebSocket (local_ValidateToken uc) True tok v m = (Inr (Some (nextConn m)), v', m') \<and>
      map_of (clients m') uid = Some (nextConn m) \<and> conn_UserID (conns m' (nextConn m)) = uid"
    if "\<bar>sint uid\<bar> \<le> 2 ^ 53 \<and> 0 \<le> e div Second \<and> e div Second \<le> 2 ^ 53"
      "uw_clock v (uw_reads v) < e div Second * Second" for v m
  proof -
    have tok: "tok \<noteq> []" "fst (ValidateToken uc tok v) = Some (Inr (uid, rob_Username r, e div Second * Second))"
      using E(2) that unfolding admitted_def by blast+
    then have "local_ValidateToken uc tok v =
        (Some (Inr (uid, rob_Username r, e div Second * Second)), snd (ValidateToken uc tok v))"
      by (simp add: local_eq prod_eq_iff)
    from connect_accepted [of "local_ValidateToken uc", OF this tok(1), of m] show ?thesis by blast
  qed
  moreover have "url_safe tok \<Longrightarrow> QueryGet (ws_query (r\<lparr>rob_Token := tok, rob_UserID := uid\<rparr>)) ''token'' = tok"
    using QueryGet_single [of tok "''token''"] by (simp add: ws_query_def url_safe_def)
  ultimately show ?thesis using E unfolding admitted_def by metis
qed


text \<open>A new robot, on a network that loses every other request.\<close>

definition sample_server :: serveUserr where
  "sample_server = \<lparr>us_host = ''localhost:8082'', us_tz = \<lambda>_. 0,
     us_bindReg = \<lambda>j. case j of
         JObj [(_, JStr e), (_, JStr p), (_, JStr u)] \<Rightarrow> Inr \<lparr>rgr_Username = u, rgr_Password = p, rgr_Email = e\<rparr>
       | _ \<Rightarrow> Inl ''EOF'',
     us_bindLogin = \<lambda>j. case j of
         JObj [(_, JStr p), (_, JStr u)] \<Rightarrow> Inr \<lparr>lgr_Username = u, lgr_Password = p\<rparr> | _ \<Rightarrow> Inl ''EOF''\<rparr>"

definition sample_http :: "tables http_world" where
  "sample_http = \<lparr>hw_users = no_users\<lparr>uw_random := \<lambda>n. Inr (replicate n 0)\<rparr>,
     hw_net = \<lambda>n. if even n then Lost ''connection reset'' else Answered, hw_allow = \<lambda>_. True, hw_calls = 0\<rparr>"

lemma sample_up: "users_up sample_users fst snd []"
  unfolding users_up_def
proof (intro conjI)
  show "tables_laws (uc_db sample_users) fst snd"
    using table_users_ok table_sessions_ok
    by (auto simp: tables_laws_def failures_keep_def table_gorm_def no_login_def)
  show "\<forall>claims. json_wf claims \<longrightarrow>
      (\<exists>tok. jwt_Sign (uc_crypto sample_users) (jwtSecret sample_users) claims = Inr tok \<and> tok \<noteq> [])"
    using key_utf8(1) by (simp add: sample_crypto_def)
  show "\<forall>d c. length (fst d) < 2 ^ 63 \<longrightarrow> (\<exists>n. gu_Count (uc_db sample_users) d c = Inr n)"
    by (auto simp: table_gorm_def Let_def intro: le_less_trans [OF length_filter_le])
qed (auto simp: table_gorm_def first_row_def sample_crypto_ok Let_def split: option.splits, simp add: sample_crypto_def)

lemma sample_robot:
  "talks_to sample_server (NewRobot 1 ''localhost:8082'' ''localhost:8081'')"
  "unregistered fst snd [] (NewRobot 1 ''localhost:8082'' ''localhost:8081'') sample_http"
proof -
  have "valid_utf8 (''robot_user_'' @ itoa 1)" by (rule ascii_valid_utf8) (simp add: itoa_def nat_digits.simps digit_char_def byte_def)
  then show "talks_to sample_server (NewRobot 1 ''localhost:8082'' ''localhost:8081'')"
    by (simp add: talks_to_def NewRobot_def sample_server_def)
  have len: "length (User.EncodeToString (replicate n 0)) = 2 * n" for n by (induction n) (simp_all add: User.EncodeToString_def)
  have "m \<noteq> n \<Longrightarrow> User.EncodeToString (replicate m 0) \<noteq> User.EncodeToString (replicate n 0)" for m n
    using len [of m] len [of n] by (cases "User.EncodeToString (replicate m 0) = User.EncodeToString (replicate n 0)") simp_all
  then show "unregistered fst snd [] (NewRobot 1 ''localhost:8082'' ''localhost:8081'') sample_http"
    by (simp add: unregistered_def draws_ok_def free_name_def sample_http_def no_users_def)
qed

theorem robot_gets_in_witness:
  "\<exists>uid tok h'. robot_enter (user_http sample_users sample_server) ''EOF''
       (NewRobot 1 ''localhost:8082'' ''localhost:8081'') sample_http =
     ((None, (NewRobot 1 ''localhost:8082'' ''localhost:8081'')\<lparr>rob_Token := tok, rob_UserID := uid\<rparr>), h') \<and> tok \<noteq> []"
proof -
  have empty: "fst (uw_db (hw_users sample_http)) = []" by (simp add: sample_http_def no_users_def)
  have net: "\<forall>m. \<exists>k < 5. good sample_http (m + k)"
  proof
    fix m :: nat
    show "\<exists>k < 5. good sample_http (m + k)"
      by (rule exI [of _ "if even m then 1 else 0"]) (simp add: good_def sample_http_def)
  qed
  from robot_gets_in [where us = fst and ss = snd and h = sample_http and dec = "''EOF''", unfolded empty,
      OF sample_up refl sample_robot(1) disjI1 [OF sample_robot(2)] net]
  show ?thesis by blast
qed

end
