(* ===== verification/Config.thy ===== *)
theory Config
  imports Go_Strings
begin

text \<open>
  The configuration, \<^verbatim>\<open>internal/config\<close>: every setting comes from an environment variable or has a default.
  The environment is a function from names to values, as \<^verbatim>\<open>os.LookupEnv\<close> reads it.
\<close>

type_synonym environment = "string \<Rightarrow> string option"

section \<open>Shared settings\<close>

record ServerConfig =
  srv_Port :: string
  srv_HTTPPort :: string
  srv_Name :: string
  srv_LogLevel :: string

record DatabaseConfig =
  dbc_Host :: string
  dbc_Port :: string
  dbc_User :: string
  dbc_Password :: string
  dbc_Name :: string

record RedisConfig =
  rdc_Host :: string
  rdc_Port :: string

record NacosConfig =
  ncc_Host :: string
  ncc_Port :: string
  ncc_NamespaceID :: string
  ncc_Group :: string

record JWTConfig =
  jwt_Secret :: string
  jwt_Duration :: go_duration

definition getEnv :: "environment \<Rightarrow> string \<Rightarrow> string \<Rightarrow> string" where
  "getEnv env key fallback = (case env key of Some value \<Rightarrow> value | None \<Rightarrow> fallback)"

definition getEnvInt :: "environment \<Rightarrow> string \<Rightarrow> go_int \<Rightarrow> go_int" where
  "getEnvInt env key fallback =
     (case env key of
        Some value \<Rightarrow> (case ParseInt value of (i, None) \<Rightarrow> i | (_, Some _) \<Rightarrow> fallback)
      | None \<Rightarrow> fallback)"

definition redisConfig :: "environment \<Rightarrow> RedisConfig" where
  "redisConfig env = \<lparr>rdc_Host = getEnv env ''REDIS_HOST'' ''localhost'', rdc_Port = getEnv env ''REDIS_PORT'' ''6379''\<rparr>"

definition nacosConfig :: "environment \<Rightarrow> NacosConfig" where
  "nacosConfig env =
     \<lparr>ncc_Host = getEnv env ''NACOS_HOST'' ''localhost'', ncc_Port = getEnv env ''NACOS_PORT'' ''8848'',
      ncc_NamespaceID = getEnv env ''NACOS_NAMESPACE'' ''public'', ncc_Group = getEnv env ''NACOS_GROUP'' ''DEFAULT_GROUP''\<rparr>"

definition dbConfig :: "environment \<Rightarrow> DatabaseConfig" where
  "dbConfig env =
     \<lparr>dbc_Host = getEnv env ''DB_HOST'' ''localhost'', dbc_Port = getEnv env ''DB_PORT'' ''5432'',
      dbc_User = getEnv env ''DB_USER'' ''casino_user'', dbc_Password = getEnv env ''DB_PASSWORD'' ''casino_pass'',
      dbc_Name = getEnv env ''DB_NAME'' ''casino_db''\<rparr>"

section \<open>The services\<close>

record ColorGameConfig =
  cgc_Server :: ServerConfig
  cgc_Redis :: RedisConfig
  cgc_Database :: DatabaseConfig
  cgc_Nacos :: NacosConfig
  cgc_RepoType :: string
  cgc_MaxPlayersPerRoom :: go_int

definition LoadColorGameConfig :: "environment \<Rightarrow> ColorGameConfig" where
  "LoadColorGameConfig env =
     \<lparr>cgc_Server = \<lparr>srv_Port = getEnv env ''GAME_SERVER_PORT'' ''50052'', srv_HTTPPort = [], srv_Name = ''game-service'',
                    srv_LogLevel = []\<rparr>,
      cgc_Redis = redisConfig env, cgc_Database = dbConfig env, cgc_Nacos = nacosConfig env,
      cgc_RepoType = getEnv env ''COLORGAME_REPO_TYPE'' ''memory'',
      cgc_MaxPlayersPerRoom = getEnvInt env ''GAME_MAX_PLAYERS'' 100\<rparr>"

record WebSocketConfig =
  wsc_PingInterval :: go_duration
  wsc_WriteWait :: go_duration
  wsc_PongWait :: go_duration
  wsc_MaxMessageSize :: int64

record GatewayConfig =
  gwc_Server :: ServerConfig
  gwc_WebSocket :: WebSocketConfig
  gwc_Redis :: RedisConfig
  gwc_Nacos :: NacosConfig

definition LoadGatewayConfig :: "environment \<Rightarrow> GatewayConfig" where
  "LoadGatewayConfig env =
     \<lparr>gwc_Server = \<lparr>srv_Port = getEnv env ''GATEWAY_PORT'' ''8081'', srv_HTTPPort = [], srv_Name = ''gateway-service'',
                    srv_LogLevel = []\<rparr>,
      gwc_WebSocket = \<lparr>wsc_PingInterval = 54 * Second, wsc_WriteWait = 10 * Second, wsc_PongWait = 60 * Second,
                       wsc_MaxMessageSize = 512\<rparr>,
      gwc_Redis = redisConfig env, gwc_Nacos = nacosConfig env\<rparr>"

record UserConfig =
  usc_Server :: ServerConfig
  usc_Database :: DatabaseConfig
  usc_Redis :: RedisConfig
  usc_JWT :: JWTConfig
  usc_Nacos :: NacosConfig

definition LoadUserConfig :: "environment \<Rightarrow> UserConfig" where
  "LoadUserConfig env =
     \<lparr>usc_Server = \<lparr>srv_Port = getEnv env ''AUTH_SERVER_PORT'' ''50051'',
                    srv_HTTPPort = getEnv env ''AUTH_HTTP_PORT'' ''8082'', srv_Name = ''user-service'',
                    srv_LogLevel = getEnv env ''LOG_LEVEL'' ''info''\<rparr>,
      usc_Database = dbConfig env, usc_Redis = redisConfig env,
      usc_JWT = \<lparr>jwt_Secret = getEnv env ''JWT_SECRET'' ''dev-secret-key'', jwt_Duration = 24 * 3600 * Second\<rparr>,
      usc_Nacos = nacosConfig env\<rparr>"

record MonolithConfig =
  mnc_User :: UserConfig
  mnc_ColorGame :: ColorGameConfig
  mnc_Gateway :: GatewayConfig

definition LoadMonolithConfig :: "environment \<Rightarrow> MonolithConfig" where
  "LoadMonolithConfig env =
     (let gatewayCfg = LoadGatewayConfig env;
          gatewayCfg = gatewayCfg\<lparr>gwc_Server := (gwc_Server gatewayCfg)\<lparr>srv_Port := getEnv env ''GATEWAY_PORT'' ''8081''\<rparr>\<rparr>
      in \<lparr>mnc_User = LoadUserConfig env, mnc_ColorGame = LoadColorGameConfig env, mnc_Gateway = gatewayCfg\<rparr>)"

text \<open>The port the monolith sets again is the one the gateway had.\<close>

lemma monolith_gateway: "mnc_Gateway (LoadMonolithConfig env) = LoadGatewayConfig env"
  by (simp add: LoadMonolithConfig_def LoadGatewayConfig_def Let_def)

text \<open>A number that is no number, or too large, gives the default and no error.\<close>

lemma getEnvInt_default:
  "snd (ParseInt value) \<noteq> None \<Longrightarrow> env key = Some value \<Longrightarrow> getEnvInt env key fallback = fallback"
  by (auto simp: getEnvInt_def split: prod.splits option.splits)

lemma getEnvInt_decimal:
  "0 \<le> i \<Longrightarrow> i < 2 ^ 63 \<Longrightarrow> env key = Some (itoa i) \<Longrightarrow> getEnvInt env key fallback = word_of_int i"
  by (simp add: getEnvInt_def ParseInt_itoa)

end
