(* ===== verification/Startup.thy ===== *)
theory Startup
  imports Config
begin

text \<open>
  The processes: \<^verbatim>\<open>main\<close> of the monolith and of the four services, as the list of what each does, for any
  configuration and any outcome of what it asks of the outside (\<open>boot\<close>).  Log lines are left out, except
  the fatal ones, which end the process.  The servers run beside \<^verbatim>\<open>main\<close>; what they serve is not followed
  here, but each of them can fail at any time and then ends the process.
\<close>

section \<open>Actions\<close>

datatype component =
    UserModule | WalletModule | GatewayModule | GmsModule | GsModule | AdminModule | GrpcClient | BetsInRedis | BetsInMemory
  | OpsProjects | OpsMethods | OpsMonitor | OpsModule

datatype action =
    InitLog (log_file: string) (log_level: string) (console: bool)
  | ServePprof string
  | OpenDB string
  | ConnectRedis string
  | ConnectNacos string string string
  | Fatal string
  | Build component
  | RunManager
  | StartMachine
  | SubscribeEvents
  | ServeGrpc int "component list"
  | ServeHttp string "component list"
  | RegisterService string string int bool
  | AwaitSignal
  | DeregisterService string string int
  | StopGrpc (graceful: bool)
  | ShutdownHttp string bool
  | StopMachine bool
  | CloseConnections
  | CloseDB
  | CloseRedis
  | Crash
  | FlushLog

text \<open>What the outside answers: \<open>b_register\<close> to each attempt to register, \<open>b_listen\<close> with the port or the failure.
  \<open>b_grpcFails\<close> and, by its port, \<open>b_httpFails\<close> say that a server fails, and after how many further actions of
  \<^verbatim>\<open>main\<close>; \<open>b_turns\<close> how \<^verbatim>\<open>main\<close> and the goroutine of the user service that registers take turns.\<close>

record boot =
  b_background :: bool
  b_pprofPort :: string
  b_openDB :: "go_error option"
  b_DB :: "go_error option"
  b_pingDB :: "go_error option"
  b_pingRedis :: "go_error option"
  b_nacos :: "go_error option"
  b_listen :: "int go_result"
  b_ip :: string
  b_register :: "nat \<Rightarrow> go_error option"
  b_grpcStops :: bool
  b_httpStops :: "string \<Rightarrow> bool"
  b_machineStops :: bool
  b_grpcFails :: "nat option"
  b_httpFails :: "string \<Rightarrow> nat option"
  b_turns :: "bool list"

definition orFatal :: "go_error option \<Rightarrow> string \<Rightarrow> action list \<Rightarrow> action list" where
  "orFatal err msg continue = (case err of Some e \<Rightarrow> [Fatal msg] | None \<Rightarrow> continue)"

definition listening :: "int go_result \<Rightarrow> string \<Rightarrow> (int \<Rightarrow> action list) \<Rightarrow> action list" where
  "listening l msg continue = (case l of Inl e \<Rightarrow> [Fatal msg] | Inr port \<Rightarrow> continue port)"

text \<open>What \<^verbatim>\<open>main\<close> does beside a server that it has started in a goroutine: when \<^verbatim>\<open>Serve\<close> or \<^verbatim>\<open>ListenAndServe\<close>
  returns an error (other than that of a server that was shut down), the fatal log line ends the process.\<close>

definition serving :: "nat option \<Rightarrow> string \<Rightarrow> action list \<Rightarrow> action list" where
  "serving fails msg continue =
     (case fails of
        None \<Rightarrow> continue
      | Some n \<Rightarrow> if n < length continue then take n continue @ [Fatal msg] else continue)"

text \<open>Attempts \<open>i\<close> to 10, with a pause of two seconds after a failed one; nothing depends on the outcome.\<close>

fun registerFrom :: "nat \<Rightarrow> nat \<Rightarrow> string \<Rightarrow> string \<Rightarrow> int \<Rightarrow> (nat \<Rightarrow> go_error option) \<Rightarrow> action list" where
  "registerFrom 0 i name ip port reg = []"
| "registerFrom (Suc n) i name ip port reg =
     (if reg i = None then [RegisterService name ip port True]
      else RegisterService name ip port False # registerFrom n (Suc i) name ip port reg)"

definition registerRetry :: "string \<Rightarrow> int \<Rightarrow> boot \<Rightarrow> action list" where
  "registerRetry name port b = registerFrom 10 0 name (b_ip b) port (b_register b)"

definition serviceDSN :: "DatabaseConfig \<Rightarrow> string" where
  "serviceDSN db =
     ''host='' @ dbc_Host db @ '' user='' @ dbc_User db @ '' password='' @ dbc_Password db @ '' dbname='' @ dbc_Name db @
     '' port='' @ dbc_Port db @ '' sslmode=disable TimeZone=Asia/Shanghai''"

definition userDSN :: "DatabaseConfig \<Rightarrow> string" where
  "userDSN db =
     ''host='' @ dbc_Host db @ '' port='' @ dbc_Port db @ '' user='' @ dbc_User db @ '' password='' @ dbc_Password db @
     '' dbname='' @ dbc_Name db @ '' sslmode=disable''"

definition redisAddr :: "RedisConfig \<Rightarrow> string" where
  "redisAddr r = rdc_Host r @ '':'' @ rdc_Port r"

definition nacosOf :: "NacosConfig \<Rightarrow> action" where
  "nacosOf n = ConnectNacos (ncc_Host n) (ncc_Port n) (ncc_NamespaceID n)"

section \<open>The services\<close>

text \<open>Three of the services never parse their flags: the flag that turns the console off has no effect.\<close>

definition gs_main :: "environment \<Rightarrow> boot \<Rightarrow> action list" where
  "gs_main env b =
     (let cfg = LoadColorGameConfig env
      in InitLog ''logs/color_game/gs_service.log'' ''info'' True #
         OpenDB (serviceDSN (cgc_Database cfg)) #
         orFatal (b_openDB b) ''Failed to connect to database''
         (nacosOf (cgc_Nacos cfg) #
          orFatal (b_nacos b) ''Failed to create Nacos client''
          ([Build GrpcClient, Build BetsInMemory, Build WalletModule, Build GsModule] @
           listening (b_listen b) ''Failed to listen on port''
           (\<lambda>port.
              ServeGrpc port [GsModule, AdminModule] #
              serving (b_grpcFails b) ''Failed to serve gRPC''
               (registerRetry ''gs-service'' port b @
                [AwaitSignal, DeregisterService ''gs-service'' (b_ip b) port, StopGrpc (b_grpcStops b), FlushLog])))))"

definition gms_main :: "environment \<Rightarrow> boot \<Rightarrow> action list" where
  "gms_main env b =
     (let cfg = LoadColorGameConfig env
      in InitLog ''logs/color_game/gms_service.log'' ''info'' True #
         OpenDB (serviceDSN (cgc_Database cfg)) #
         orFatal (b_openDB b) ''Failed to connect to database''
         (ConnectRedis (redisAddr (cgc_Redis cfg)) #
          orFatal (b_pingRedis b) ''Failed to connect to Redis''
          (nacosOf (cgc_Nacos cfg) #
           orFatal (b_nacos b) ''Failed to create Nacos client''
           ([Build GrpcClient, StartMachine, Build GmsModule, SubscribeEvents] @
            listening (b_listen b) ''Failed to listen on port''
            (\<lambda>port.
               ServeGrpc port [GmsModule, AdminModule] #
               serving (b_grpcFails b) ''Failed to serve gRPC''
                (registerRetry ''gms-service'' port b @
                 [AwaitSignal, DeregisterService ''gms-service'' (b_ip b) port, StopGrpc (b_grpcStops b),
                  StopMachine (b_machineStops b), FlushLog]))))))"

definition gateway_main :: "environment \<Rightarrow> boot \<Rightarrow> action list" where
  "gateway_main env b =
     (let cfg = LoadGatewayConfig env; port = srv_Port (gwc_Server cfg)
      in InitLog ''logs/color_game/gateway_service.log'' ''info'' True #
         nacosOf (gwc_Nacos cfg) #
         orFatal (b_nacos b) ''Failed to create Nacos client''
         (ConnectRedis (redisAddr (gwc_Redis cfg)) #
          orFatal (b_pingRedis b) ''Failed to connect to Redis''
          ([Build GrpcClient, RunManager, Build GatewayModule] @
           listening (b_listen b) ''Failed to listen on gRPC port''
           (\<lambda>grpcPort.
              ServeGrpc grpcPort [GatewayModule, AdminModule] #
              serving (b_grpcFails b) ''Failed to serve gRPC''
               (registerRetry ''gateway-service'' grpcPort b @
                ServeHttp port [GatewayModule] #
                serving (b_httpFails b port) ''Failed to start HTTP server''
                 [AwaitSignal, DeregisterService ''gateway-service'' (b_ip b) grpcPort,
                  ShutdownHttp port (b_httpStops b port), StopGrpc (b_grpcStops b), CloseConnections, CloseRedis,
                  FlushLog])))))"

text \<open>Two goroutines of a process by turns: that of \<open>as\<close> moves where \<open>turns\<close> says so, and the process ends with
  \<^verbatim>\<open>main\<close>, whatever the other has left to do.\<close>

fun beside :: "bool list \<Rightarrow> action list \<Rightarrow> action list \<Rightarrow> action list" where
  "beside turns as [] = []"
| "beside turns [] (m # main) = m # main"
| "beside [] (a # as) (m # main) = a # beside [] as (m # main)"
| "beside (True # turns) (a # as) (m # main) = a # beside turns as (m # main)"
| "beside (False # turns) (a # as) (m # main) = m # beside turns (a # as) main"

text \<open>The user service registers in a goroutine, and only if there is a Nacos client, but it deregisters without
  asking: with no client the process panics when it is to stop, after its deferred calls.\<close>

definition user_main :: "environment \<Rightarrow> boot \<Rightarrow> action list" where
  "user_main env b =
     (let cfg = LoadUserConfig env; httpPort = srv_HTTPPort (usc_Server cfg); name = srv_Name (usc_Server cfg)
      in InitLog ''logs/color_game/user_service.log'' (srv_LogLevel (usc_Server cfg)) (\<not> b_background b) #
         OpenDB (userDSN (usc_Database cfg)) #
         orFatal (b_openDB b) ''Failed to connect to database''
         (orFatal (b_DB b) ''Failed to get database instance''
          (orFatal (b_pingDB b) ''Failed to ping database''
           (Build UserModule #
            listening (b_listen b) ''Failed to listen on port''
            (\<lambda>port.
               ServeGrpc port [UserModule, AdminModule] #
               serving (b_grpcFails b) ''Failed to serve gRPC''
                (nacosOf (usc_Nacos cfg) #
                 beside (b_turns b) (if b_nacos b = None then registerRetry name port b else [])
                  (ServeHttp httpPort [UserModule] #
                   serving (b_httpFails b httpPort) ''Failed to start HTTP server''
                    (AwaitSignal #
                     (if b_nacos b = None then [DeregisterService name (b_ip b) port, CloseDB, FlushLog]
                      else [CloseDB, FlushLog, Crash])))))))))"

section \<open>The monolith\<close>

text \<open>In parts: the modules and their wiring, the two HTTP servers with what follows, and the end with the deferred
  calls.\<close>

definition monolith_modules :: "MonolithConfig \<Rightarrow> action list" where
  "monolith_modules cfg =
     [Build UserModule, Build WalletModule, RunManager, StartMachine, Build GmsModule, SubscribeEvents,
      Build (if cgc_RepoType (mnc_ColorGame cfg) = ''redis'' then BetsInRedis else BetsInMemory),
      Build GsModule, Build GatewayModule]"

definition monolith_servers :: "MonolithConfig \<Rightarrow> boot \<Rightarrow> action list \<Rightarrow> action list" where
  "monolith_servers cfg b continue =
     (let gatewayPort = srv_Port (gwc_Server (mnc_Gateway cfg)); userPort = srv_HTTPPort (usc_Server (mnc_User cfg))
      in ServeHttp gatewayPort [GatewayModule] #
         serving (b_httpFails b gatewayPort) ''Gateway server failed''
          (ServeHttp userPort [UserModule] #
           serving (b_httpFails b userPort) ''User HTTP server failed'' continue))"

definition monolith_shutdown :: "MonolithConfig \<Rightarrow> boot \<Rightarrow> action list" where
  "monolith_shutdown cfg b =
     (let gatewayPort = srv_Port (gwc_Server (mnc_Gateway cfg)); userPort = srv_HTTPPort (usc_Server (mnc_User cfg))
      in [AwaitSignal, ShutdownHttp gatewayPort (b_httpStops b gatewayPort),
          ShutdownHttp userPort (b_httpStops b userPort), StopMachine (b_machineStops b), CloseConnections,
          CloseRedis, CloseDB, FlushLog])"

definition monolith_main :: "environment \<Rightarrow> boot \<Rightarrow> action list" where
  "monolith_main env b =
     (let cfg = LoadMonolithConfig env
      in InitLog ''logs/color_game/monolith.log'' ''info'' (\<not> b_background b) #
         (if b_pprofPort b \<noteq> [] then [ServePprof (''localhost:'' @ b_pprofPort b)] else []) @
         OpenDB (userDSN (usc_Database (mnc_User cfg))) #
         orFatal (b_openDB b) ''Failed to connect to database''
         (orFatal (b_DB b) ''Failed to get database instance''
          (orFatal (b_pingDB b) ''Failed to ping database''
           (ConnectRedis (redisAddr (usc_Redis (mnc_User cfg))) #
            monolith_modules cfg @ monolith_servers cfg b (monolith_shutdown cfg b)))))"

section \<open>The connection test\<close>

text \<open>\<^verbatim>\<open>test_db_conn.go\<close> tries two passwords, the second when the first is refused.  \<open>opens\<close> and \<open>pings\<close> say what opening and
  pinging with either does.\<close>

definition testDSN :: "string \<Rightarrow> string" where
  "testDSN password = ''host=localhost port=15432 user=postgres password='' @ password @ '' dbname=casino_db sslmode=disable''"

definition test_db_main :: "(string \<Rightarrow> go_error option) \<Rightarrow> (string \<Rightarrow> go_error option) \<Rightarrow> action list" where
  "test_db_main opens pings =
     (let first = testDSN ''postgres''; second = testDSN ''password''
      in OpenDB first #
         (case opens first of
            Some err \<Rightarrow> [Fatal err]
          | None \<Rightarrow>
              if pings first = None then [CloseDB]
              else OpenDB second #
                   (case opens second of Some err \<Rightarrow> [Fatal err] | None \<Rightarrow> [CloseDB, CloseDB])))"

section \<open>The order of the actions\<close>

text \<open>\<open>follows P Q as\<close>: no action of \<open>Q\<close> comes before the first of \<open>P\<close>.\<close>

fun follows :: "(action \<Rightarrow> bool) \<Rightarrow> (action \<Rightarrow> bool) \<Rightarrow> action list \<Rightarrow> bool" where
  "follows P Q [] = True"
| "follows P Q (a # as) \<longleftrightarrow> \<not> Q a \<and> (P a \<or> follows P Q as)"

fun is_register :: "string \<Rightarrow> int \<Rightarrow> action \<Rightarrow> bool" where
  "is_register name port (RegisterService n ip p ok) \<longleftrightarrow> n = name \<and> p = port"
| "is_register name port _ \<longleftrightarrow> False"

fun is_registration :: "action \<Rightarrow> bool" where
  "is_registration (RegisterService n ip p ok) = True"
| "is_registration _ = False"

definition attempts :: "action list \<Rightarrow> action list" where
  "attempts = filter is_registration"

lemma follows_append: "follows P Q (as @ bs) \<longleftrightarrow> follows P Q as \<and> (list_ex P as \<or> follows P Q bs)"
  by (induction as) auto

lemma follows_none: "\<not> list_ex Q as \<Longrightarrow> follows P Q as"
  by (induction as) auto

lemma register_actions: "a \<in> set (registerFrom n i name ip port reg) \<Longrightarrow> \<exists>ok. a = RegisterService name ip port ok"
  by (induction n arbitrary: i) (auto split: if_splits)

text \<open>The first \<open>k\<close> attempts fail and the next succeeds, or all fail.\<close>

definition tried :: "nat \<Rightarrow> (nat \<Rightarrow> go_error option) \<Rightarrow> nat" where
  "tried n reg = length (takeWhile (\<lambda>i. reg i \<noteq> None) [0..<n])"

lemma registerFrom_tries:
  "registerFrom n i name ip port reg =
     (let k = length (takeWhile (\<lambda>j. reg j \<noteq> None) [i..<i + n])
      in replicate k (RegisterService name ip port False) @ (if k < n then [RegisterService name ip port True] else []))"
proof (induction n arbitrary: i)
  case (Suc n)
  have "[i..<i + Suc n] = i # [Suc i..<Suc i + n]" by (simp add: upt_rec)
  then show ?case using Suc.IH [of "Suc i"] by (simp add: Let_def)
qed simp

fun is_serve :: "int \<Rightarrow> action \<Rightarrow> bool" where
  "is_serve port (ServeGrpc p cs) \<longleftrightarrow> p = port"
| "is_serve port _ \<longleftrightarrow> False"

fun is_serving :: "action \<Rightarrow> bool" where
  "is_serving (ServeGrpc p cs) = True"
| "is_serving (ServeHttp p cs) = True"
| "is_serving _ = False"

fun is_deregister :: "string \<Rightarrow> string \<Rightarrow> int \<Rightarrow> action \<Rightarrow> bool" where
  "is_deregister name ip port (DeregisterService n i p) \<longleftrightarrow> n = name \<and> i = ip \<and> p = port"
| "is_deregister name ip port _ \<longleftrightarrow> False"

fun is_stop :: "action \<Rightarrow> bool" where
  "is_stop (StopGrpc g) = True"
| "is_stop _ = False"

fun is_last_stop :: "action \<Rightarrow> bool" where
  "is_last_stop (StopMachine g) = True"
| "is_last_stop CloseConnections = True"
| "is_last_stop _ = False"

definition grpc_services :: "(string \<times> (environment \<Rightarrow> boot \<Rightarrow> action list)) set" where
  "grpc_services = {(''gs-service'', gs_main), (''gms-service'', gms_main), (''gateway-service'', gateway_main)}"

lemma registers:
  "attempts (registerRetry name port b) = registerRetry name port b"
  "\<not> list_ex (is_deregister n i p) (registerRetry name port b)" "\<not> list_ex is_stop (registerRetry name port b)"
  "\<not> list_ex is_last_stop (registerRetry name port b)"
proof -
  have all: "\<forall>a \<in> set (registerRetry name port b). \<exists>ok. a = RegisterService name (b_ip b) port ok"
    unfolding registerRetry_def using register_actions by blast
  then show "attempts (registerRetry name port b) = registerRetry name port b"
    by (force simp: attempts_def filter_id_conv)
  show "\<not> list_ex (is_deregister n i p) (registerRetry name port b)" "\<not> list_ex is_stop (registerRetry name port b)"
    "\<not> list_ex is_last_stop (registerRetry name port b)"
    using all by (fastforce simp: list_ex_iff)+
qed

lemmas process_defs = gs_main_def gms_main_def gateway_main_def orFatal_def listening_def nacosOf_def attempts_def Let_def

text \<open>A process that a failing server may have cut short.\<close>

definition cut_short :: "action list \<Rightarrow> action list \<Rightarrow> bool" where
  "cut_short as bs \<longleftrightarrow> as = bs \<or> (\<exists>n msg. as = take n bs @ [Fatal msg])"

lemma cut_refl [simp]: "cut_short as as"
  by (simp add: cut_short_def)

lemma serving_none [simp]: "serving None msg as = as"
  by (simp add: serving_def)

lemma cut_serving:
  assumes "cut_short as bs"
  shows "cut_short (serving fails msg as) bs"
proof (cases "\<exists>n. fails = Some n \<and> n < length as")
  case True
  then obtain n where n: "n < length as" "serving fails msg as = take n as @ [Fatal msg]" by (auto simp: serving_def)
  from assms n(1) have "take n as = take n bs \<or> (\<exists>m. take n as = take (min n m) bs)"
    by (auto simp: cut_short_def less_Suc_eq_le)
  with n(2) show ?thesis by (auto simp: cut_short_def)
qed (use assms in \<open>auto simp: serving_def split: option.split\<close>)

lemma cut_append: "cut_short as bs \<Longrightarrow> cut_short (pre @ as) (pre @ bs)"
proof -
  have "pre @ take n bs @ [Fatal msg] = take (length pre + n) (pre @ bs) @ [Fatal msg]" for n msg by simp
  then show "cut_short as bs \<Longrightarrow> ?thesis" unfolding cut_short_def by metis
qed

lemma cut_Cons: "cut_short as bs \<Longrightarrow> cut_short (a # as) (a # bs)"
  using cut_append [of as bs "[a]"] by simp

text \<open>One that was cut short only after it served on a port.\<close>

definition served_short :: "int \<Rightarrow> action list \<Rightarrow> action list \<Rightarrow> bool" where
  "served_short port as bs \<longleftrightarrow>
     as = bs \<or> (\<exists>n msg. as = take n bs @ [Fatal msg] \<and> list_ex (is_serve port) (take n bs))"

lemma served_here: "cut_short as bs \<Longrightarrow> served_short port (ServeGrpc port cs # as) (ServeGrpc port cs # bs)"
proof -
  have "ServeGrpc port cs # take n bs @ [Fatal msg] = take (Suc n) (ServeGrpc port cs # bs) @ [Fatal msg]"
    "list_ex (is_serve port) (take (Suc n) (ServeGrpc port cs # bs))" for n msg by simp_all
  then show "cut_short as bs \<Longrightarrow> ?thesis" unfolding cut_short_def served_short_def by metis
qed

lemma served_Cons: "served_short port as bs \<Longrightarrow> served_short port (a # as) (a # bs)"
proof -
  have "a # take n bs @ [Fatal msg] = take (Suc n) (a # bs) @ [Fatal msg]"
    "list_ex (is_serve port) (take n bs) \<Longrightarrow> list_ex (is_serve port) (take (Suc n) (a # bs))" for n msg by simp_all
  then show "served_short port as bs \<Longrightarrow> ?thesis" unfolding served_short_def by metis
qed

lemmas cut_intros = served_here served_Cons cut_refl cut_serving cut_append cut_Cons

text \<open>The process of a service whose servers do not fail.\<close>

abbreviation undisturbed :: "boot \<Rightarrow> boot" where
  "undisturbed b \<equiv> b\<lparr>b_grpcFails := None, b_httpFails := \<lambda>_. None\<rparr>"

lemma register_undisturbed: "registerRetry n p (undisturbed b) = registerRetry n p b"
  by (simp add: registerRetry_def)

lemma services_cut:
  assumes "(name, run) \<in> grpc_services"
  shows "case b_listen b of Inl e \<Rightarrow> run env b = run env (undisturbed b)
    | Inr port \<Rightarrow> served_short port (run env b) (run env (undisturbed b))"
proof -
  have refl: "served_short p as as" for p as by (simp add: served_short_def)
  show ?thesis
    using assms unfolding grpc_services_def
  proof (elim insertE emptyE)
    assume "(name, run) = (''gs-service'', gs_main)"
    then show ?thesis
      by (cases "b_openDB b"; cases "b_nacos b"; cases "b_listen b")
        (simp_all add: process_defs register_undisturbed refl, intro cut_intros)
  next
    assume "(name, run) = (''gms-service'', gms_main)"
    then show ?thesis
      by (cases "b_openDB b"; cases "b_pingRedis b"; cases "b_nacos b"; cases "b_listen b")
        (simp_all add: process_defs register_undisturbed refl, intro cut_intros)
  next
    assume "(name, run) = (''gateway-service'', gateway_main)"
    then show ?thesis
      by (cases "b_pingRedis b"; cases "b_nacos b"; cases "b_listen b")
        (simp_all add: process_defs register_undisturbed refl, intro cut_intros)
  qed
qed

lemma services_orderly:
  assumes "(name, run) \<in> grpc_services"
  shows "(\<exists>as msg. run env (undisturbed b) = as @ [Fatal msg] \<and> list_all (\<lambda>a. \<not> is_serving a \<and> \<not> is_registration a) as) \<or>
    (\<exists>port k. b_listen b = Inr port \<and> k = tried 10 (b_register b) \<and>
       attempts (run env (undisturbed b)) = replicate k (RegisterService name (b_ip b) port False) @
         (if k < 10 then [RegisterService name (b_ip b) port True] else []) \<and>
       follows (is_serve port) is_registration (run env (undisturbed b)) \<and>
       follows (\<lambda>a. a = AwaitSignal) (is_deregister name (b_ip b) port) (run env (undisturbed b)) \<and>
       follows (is_deregister name (b_ip b) port) is_stop (run env (undisturbed b)) \<and>
       follows is_stop is_last_stop (run env (undisturbed b)) \<and> last (run env (undisturbed b)) = FlushLog)"
proof -
  have tries: "registerRetry n p b = replicate (tried 10 (b_register b)) (RegisterService n (b_ip b) p False) @
      (if tried 10 (b_register b) < 10 then [RegisterService n (b_ip b) p True] else [])" for n p
    using registerFrom_tries [of 10 0 n "b_ip b" p "b_register b"] by (simp add: registerRetry_def tried_def Let_def)
  note r = registers [unfolded attempts_def] register_undisturbed
    and f = follows_append follows_none [OF registers(2)] follows_none [OF registers(3)] follows_none [OF registers(4)]
  show ?thesis
    using assms unfolding grpc_services_def
  proof (elim insertE emptyE)
    assume "(name, run) = (''gs-service'', gs_main)"
    then show ?thesis
      by (cases "b_openDB b"; cases "b_nacos b"; cases "b_listen b")
        (simp_all add: process_defs r f, simp_all add: tries)
  next
    assume "(name, run) = (''gms-service'', gms_main)"
    then show ?thesis
      by (cases "b_openDB b"; cases "b_pingRedis b"; cases "b_nacos b"; cases "b_listen b")
        (simp_all add: process_defs r f, simp_all add: tries)
  next
    assume "(name, run) = (''gateway-service'', gateway_main)"
    then show ?thesis
      by (cases "b_pingRedis b"; cases "b_nacos b"; cases "b_listen b")
        (simp_all add: process_defs r f, simp_all add: tries)
  qed
qed

text \<open>C38. The game service, the machine service and the gateway come up and go down in order.  Each of them ends
  with a fatal error before it serves or registers anything; or it does, possibly cut short, the
  following: it serves gRPC on the port it was given, registers that port at most ten times, up to the first
  success, and once told to stop it first leaves the registry, then lets its calls end, and only then stops
  the machine or closes the connections of the players.  It is cut short, at any point after it began to
  serve, when one of its servers fails; then a fatal error is its last action.\<close>

theorem services_in_order:
  assumes "(name, run) \<in> grpc_services"
  shows "(\<exists>as msg. run env b = as @ [Fatal msg] \<and> list_all (\<lambda>a. \<not> is_serving a \<and> \<not> is_registration a) as) \<or>
    (\<exists>port k orderly. b_listen b = Inr port \<and> k = tried 10 (b_register b) \<and>
       orderly = run env (undisturbed b) \<and>
       attempts orderly = replicate k (RegisterService name (b_ip b) port False) @
         (if k < 10 then [RegisterService name (b_ip b) port True] else []) \<and>
       follows (is_serve port) is_registration orderly \<and>
       follows (\<lambda>a. a = AwaitSignal) (is_deregister name (b_ip b) port) orderly \<and>
       follows (is_deregister name (b_ip b) port) is_stop orderly \<and>
       follows is_stop is_last_stop orderly \<and> last orderly = FlushLog \<and>
       (run env b = orderly \<or>
        (\<exists>n msg. run env b = take n orderly @ [Fatal msg] \<and> list_ex (is_serve port) (take n orderly))))"
  using services_orderly [OF assms, of env b]
proof (elim disjE exE conjE)
  fix as msg
  assume early: "run env (undisturbed b) = as @ [Fatal msg]" "list_all (\<lambda>a. \<not> is_serving a \<and> \<not> is_registration a) as"
  have "\<not> list_ex (is_serve port) (take n (run env (undisturbed b)))" for port n
  proof -
    have "is_serving a" if "is_serve port a" for a using that by (cases a) simp_all
    with early show ?thesis by (fastforce simp: list_ex_iff list_all_iff dest: in_set_takeD)
  qed
  then have "run env b = run env (undisturbed b)"
    using services_cut [OF assms, of env b] by (auto simp: served_short_def split: sum.splits)
  with early show ?thesis by auto
next
  fix port k
  assume "b_listen b = Inr port"
  moreover from this have "served_short port (run env b) (run env (undisturbed b))"
    using services_cut [OF assms, of env b] by simp
  ultimately show ?thesis if "k = tried 10 (b_register b)"
      "attempts (run env (undisturbed b)) = replicate k (RegisterService name (b_ip b) port False) @
         (if k < 10 then [RegisterService name (b_ip b) port True] else [])"
      "follows (is_serve port) is_registration (run env (undisturbed b))"
      "follows (\<lambda>a. a = AwaitSignal) (is_deregister name (b_ip b) port) (run env (undisturbed b))"
      "follows (is_deregister name (b_ip b) port) is_stop (run env (undisturbed b))"
      "follows is_stop is_last_stop (run env (undisturbed b))" "last (run env (undisturbed b)) = FlushLog"
    using that unfolding served_short_def by blast
qed

definition sample_boot :: boot where
  "sample_boot = \<lparr>b_background = True, b_pprofPort = [], b_openDB = None, b_DB = None, b_pingDB = None, b_pingRedis = None,
     b_nacos = None, b_listen = Inr 9000, b_ip = ''10.0.0.1'', b_register = (\<lambda>i. if i = 0 then Some ''down'' else None),
     b_grpcStops = True, b_httpStops = \<lambda>_. True, b_machineStops = True,
     b_grpcFails = None, b_httpFails = \<lambda>_. None, b_turns = []\<rparr>"

theorem services_in_order_witness:
  "attempts (gms_main (\<lambda>_. None) sample_boot) =
     [RegisterService ''gms-service'' ''10.0.0.1'' 9000 False, RegisterService ''gms-service'' ''10.0.0.1'' 9000 True] \<and>
   follows is_stop is_last_stop (gms_main (\<lambda>_. None) sample_boot)"
proof -
  have "tried 10 (b_register sample_boot) = 1" by (simp add: tried_def sample_boot_def upt_rec)
  moreover have "gms_main (\<lambda>_. None) sample_boot \<noteq> as @ [Fatal msg]" for as msg
    by (simp add: gms_main_def sample_boot_def orFatal_def listening_def Let_def append_eq_Cons_conv
        append_eq_append_conv2)
  moreover have "(''gms-service'', gms_main) \<in> grpc_services" by (simp add: grpc_services_def)
  ultimately show ?thesis
    using services_in_order [of "''gms-service''" gms_main "\<lambda>_. None" sample_boot]
    by (auto simp: sample_boot_def)
qed

section \<open>What goes wrong\<close>

text \<open>The machine is started before anyone listens to its events: the first may be lost.\<close>

lemma events_before_listener:
  "follows (\<lambda>a. a = StartMachine) (\<lambda>a. a = SubscribeEvents) (gms_main env b)"
  "follows (\<lambda>a. a = StartMachine) (\<lambda>a. a = SubscribeEvents) (monolith_main env b)"
  by (auto simp: gms_main_def monolith_main_def monolith_modules_def monolith_servers_def monolith_shutdown_def orFatal_def listening_def nacosOf_def Let_def split: option.split)

text \<open>The user service without Nacos panics when it is told to stop.\<close>

lemma user_stops_with_panic:
  assumes "b_openDB b = None" "b_DB b = None" "b_pingDB b = None" "b_listen b = Inr port" "b_nacos b \<noteq> None"
  shows "last (user_main env (undisturbed b)) = Crash"
proof -
  have "beside turns [] main = main" for turns main by (cases main) simp_all
  moreover from assms(5) obtain e where "b_nacos b = Some e" by blast
  ultimately show ?thesis using assms(1-4) by (simp add: user_main_def orFatal_def listening_def Let_def)
qed

text \<open>Its registration is a goroutine of its own: told to stop between two attempts it leaves the registry first and
  registers afterwards.\<close>

lemma user_registers_after_leaving:
  "\<exists>pre name ip port. user_main (\<lambda>_. None) (sample_boot\<lparr>b_turns := [True, False, False, False, True]\<rparr>) =
     pre @ [DeregisterService name ip port, RegisterService name ip port True, CloseDB, FlushLog]"
proof -
  have "registerRetry n p (sample_boot\<lparr>b_turns := t\<rparr>) =
      [RegisterService n ''10.0.0.1'' p False, RegisterService n ''10.0.0.1'' p True]" for n p t
    by (simp add: registerRetry_def sample_boot_def numeral_eq_Suc)
  then show ?thesis
    by (simp add: user_main_def orFatal_def listening_def Let_def) (simp add: sample_boot_def Cons_eq_append_conv)
qed

text \<open>A gateway whose HTTP port is taken ends at once, and stays in the registry.\<close>

lemma failed_server_stays_registered:
  assumes "b_nacos b = None" "b_pingRedis b = None" "b_listen b = Inr port" "b_grpcFails b = None"
    and "b_httpFails b (srv_Port (gwc_Server (LoadGatewayConfig env))) = Some 0" "b_register b 0 = None"
  shows "last (gateway_main env b) = Fatal ''Failed to start HTTP server'' \<and>
    RegisterService ''gateway-service'' (b_ip b) port True \<in> set (gateway_main env b) \<and>
    \<not> list_ex (is_deregister name ip p) (gateway_main env b)"
  using assms by (simp add: gateway_main_def registerRetry_def orFatal_def listening_def nacosOf_def serving_def Let_def
      numeral_eq_Suc)

text \<open>The flag \<^verbatim>\<open>-d\<close> has no effect on three services.\<close>

lemma background_ignored:
  "run \<in> {gs_main, gms_main, gateway_main} \<Longrightarrow> run env (b\<lparr>b_background := d\<rparr>) = run env b \<and> console (hd (run env b))"
  by (auto simp: gs_main_def gms_main_def gateway_main_def orFatal_def listening_def nacosOf_def registerRetry_def Let_def
      split: option.split sum.split)

end
