(* ===== verification/Robot_Main.thy ===== *)
theory Robot_Main
  imports Robot Startup
begin

text \<open>
  The main function of the load robot, \<^verbatim>\<open>cmd/color_game/test_robot/main.go\<close>: the flags, the configuration and
  the robots it starts, one goroutine each, all with the same hosts.
\<close>

section \<open>Configuration\<close>

record robot_flags =
  fl_UserHost :: string
  fl_WSHost :: string
  fl_Users :: int
  fl_LogLevel :: string

definition default_flags :: robot_flags where
  "default_flags =
     \<lparr>fl_UserHost = ''localhost:8082'', fl_WSHost = ''localhost:8081'', fl_Users = 4510, fl_LogLevel = ''info''\<rparr>"

record RobotConfig =
  rcf_UserHost :: string
  rcf_WSHost :: string
  rcf_UserCount :: int
  rcf_BetMin :: int
  rcf_BetMax :: int

definition robot_config :: "robot_flags \<Rightarrow> RobotConfig" where
  "robot_config f =
     \<lparr>rcf_UserHost = fl_UserHost f, rcf_WSHost = fl_WSHost f, rcf_UserCount = fl_Users f, rcf_BetMin = 10, rcf_BetMax = 100\<rparr>"

section \<open>Start\<close>

definition started_robots :: "RobotConfig \<Rightarrow> Robot list" where
  "started_robots c = map (\<lambda>i. NewRobot (int i + 1) (rcf_UserHost c) (rcf_WSHost c)) [0..<nat (rcf_UserCount c)]"

text \<open>A negative number of users makes \<^verbatim>\<open>wg.Add\<close> panic, after which the deferred flush runs.  The second part are the
  robots, in the order of their start.\<close>

definition robot_main :: "robot_flags \<Rightarrow> action list \<times> Robot list" where
  "robot_main f =
     (let config = robot_config f; start = InitLog ''logs/color_game/robot.log'' (fl_LogLevel f) True
      in if rcf_UserCount config < 0 then ([start, FlushLog, Crash], [])
         else ([start, AwaitSignal, FlushLog], started_robots config))"

text \<open>Every robot has a name of its own, which is what the registration needs.\<close>

lemma robots_distinct: "distinct (map rob_Username (snd (robot_main f)))"
proof -
  have inj: "i = j" if "itoa (int i + 1) = itoa (int j + 1)" for i j
  proof -
    have "itoa (int k + 1) = nat_digits (Suc k)" for k by (simp add: itoa_def nat_add_distrib del: nat_digits.simps)
    then have "nat_digits (Suc i) = nat_digits (Suc j)" using that by simp
    then have "Suc i = Suc j" by (metis digits_value_nat_digits)
    then show ?thesis by simp
  qed
  have "rob_Username (NewRobot (int i + 1) u w) = ''robot_user_'' @ itoa (int i + 1)" for i u w
    by (simp add: NewRobot_def)
  then have names: "map rob_Username (started_robots c) =
      map (\<lambda>i. ''robot_user_'' @ itoa (int i + 1)) [0..<nat (rcf_UserCount c)]" for c
    by (simp only: started_robots_def map_map comp_def)
  have "inj_on (\<lambda>i. ''robot_user_'' @ itoa (int i + 1)) A" for A
    by (rule inj_onI) (metis inj same_append_eq)
  then have "distinct (map rob_Username (started_robots c))" for c
    unfolding names distinct_map by (simp only: distinct_upt simp_thms)
  then show ?thesis by (simp only: robot_main_def Let_def) (simp split: if_split)
qed

end
