(* ===== verification/Ops_Server.thy ===== *)
theory Ops_Server
  imports Ops_Props Startup
begin

text \<open>
  The main function of the operations server, \<^verbatim>\<open>cmd/ops/main.go\<close>: what it starts, and which handler answers
  which request.  The paths are matched as gin matches them, but for the redirect it makes when only a slash
  at the end is missing or superfluous.
\<close>

section \<open>Answers\<close>

text \<open>What \<^verbatim>\<open>net/http\<close> answers when a directory is asked for, a list or a redirect, is \<open>DirectoryAnswer\<close>.\<close>

datatype http_answer =
    JsonAnswer nat json
  | DataAnswer nat string string
  | DirectoryAnswer
  | StatusAnswer nat
  | ViewerAnswer proxy_reply

record ops_request =
  orq_Method :: string
  orq_Path :: string
  orq_Project :: string
  orq_Body :: "json option"

text \<open>The embedded files, by their paths, and what else the handlers need.\<close>

record 'c ops_server =
  srv_OS :: ops_os
  srv_Cwd :: path
  srv_Zone :: "go_time \<Rightarrow> int"
  srv_JsonErr :: string
  srv_Projects :: "'c projects"
  srv_Order :: "(string \<times> PprofSession) list \<Rightarrow> (string \<times> PprofSession) list"
  srv_Static :: "string \<Rightarrow> string option"

section \<open>Static files\<close>

text \<open>\<^verbatim>\<open>fs.Sub\<close> fails for an invalid name only.\<close>

definition valid_name :: "string \<Rightarrow> bool" where
  "valid_name dir \<longleftrightarrow> valid_utf8 dir \<and>
     (dir = ''.'' \<or> (\<forall>e \<in> set (Split dir ''/''). e \<noteq> [] \<and> e \<noteq> ''.'' \<and> e \<noteq> ''..''))"

definition mustSub :: "(string \<Rightarrow> string option) \<Rightarrow> string \<Rightarrow> string \<Rightarrow> string option" where
  "mustSub f dir =
     (if \<not> valid_name dir \<or> dir = ''.'' then f else (\<lambda>name. f (dir @ ''/'' @ name)))"

definition favicon :: "(string \<Rightarrow> string option) \<Rightarrow> http_answer" where
  "favicon static =
     (case static ''frontend/dist/favicon.ico'' of
        None \<Rightarrow> StatusAnswer 404
      | Some data \<Rightarrow> DataAnswer 200 ''image/x-icon'' data)"

definition noRoute :: "(string \<Rightarrow> string option) \<Rightarrow> string \<Rightarrow> http_answer" where
  "noRoute static path =
     (if prefix ''/api'' path then JsonAnswer 404 (error_json ''not found'')
      else case static ''frontend/dist/index.html'' of
             None \<Rightarrow> DataAnswer 404 ''text/plain; charset=utf-8'' ''Index not found''
           | Some data \<Rightarrow> DataAnswer 200 ''text/html; charset=utf-8'' data)"

text \<open>The name of a file below \<^verbatim>\<open>/assets\<close>, and a file that is not there: gin goes on with \<open>noRoute\<close>.\<close>

definition assetName :: "string \<Rightarrow> string" where
  "assetName filepath = tl (pathOf (elements filepath))"

definition serveAsset :: "(string \<Rightarrow> string option) \<Rightarrow> string \<Rightarrow> string \<Rightarrow> http_answer" where
  "serveAsset static filepath path =
     (case mustSub static ''frontend/dist/assets'' (assetName filepath) of
        Some data \<Rightarrow> DataAnswer 200 [] data
      | None \<Rightarrow> if elements filepath = [] then DirectoryAnswer else noRoute static path)"

definition serveDownload :: "'c ops_server \<Rightarrow> string \<Rightarrow> string \<Rightarrow> 'c ops_world \<Rightarrow> http_answer" where
  "serveDownload sv filepath path w =
     (case download (srv_Cwd sv) filepath w of
        Some data \<Rightarrow> DataAnswer 200 [] data
      | None \<Rightarrow>
          if resolve (srv_Cwd sv) storage @ elements filepath \<in> set (fs_dirs (ow_fs w)) then DirectoryAnswer
          else noRoute (srv_Static sv) path)"

section \<open>Routes\<close>

definition project_json :: "ProjectConfig \<Rightarrow> json" where
  "project_json c =
     JObj [(''id'', JStr (pjc_ID c)), (''name'', JStr (pjc_Name c)), (''nacos_host'', JStr (pjc_NacosHost c)),
           (''nacos_port'', JStr (pjc_NacosPort c)), (''namespace'', JStr (pjc_Namespace c))]"

fun json_answer :: "ops_reply \<times> 'w \<Rightarrow> http_answer \<times> 'w" where
  "json_answer ((status, j), w) = (JsonAnswer status j, w)"

definition on_client :: "('c \<Rightarrow> ops_reply \<times> 'c) \<Rightarrow> 'c ops_world \<Rightarrow> http_answer \<times> 'c ops_world" where
  "on_client f w = (case f (ow_client w) of (r, c) \<Rightarrow> json_answer (r, w\<lparr>ow_client := c\<rparr>))"

definition apiRoutes ::
    "'c ops_server \<Rightarrow> ((string \<times> string) \<times> (ops_request \<Rightarrow> 'c ops_world \<Rightarrow> http_answer \<times> 'c ops_world)) list" where
  "apiRoutes sv =
     [((''GET'', ''/api/health''), \<lambda>r w. (JsonAnswer 200 (JObj [(''status'', JStr ''ok'')]), w)),
      ((''GET'', ''/api/projects''),
       \<lambda>r w. (JsonAnswer 200 (JArr (map (project_json \<circ> pj_Config \<circ> snd) (srv_Projects sv))), w)),
      ((''GET'', ''/api/services''),
       \<lambda>r w. on_client (handleListServices (srv_Projects sv) (orq_Project r)) w),
      ((''POST'', ''/api/grpc_call''),
       \<lambda>r w. on_client (handleGenericCall (srv_Zone sv) (srv_JsonErr sv) (srv_Projects sv) (orq_Body r)) w),
      ((''POST'', ''/api/performance/record''),
       \<lambda>r w. json_answer (handleRecordPerformance (srv_OS sv) (srv_Cwd sv) (srv_Projects sv) (orq_Body r) w)),
      ((''GET'', ''/api/performance/history''),
       \<lambda>r w. json_answer (handleListPerformanceHistory (srv_OS sv) (srv_Cwd sv) w)),
      ((''DELETE'', ''/api/performance/history''),
       \<lambda>r w. json_answer (handleDeletePerformanceHistory (srv_OS sv) (srv_Cwd sv) (orq_Body r) w))]"

text \<open>The rest of a path after a prefix, and the two parameters of the viewer's route.\<close>

definition below :: "string \<Rightarrow> string \<Rightarrow> string option" where
  "below p path = (if prefix p path then Some (drop (length p) path) else None)"

definition viewerParams :: "string \<Rightarrow> (string \<times> string) option" where
  "viewerParams path =
     (case below ''/api/performance/ui/'' path of
        Some rest \<Rightarrow>
          if CHR ''/'' \<in> set rest then Some (takeWhile (\<lambda>c. c \<noteq> CHR ''/'') rest, dropWhile (\<lambda>c. c \<noteq> CHR ''/'') rest)
          else None
      | None \<Rightarrow> None)"

definition anyMethods :: "string list" where
  "anyMethods = [''GET'', ''POST'', ''PUT'', ''PATCH'', ''HEAD'', ''OPTIONS'', ''DELETE'', ''CONNECT'', ''TRACE'']"

definition ops_serve :: "'c ops_server \<Rightarrow> ops_request \<Rightarrow> 'c ops_world \<Rightarrow> http_answer \<times> 'c ops_world" where
  "ops_serve sv r w =
     (let path = orq_Path r; reads = orq_Method r \<in> {''GET'', ''HEAD''}; static = srv_Static sv
      in case map_of (apiRoutes sv) (orq_Method r, path) of
           Some handler \<Rightarrow> handler r w
         | None \<Rightarrow>
             if orq_Method r = ''GET'' \<and> path = ''/favicon.ico'' then (favicon static, w)
             else case (viewerParams path, below ''/assets/'' path, below ''/api/performance/download/'' path) of
                    (Some (key, rest), _, _) \<Rightarrow>
                      if orq_Method r \<in> set anyMethods
                      then (case handlePprofProxy (srv_Order sv) (srv_Cwd sv) key rest w of
                              (p, w) \<Rightarrow> (ViewerAnswer p, w))
                      else (noRoute static path, w)
                  | (None, Some filepath, _) \<Rightarrow>
                      (if reads then serveAsset static filepath path else noRoute static path, w)
                  | (None, None, Some filepath) \<Rightarrow>
                      (if reads then serveDownload sv filepath path w else noRoute static path, w)
                  | _ \<Rightarrow> (noRoute static path, w))"

section \<open>Start\<close>

text \<open>\<^verbatim>\<open>Run\<close> returns when the server fails.\<close>

definition ops_main :: "environment \<Rightarrow> go_error option \<Rightarrow> action list" where
  "ops_main env served =
     (let port = ops_getEnv env ''OPS_PORT'' ''8080''
      in InitLog ''logs/ops/server.log'' ''info'' True #
         [Build OpsProjects, Build OpsMethods, Build OpsMonitor, ServeHttp port [OpsModule]] @
         orFatal served ''Failed to start server'' [])"

section \<open>What requests change\<close>

lemma handleGeneric_files: "on_client f w = (a, w') \<Longrightarrow> ow_fs w' = ow_fs w"
  by (auto simp: on_client_def split: prod.splits)

lemma history_files: "handleListPerformanceHistory os cwd w = (a, w') \<Longrightarrow> fs_files (ow_fs w') = fs_files (ow_fs w)"
  by (auto simp: handleListPerformanceHistory_def listHistory_def MkdirAll_def Let_def split: option.splits if_splits)

lemma proxy_files: "handlePprofProxy it cwd k p w = (a, w') \<Longrightarrow> ow_fs w' = ow_fs w"
  by (auto simp: handlePprofProxy_def Let_def split: option.splits if_splits prod.splits sum.splits)

text \<open>Only the two requests that record and delete change a file.\<close>

lemma reads_keep_files:
  assumes "ops_serve sv r w = (a, w')"
    and "(orq_Method r, orq_Path r) \<notin> {(''POST'', ''/api/performance/record''), (''DELETE'', ''/api/performance/history'')}"
  shows "fs_files (ow_fs w') = fs_files (ow_fs w)"
proof (cases "map_of (apiRoutes sv) (orq_Method r, orq_Path r)")
  case None
  with assms(1) show ?thesis
    by (auto simp: ops_serve_def Let_def split: option.splits if_splits prod.splits dest!: proxy_files)
next
  case (Some h)
  then have h: "((orq_Method r, orq_Path r), h) \<in> set (apiRoutes sv)" by (rule map_of_SomeD)
  have run: "h r w = (a, w')" using assms(1) Some by (simp add: ops_serve_def)
  have "fs_files (ow_fs w') = fs_files (ow_fs w)" if "json_answer (handleListPerformanceHistory os cwd w) = (a, w')" for os cwd
    using that history_files by (cases "handleListPerformanceHistory os cwd w") (auto elim: json_answer.elims)
  with h run assms(2) show ?thesis unfolding apiRoutes_def
    by (auto dest: handleGeneric_files)
qed

text \<open>A link of the history, below the path of the downloads, is answered with the file.\<close>

lemma download_answered:
  assumes "download (srv_Cwd sv) filepath w = Some d" "orq_Method r = ''GET''"
    and "orq_Path r = ''/api/performance/download/'' @ filepath"
  shows "ops_serve sv r w = (DataAnswer 200 [] d, w)"
  using assms
  by (simp add: ops_serve_def apiRoutes_def viewerParams_def below_def serveDownload_def prefix_def)

text \<open>An unknown path below \<^verbatim>\<open>/api\<close> is a JSON error, any other the page of the dashboard.\<close>

lemma unknown_path:
  assumes "map_of (apiRoutes sv) (orq_Method r, orq_Path r) = None" "orq_Path r \<noteq> ''/favicon.ico''"
    and "viewerParams (orq_Path r) = None" "below ''/assets/'' (orq_Path r) = None"
    and "below ''/api/performance/download/'' (orq_Path r) = None"
  shows "ops_serve sv r w = (noRoute (srv_Static sv) (orq_Path r), w)"
  using assms by (simp add: ops_serve_def)

section \<open>Requests one after the other\<close>

fun serve_all :: "'c ops_server \<Rightarrow> ops_request list \<Rightarrow> 'c ops_world \<Rightarrow> 'c ops_world" where
  "serve_all sv [] w = w"
| "serve_all sv (r # rs) w = serve_all sv rs (snd (ops_serve sv r w))"

text \<open>A request that is not meant for the profiles in \<open>folder\<close>: a recording goes to another folder of the storage,
  and a deletion names neither the folder nor everything.\<close>

definition no_record :: record_body where
  "no_record = \<lparr>rb_Project = [], rb_Service = [], rb_Instance = [], rb_Duration = 0\<rparr>"

definition spares :: "string \<Rightarrow> ops_request \<Rightarrow> 'c ops_world \<Rightarrow> bool" where
  "spares folder r w \<longleftrightarrow>
     ((orq_Method r, orq_Path r) = (''POST'', ''/api/performance/record'') \<longrightarrow>
       (\<forall>b. Option.bind (orq_Body r) (struct_of record_fields no_record) = Some b \<longrightarrow>
          CHR ''/'' \<notin> set (rb_Service b) \<and> CHR ''/'' \<notin> set (rb_Instance b) \<and>
          folderName (Unix (ow_clock w (ow_reads w))) (rb_Service b) (safeInstance (rb_Instance b)) \<noteq> folder)) \<and>
     ((orq_Method r, orq_Path r) = (''DELETE'', ''/api/performance/history'') \<longrightarrow>
       (\<forall>fs. Option.bind (orq_Body r) (struct_of [(''folders'', folders_field)] []) = Some fs \<longrightarrow>
          {folder, [], ''.''} \<inter> set fs = {}))"

fun all_spare :: "'c ops_server \<Rightarrow> string \<Rightarrow> ops_request list \<Rightarrow> 'c ops_world \<Rightarrow> bool" where
  "all_spare sv folder [] w \<longleftrightarrow> True"
| "all_spare sv folder (r # rs) w \<longleftrightarrow> spares folder r w \<and> all_spare sv folder rs (snd (ops_serve sv r w))"

lemma map_of_keep: "P k \<Longrightarrow> map_of (filter (\<lambda>(q, _). P q) xs) k = map_of xs k"
  by (induction xs) auto

lemma delete_keeps_file:
  assumes "clean_path cwd" "{folder, [], ''.''} \<inter> set fs = {}"
  shows "map_of (fs_files (ow_fs (snd (deleteFolders os cwd fs w)))) (resolve cwd storage @ [folder, n]) =
     map_of (fs_files (ow_fs w)) (resolve cwd storage @ [folder, n])"
  using assms(2)
proof (induction fs arbitrary: w)
  case (Cons f fs)
  then have f: "f \<noteq> folder" "f \<noteq> []" "f \<noteq> ''.''" "{folder, [], ''.''} \<inter> set fs = {}" by auto
  let ?k = "resolve cwd storage @ [folder, n]"
  have "\<not> prefix (removed_path cwd f) ?k" using f by (simp add: removed_path_def)
  then have "map_of (fs_files (snd (RemoveAll os (removed_path cwd f) v))) ?k = map_of (fs_files v) ?k" for v
    by (auto simp: RemoveAll_def map_of_keep [where P = "\<lambda>q. \<not> prefix (removed_path cwd f) q"] split: option.split)
  with Cons.IH [OF f(4)] show ?case
    by (simp add: deleteFolders_Cons [OF assms(1)] split_beta del: deleteFolders.simps)
qed simp

lemma writeFiles_other:
  assumes "one_element other" "other \<noteq> folder" "\<forall>(k, n, d) \<in> set L. n \<in> profileNames"
  shows "map_of (fs_files (snd (writeFiles os cwd other L fs))) (resolve cwd storage @ [folder, n]) =
     map_of (fs_files fs) (resolve cwd storage @ [folder, n])"
  using assms(3)
proof (induction L arbitrary: fs)
  case (Cons e L)
  obtain k m d where e: "e = (k, m, d)" by (cases e)
  with Cons.prems have m: "m \<in> profileNames" by auto
  note path = resolve_file(2) [OF assms(1) m, of cwd]
  obtain fs' where fs': "snd (writeFiles os cwd other (e # L) fs) = snd (writeFiles os cwd other L fs')"
    "map_of (fs_files fs') (resolve cwd storage @ [folder, n]) = map_of (fs_files fs) (resolve cwd storage @ [folder, n])"
  proof (cases "d = []")
    case True
    then show ?thesis using that [of fs] by (simp add: e split_beta)
  next
    case data: False
    show ?thesis
    proof (cases "os_WriteFails os (resolve cwd storage @ [other, m])")
      case None
      then show ?thesis
        using that [of "fs\<lparr>fs_files := AList.update (resolve cwd storage @ [other, m]) d (fs_files fs)\<rparr>"] assms(2) data path
        by (simp add: e WriteFile_def split_beta AList.update_conv')
    next
      case (Some err)
      then show ?thesis using that [of fs] data path by (simp add: e WriteFile_def split_beta)
    qed
  qed
  with Cons.IH [of fs'] Cons.prems show ?case by simp
qed simp

lemma record_keeps_file:
  assumes "spares folder r w" "(orq_Method r, orq_Path r) = (''POST'', ''/api/performance/record'')"
  shows "map_of (fs_files (ow_fs (snd (handleRecordPerformance os cwd projects (orq_Body r) w)))) (resolve cwd storage @ [folder, n]) =
     map_of (fs_files (ow_fs w)) (resolve cwd storage @ [folder, n])"
proof (cases "Option.bind (orq_Body r) (struct_of record_fields no_record)")
  case None
  then show ?thesis by (simp add: handleRecordPerformance_def no_record_def)
next
  case (Some b)
  let ?other = "folderName (Unix (ow_clock w (ow_reads w))) (rb_Service b) (safeInstance (rb_Instance b))"
  have b: "CHR ''/'' \<notin> set (rb_Service b)" "CHR ''/'' \<notin> set (rb_Instance b)" "?other \<noteq> folder"
    using assms Some unfolding spares_def by blast+
  have "CHR ''/'' \<notin> set (safeInstance (rb_Instance b))" using b(2) by (auto simp: safeInstance_def ReplaceChar_def)
  then have one: "one_element ?other" by (rule folderName_elem [OF b(1)])
  have names: "\<forall>(k, n, d) \<in> set (profileFiles resp). n \<in> profileNames" for resp using profileFiles_keys by blast
  have mk: "fs_files (snd (MkdirAll os q fs)) = fs_files fs" for q fs
    by (simp add: MkdirAll_def split: option.split)
  note keep = writeFiles_other [OF one b(3) names, where os = os and cwd = cwd and n = n]
  show ?thesis
  proof (cases "getProjectContext projects (rb_Project b)")
    case (Inl e)
    then show ?thesis using Some by (simp add: handleRecordPerformance_def no_record_def)
  next
    case (Inr p)
    obtain x c where x: "oc_CollectPerformance (pj_Client p) (rb_Service b) (rb_Instance b)
        (clampDuration (rb_Duration b)) (ow_client w) = (x, c)" by fastforce
    obtain y fs where y: "MkdirAll os (resolve cwd (storage @ ''/'' @ ?other)) (ow_fs w) = (y, fs)" by fastforce
    from mk [of "resolve cwd (storage @ ''/'' @ ?other)" "ow_fs w"] y have fs: "fs_files fs = fs_files (ow_fs w)" by simp
    show ?thesis
    proof (cases x)
      case (Inl e)
      then show ?thesis using Some Inr x by (simp add: handleRecordPerformance_def no_record_def)
    next
      case resp: (Inr resp)
      show ?thesis
      proof (cases y)
        case None
        with Some Inr x resp y keep [where fs = fs] show ?thesis
          by (simp add: handleRecordPerformance_def no_record_def Let_def split_beta fs)
      qed (use Some Inr x resp y fs in \<open>simp add: handleRecordPerformance_def no_record_def Let_def\<close>)
    qed
  qed
qed

lemma served:
  "orq_Method r = ''POST'' \<Longrightarrow> orq_Path r = ''/api/performance/record'' \<Longrightarrow>
   ops_serve sv r w = json_answer (handleRecordPerformance (srv_OS sv) (srv_Cwd sv) (srv_Projects sv) (orq_Body r) w)"
  "orq_Method r = ''DELETE'' \<Longrightarrow> orq_Path r = ''/api/performance/history'' \<Longrightarrow>
   ops_serve sv r w = json_answer (handleDeletePerformanceHistory (srv_OS sv) (srv_Cwd sv) (orq_Body r) w)"
  by (simp_all add: ops_serve_def apiRoutes_def)

lemma snd_json_answer [simp]: "snd (json_answer x) = snd x"
  by (cases x rule: json_answer.cases) simp

lemma serve_keeps_file:
  assumes "clean_path (srv_Cwd sv)" "spares folder r w"
  shows "map_of (fs_files (ow_fs (snd (ops_serve sv r w)))) (resolve (srv_Cwd sv) storage @ [folder, n]) =
     map_of (fs_files (ow_fs w)) (resolve (srv_Cwd sv) storage @ [folder, n])"
proof -
  consider (recording) "orq_Method r = ''POST''" "orq_Path r = ''/api/performance/record''"
    | (deletion) "orq_Method r = ''DELETE''" "orq_Path r = ''/api/performance/history''"
    | (other) "(orq_Method r, orq_Path r) \<notin> {(''POST'', ''/api/performance/record''), (''DELETE'', ''/api/performance/history'')}"
    by auto
  then show ?thesis
  proof cases
    case recording
    with record_keeps_file [OF assms(2)] show ?thesis by (simp only: served(1) snd_json_answer)
  next
    case deletion
    have "snd (handleDeletePerformanceHistory os cwd body w) =
        (case Option.bind body (struct_of [(''folders'', folders_field)] []) of
           None \<Rightarrow> w | Some fs \<Rightarrow> snd (deleteFolders os cwd fs w))" for os cwd body
      by (simp add: handleDeletePerformanceHistory_def split_beta split: option.split)
    moreover have "{folder, [], ''.''} \<inter> set fs = {}"
      if "Option.bind (orq_Body r) (struct_of [(''folders'', folders_field)] []) = Some fs" for fs
      using assms(2) deletion that unfolding spares_def by blast
    ultimately show ?thesis
      by (cases "Option.bind (orq_Body r) (struct_of [(''folders'', folders_field)] [])")
        (simp_all only: served(2) [OF deletion] snd_json_answer option.case delete_keeps_file [OF assms(1)])
  next
    case other
    from reads_keep_files [OF surjective_pairing other, of sv w] show ?thesis by simp
  qed
qed

lemma serve_all_keeps_file:
  assumes "clean_path (srv_Cwd sv)" "all_spare sv folder rs w"
  shows "map_of (fs_files (ow_fs (serve_all sv rs w))) (resolve (srv_Cwd sv) storage @ [folder, n]) =
     map_of (fs_files (ow_fs w)) (resolve (srv_Cwd sv) storage @ [folder, n])"
  using assms(2) by (induction rs arbitrary: w) (simp_all add: serve_keeps_file [OF assms(1)])

section \<open>Properties\<close>

text \<open>C35. A recorded profile stays available.  After a request to record that collected the profiles of an instance
  and could write them, whatever requests follow, in any number and order, as long as none of them deletes the
  folder or everything and no recording goes to the same folder: the download of each profile that had data is
  answered with exactly this data.\<close>

theorem recorded_profile_stays:
  assumes "clean_path (srv_Cwd sv)" "os_MkdirFails (srv_OS sv) = (\<lambda>_. None)" "os_WriteFails (srv_OS sv) = (\<lambda>_. None)"
    and r: "orq_Method r = ''POST''" "orq_Path r = ''/api/performance/record''" "orq_Body r = Some body"
    and body: "struct_of record_fields no_record body = Some b"
    and proj: "getProjectContext (srv_Projects sv) (rb_Project b) = Inr p"
    and collected: "oc_CollectPerformance (pj_Client p) (rb_Service b) (rb_Instance b) (clampDuration (rb_Duration b))
      (ow_client w) = (Inr resp, c)"
    and names: "CHR ''/'' \<notin> set (rb_Service b)" "CHR ''/'' \<notin> set (rb_Instance b)"
    and folder: "folder = folderName (Unix (ow_clock w (ow_reads w))) (rb_Service b) (safeInstance (rb_Instance b))"
    and spared: "all_spare sv folder rs (snd (ops_serve sv r w))"
    and profile: "(k, n, d) \<in> set (profileFiles resp)" "d \<noteq> []"
    and get: "orq_Method q = ''GET''" "orq_Path q = ''/api/performance/download/'' @ folder @ ''/'' @ n"
  shows "fst (ops_serve sv q (serve_all sv rs (snd (ops_serve sv r w)))) = DataAnswer 200 [] d"
proof -
  obtain reply w' where run: "handleRecordPerformance (srv_OS sv) (srv_Cwd sv) (srv_Projects sv) (Some body) w = (reply, w')"
    by fastforce
  then have w': "snd (ops_serve sv r w) = w'" by (simp add: served(1) [OF r(1,2)] r(3))
  note writes = record_writes [OF assms(2) body [unfolded no_record_def] proj collected names folder run]
  let ?v = "serve_all sv rs w'"
  have "n \<in> profileNames" using profile(1) profileFiles_keys by blast
  note el = elements_file [OF writes(1) this]
  have "download (srv_Cwd sv) (folder @ ''/'' @ n) w' = Some d"
    by (rule recorded_download [OF writes(1) assms(3) writes(3) profile])
  then have "download (srv_Cwd sv) (folder @ ''/'' @ n) ?v = Some d"
    using serve_all_keeps_file [OF assms(1) spared [unfolded w']] unfolding download_def el by simp
  from download_answered [OF this get] show ?thesis by (simp add: w')
qed

text \<open>After the recording of a heap another folder is deleted and the history is asked for.\<close>

definition sample_site :: "unit ops_server" where
  "sample_site = \<lparr>srv_OS = sample_os, srv_Cwd = [''srv''], srv_Zone = \<lambda>_. 0, srv_JsonErr = ''EOF'', srv_Projects = sample_projects,
     srv_Order = id, srv_Static = \<lambda>_. None\<rparr>"

definition request :: "string \<Rightarrow> string \<Rightarrow> json option \<Rightarrow> ops_request" where
  "request m p body = \<lparr>orq_Method = m, orq_Path = p, orq_Project = [], orq_Body = body\<rparr>"

theorem recorded_profile_stays_witness:
  "fst (ops_serve sample_site (request ''GET'' ''/api/performance/download/170__gs__h-9/heap.prof'' None)
     (serve_all sample_site
       [request ''DELETE'' ''/api/performance/history'' (Some (JObj [(''folders'', JArr [JStr ''1__gs__a''])])),
        request ''GET'' ''/api/performance/history'' None]
       (snd (ops_serve sample_site (request ''POST'' ''/api/performance/record'' (Some sample_request)) sample_ops)))) =
     DataAnswer 200 [] ''hh''"
proof -
  let ?b = "\<lparr>rb_Project = ''color_game'', rb_Service = ''gs'', rb_Instance = ''h:9'', rb_Duration = 700\<rparr>"
  let ?p = "\<lparr>pj_Config = colorGameProject (\<lambda>_. None), pj_Client = sample_client\<rparr>"
  let ?r = "request ''POST'' ''/api/performance/record'' (Some sample_request)"
  have sv: "clean_path (srv_Cwd sample_site)" "os_MkdirFails (srv_OS sample_site) = (\<lambda>_. None)"
    "os_WriteFails (srv_OS sample_site) = (\<lambda>_. None)" "orq_Method ?r = ''POST''" "orq_Path ?r = ''/api/performance/record''"
    "orq_Body ?r = Some sample_request"
    by (simp_all add: sample_site_def sample_os_def srv_clean request_def)
  have body: "struct_of record_fields no_record sample_request = Some ?b"
    by (simp add: struct_of_def sample_request_def record_fields_def find_field_def str_field_def int32_field_def json_int_def no_record_def)
  have proj: "getProjectContext (srv_Projects sample_site) (rb_Project ?b) = Inr ?p"
    by (simp add: sample_site_def getProjectContext_def sample_projects_def colorGameProject_def)
  have clamp: "clampDuration 700 = 600" by code_simp
  have collected: "oc_CollectPerformance (pj_Client ?p) (rb_Service ?b) (rb_Instance ?b) (clampDuration (rb_Duration ?b))
      (ow_client sample_ops) = (Inr sample_resp, ())" by (simp add: sample_client_def clamp)
  have ts: "Unix (ow_clock sample_ops (ow_reads sample_ops)) = 170" by (simp add: sample_ops_def Unix_def Second_def)
  have "itoa 170 = ''170''" by (simp add: itoa_def nat_digits.simps digit_char_def)
  then have folder: "''170__gs__h-9'' = folderName (Unix (ow_clock sample_ops (ow_reads sample_ops))) (rb_Service ?b) (safeInstance (rb_Instance ?b))"
    by (simp add: ts folderName_def safeInstance_def ReplaceChar_def)
  have names: "CHR ''/'' \<notin> set (rb_Service ?b)" "CHR ''/'' \<notin> set (rb_Instance ?b)" by simp_all
  have spared: "all_spare sample_site ''170__gs__h-9''
      [request ''DELETE'' ''/api/performance/history'' (Some (JObj [(''folders'', JArr [JStr ''1__gs__a''])])),
       request ''GET'' ''/api/performance/history'' None] w" for w
    by (simp add: spares_def request_def struct_of_def find_field_def folders_field_def)
  have profile: "(''heap'', ''heap.prof'', ''hh'') \<in> set (profileFiles sample_resp)" "''hh'' \<noteq> []"
    by (simp_all add: profileFiles_def sample_resp_def emptyResp_def)
  show ?thesis
    by (rule recorded_profile_stays [OF sv body proj collected names folder spared profile]) (simp_all add: request_def)
qed

end
