(* ===== verification/Logger_Global.thy ===== *)
theory Logger_Global
  imports Logging
begin

text \<open>
  The global logger of \<^verbatim>\<open>pkg/logger/logger.go\<close>: its set-up over the buffered writer of \<^verbatim>\<open>Logging\<close>, and the
  events the program logs through it.  The line zerolog makes of an event is a parameter, with the format
  as an argument, and so is the rotating file.
\<close>

section \<open>The global logger\<close>

text \<open>An event as zerolog gets it: level, fields, caller and message.\<close>

record log_event =
  ev_Level :: Level
  ev_Fields :: log_fields
  ev_Caller :: string
  ev_Msg :: string

text \<open>Outside: standard output, the rotating log file, \<^verbatim>\<open>os.MkdirAll\<close>, and zerolog's lines in the format
  \<^verbatim>\<open>console\<close> or \<^verbatim>\<open>json\<close>.\<close>

record 'o log_outside =
  stdout_write :: "'o writer"
  file_write :: "string \<Rightarrow> 'o writer"
  mkdir_all :: "string \<Rightarrow> go_error option"
  console_line :: "log_event \<Rightarrow> string"
  json_line :: "log_event \<Rightarrow> string"

record 'o LogConfig =
  cf_Level :: string
  cf_Format :: string
  cf_Output :: "'o writer option"

text \<open>The package variables.  \<open>gl_console\<close> is the format of \<^verbatim>\<open>globalLogger\<close>, \<open>gl_write\<close> the output below
  \<^verbatim>\<open>globalWriter\<close>.\<close>

record 'o global_logger =
  gl_Level :: Level
  gl_write :: "'o writer"
  gl_writer :: "'o SmartWriter"
  gl_console :: bool

definition Init :: "'o log_outside \<Rightarrow> 'o LogConfig \<Rightarrow> 'o \<Rightarrow> 'o global_logger" where
  "Init os cfg out' =
     \<lparr>gl_Level = parseLevel (cf_Level cfg),
      gl_write = (case cf_Output cfg of None \<Rightarrow> stdout_write os | Some output \<Rightarrow> output),
      gl_writer = NewSmartWriter out',
      gl_console = (cf_Format cfg = ''console'')\<rparr>"

text \<open>\<^verbatim>\<open>io.MultiWriter\<close> of the standard library: each writer in turn, up to the first that fails.\<close>

fun MultiWriter :: "'o writer list \<Rightarrow> 'o writer" where
  "MultiWriter [] out' p = ((length p, None), out')"
| "MultiWriter (w # ws) out' p =
     (case w out' p of
        ((n, Some err), out') \<Rightarrow> ((n, Some err), out')
      | ((n, None), out') \<Rightarrow>
          if n \<noteq> length p then ((n, Some ErrShortWrite), out') else MultiWriter ws out' p)"

text \<open>\<^verbatim>\<open>filepath.Dir\<close> is \<open>dir\<close>; the panic is \<open>None\<close>.\<close>

definition InitWithFile ::
    "'o log_outside \<Rightarrow> (string \<Rightarrow> string) \<Rightarrow> string \<Rightarrow> string \<Rightarrow> string \<Rightarrow> bool \<Rightarrow> 'o \<Rightarrow> 'o global_logger option" where
  "InitWithFile os dir filename level format enableConsole out' =
     (case mkdir_all os (dir filename) of
        Some err \<Rightarrow> None
      | None \<Rightarrow>
          let logFile = file_write os filename;
              output = (if enableConsole then MultiWriter [stdout_write os, logFile] else logFile)
          in Some (Init os \<lparr>cf_Level = level, cf_Format = format, cf_Output = Some output\<rparr> out'))"

definition log_Flush :: "'o global_logger \<Rightarrow> 'o global_logger" where
  "log_Flush g = g\<lparr>gl_writer := snd (Sync (gl_write g) (gl_writer g))\<rparr>"

text \<open>\<^verbatim>\<open>Msg\<close> of an event: events below the global level are dropped.  \<open>None\<close> is a write that does not return.\<close>

definition log_Msg :: "'o log_outside \<Rightarrow> log_event \<Rightarrow> 'o global_logger \<Rightarrow> 'o global_logger option" where
  "log_Msg os ev g =
     (if ev_Level ev < gl_Level g then Some g
      else map_option (\<lambda>(_, sw). g\<lparr>gl_writer := sw\<rparr>)
             (sw_Write (gl_write g) (if gl_console g then console_line os ev else json_line os ev) (gl_writer g)))"

text \<open>The events of the package: \<open>extra\<close> are the fields of the call, added to those of the logger of the
  context.  The global logger itself has no fields.  Only \<^verbatim>\<open>Fatal\<close> exits the process after the write.\<close>

definition globalFields :: log_fields where
  "globalFields = []"

definition logger_event :: "Level \<Rightarrow> log_ctx option \<Rightarrow> string \<Rightarrow> int \<Rightarrow> log_fields \<Rightarrow> string \<Rightarrow> log_event" where
  "logger_event lvl ctx file line extra msg =
     \<lparr>ev_Level = lvl, ev_Fields = FromContext globalFields ctx @ extra, ev_Caller = CallerMarshal file line, ev_Msg = msg\<rparr>"

definition log_Debug where "log_Debug = logger_event DebugLevel"
definition log_Info where "log_Info = logger_event InfoLevel"
definition log_Warn where "log_Warn = logger_event WarnLevel"
definition log_Error where "log_Error = logger_event ErrorLevel"
definition log_Fatal where "log_Fatal = logger_event FatalLevel"

definition DebugGlobal where "DebugGlobal = log_Debug None"
definition InfoGlobal where "InfoGlobal = log_Info None"
definition WarnGlobal where "WarnGlobal = log_Warn None"
definition ErrorGlobal where "ErrorGlobal = log_Error None"
definition FatalGlobal where "FatalGlobal = log_Fatal None"

section \<open>What reaches the file\<close>

text \<open>The log of a process: a run of events, ticks of the flusher and flushes.\<close>

datatype log_op = LogEvent log_event | LogTick | LogFlush

fun log_do :: "'o log_outside \<Rightarrow> log_op \<Rightarrow> 'o global_logger \<Rightarrow> 'o global_logger option" where
  "log_do os (LogEvent ev) g = log_Msg os ev g"
| "log_do os LogTick g = map_option (\<lambda>sw. g\<lparr>gl_writer := sw\<rparr>) (sw_do (gl_write g) DoTick (gl_writer g))"
| "log_do os LogFlush g = Some (log_Flush g)"

fun log_run :: "'o log_outside \<Rightarrow> log_op list \<Rightarrow> 'o global_logger \<Rightarrow> 'o global_logger option" where
  "log_run os [] g = Some g"
| "log_run os (a # as) g = (case log_do os a g of None \<Rightarrow> None | Some g \<Rightarrow> log_run os as g)"

text \<open>The line of an operation at a level and a format.\<close>

fun log_text :: "'o log_outside \<Rightarrow> Level \<Rightarrow> bool \<Rightarrow> log_op \<Rightarrow> string" where
  "log_text os lvl c (LogEvent ev) =
     (if ev_Level ev < lvl then [] else if c then console_line os ev else json_line os ev)"
| "log_text os lvl c _ = []"

text \<open>The writers below the global logger of a process: the file, and with it the console.\<close>

context sink
begin

lemma log_do_text:
  assumes "sw_ok (gl_writer g)" "gl_write g = put" "\<not> stopChan_closed (gl_writer g)"
  shows "\<exists>g'. log_do os a g = Some g' \<and> sw_ok (gl_writer g') \<and> gl_write g' = put \<and>
     \<not> stopChan_closed (gl_writer g') \<and> gl_Level g' = gl_Level g \<and> gl_console g' = gl_console g \<and>
     seen view (bufWriter (gl_writer g')) = seen view (bufWriter (gl_writer g)) @ log_text os (gl_Level g) (gl_console g) a \<and>
     (isError (log_text os (gl_Level g) (gl_console g) a) \<or> a = LogFlush \<or> a = LogTick \<longrightarrow> bw_buf (bufWriter (gl_writer g')) = [])"
proof (cases a)
  case (LogEvent ev)
  note W = do_takes [OF assms(1), of "DoWrite (log_text os (gl_Level g) (gl_console g) a)"]
  from LogEvent assms W show ?thesis
    by (auto simp: log_Msg_def isError_def contains_def quoted_def)
next
  case LogTick
  with assms Sync_takes [OF assms(1)] show ?thesis by auto
next
  case LogFlush
  with assms Sync_takes [OF assms(1)] show ?thesis by (auto simp: log_Flush_def)
qed

lemma log_run_text:
  assumes "sw_ok (gl_writer g)" "gl_write g = put" "\<not> stopChan_closed (gl_writer g)"
  shows "\<exists>g'. log_run os ops g = Some g' \<and> sw_ok (gl_writer g') \<and>
     seen view (bufWriter (gl_writer g')) =
       seen view (bufWriter (gl_writer g)) @ concat (map (log_text os (gl_Level g) (gl_console g)) ops) \<and>
     (ops \<noteq> [] \<longrightarrow> isError (log_text os (gl_Level g) (gl_console g) (last ops)) \<or> last ops = LogFlush \<longrightarrow>
        bw_buf (bufWriter (gl_writer g')) = [])"
  using assms
proof (induction ops arbitrary: g)
  case (Cons a ops)
  from log_do_text [OF Cons.prems, of os a] obtain g1 where g1:
    "log_do os a g = Some g1" "sw_ok (gl_writer g1)" "gl_write g1 = put" "\<not> stopChan_closed (gl_writer g1)"
    "gl_Level g1 = gl_Level g" "gl_console g1 = gl_console g"
    "seen view (bufWriter (gl_writer g1)) = seen view (bufWriter (gl_writer g)) @ log_text os (gl_Level g) (gl_console g) a"
    "isError (log_text os (gl_Level g) (gl_console g) a) \<or> a = LogFlush \<or> a = LogTick \<longrightarrow> bw_buf (bufWriter (gl_writer g1)) = []"
    by blast
  from Cons.IH [OF g1(2-4)] g1 show ?case by (cases "ops = []") auto
qed simp

end

lemma Init_file:
  assumes "InitWithFile os dir file level format console out' = Some g"
  shows "sw_ok (gl_writer g)" "\<not> stopChan_closed (gl_writer g)" "gl_Level g = parseLevel level"
    "gl_console g = (format = ''console'')" "seen view (bufWriter (gl_writer g)) = view out'"
    "gl_write g = (if console then MultiWriter [stdout_write os, file_write os file] else file_write os file)"
    "bw_buf (bufWriter (gl_writer g)) = []" "bw_out (bufWriter (gl_writer g)) = out'"
  using assms
  by (auto simp: InitWithFile_def Init_def NewSmartWriter_def sw_ok_def buf_ok_def Let_def split: option.splits)

text \<open>The file sees everything when it takes everything and the console, if it is written too, takes everything.\<close>

lemma output_sink:
  assumes "\<forall>x p. \<exists>y. file_write os file x p = ((length p, None), y) \<and> filed y = filed x @ p"
    and "console \<longrightarrow> (\<forall>x p. \<exists>y. stdout_write os x p = ((length p, None), y) \<and> filed y = filed x)"
  shows "sink (if console then MultiWriter [stdout_write os, file_write os file] else file_write os file) filed"
proof
  fix x p
  show "\<exists>y. (if console then MultiWriter [stdout_write os, file_write os file] else file_write os file) x p
      = ((length p, None), y) \<and> filed y = filed x @ p"
  proof (cases console)
    case True
    with assms(2) obtain y where y: "stdout_write os x p = ((length p, None), y)" "filed y = filed x" by blast
    from assms(1) obtain z where "file_write os file y p = ((length p, None), z)" "filed z = filed y @ p" by blast
    with y True show ?thesis by simp
  qed (use assms(1) in simp)
qed

lemma errors_pass: "\<not> ErrorLevel < parseLevel l" "\<not> FatalLevel < parseLevel l"
  by (simp_all add: parseLevel_def less_Level_def)

text \<open>The names zerolog prints.\<close>

fun level_name :: "Level \<Rightarrow> string" where
  "level_name DebugLevel = ''debug''"
| "level_name InfoLevel = ''info''"
| "level_name WarnLevel = ''warn''"
| "level_name ErrorLevel = ''error''"
| "level_name FatalLevel = ''fatal''"

definition level_text :: "Level \<Rightarrow> string" where
  "level_text l = quoted ''level'' @ '':'' @ quoted (level_name l)"

lemma contains_infix: "contains (pre @ pat @ s) pat"
  by (auto simp: contains_def list_ex_iff intro!: bexI [of _ "length pre"])

lemma level_text_isError: "l \<in> {ErrorLevel, FatalLevel} \<Longrightarrow> isError (pre @ level_text l @ s)"
  using contains_infix [of pre "level_text l" s] by (auto simp: isError_def level_text_def)

section \<open>Properties\<close>

text \<open>C37. The log of a process in the JSON format, with or without the console.  While the log file takes what
  it is given, and standard output too if the process logs to it as well, then over any sequence of
  events, ticks and flushes, the file followed by the buffer grows by the lines of exactly the events at or
  above the configured level, in order; right after an error or a fatal event everything is in the file.
  Of zerolog it assumes that the line of such an event names its level.  (A standard output that fails
  keeps everything from the file: \<open>failing_console_empties_log\<close>.)\<close>

theorem errors_reach_the_file:
  assumes json: "\<forall>ev. ev_Level ev \<in> {ErrorLevel, FatalLevel} \<longrightarrow>
      (\<exists>pre post. json_line os ev = pre @ level_text (ev_Level ev) @ post)"
    and init: "InitWithFile os dir file level format enableConsole out' = Some g" "format \<noteq> ''console''"
    and takes: "\<forall>x p. \<exists>y. file_write os file x p = ((length p, None), y) \<and> filed y = filed x @ p"
      "enableConsole \<longrightarrow> (\<forall>x p. \<exists>y. stdout_write os x p = ((length p, None), y) \<and> filed y = filed x)"
  shows "\<exists>g'. log_run os ops g = Some g' \<and>
     filed (bw_out (bufWriter (gl_writer g'))) @ bw_buf (bufWriter (gl_writer g')) =
       filed out' @ concat (map (json_line os)
         [ev \<leftarrow> List.map_filter (\<lambda>a. case a of LogEvent ev \<Rightarrow> Some ev | _ \<Rightarrow> None) ops.
            parseLevel level \<le> ev_Level ev]) \<and>
     (\<forall>ev. ops \<noteq> [] \<and> last ops = LogEvent ev \<and> ev_Level ev \<in> {ErrorLevel, FatalLevel} \<longrightarrow>
        bw_buf (bufWriter (gl_writer g')) = [])"
proof -
  note I = Init_file [OF init(1)]
  from sink.log_run_text [OF output_sink [OF takes] I(1,6,2), of os ops] obtain g' where g':
    "log_run os ops g = Some g'"
    "seen filed (bufWriter (gl_writer g')) = filed out' @ concat (map (log_text os (parseLevel level) False) ops)"
    "ops \<noteq> [] \<longrightarrow> isError (log_text os (parseLevel level) False (last ops)) \<longrightarrow> bw_buf (bufWriter (gl_writer g')) = []"
    using I(3-5) init(2) by auto
  have "concat (map (log_text os (parseLevel level) False) ops) =
      concat (map (json_line os)
         [ev \<leftarrow> List.map_filter (\<lambda>a. case a of LogEvent ev \<Rightarrow> Some ev | _ \<Rightarrow> None) ops.
            parseLevel level \<le> ev_Level ev])"
    by (induction ops) (auto simp: List.map_filter_def split: log_op.splits)
  moreover have "isError (json_line os ev)" if "ev_Level ev \<in> {ErrorLevel, FatalLevel}" for ev
    using json that level_text_isError by metis
  ultimately show ?thesis using g' errors_pass [of level] by auto
qed

text \<open>An outside of two texts: standard output and the file.\<close>

definition sample_log :: "(string \<times> string) log_outside" where
  "sample_log = \<lparr>stdout_write = \<lambda>(t, f) p. ((length p, None), t @ p, f),
     file_write = \<lambda>_ (t, f) p. ((length p, None), t, f @ p), mkdir_all = \<lambda>_. None,
     console_line = ev_Msg, json_line = \<lambda>ev. level_text (ev_Level ev) @ ev_Msg ev\<rparr>"

theorem errors_reach_the_file_witness:
  "\<exists>g g'. InitWithFile sample_log id ''server.log'' ''info'' ''json'' True ([], ''old '') = Some g \<and>
     log_run sample_log [LogEvent (DebugGlobal ''main.go'' 1 [] ''d''), LogEvent (InfoGlobal ''main.go'' 2 [] ''i''),
        LogEvent (ErrorGlobal ''main.go'' 3 [] ''e'')] g = Some g' \<and>
     snd (bw_out (bufWriter (gl_writer g'))) =
       ''old '' @ level_text InfoLevel @ ''i'' @ level_text ErrorLevel @ ''e''"
proof -
  let ?ops = "[LogEvent (DebugGlobal ''main.go'' 1 [] ''d''), LogEvent (InfoGlobal ''main.go'' 2 [] ''i''),
        LogEvent (ErrorGlobal ''main.go'' 3 [] ''e'')]"
  have json: "\<forall>ev. ev_Level ev \<in> {ErrorLevel, FatalLevel} \<longrightarrow>
      (\<exists>pre post. json_line sample_log ev = pre @ level_text (ev_Level ev) @ post)"
    by (intro allI impI exI [of _ "[]"] exI [of _ "ev_Msg ev" for ev]) (simp add: sample_log_def)
  obtain g where g: "InitWithFile sample_log id ''server.log'' ''info'' ''json'' True ([], ''old '') = Some g"
    by (simp add: InitWithFile_def sample_log_def Let_def)
  have takes: "\<forall>x p. \<exists>y. file_write sample_log ''server.log'' x p = ((length p, None), y) \<and> snd y = snd x @ p"
    "True \<longrightarrow> (\<forall>x p. \<exists>y. stdout_write sample_log x p = ((length p, None), y) \<and> snd y = snd x)"
    by (simp_all add: sample_log_def split_beta)
  from errors_reach_the_file [OF json g _ takes, of ?ops] obtain g' where g': "log_run sample_log ?ops g = Some g'"
    "snd (bw_out (bufWriter (gl_writer g'))) @ bw_buf (bufWriter (gl_writer g')) =
       ''old '' @ concat (map (json_line sample_log)
         [ev \<leftarrow> List.map_filter (\<lambda>a. case a of LogEvent ev \<Rightarrow> Some ev | _ \<Rightarrow> None) ?ops. parseLevel ''info'' \<le> ev_Level ev])"
    "bw_buf (bufWriter (gl_writer g')) = []"
    by (auto simp: ErrorGlobal_def log_Error_def logger_event_def)
  then have "snd (bw_out (bufWriter (gl_writer g'))) =
      ''old '' @ level_text InfoLevel @ ''i'' @ level_text ErrorLevel @ ''e''"
    by (simp add: List.map_filter_def parseLevel_def less_eq_Level_def sample_log_def DebugGlobal_def InfoGlobal_def
        ErrorGlobal_def log_Debug_def log_Info_def log_Error_def logger_event_def)
  with g g'(1) show ?thesis by blast
qed

text \<open>Standard output comes first: when it fails, nothing reaches the file, errors included.\<close>

lemma failing_console_empties_log:
  assumes "InitWithFile os dir file level format True out' = Some g"
    and fails: "\<And>x p. \<exists>n e y. stdout_write os x p = ((n, Some e), y) \<and> filed y = filed x"
    and "log_run os ops g = Some g'"
  shows "filed (bw_out (bufWriter (gl_writer g'))) = filed out'"
proof -
  let ?put = "MultiWriter [stdout_write os, file_write os file]"
  have put: "\<exists>n e y. ?put x p = ((n, Some e), y) \<and> filed y = filed x" for x p
  proof -
    from fails obtain n e y where "stdout_write os x p = ((n, Some e), y)" "filed y = filed x" by blast
    then show ?thesis by simp
  qed
  note unseen = failing_write_unseen [where put = ?put and view = filed, OF put]
  have keep: "filed (bw_out (bufWriter (gl_writer g2))) = filed (bw_out (bufWriter (gl_writer g1))) \<and> gl_write g2 = ?put"
    if "log_do os a g1 = Some g2" "gl_write g1 = ?put" for a g1 g2
  proof (cases a)
    case (LogEvent ev)
    with that unseen [where sw = "gl_writer g1" and a = "DoWrite (if gl_console g1 then console_line os ev else json_line os ev)"]
    show ?thesis by (auto simp: log_Msg_def split: if_splits)
  next
    case LogTick
    with that unseen [where sw = "gl_writer g1" and a = DoTick] show ?thesis by auto
  next
    case LogFlush
    with that unseen [where sw = "gl_writer g1" and a = DoSync] show ?thesis by (auto simp: log_Flush_def)
  qed
  have "gl_write g = ?put" "bw_out (bufWriter (gl_writer g)) = out'" using Init_file(6,8) [OF assms(1)] by simp_all
  then show ?thesis using assms(3)
    by (induction ops arbitrary: g out') (auto split: option.splits dest!: keep)
qed

text \<open>In the format \<^verbatim>\<open>console\<close> an error is treated like any other line: one that does not happen to hold the
  JSON text of a level, and fits into the buffer, stays there until the next tick.\<close>

lemma console_error_waits:
  assumes "InitWithFile os dir file level ''console'' console out' = Some g"
    and "ev_Level ev = ErrorLevel" "\<not> isError (console_line os ev)" "length (console_line os ev) \<le> bufSize"
  shows "\<exists>g'. log_Msg os ev g = Some g' \<and> bw_out (bufWriter (gl_writer g')) = out'"
proof -
  note I = Init_file [OF assms(1)]
  then have "bw_err (bufWriter (gl_writer g)) = None" by (simp add: sw_ok_def buf_ok_def)
  then show ?thesis using assms(2-4) I errors_pass [of level]
    by (simp add: log_Msg_def sw_Write_def Write_fits)
qed

end
