(* ===== verification/Cluster.thy ===== *)
theory Cluster
  imports System Fanout
begin

text \<open>
  The microservices, \<^verbatim>\<open>cmd/color_game/microservices\<close>, from a settlement of the game service to the players:
  the base client of the game service with its workers on one side, the gateways with their connections
  on the other, and between them calls that may be lost.  A run is labelled with the tasks that ran, each
  with whether a gateway handled its call.  Then what a player is told is compared with the monolith.
\<close>

section \<open>The wiring\<close>

record 'n cluster =
  cl_fan :: "'n fan_sys"
  cl_gws :: "addr \<Rightarrow> Manager"

text \<open>What the gRPC server of a gateway does with a request: it calls the handler of the adapter.\<close>

definition serve :: "(Manager \<Rightarrow> Manager) \<Rightarrow> gateway_req \<Rightarrow> Manager \<Rightarrow> Manager" where
  "serve late req m =
     (case req of
        BroadcastCall q \<Rightarrow> snd (grpc_Broadcast (brq_GameCode q) (Some (brq_Event q)) m)
      | SendToUserCall q \<Rightarrow> snd (grpc_SendToUser (suq_UserId q) (suq_GameCode q) (Some (suq_Event q)) (late m) m))"

definition serve_at :: "(Manager \<Rightarrow> Manager) \<Rightarrow> addr \<Rightarrow> gateway_req \<Rightarrow> 'n cluster \<Rightarrow> 'n cluster" where
  "serve_at late a req s = s\<lparr>cl_gws := (cl_gws s)(a := serve late req (cl_gws s a))\<rparr>"

text \<open>The steps: one of the client in which no task runs; a task whose call is handled by the gateway of its
  address; a task whose dial or call fails; a turn of the write pump of a connection.\<close>

inductive cl_step ::
    "'n network \<Rightarrow> (proto_message \<Rightarrow> go_error option) \<Rightarrow> (Manager \<Rightarrow> Manager)
      \<Rightarrow> 'n cluster \<Rightarrow> (gateway_task \<times> bool) list \<Rightarrow> 'n cluster \<Rightarrow> bool" for N marshal late where
  client: "fan_step N marshal (cl_fan s) f \<Longrightarrow> ran f = ran (cl_fan s) \<Longrightarrow>
     cl_step N marshal late s [] (s\<lparr>cl_fan := f\<rparr>)"
| handled: "fan_step N marshal (cl_fan s) f \<Longrightarrow> ran f = ran (cl_fan s) @ [(t, Inr call)] \<Longrightarrow>
     cl_step N marshal late s [(t, True)] (serve_at late (task_addr t) (gc_req call) (s\<lparr>cl_fan := f\<rparr>))"
| lost: "fan_step N marshal (cl_fan s) f \<Longrightarrow> ran f = ran (cl_fan s) @ [(t, r)] \<Longrightarrow>
     cl_step N marshal late s [(t, False)] (s\<lparr>cl_fan := f\<rparr>)"
| pump: "c < nextConn (cl_gws s a) \<Longrightarrow> writing (Ws_Manager.conns (cl_gws s a) c) \<Longrightarrow>
     cl_step N marshal late s [] (s\<lparr>cl_gws := (cl_gws s)(a := pump_write ok c (cl_gws s a))\<rparr>)"

inductive cl_run ::
    "'n network \<Rightarrow> (proto_message \<Rightarrow> go_error option) \<Rightarrow> (Manager \<Rightarrow> Manager)
      \<Rightarrow> 'n cluster \<Rightarrow> (gateway_task \<times> bool) list \<Rightarrow> 'n cluster \<Rightarrow> bool" for N marshal late s where
  none: "cl_run N marshal late s [] s"
| more: "cl_run N marshal late s xs s1 \<Longrightarrow> cl_step N marshal late s1 ys s2 \<Longrightarrow> cl_run N marshal late s (xs @ ys) s2"

text \<open>The messages of the game service as requests of the client, and back.\<close>

fun message_req :: "gs_message \<Rightarrow> gateway_req" where
  "message_req (gs_message.Broadcast g e) = BroadcastCall \<lparr>brq_GameCode = g, brq_Event = e\<rparr>"
| "message_req (gs_message.SendToUser u g e) = SendToUserCall \<lparr>suq_UserId = u, suq_GameCode = g, suq_Event = e\<rparr>"

fun req_message :: "gateway_req \<Rightarrow> gs_message" where
  "req_message (BroadcastCall q) = gs_message.Broadcast (brq_GameCode q) (brq_Event q)"
| "req_message (SendToUserCall q) = gs_message.SendToUser (suq_UserId q) (suq_GameCode q) (suq_Event q)"

lemma req_message_req [simp]: "req_message (message_req msg) = msg"
  by (cases msg) simp_all

text \<open>The gRPC adapter of the gateway does with a request what the local one does with the message.\<close>

lemma serve_deliver: "serve late req m = deliver late (req_message req) m"
  by (cases req)
    (auto simp: serve_def deliver_def grpc_Broadcast_def grpc_SendToUser_def grpc_convertEvent_eq
      gw_Broadcast_def gw_SendToUser_def split: option.splits)

text \<open>The game service hands its messages to the client one after the other.\<close>

definition tell ::
    "'n network \<Rightarrow> (proto_message \<Rightarrow> go_error option) \<Rightarrow> string \<Rightarrow> gs_message \<Rightarrow> 'n fan_sys \<Rightarrow> 'n fan_sys" where
  "tell N marshal reqID msg f =
     (case (case msg of
              gs_message.Broadcast g e \<Rightarrow> client_Broadcast N marshal reqID g e (cli f)
            | gs_message.SendToUser u g e \<Rightarrow> client_SendToUser N marshal reqID u g e (cli f)) of
        (ts, c) \<Rightarrow> f\<lparr>cli := c, callers := callers f @ [ts], asked := asked f @ ts\<rparr>)"

definition fan_tasks :: "addr list \<Rightarrow> string \<Rightarrow> gs_message \<Rightarrow> gateway_task list" where
  "fan_tasks addrs reqID msg = map (\<lambda>a. GatewayTask a reqID (message_req msg)) addrs"

lemma tell_step: "fan_step N marshal f (tell N marshal reqID msg f)"
  by (cases msg) (auto simp: tell_def intro: fan_step.broadcast fan_step.send split: prod.split)

lemma tell_cached:
  assumes "cachedAddrs ''gateway-service'' (cli f) = Some addrs" "\<forall>e. marshal e = None"
  shows "tell N marshal reqID msg f =
     f\<lparr>callers := callers f @ [fan_tasks addrs reqID msg], asked := asked f @ fan_tasks addrs reqID msg\<rparr>"
  using assms
  by (cases msg) (simp_all add: tell_def client_Broadcast_def client_SendToUser_def GetServiceAddrs_def fan_tasks_def)

section \<open>What a run tells a player\<close>

text \<open>The texts for user \<open>u\<close> in the calls that the gateway at \<open>a\<close> handled, in the order it handled them.\<close>

definition told :: "addr \<Rightarrow> int64 \<Rightarrow> (gateway_task \<times> bool) list \<Rightarrow> string list" where
  "told a u xs =
     concat (map (\<lambda>(t, ok). if ok \<and> task_addr t = a then for_user u (req_message (task_req t)) else []) xs)"

lemma told_simps [simp]:
  "told a u [] = []" "told a u (xs @ ys) = told a u xs @ told a u ys"
  "told a u [(t, ok)] = (if ok \<and> task_addr t = a then for_user u (req_message (task_req t)) else [])"
  by (simp_all add: told_def)

text \<open>What a player is to be told of the tasks \<open>T\<close>, if all their calls are handled.\<close>

definition due :: "addr \<Rightarrow> int64 \<Rightarrow> gateway_task multiset \<Rightarrow> string multiset" where
  "due a u T = (\<Sum>t \<in># T. if task_addr t = a then mset (for_user u (req_message (task_req t))) else {#})"

lemma due_union [simp]: "due a u {#} = {#}" "due a u (S + T) = due a u S + due a u T"
  by (simp_all add: due_def)

lemma due_size_mono: "T \<subseteq># T' \<Longrightarrow> size (due a u T) \<le> size (due a u T')"
  by (auto simp: subset_mset.le_iff_add)

lemma told_due: "mset (told a u xs) \<subseteq># due a u (mset (map fst xs))"
  by (induction xs) (auto simp: told_def due_def intro: subset_mset.add_mono subset_mset.add_increasing)

lemma told_all: "\<forall>x \<in> set xs. snd x \<Longrightarrow> mset (told a u xs) = due a u (mset (map fst xs))"
  by (induction xs) (auto simp: told_def due_def)

lemma due_told: "length (told a u xs) \<le> size (due a u (mset (map fst xs)))"
  using size_mset_mono [OF told_due [of a u xs]] by simp

lemma due_fan:
  assumes "distinct addrs" "a \<in> set addrs"
  shows "due a u (mset (fan_tasks addrs reqID msg)) = mset (for_user u msg)"
proof -
  have "due a u (mset (fan_tasks as reqID msg)) = (if a \<in> set as then mset (for_user u msg) else {#})"
    if "distinct as" for as
    using that by (induction as) (auto simp: fan_tasks_def due_def)
  with assms show ?thesis by simp
qed

lemma due_fans:
  assumes "distinct addrs" "a \<in> set addrs"
  shows "due a u (mset (concat (map (fan_tasks addrs reqID) msgs))) = mset (concat (map (for_user u) msgs))"
  by (induction msgs) (simp_all add: due_fan [OF assms])

text \<open>A step appends the tasks of its label to those that ran; nothing asked for is forgotten.\<close>

lemma fan_step_asked: "fan_step N marshal f f' \<Longrightarrow> \<exists>zs. asked f' = asked f @ zs"
  by (induction rule: fan_step.induct) auto

lemma fan_step_call:
  assumes "fan_step N marshal f f'" "ran f' = ran f @ [(t, Inr call)]"
  shows "gc_req call = task_req t"
  using assms
proof cases
  case (run_worker t' r c)
  with runTask_spec [OF run_worker(3)] assms(2) show ?thesis by (simp add: did_def)
next
  case (run_ephemeral t' r c)
  with runTask_spec [OF run_ephemeral(3)] assms(2) show ?thesis by (simp add: did_def)
qed simp_all

lemma cl_step_fan:
  assumes "cl_step N marshal late s xs s'" "fan_inv (cl_fan s)"
  shows "fan_inv (cl_fan s')" "map fst (ran (cl_fan s')) = map fst (ran (cl_fan s)) @ map fst xs"
    "\<exists>zs. asked (cl_fan s') = asked (cl_fan s) @ zs"
  using assms fan_inv_step fan_step_asked by (auto simp: serve_at_def elim!: cl_step.cases)

lemma cl_run_fan:
  assumes "cl_run N marshal late s xs s'" "fan_inv (cl_fan s)"
  shows "fan_inv (cl_fan s') \<and> map fst (ran (cl_fan s')) = map fst (ran (cl_fan s)) @ map fst xs \<and>
     (\<exists>zs. asked (cl_fan s') = asked (cl_fan s) @ zs)"
  using assms
proof (induction rule: cl_run.induct)
  case (more xs s1 ys s2)
  then show ?case using cl_step_fan [OF more.hyps(2)] by auto
qed simp

text \<open>A step at the gateway of a player.\<close>

lemma got_step:
  assumes "cl_step N marshal late s xs s'" "others_write late"
    and "distinct (map snd (clients (cl_gws s a)))" "map_of (clients (cl_gws s a)) u = Some c"
    and "length (Send (Ws_Manager.conns (cl_gws s a) c)) + length (told a u xs) \<le> sendCap"
  shows "got c (told a u xs) (cl_gws s a) (cl_gws s' a)"
  using assms(1)
proof cases
  case (handled f t call)
  note req = fan_step_call [OF handled(3,4)]
  show ?thesis
    using handled assms(5) got_deliver [OF assms(2-4), of "req_message (task_req t)"]
    by (auto simp: serve_at_def serve_deliver req got_refl)
next
  case (pump d b ok)
  then show ?thesis by (simp add: got_refl got_write)
qed (simp_all add: got_refl)

text \<open>A run: the connection is given exactly the texts of the calls that were handled, in their order.\<close>

lemma got_run:
  assumes "cl_run N marshal late s xs s'" "others_write late" "fan_inv (cl_fan s)" "waiting (cl_fan s) = {#}"
    and "distinct (map snd (clients (cl_gws s a)))" "map_of (clients (cl_gws s a)) u = Some c"
    and "asked (cl_fan s') = asked (cl_fan s) @ zs"
    and "length (Send (Ws_Manager.conns (cl_gws s a) c)) + size (due a u (mset zs)) \<le> sendCap"
  shows "got c (told a u xs) (cl_gws s a) (cl_gws s' a)"
  using assms(1,7,8)
proof (induction arbitrary: zs rule: cl_run.induct)
  case none
  then show ?case by (simp add: got_refl)
next
  case (more xs s1 ys s2)
  note fan1 = cl_run_fan [OF more.hyps(1) assms(3)]
  obtain zs1 where zs1: "asked (cl_fan s1) = asked (cl_fan s) @ zs1" using fan1 by blast
  note fan2 = cl_step_fan [OF more.hyps(2) conjunct1 [OF fan1]]
  obtain zs2 where zs: "zs = zs1 @ zs2" using fan2(3) zs1 more.prems(1) by auto
  have "size (due a u (mset zs1)) \<le> size (due a u (mset zs))" by (rule due_size_mono) (simp add: zs)
  with more.prems(2) have "got c (told a u xs) (cl_gws s a) (cl_gws s1 a)"
    by (intro more.IH [OF zs1]) simp
  moreover have "length (told a u (xs @ ys)) \<le> size (due a u (mset zs))"
  proof -
    have "mset (map fst (xs @ ys)) \<subseteq># mset zs"
      using fan1 fan2 assms(3,4) more.prems(1) by (auto simp: fan_inv_def subset_mset.le_iff_add)
    then show ?thesis using due_told [of a u "xs @ ys"] due_size_mono le_trans by blast
  qed
  ultimately show ?case
    using got_step [OF more.hyps(2) assms(2), of a u c] assms(5,6) more.prems(2) got_trans
    by (fastforce simp: got_def)
qed

section \<open>Completion\<close>

lemma runTask_dials:
  assumes "\<forall>n b. \<exists>conn n'. net_dial N n b = (Inr conn, n')" "runTask N t c = (r, c')"
  shows "\<exists>call. r = Inr call"
proof -
  obtain a reqID req where t: "t = GatewayTask a reqID req" by (cases t)
  obtain conn n where "net_dial N (net c) a = (Inr conn, n)" using assms(1) by blast
  with assms(2) show ?thesis by (auto simp: t getConnDirect_def split: option.splits)
qed

lemma fan_step_ran:
  "fan_step N marshal f f' \<Longrightarrow>
   ran f' = ran f \<or> (\<exists>t r c c'. ran f' = ran f @ [(t, r)] \<and> runTask N t c = (r, c'))"
  by (induction rule: fan_step.induct) auto

lemma lift_step:
  assumes "\<forall>n b. \<exists>conn n'. net_dial N n b = (Inr conn, n')" "fan_step N marshal (cl_fan s) f"
  shows "\<exists>xs s'. cl_step N marshal late s xs s' \<and> cl_fan s' = f \<and> (\<forall>x \<in> set xs. snd x)"
proof (cases "ran f = ran (cl_fan s)")
  case True
  from cl_step.client [where N = N and late = late, OF assms(2) True] show ?thesis by fastforce
next
  case False
  with fan_step_ran [OF assms(2)] obtain t r c c'
    where r: "ran f = ran (cl_fan s) @ [(t, r)]" "runTask N t c = (r, c')" by blast
  from runTask_dials [OF assms(1) r(2)] r(1) obtain call where "ran f = ran (cl_fan s) @ [(t, Inr call)]" by blast
  from cl_step.handled [where N = N and late = late, OF assms(2) this] show ?thesis
    by (intro exI conjI) (auto simp: serve_at_def)
qed

lemma lift_steps:
  assumes "\<forall>n b. \<exists>conn n'. net_dial N n b = (Inr conn, n')" "(fan_step N marshal)\<^sup>*\<^sup>* (cl_fan s) f"
  shows "\<exists>xs s'. cl_run N marshal late s xs s' \<and> cl_fan s' = f \<and> (\<forall>x \<in> set xs. snd x)"
  using assms(2)
proof (induction rule: rtranclp_induct)
  case base
  show ?case by (intro exI [of _ "[]"] exI [of _ s]) (simp add: cl_run.none)
next
  case (step f g)
  then obtain xs s1 where s1: "cl_run N marshal late s xs s1" "cl_fan s1 = f" "\<forall>x \<in> set xs. snd x" by blast
  from step.hyps(2) s1(2) lift_step [OF assms(1), of marshal s1 g late] obtain ys s2
    where "cl_step N marshal late s1 ys s2" "cl_fan s2 = g" "\<forall>x \<in> set ys. snd x" by blast
  with s1 show ?case by (intro exI [of _ "xs @ ys"] exI [of _ s2]) (auto intro: cl_run.more)
qed

lemma tells_steps: "(fan_step N marshal)\<^sup>*\<^sup>* f (fold (tell N marshal reqID) msgs f)"
  by (induction msgs arbitrary: f) (auto intro: converse_rtranclp_into_rtranclp tell_step)

lemma tells_asked:
  assumes "cachedAddrs ''gateway-service'' (cli f) = Some addrs" "\<forall>e. marshal e = None"
  shows "asked (fold (tell N marshal reqID) msgs f) = asked f @ concat (map (fan_tasks addrs reqID) msgs)"
  using assms(1) by (induction msgs arbitrary: f) (simp_all add: tell_cached assms(2))

text \<open>A run in which the client was asked for the tasks of \<open>msgs\<close> and nothing else, all tasks ran, and no call
  was lost.\<close>

definition passed_on ::
    "addr list \<Rightarrow> string \<Rightarrow> gs_message list \<Rightarrow> 'n cluster \<Rightarrow> (gateway_task \<times> bool) list \<Rightarrow> 'n cluster \<Rightarrow> bool" where
  "passed_on addrs reqID msgs s xs s' \<longleftrightarrow>
     asked (cl_fan s') = asked (cl_fan s) @ concat (map (fan_tasks addrs reqID) msgs) \<and>
     waiting (cl_fan s') = {#} \<and> (\<forall>x \<in> set xs. snd x)"

lemma passes_on:
  assumes "\<forall>n b. \<exists>conn n'. net_dial N n b = (Inr conn, n')" "\<forall>e. marshal e = None"
    and "cachedAddrs ''gateway-service'' (cli (cl_fan s)) = Some addrs"
  shows "\<exists>xs s'. cl_run N marshal late s xs s' \<and> passed_on addrs reqID msgs s xs s'"
proof -
  let ?f = "fold (tell N marshal reqID) msgs (cl_fan s)"
  from completes [of N marshal ?f] obtain f where
    f: "(fan_step N marshal)\<^sup>*\<^sup>* ?f f" "asked f = asked ?f" "waiting f = {#}" by blast
  from lift_steps [OF assms(1) rtranclp_trans [OF tells_steps f(1)]] f(2,3) tells_asked [OF assms(3,2)]
  show ?thesis unfolding passed_on_def by metis
qed

lemma got_passed:
  assumes "cl_run N marshal late s xs s'" "passed_on addrs reqID msgs s xs s'" "others_write late"
    and "fan_inv (cl_fan s)" "waiting (cl_fan s) = {#}" "distinct addrs" "a \<in> set addrs"
    and "distinct (map snd (clients (cl_gws s a)))" "map_of (clients (cl_gws s a)) u = Some d"
    and "length (Send (Ws_Manager.conns (cl_gws s a) d)) + length (concat (map (for_user u) msgs)) \<le> sendCap"
  shows "\<exists>texts. enqueued (Ws_Manager.conns (cl_gws s' a) d) = enqueued (Ws_Manager.conns (cl_gws s a) d) @ texts \<and>
     mset texts = mset (concat (map (for_user u) msgs))"
proof -
  note p = assms(2) [unfolded passed_on_def] and fan = cl_run_fan [OF assms(1,4)]
  have room: "length (Send (Ws_Manager.conns (cl_gws s a) d)) +
      size (due a u (mset (concat (map (fan_tasks addrs reqID) msgs)))) \<le> sendCap"
    using assms(10) unfolding due_fans [OF assms(6,7)] by simp
  from got_run [OF assms(1,3,4,5,8,9) conjunct1 [OF p] room]
  have "enqueued (Ws_Manager.conns (cl_gws s' a) d) = enqueued (Ws_Manager.conns (cl_gws s a) d) @ told a u xs"
    by (simp add: got_def)
  moreover have "mset (map fst xs) = mset (concat (map (fan_tasks addrs reqID) msgs))"
  proof -
    have "mset (map fst (ran (cl_fan s'))) = mset (map fst (ran (cl_fan s))) + mset (map fst xs)"
      using fan by (metis mset_append)
    moreover have "mset (asked (cl_fan s)) = mset (map fst (ran (cl_fan s)))"
      using assms(4,5) by (simp add: fan_inv_def)
    moreover have "mset (asked (cl_fan s')) = mset (map fst (ran (cl_fan s')))"
      using conjunct1 [OF conjunct2 [OF p]] conjunct1 [OF fan] by (simp add: fan_inv_def)
    ultimately show ?thesis using conjunct1 [OF p] by (metis add_left_cancel mset_append)
  qed
  ultimately show ?thesis using told_all [of xs a u] p due_fans [OF assms(6,7)] by simp
qed

section \<open>Properties\<close>

text \<open>The notification of a settled bet as the player receives it.\<close>

definition note_text :: "string \<Rightarrow> Color \<Rightarrow> Bet \<Rightarrow> string" where
  "note_text r c b =
     json_enc (settlement_json ''color_game''
       \<lparr>sbr_RoundId = r, sbr_WinningColor = c, sbr_BetId = BetID b, sbr_BetColor = bet_Color b, sbr_BetAmount = Amount b,
        sbr_WinAmount = calculateWin b c, sbr_IsWinner = 0 < sint (calculateWin b c)\<rparr>)"

text \<open>C4. A settlement reaches the players of every gateway, in the microservices.  The game service settles a
  round; then its client can have all notifications handled by the gateways; and in every run in which it is
  asked for these notifications and loses no call, whatever the callers, the twenty workers and the pumps do
  in which order, the connection of each player at each known gateway has in the end been given one text for
  every bet of the player in the round and one for the end of the round, and nothing else.\<close>

theorem settlement_reaches_players:
  fixes w :: "(MemBets, 'm, MockService, 'd) gs_world" and s :: "'n cluster"
  assumes "uc = NewGSUseCase memRepo orders gms mockWallet True overflow"
    and "mem_inv (gs_store w)"
    and "\<forall>b \<in># mem_pending (gs_store w) r. UserID b \<in> dom (balances (gs_wallet w)) \<and> fair_amount (Amount b)"
    and "orders_persist uc rows"
    and "fan_reach N marshal (cl_fan s)" "waiting (cl_fan s) = {#}"
    and "cachedAddrs ''gateway-service'' (cli (cl_fan s)) = Some addrs" "distinct addrs"
    and "\<forall>n b. \<exists>conn n'. net_dial N n b = (Inr conn, n')" "\<forall>e. marshal e = None" "others_write late"
  shows "\<exists>sum w'. SettleRound uc r c w = Some (Inr sum, w') \<and>
     (let msgs = drop (length (gs_sent w)) (gs_sent w') in
      (\<exists>xs s'. cl_run N marshal late s xs s' \<and> passed_on addrs reqID msgs s xs s') \<and>
      (\<forall>xs s' a u d. cl_run N marshal late s xs s' \<and> passed_on addrs reqID msgs s xs s' \<and> a \<in> set addrs \<and>
         ws_reach (cl_gws s a) \<and> map_of (clients (cl_gws s a)) u = Some d \<and>
         length (Send (Ws_Manager.conns (cl_gws s a) d)) +
           size {#b \<in># mem_pending (gs_store w) r. UserID b = u#} < sendCap \<longrightarrow>
         mset (enqueued (Ws_Manager.conns (cl_gws s' a) d)) =
           mset (enqueued (Ws_Manager.conns (cl_gws s a) d)) +
           image_mset (note_text r c) {#b \<in># mem_pending (gs_store w) r. UserID b = u#} + {#round_text r c#}))"
proof -
  have "\<forall>b \<in># mem_pending (gs_store w) r. monolith.payable (gs_wallet w) b"
    using assms(3) by (simp add: monolith.payable_def)
  from monolith.SettleRound_effect [where orders = orders and gms = gms and gateway = True
      and overflow = overflow, folded assms(1), OF assms(2) this assms(4), of c]
  obtain sum w' bs where w': "SettleRound uc r c w = Some (Inr sum, w')" "mset bs = mem_pending (gs_store w) r"
    "gs_sent w' = gs_sent w @ map (settleNote r c) bs @ [settleBroadcast r c]"
    by (auto simp: assms(1) NewGSUseCase_def)
  have texts: "mset (concat (map (for_user u) (map (settleNote r c) bs @ [settleBroadcast r c]))) =
      image_mset (note_text r c) {#b \<in># mem_pending (gs_store w) r. UserID b = u#} + {#round_text r c#}" for u
  proof -
    have "concat (map (for_user u) (map (settleNote r c) bs @ [settleBroadcast r c])) =
        map (note_text r c) (filter (\<lambda>b. UserID b = u) bs) @ [round_text r c]"
      by (simp only: map_append concat_append for_user_notes) (simp add: for_user_round note_text_def [abs_def])
    then show ?thesis by (simp add: w'(2) [symmetric])
  qed
  note inv = fan_reach_inv [OF assms(5)] and run = passes_on [OF assms(9,10,7), of late]
  have "mset (enqueued (Ws_Manager.conns (cl_gws s' a) d)) =
      mset (enqueued (Ws_Manager.conns (cl_gws s a) d)) +
      image_mset (note_text r c) {#b \<in># mem_pending (gs_store w) r. UserID b = u#} + {#round_text r c#}"
    if "cl_run N marshal late s xs s'"
      "passed_on addrs reqID (map (settleNote r c) bs @ [settleBroadcast r c]) s xs s'" "a \<in> set addrs"
      "ws_reach (cl_gws s a)" "map_of (clients (cl_gws s a)) u = Some d"
      "length (Send (Ws_Manager.conns (cl_gws s a) d)) +
         size {#b \<in># mem_pending (gs_store w) r. UserID b = u#} < sendCap" for xs s' a u d
  proof -
    have "length (concat (map (for_user u) (map (settleNote r c) bs @ [settleBroadcast r c]))) =
        size {#b \<in># mem_pending (gs_store w) r. UserID b = u#} + 1"
      using arg_cong [OF texts [of u], of size] by (simp only: size_mset) simp
    with that(6) have "length (Send (Ws_Manager.conns (cl_gws s a) d)) +
        length (concat (map (for_user u) (map (settleNote r c) bs @ [settleBroadcast r c]))) \<le> sendCap" by linarith
    from got_passed [OF that(1,2) assms(11) inv assms(6,8) that(3)
        ws_inv_clients_distinct [OF ws_reach_inv [OF that(4)]] that(5) this]
    show ?thesis unfolding texts by (auto simp: ac_simps)
  qed
  with w'(1) run show ?thesis
    by (intro exI [of _ sum] exI [of _ w'] conjI) (auto simp: w'(3) Let_def)
qed

text \<open>Game service, client and gateways with the sample bets, and user 7 connected to the first gateway.\<close>

definition toy_cluster :: "nat cluster" where
  "toy_cluster =
     \<lparr>cl_fan = \<lparr>cli = onServices ''gateway-service'' [''10.0.0.1:9000'', ''10.0.0.2:9000''] (NewBaseClient 0),
        callers = [], busy = [], asked = [], ran = []\<rparr>,
      cl_gws = (\<lambda>_. NewManager)(''10.0.0.1:9000'' := mono_mgr sample_monolith)\<rparr>"

lemma toy_cluster_fan:
  "fan_reach toy_network (\<lambda>_. None) (cl_fan toy_cluster)" "waiting (cl_fan toy_cluster) = {#}"
  "cachedAddrs ''gateway-service'' (cli (cl_fan toy_cluster)) = Some [''10.0.0.1:9000'', ''10.0.0.2:9000'']"
proof -
  let ?s = "\<lparr>cli = NewBaseClient (0 :: nat), callers = [], busy = [], asked = [], ran = []\<rparr>"
  have "fan_reach toy_network (\<lambda>_. None) ?s" by (rule fan_reach.start) (auto simp: fan_init_def)
  from fan_reach.step [OF this fan_step.push [of _ _ _ "''gateway-service''" "[''10.0.0.1:9000'', ''10.0.0.2:9000'']"]]
  show "fan_reach toy_network (\<lambda>_. None) (cl_fan toy_cluster)" by (simp add: toy_cluster_def)
qed (simp_all add: toy_cluster_def waiting_def onServices_def NewBaseClient_def cachedAddrs_def)

lemma toy_cluster_room:
  "distinct [''10.0.0.1:9000'', ''10.0.0.2:9000'']" "\<forall>n b. \<exists>conn n'. net_dial toy_network n b = (Inr conn, n')"
  "cl_gws toy_cluster ''10.0.0.1:9000'' = mono_mgr sample_monolith"
  by (simp_all add: toy_network_def toy_cluster_def)

text \<open>The world in which user 7 has bet 100 on red, as in the monolith.\<close>

definition one_bet :: "(MemBets, GMSUseCase, MockService, BetOrder list) gs_world" where
  "one_bet = mono_gs (mono_message sample_guc id 7 (json_enc (bet_message ''red'' 100)) sample_monolith)"

lemma one_bet_pending:
  "\<exists>now. mem_table 100 one_bet \<and> mem_pending (gs_store one_bet) ''R1'' = {#NewBet ''0'' now ''R1'' 7 REWARD_RED 100#}"
proof -
  have room: "length (Send (Ws_Manager.conns (mono_mgr sample_monolith) 0)) < sendCap"
    by (simp add: sample_start(5) sendCap_def)
  from mono_message_bet [OF sample_gs_def sample_start(9,1) _ _ _ sample_start(7,8) sample_outcome(1) sample_start(4)
      room refl, of id, folded one_bet_def sample_start(11)]
  have "mem_table 100 one_bet" "raised_or_added ''R1'' 7 REWARD_RED 100 ''0'' {#} (mem_pending (gs_store one_bet) ''R1'')"
    by (auto simp: sample_start(2))
  then show ?thesis by (simp add: raised_or_added_def)
qed

lemma exists_both: "\<exists>x y. P x y \<and> Q y \<and> R y \<Longrightarrow> (\<And>y. Q y \<Longrightarrow> R y \<Longrightarrow> thesis) \<Longrightarrow> thesis"
  by blast

text \<open>With the bet of user 7 pending the connection of user 7 gets the win and the end of the round.\<close>

theorem settlement_reaches_players_witness:
  "\<exists>xs s' now. cl_run toy_network (\<lambda>_. None) id toy_cluster xs s' \<and>
     mset (enqueued (Ws_Manager.conns (cl_gws s' ''10.0.0.1:9000'') 0)) =
       {#note_text ''R1'' REWARD_RED (NewBet ''0'' now ''R1'' 7 REWARD_RED 100), round_text ''R1'' REWARD_RED#}"
proof -
  from one_bet_pending obtain now where table: "mem_table 100 one_bet"
    and pending: "mem_pending (gs_store one_bet) ''R1'' = {#NewBet ''0'' now ''R1'' 7 REWARD_RED 100#}" by blast
  have payable: "\<forall>b \<in># mem_pending (gs_store one_bet) ''R1''.
      UserID b \<in> dom (balances (gs_wallet one_bet)) \<and> fair_amount (Amount b)"
    using monolith.table_payable [of 100 one_bet "''R1''"] table by (simp add: mem_table_iff monolith.payable_def)
  have inv: "mem_inv (gs_store one_bet)" using table by (simp add: mem_table_def)
  let ?b = "NewBet ''0'' now ''R1'' 7 REWARD_RED 100"
  have marshals: "\<forall>e :: proto_message. (None :: go_error option) = None" by simp
  from settlement_reaches_players [OF sample_gs_def inv payable sample_orders_persist toy_cluster_fan toy_cluster_room(1,2)
      marshals sample_start(10), where reqID = "''r-1''" and c = REWARD_RED and gms = gmsLocal]
  obtain w' :: "(MemBets, GMSUseCase, MockService, BetOrder list) gs_world"
    where w': "\<exists>xs s'. cl_run toy_network (\<lambda>_. None) id toy_cluster xs s' \<and>
      passed_on [''10.0.0.1:9000'', ''10.0.0.2:9000''] ''r-1'' (drop (length (gs_sent one_bet)) (gs_sent w')) toy_cluster xs s'"
    and all: "\<forall>xs s' a u d. cl_run toy_network (\<lambda>_. None) id toy_cluster xs s' \<and>
      passed_on [''10.0.0.1:9000'', ''10.0.0.2:9000''] ''r-1'' (drop (length (gs_sent one_bet)) (gs_sent w')) toy_cluster xs s' \<and>
      a \<in> set [''10.0.0.1:9000'', ''10.0.0.2:9000''] \<and>
      ws_reach (cl_gws toy_cluster a) \<and> map_of (clients (cl_gws toy_cluster a)) u = Some d \<and>
      length (Send (Ws_Manager.conns (cl_gws toy_cluster a) d)) +
        size {#b \<in># mem_pending (gs_store one_bet) ''R1''. UserID b = u#} < sendCap \<longrightarrow>
      mset (enqueued (Ws_Manager.conns (cl_gws s' a) d)) =
        mset (enqueued (Ws_Manager.conns (cl_gws toy_cluster a) d)) +
        image_mset (note_text ''R1'' REWARD_RED) {#b \<in># mem_pending (gs_store one_bet) ''R1''. UserID b = u#} +
        {#round_text ''R1'' REWARD_RED#}"
    unfolding Let_def by (rule exists_both)
  from w' obtain xs s' where run: "cl_run toy_network (\<lambda>_. None) id toy_cluster xs s'"
    "passed_on [''10.0.0.1:9000'', ''10.0.0.2:9000''] ''r-1'' (drop (length (gs_sent one_bet)) (gs_sent w')) toy_cluster xs s'"
    by blast
  have "{#b \<in># mem_pending (gs_store one_bet) ''R1''. UserID b = 7#} = {#?b#}" by (simp add: pending NewBet_def)
  with all [THEN spec, of xs, THEN spec, of s', THEN spec, of "''10.0.0.1:9000''", THEN spec, of 7, THEN spec, of 0]
    run sample_start(3-6)
  have "mset (enqueued (Ws_Manager.conns (cl_gws s' ''10.0.0.1:9000'') 0)) =
      {#note_text ''R1'' REWARD_RED ?b, round_text ''R1'' REWARD_RED#}"
    by (simp add: toy_cluster_room(3) sendCap_def)
  with run(1) show ?thesis by blast
qed

section \<open>The order of the notifications\<close>

text \<open>Unlike in the monolith, where the settlement hands its notifications to the connections itself, the order
  is not kept: two workers can run the tasks of two messages for one gateway the other way round, with no
  call lost.\<close>

lemma workers_can_swap:
  assumes "cachedAddrs ''gateway-service'' (cli f) = Some [a]" "\<forall>e. marshal e = None"
    and "callers f = []" "broadcastQueue (cli f) = []" "busy f = []"
    and "t1 = GatewayTask a reqID (message_req msg1)" "t2 = GatewayTask a reqID (message_req msg2)"
  shows "\<exists>g. (fan_step N marshal)\<^sup>*\<^sup>* f g \<and> asked g = asked f @ [t1, t2] \<and>
     map fst (ran g) = map fst (ran f) @ [t2, t1] \<and> busy g = [] \<and> ephemeral (cli g) = ephemeral (cli f) \<and>
     broadcastQueue (cli g) = [] \<and> callers g = [[], []]"
proof -
  let ?q = "\<lambda>q. (cli f)\<lparr>broadcastQueue := q\<rparr>"
  let ?F = "\<lambda>c cs bs rs. \<lparr>cli = c, callers = cs, busy = bs, asked = asked f @ [t1, t2], ran = rs\<rparr>"
  have f: "f = \<lparr>cli = cli f, callers = [], busy = [], asked = asked f, ran = ran f\<rparr>" using assms(3,5) by simp
  have two: "fold (tell N marshal reqID) [msg1, msg2] f = ?F (cli f) [[t1], [t2]] [] (ran f)"
    using assms by (subst f) (simp add: tell_cached fan_tasks_def)
  have same: "?q [] = cli f" using assms(4) by simp
  obtain r2 c2 r1 c1 where r: "runTask N t2 (cli f) = (r2, c2)" "runTask N t1 c2 = (r1, c1)" by fastforce
  note [trans] = rtranclp.rtrancl_into_rtrancl
  from tells_steps [of N marshal f reqID "[msg1, msg2]"] two
  have "(fan_step N marshal)\<^sup>*\<^sup>* f (?F (cli f) [[t1], [t2]] [] (ran f))" by simp
  also have "fan_step N marshal \<dots> (?F (?q [t1]) [[], [t2]] [] (ran f))"
    using submit [of "?F (cli f) [[t1], [t2]] [] (ran f)" "[]" t1 "[]" "[[t2]]" N marshal] assms(4)
    by (simp add: SubmitTask_def queueCap_def)
  also have "fan_step N marshal \<dots> (?F (?q [t1, t2]) [[], []] [] (ran f))"
    using submit [of "?F (?q [t1]) [[], [t2]] [] (ran f)" "[[]]" t2 "[]" "[]" N marshal]
    by (simp add: SubmitTask_def queueCap_def)
  also have "fan_step N marshal \<dots> (?F (?q [t2]) [[], []] [t1] (ran f))"
    using fan_step.take [of "?F (?q [t1, t2]) [[], []] [] (ran f)" t1 "[t2]" N marshal] by (simp add: poolSize_def)
  also have "fan_step N marshal \<dots> (?F (cli f) [[], []] [t1, t2] (ran f))"
    using fan_step.take [of "?F (?q [t2]) [[], []] [t1] (ran f)" t2 "[]" N marshal] same by (simp add: poolSize_def)
  also have "fan_step N marshal \<dots> (?F c2 [[], []] (remove1 t2 [t1, t2]) (ran f @ [(t2, r2)]))"
    using run_worker [of t2 "?F (cli f) [[], []] [t1, t2] (ran f)" N r2 c2 marshal] r by simp
  also have "fan_step N marshal \<dots> (?F c1 [[], []] [] (ran f @ [(t2, r2), (t1, r1)]))"
    using run_worker [of t1 "?F c2 [[], []] (remove1 t2 [t1, t2]) (ran f @ [(t2, r2)])" N r1 c1 marshal] r
    by (cases "t1 = t2") simp_all
  finally show ?thesis
    using runTask_spec [OF r(1)] runTask_spec [OF r(2)] assms(4)
    by (intro exI [of _ "?F c1 [[], []] [] (ran f @ [(t2, r2), (t1, r1)])"] conjI) simp_all
qed

lemma notices_can_overtake:
  assumes "cachedAddrs ''gateway-service'' (cli (cl_fan s)) = Some [a]" "\<forall>e. marshal e = None"
    and "\<forall>n b. \<exists>conn n'. net_dial N n b = (Inr conn, n')"
    and "fan_inv (cl_fan s)" "callers (cl_fan s) = []" "broadcastQueue (cli (cl_fan s)) = []"
    "ephemeral (cli (cl_fan s)) = []" "busy (cl_fan s) = []"
  shows "\<exists>xs s'. cl_run N marshal late s xs s' \<and> passed_on [a] reqID [msg1, msg2] s xs s' \<and>
     told a u xs = for_user u msg2 @ for_user u msg1"
proof -
  from workers_can_swap [OF assms(1,2,5,6,8) refl refl, of N reqID msg1 msg2] obtain g where
    g: "(fan_step N marshal)\<^sup>*\<^sup>* (cl_fan s) g" "asked g = asked (cl_fan s) @ concat (map (fan_tasks [a] reqID) [msg1, msg2])"
      "map fst (ran g) = map fst (ran (cl_fan s)) @ [GatewayTask a reqID (message_req msg2), GatewayTask a reqID (message_req msg1)]"
      "waiting g = {#}" by (auto simp: fan_tasks_def waiting_def assms(7))
  from lift_steps [OF assms(3) g(1)] obtain xs s' where
    s': "cl_run N marshal late s xs s'" "cl_fan s' = g" "\<forall>x \<in> set xs. snd x" by blast
  with cl_run_fan [OF s'(1) assms(4)] g(3)
  have "map fst xs = [GatewayTask a reqID (message_req msg2), GatewayTask a reqID (message_req msg1)]" by simp
  with s'(3) have "told a u xs = for_user u msg2 @ for_user u msg1"
    by (auto simp: told_def Cons_eq_map_conv)
  with s' g(2,4) show ?thesis unfolding passed_on_def by blast
qed

end
