(* ===== verification/Remote.thy ===== *)
theory Remote
  imports System Grpc_Services Fanout
begin

text \<open>
  The services behind their gRPC clients: the game machine service and the game service as servers
  (\<open>gms_server\<close>, \<open>gs_server\<close>), the clients of \<^verbatim>\<open>pkg/grpc_client/color_game\<close> in front of them, and the lemmas
  that over a network on which dials succeed a call to the client is a call to the handler of the server.
\<close>

section \<open>The servers\<close>

text \<open>The methods a process does not serve are refused by gRPC.\<close>

definition unserved :: "conn \<Rightarrow> 'q \<Rightarrow> 'v \<Rightarrow> 'p go_result \<times> 'v" where
  "unserved conn req v = (Inl ''rpc error: code = Unimplemented'', v)"

definition gms_server :: "GMSUseCase game_stub" where
  "gms_server =
     \<lparr>gst_RecordBet = \<lambda>conn req v. grpc_RecordBet v req, gst_GetCurrentRound = \<lambda>conn req v. grpc_GetCurrentRound v req,
      gst_PlaceBet = unserved, gst_GetState = unserved, gst_RoundResult = unserved\<rparr>"

definition gs_server ::
    "(go_time \<Rightarrow> int) \<Rightarrow> ('r, 'm, 'w, 'd) GSUseCase \<Rightarrow> ('r, 'm, 'w, 'd) gs_world game_stub" where
  "gs_server tz uc =
     \<lparr>gst_RecordBet = unserved, gst_GetCurrentRound = unserved,
      gst_PlaceBet = \<lambda>conn req w. (case grpc_PlaceBet uc req w of (rsp, w) \<Rightarrow> (Inr rsp, w)),
      gst_GetState = \<lambda>conn req w. (case grpc_GetState tz uc req w of (rsp, w) \<Rightarrow> (Inr rsp, w)),
      gst_RoundResult = \<lambda>conn req w. (Inr (fst (grpc_RoundResult req)), w)\<rparr>"

section \<open>A network that is up\<close>

definition net_up :: "'n network \<Rightarrow> bool" where
  "net_up N \<longleftrightarrow> (\<forall>n a. \<exists>conn n'. net_dial N n a = (Inr conn, n'))"

definition knows :: "string \<Rightarrow> ('n, 'v) rpc_world \<Rightarrow> bool" where
  "knows name w \<longleftrightarrow> cachedAddrs name (rw_client w) \<noteq> None"

definition same_addrs :: "('n, 'v) rpc_world \<Rightarrow> ('n, 'v) rpc_world \<Rightarrow> bool" where
  "same_addrs w w' \<longleftrightarrow> serviceAddrs (rw_client w') = serviceAddrs (rw_client w)"

lemma same_addrs_knows: "same_addrs w w' \<Longrightarrow> knows name w' = knows name w"
  by (simp add: same_addrs_def knows_def cachedAddrs_def)

lemma connect_up:
  assumes "net_up N" "knows name w"
  obtains conn w' where "connect N name w = (Inr conn, w')" "rw_server w' = rw_server w" "same_addrs w w'"
proof -
  from assms(2) obtain addrs where addrs: "cachedAddrs name (rw_client w) = Some addrs" "addrs \<noteq> []"
    by (auto simp: knows_def cachedAddrs_def split: option.splits if_splits)
  obtain i n where i: "net_Intn N (net (rw_client w)) (length addrs) = (i, n)" by fastforce
  obtain r c where r: "getConnDirect N (addrs ! i) ((rw_client w)\<lparr>net := n\<rparr>) = (r, c)" by fastforce
  have "\<exists>conn. r = Inr conn"
    using r assms(1) unfolding net_up_def getConnDirect_def
    by (auto split: option.splits sum.splits prod.splits) (metis Inl_Inr_False prod.inject)
  moreover have "serviceAddrs c = serviceAddrs (rw_client w)" using getConnDirect_spec [OF r] by simp
  moreover have "GetLBConn N name (rw_client w) = (r, c)"
    using addrs i r by (simp add: GetLBConn_def GetServiceAddrs_def)
  ultimately show ?thesis using that [of _ "w\<lparr>rw_client := c\<rparr>"]
    by (auto simp: connect_def same_addrs_def)
qed

text \<open>A call to a client is a call to the handler, and leaves the client with the addresses it had.\<close>

definition passes ::
    "(('n, 'v) rpc_world \<Rightarrow> 'q \<Rightarrow> 'p go_result \<times> ('n, 'v) rpc_world) \<Rightarrow> ('v \<Rightarrow> 'q \<Rightarrow> 'p go_result \<times> 'v)
      \<Rightarrow> ('n, 'v) rpc_world \<Rightarrow> 'q \<Rightarrow> bool" where
  "passes f h w req \<longleftrightarrow> (\<exists>w'. f w req = (fst (h (rw_server w) req), w') \<and> rw_server w' = snd (h (rw_server w) req) \<and>
     same_addrs w w')"

lemma passes_call:
  assumes "net_up N" "knows name w" "\<And>conn. g conn (rw_server w) = h (rw_server w) req"
    and "f w req = (case connect N name w of (Inl err, w) \<Rightarrow> (Inl err, w) | (Inr conn, w) \<Rightarrow> call (g conn) w)"
  shows "passes f h w req"
proof -
  obtain conn w1 where c: "connect N name w = (Inr conn, w1)" "rw_server w1 = rw_server w" "same_addrs w w1"
    by (rule connect_up [OF assms(1,2)])
  then show ?thesis
    by (auto simp: passes_def assms(3,4) call_def same_addrs_def split: prod.splits)
qed

lemma gms_passes:
  assumes "net_up N" "knows ''gms-service'' w"
  shows "passes (svc_RecordBet (clientGms N gms_server)) (svc_RecordBet gmsGrpc) w req"
    "passes (svc_GetCurrentRound (clientGms N gms_server)) (svc_GetCurrentRound gmsGrpc) w creq"
  by (rule passes_call [OF assms]; simp add: clientGms_def client_RecordBet_def client_GetCurrentRound_def
      gms_server_def gmsGrpc_def)+

lemma gs_passes:
  assumes "net_up N" "knows ''gs-service'' w"
  shows "passes (gsv_PlaceBet (clientGs N (gs_server tz uc))) (gsv_PlaceBet (gsGrpc tz uc)) w req"
    "passes (gsv_GetState (clientGs N (gs_server tz uc))) (gsv_GetState (gsGrpc tz uc)) w sreq"
  by (rule passes_call [OF assms]; simp add: clientGs_def client_gs_PlaceBet_def client_GetState_def
      gs_server_def gsGrpc_def)+

section \<open>Bets\<close>

lemma remote_bet_outcome:
  assumes "net_up N" "knows ''gms-service'' w" "bet_outcome gmsGrpc (rw_server w) u c a = (ch, acc, g)"
  shows "\<exists>w'. bet_outcome (clientGms N gms_server) w u c a = (ch, acc, w') \<and> rw_server w' = g \<and> same_addrs w w'"
proof -
  let ?q = "\<lparr>crq_UserId = 0\<rparr>"
  obtain w1 where w1: "svc_GetCurrentRound (clientGms N gms_server) w ?q = (fst (svc_GetCurrentRound gmsGrpc (rw_server w) ?q), w1)"
    "rw_server w1 = snd (svc_GetCurrentRound gmsGrpc (rw_server w) ?q)" "same_addrs w w1"
    using gms_passes(2) [OF assms(1,2), of ?q] unfolding passes_def by blast
  show ?thesis
  proof (cases "svc_GetCurrentRound gmsGrpc (rw_server w) ?q")
    case (Pair x g1)
    show ?thesis
    proof (cases x)
      case (Inl e)
      then show ?thesis using Pair w1 assms(3) by (simp add: bet_outcome_def)
    next
      case (Inr rsp)
      let ?b = "\<lparr>rbq_RoundId = crs_RoundId rsp, rbq_UserId = u, rbq_Color = c, rbq_Amount = a\<rparr>"
      have "knows ''gms-service'' w1" using assms(2) same_addrs_knows [OF w1(3)] by simp
      from gms_passes(1) [OF assms(1) this, of ?b] obtain w2 where
        w2: "svc_RecordBet (clientGms N gms_server) w1 ?b = (fst (svc_RecordBet gmsGrpc (rw_server w1) ?b), w2)"
          "rw_server w2 = snd (svc_RecordBet gmsGrpc (rw_server w1) ?b)" "same_addrs w1 w2"
        unfolding passes_def by blast
      obtain y g2 where y: "svc_RecordBet gmsGrpc (rw_server w1) ?b = (y, g2)" by fastforce
      have "rw_server w1 = g1" using w1(2) Pair by simp
      then show ?thesis using Pair Inr w1 w2 y assms(3)
        by (cases y) (auto simp: bet_outcome_def same_addrs_def split: if_splits)
    qed
  qed
qed

text \<open>Any number of attempts to bet.\<close>

lemma remote_outcomes:
  assumes "net_up N" "knows ''gms-service'' w"
  shows "outcomes (clientGms N gms_server) ts w = outcomes gmsGrpc ts (rw_server w)"
  using assms(2)
proof (induction ts arbitrary: w)
  case (Cons t ts)
  obtain u c a where t: "t = (u, c, a)" by (cases t)
  obtain ch acc g where o: "bet_outcome gmsGrpc (rw_server w) u c a = (ch, acc, g)" by (cases "bet_outcome gmsGrpc (rw_server w) u c a")
  from remote_bet_outcome [OF assms(1) Cons.prems o] obtain w' where
    w': "bet_outcome (clientGms N gms_server) w u c a = (ch, acc, w')" "rw_server w' = g" "same_addrs w w'" by blast
  with Cons.IH [of w'] Cons.prems same_addrs_knows [OF w'(3)] show ?case by (simp add: t o)
qed simp

end
