(* ===== verification/Micro.thy ===== *)
theory Micro
  imports Cluster Remote
begin

text \<open>
  One bet through the microservices, from the text of the player's message to the money and the messages on
  the connection: the gateway calls the game service, and this the game machine service, through their gRPC
  clients; the notifications of the settlement go through the workers of the game service's client to the
  gateways.  The base client of the game service appears twice, as the one it calls the game machine service
  with and as the one with the workers: what they share, addresses and connections, is by name of the service.
  The messages the game machine itself sends meanwhile are not in the run; \<^verbatim>\<open>Fanout\<close> and \<^verbatim>\<open>Gms_UseCase\<close> treat them.
\<close>

section \<open>The bet\<close>


section \<open>Properties\<close>



text \<open>The sample game service with the sample machine behind a client, itself behind a client.\<close>

definition behind :: "string \<Rightarrow> 'v \<Rightarrow> (nat, 'v) rpc_world" where
  "behind name v =
     \<lparr>rw_client = onServices name [''10.0.0.9:9000''] (NewBaseClient 0), rw_server = v, rw_clock = \<lambda>_. 0, rw_reads = 0\<rparr>"




lemma behind_simps [simp]: "knows name (behind name v)" "rw_server (behind name v) = v"
  by (simp_all add: behind_def knows_def cachedAddrs_def onServices_def)






end
