(* ===== verification/Live.thy ===== *)
theory Live
  imports System Gms_Props
begin

text \<open>
  The monolith with its game machine running: the goroutine of the machine, its workers, the players, the
  settlements and the pumps of the connections take turns, and what a bet sees of the machine is the machine
  at that moment.  A run is labelled with the events the workers have handled, the messages of the players
  and the settlements.  Then one bet is followed through the rest of its round.
\<close>

section \<open>The wiring\<close>

record 'd live =
  lv_gms :: gms_sys
  lv_mono :: "'d monolith"

datatype live_label = Handled GameEvent | Said int64 string | Settled settlement_task

text \<open>The use case of the game machine reads the machine that runs.  A message is handled at one instant.\<close>

definition see :: "gms_sys \<Rightarrow> 'd monolith \<Rightarrow> 'd monolith" where
  "see g M =
     M\<lparr>mono_gs := (mono_gs M)\<lparr>gs_gms := (gs_gms (mono_gs M))\<lparr>stateMachine := \<lambda>_. (clock g, mach g)\<rparr>\<rparr>\<rparr>"

text \<open>The steps: one of the machine in which no handler returns (the monolith never cancels its context, and
  registers its handler once); one in which a worker, or a goroutine of a full queue, has handled an event; a
  message of a player; the goroutine of a settlement; a turn of a write pump.\<close>

inductive live_step ::
    "(go_time \<Rightarrow> int) \<Rightarrow> (MemBets, GMSUseCase, MockService, 'd) GSUseCase
      \<Rightarrow> (MemBets, GMSUseCase, MockService, 'd) gs_world GatewayUseCase \<Rightarrow> (Manager \<Rightarrow> Manager)
      \<Rightarrow> 'd live \<Rightarrow> live_label list \<Rightarrow> 'd live \<Rightarrow> bool" for tz uc guc late where
  machine: "gms_step tz (lv_gms S) g \<Longrightarrow> finished g = finished (lv_gms S) \<Longrightarrow> ctxDone g = ctxDone (lv_gms S) \<Longrightarrow>
     eventHandlers (mach g) = eventHandlers (mach (lv_gms S)) \<Longrightarrow> live_step tz uc guc late S [] (S\<lparr>lv_gms := g\<rparr>)"
| handled: "gms_step tz (lv_gms S) g \<Longrightarrow> finished g = finished (lv_gms S) @ [(h, e)] \<Longrightarrow>
     live_step tz uc guc late S [Handled e]
       (S\<lparr>lv_gms := g, lv_mono := mono_event (clock g) e (lv_mono S)\<rparr>)"
| said: "live_step tz uc guc late S [Said u msg]
     (S\<lparr>lv_mono := mono_message guc late u msg (see (lv_gms S) (lv_mono S))\<rparr>)"
| settle: "mono_tasks (lv_mono S) = ts @ t # ts' \<Longrightarrow> mono_settle uc late t (lv_mono S) = Some M \<Longrightarrow>
     live_step tz uc guc late S [Settled t] (S\<lparr>lv_mono := M\<lparr>mono_tasks := ts @ ts'\<rparr>\<rparr>)"
| pump: "c < nextConn (mono_mgr (lv_mono S)) \<Longrightarrow> writing (conns (mono_mgr (lv_mono S)) c) \<Longrightarrow>
     live_step tz uc guc late S []
       (S\<lparr>lv_mono := (lv_mono S)\<lparr>mono_mgr := pump_write ok c (mono_mgr (lv_mono S))\<rparr>\<rparr>)"

inductive live_run ::
    "(go_time \<Rightarrow> int) \<Rightarrow> (MemBets, GMSUseCase, MockService, 'd) GSUseCase
      \<Rightarrow> (MemBets, GMSUseCase, MockService, 'd) gs_world GatewayUseCase \<Rightarrow> (Manager \<Rightarrow> Manager)
      \<Rightarrow> 'd live \<Rightarrow> live_label list \<Rightarrow> 'd live \<Rightarrow> bool" for tz uc guc late S where
  none: "live_run tz uc guc late S [] S"
| more: "live_run tz uc guc late S xs S1 \<Longrightarrow> live_step tz uc guc late S1 ys S2 \<Longrightarrow>
     live_run tz uc guc late S (xs @ ys) S2"

inductive_cases said_step: "live_step tz uc guc late S [Said u msg] S1"

text \<open>What a run handled and settled, and what it tells a player whose only bet is \<open>betID\<close>, on the color
  that wins.\<close>

definition handleds :: "live_label list \<Rightarrow> GameEvent list" where
  "handleds = List.map_filter (\<lambda>x. case x of Handled e \<Rightarrow> Some e | _ \<Rightarrow> None)"

definition settleds :: "live_label list \<Rightarrow> settlement_task list" where
  "settleds = List.map_filter (\<lambda>x. case x of Settled t \<Rightarrow> Some t | _ \<Rightarrow> None)"

fun is_said :: "live_label \<Rightarrow> bool" where
  "is_said (Said u msg) = True"
| "is_said _ = False"

fun told_of :: "string \<Rightarrow> int64 \<Rightarrow> live_label \<Rightarrow> string list" where
  "told_of betID a (Handled e) = [event_text e]"
| "told_of betID a (Settled t) =
     [win_text (task_round t) (task_color t) betID a, round_text (task_round t) (task_color t)]"
| "told_of betID a (Said u msg) = []"

lemma label_lists [simp]:
  "handleds [] = []" "handleds (xs @ ys) = handleds xs @ handleds ys" "handleds (Handled e # xs) = e # handleds xs"
  "handleds (Said u msg # xs) = handleds xs" "handleds (Settled t # xs) = handleds xs"
  "settleds [] = []" "settleds (xs @ ys) = settleds xs @ settleds ys" "settleds (Handled e # xs) = settleds xs"
  "settleds (Said u msg # xs) = settleds xs" "settleds (Settled t # xs) = t # settleds xs"
  by (simp_all add: handleds_def settleds_def List.map_filter_def)

lemma live_run_trans:
  "live_run tz uc guc late S1 ys S2 \<Longrightarrow> live_run tz uc guc late S xs S1 \<Longrightarrow> live_run tz uc guc late S (xs @ ys) S2"
  by (induction rule: live_run.induct) (auto simp: append_assoc [symmetric] simp del: append_assoc intro: live_run.more)

section \<open>The machine beside\<close>

text \<open>What no step of the machine, and no return of a handler, changes in the monolith.\<close>

lemma main_keeps: "main_step tz s t \<Longrightarrow> finished t = finished s \<and> ctxDone t = ctxDone s \<and>
    eventHandlers (mach t) = eventHandlers (mach s)"
  by (induction rule: main_step.induct) (auto simp: machine_defs)

lemma finish_keeps:
  assumes "gms_step tz s t" "finished t = finished s @ [x]"
  shows "eventHandlers (mach t) = eventHandlers (mach s)" "ctxDone t = ctxDone s" "emitted t = emitted s"
proof -
  have "env_step s t" using assms main_keeps [of tz s t] by (auto simp: gms_step_def)
  then have "eventHandlers (mach t) = eventHandlers (mach s) \<and> ctxDone t = ctxDone s \<and> emitted t = emitted s"
    using assms(2) by (induction rule: env_step.induct) auto
  then show "eventHandlers (mach t) = eventHandlers (mach s)" "ctxDone t = ctxDone s" "emitted t = emitted s" by auto
qed

lemma step_emits:
  assumes "gms_step tz s t"
  shows "\<exists>zs. emitted t = emitted s @ zs \<and> (\<forall>x \<in> set zs. snd x = eventHandlers (mach s))"
proof -
  have "main_step tz s t \<Longrightarrow> ?thesis" by (induction rule: main_step.induct) (auto simp: emit_def)
  moreover have "env_step s t \<Longrightarrow> ?thesis" by (induction rule: env_step.induct) auto
  ultimately show ?thesis using assms by (auto simp: gms_step_def)
qed

text \<open>Every event emitted is of a type that is shown, and what was handled was emitted.\<close>

lemma reach_shown: "gms_reach tz s \<Longrightarrow> \<forall>(e, hs) \<in> set (emitted s). ev_Type e \<in> shown_types"
proof (induction rule: gms_reach_induct)
  case (main s t)
  have "ev_Type (phaseEvent p rid res m) \<in> shown_types" for p rid res m
    by (cases p) (simp_all add: shown_types_def)
  with main(2,3) show ?case
    by (auto simp: emit_def stoppedEvent_def elim!: main_step.cases) (auto simp: shown_types_def)
next
  case (env s t)
  from env(2,3) show ?case by (induction rule: env_step.induct) auto
qed (simp add: gms_init_def)

lemma job_emitted: "(h, e) \<in># jobs_of es \<Longrightarrow> \<exists>hs. (e, hs) \<in> set es"
  by (auto simp: jobs_of_def)

lemma finished_shown:
  assumes "gms_reach tz s" "(h, e) \<in> set (finished s)"
  shows "ev_Type e \<in> shown_types"
proof -
  have "(h, e) \<in># jobs_of (emitted s)"
    using reach_jobs_inv [OF assms(1)] assms(2) by (metis jobs_inv_def UnCI set_mset_mset set_mset_union)
  from job_emitted [OF this] reach_shown [OF assms(1)] show ?thesis by fastforce
qed

text \<open>No round is without an ID.\<close>

lemma reach_round_id: "gms_reach tz s \<Longrightarrow> pc_round (ctl s) = Some (rid, st, res) \<Longrightarrow> rid \<noteq> []"
proof (induction arbitrary: rid st res rule: gms_reach_induct)
  case (main s t)
  from main(2,3,4) show ?case
    by (induction rule: main_step.induct) (auto simp: generateRoundID_def format14_nonempty split: if_splits)
next
  case (env s t)
  then show ?case using stopping_env [OF env(2)] by metis
qed (simp add: gms_init_def)

section \<open>The rest of the round\<close>

text \<open>No handler is waiting or running, and only \<open>h\<close> is registered.\<close>

definition quiet :: "nat \<Rightarrow> gms_sys \<Rightarrow> bool" where
  "quiet h g \<longleftrightarrow> jobQueue (mach g) = [] \<and> degraded (mach g) = [] \<and> running g = [] \<and> eventHandlers (mach g) = [h] \<and>
     \<not> ctxDone g"

text \<open>What a run does to a player with one bet, on the color of the only settlement in it, when no player sends
  anything.\<close>

lemma live_run_effect:
  fixes S :: "'d live"
  assumes "live_run tz uc guc late S xs S'"
    and "\<not> list_ex is_said xs" "settleds xs = [] \<or> settleds xs = [SettleWith True r c]"
    and "uc = NewGSUseCase memRepo orders gmsLocal mockWallet True overflow" "orders_persist uc rows"
    and "mem_table T (mono_gs (lv_mono S))" "T \<le> 2 ^ 52" "others_write late"
    and "raised_or_added r u c a betID B (mem_pending (gs_store (mono_gs (lv_mono S))) r)" "\<forall>b \<in># B. UserID b \<noteq> u"
    and "0 < sint a" "sint a \<le> 2 ^ 52"
    and "gms_reach tz (lv_gms S)" "eventHandlers (mach (lv_gms S)) = [h]"
    and "gatewayBroadcaster (gs_gms (mono_gs (lv_mono S)))" "gsBroadcaster (gs_gms (mono_gs (lv_mono S)))"
    and "mono_tasks (lv_mono S) = []"
    and "distinct (map snd (clients (mono_mgr (lv_mono S))))" "map_of (clients (mono_mgr (lv_mono S))) u = Some d"
    and "length (Send (conns (mono_mgr (lv_mono S)) d)) + length (concat (map (told_of betID a) xs)) \<le> sendCap"
  shows "gms_reach tz (lv_gms S') \<and> eventHandlers (mach (lv_gms S')) = [h] \<and>
     map snd (finished (lv_gms S')) = map snd (finished (lv_gms S)) @ handleds xs \<and>
     (\<exists>zs. emitted (lv_gms S') = emitted (lv_gms S) @ zs \<and> (\<forall>x \<in> set zs. snd x = [h])) \<and>
     got d (concat (map (told_of betID a) xs)) (mono_mgr (lv_mono S)) (mono_mgr (lv_mono S')) \<and>
     gs_gms (mono_gs (lv_mono S')) = gs_gms (mono_gs (lv_mono S)) \<and>
     (settleds xs = [] \<longrightarrow> mono_gs (lv_mono S') = mono_gs (lv_mono S) \<and>
        mono_tasks (lv_mono S') = concat (map event_tasks (handleds xs))) \<and>
     (settleds xs \<noteq> [] \<longrightarrow>
        wallet_balance mockWallet (gs_wallet (mono_gs (lv_mono S'))) u =
          wallet_balance mockWallet (gs_wallet (mono_gs (lv_mono S))) u + 2 * a \<and>
        SettleWith True r c \<in> set (concat (map event_tasks (handleds xs))))"
  using assms(1-3,20)
proof (induction rule: live_run.induct)
  case none
  then show ?case using assms(13,14,17) by (simp add: got_refl)
next
  case (more xs S1 ys S2)
  let ?told = "\<lambda>xs. concat (map (told_of betID a) xs)" and ?mgr = "\<lambda>S. mono_mgr (lv_mono S)"
  have "settleds xs = [] \<or> settleds xs = [SettleWith True r c]"
    using more.prems(2) by (auto simp: append_eq_Cons_conv)
  with more.IH more.prems have IH: "gms_reach tz (lv_gms S1)" "eventHandlers (mach (lv_gms S1)) = [h]"
    "map snd (finished (lv_gms S1)) = map snd (finished (lv_gms S)) @ handleds xs"
    "\<exists>zs. emitted (lv_gms S1) = emitted (lv_gms S) @ zs \<and> (\<forall>x \<in> set zs. snd x = [h])"
    "got d (?told xs) (?mgr S) (?mgr S1)" "gs_gms (mono_gs (lv_mono S1)) = gs_gms (mono_gs (lv_mono S))"
    "settleds xs = [] \<longrightarrow> mono_gs (lv_mono S1) = mono_gs (lv_mono S) \<and>
        mono_tasks (lv_mono S1) = concat (map event_tasks (handleds xs))"
    "settleds xs \<noteq> [] \<longrightarrow> wallet_balance mockWallet (gs_wallet (mono_gs (lv_mono S1))) u =
          wallet_balance mockWallet (gs_wallet (mono_gs (lv_mono S))) u + 2 * a \<and>
        SettleWith True r c \<in> set (concat (map event_tasks (handleds xs)))" by auto
  have mgr: "distinct (map snd (clients (?mgr S1)))" "map_of (clients (?mgr S1)) u = Some d"
    "length (Send (conns (?mgr S1) d)) + length (?told ys) \<le> sendCap"
    using IH(5) assms(18,19) more.prems(3) by (auto simp: got_def)
  from more.hyps(2) show ?case
  proof cases
    case (machine g)
    have "gms_reach tz g" using reach_step [OF IH(1) machine(3)] .
    moreover from step_emits [OF machine(3)] IH(2,4)
    have "\<exists>zs. emitted g = emitted (lv_gms S) @ zs \<and> (\<forall>x \<in> set zs. snd x = [h])" by fastforce
    ultimately show ?thesis using IH machine by simp
  next
    case (handled g h' e)
    have g: "gms_reach tz g" using reach_step [OF IH(1) handled(3)] .
    have "ev_Type e \<in> shown_types" using finished_shown [OF g, of h' e] handled(4) by simp
    moreover have "length (Send (conns (?mgr S1) d)) < sendCap" using mgr(3) handled(1) by simp
    ultimately have ev: "mono_gs (lv_mono S2) = mono_gs (lv_mono S1)" "got d [event_text e] (?mgr S1) (?mgr S2)"
      "mono_tasks (lv_mono S2) = mono_tasks (lv_mono S1) @ event_tasks e"
      using mono_event_effect [OF _ _ _ mgr(1,2), of e "lv_mono S2" "clock g"] assms(15,16) IH(6) handled(2) by auto
    note keeps = finish_keeps [OF handled(3,4)]
    show ?thesis
      using IH g keeps ev handled got_trans [OF IH(5) ev(2)] by auto
  next
    case (said v msg)
    then show ?thesis using more.prems(1) by simp
  next
    case (settle ts t ts' M)
    with more.prems(2) have st: "settleds xs = []" "t = SettleWith True r c" by (auto simp: append_eq_Cons_conv)
    with IH(7) have eq: "mono_gs (lv_mono S1) = mono_gs (lv_mono S)" by simp
    have "length (Send (conns (?mgr S1) d)) + 2 \<le> sendCap" using mgr(3) settle(1) by simp
    from mono_settle_bet [OF assms(4,5) assms(6) [folded eq] assms(7,8) assms(9) [folded eq] assms(10-12) mgr(1,2) this]
      settle(4) st(2)
    have M: "got d [win_text r c betID a, round_text r c] (?mgr S1) (mono_mgr M)"
      "wallet_balance mockWallet (gs_wallet (mono_gs M)) u =
         wallet_balance mockWallet (gs_wallet (mono_gs (lv_mono S1))) u + 2 * a"
      "gs_gms (mono_gs M) = gs_gms (mono_gs (lv_mono S1))" by auto
    have "SettleWith True r c \<in> set (mono_tasks (lv_mono S1))" using settle(3) st(2) by simp
    then have "SettleWith True r c \<in> set (concat (map event_tasks (handleds xs)))" using IH(7) st(1) by simp
    then show ?thesis
      using IH st eq settle M got_trans [OF IH(5) M(1)] by auto
  next
    case (pump k ok)
    then show ?thesis using IH got_trans [OF IH(5) got_write [of d "?mgr S1" ok k]] by simp
  qed
qed

text \<open>The machine goes on to the next event, and a worker handles it.\<close>

lemma live_main: "main_step tz (lv_gms S) g \<Longrightarrow> live_step tz uc guc late S [] (S\<lparr>lv_gms := g\<rparr>)"
  using main_keeps by (intro machine) (auto simp: gms_step_def)

lemma live_env:
  "env_step (lv_gms S) g \<Longrightarrow> finished g = finished (lv_gms S) \<Longrightarrow> ctxDone g = ctxDone (lv_gms S) \<Longrightarrow>
   eventHandlers (mach g) = eventHandlers (mach (lv_gms S)) \<Longrightarrow> live_step tz uc guc late S [] (S\<lparr>lv_gms := g\<rparr>)"
  by (intro machine) (auto simp: gms_step_def)

lemma run_then: "live_run tz uc guc late S [] S1 \<Longrightarrow> live_step tz uc guc late S1 ys S2 \<Longrightarrow> live_run tz uc guc late S ys S2"
  using live_run.more [of tz uc guc late S "[]"] by simp

lemma live_handle:
  assumes "quiet h (lv_gms S)" "ctl (lv_gms S) = AtEmit q rid res" "q \<noteq> Rest" "0 < workers (lv_gms S)"
  shows "\<exists>S'. live_run tz uc guc late S [Handled (phaseEvent q rid res (mach (lv_gms S)))] S' \<and>
     quiet h (lv_gms S') \<and> ctl (lv_gms S') = AtSleep q rid res \<and> workers (lv_gms S') = workers (lv_gms S)"
proof -
  let ?g = "lv_gms S" and ?e = "phaseEvent q rid res (mach (lv_gms S))"
  let ?g1 = "(emit ?e ?g)\<lparr>wake := clock ?g + phaseDuration q (mach ?g), ctl := AtSleep q rid res\<rparr>"
  let ?g2 = "?g1\<lparr>mach := (mach ?g1)\<lparr>jobQueue := []\<rparr>, running := [(h, ?e)]\<rparr>"
  let ?g3 = "?g2\<lparr>running := [], finished := finished ?g2 @ [(h, ?e)]\<rparr>"
  have q: "jobQueue (mach ?g1) = [(h, ?e)]" "degraded (mach ?g1) = []" "running ?g1 = []"
    using assms(1) by (simp_all add: quiet_def emit_def emitEvent_def submitJob_def jobQueueCap_def)
  have "live_run tz uc guc late S [] (S\<lparr>lv_gms := ?g1\<rparr>)"
    by (rule run_then [OF live_run.none live_main [OF emit_phase [OF assms(2,3)]]])
  moreover have "live_step tz uc guc late (S\<lparr>lv_gms := ?g1\<rparr>) [] ((S\<lparr>lv_gms := ?g1\<rparr>)\<lparr>lv_gms := ?g2\<rparr>)"
  proof (rule live_env)
    show "env_step (lv_gms (S\<lparr>lv_gms := ?g1\<rparr>)) ?g2"
      using take_job [of ?g1 "(h, ?e)" "[]"] q assms(4) by (simp add: emit_def)
  qed (simp_all add: emit_def)
  ultimately have run: "live_run tz uc guc late S [] (S\<lparr>lv_gms := ?g2\<rparr>)" using run_then by fastforce
  have "gms_step tz (lv_gms (S\<lparr>lv_gms := ?g2\<rparr>)) ?g3"
    using finish_job [of "(h, ?e)" ?g2] by (simp add: gms_step_def)
  from handled [OF this, of h ?e uc guc late] have "live_step tz uc guc late (S\<lparr>lv_gms := ?g2\<rparr>) [Handled ?e]
      (S\<lparr>lv_gms := ?g3, lv_mono := mono_event (clock ?g3) ?e (lv_mono S)\<rparr>)" by simp
  from run_then [OF run this] show ?thesis
    using assms(1) q(2) by (intro exI [of _ "S\<lparr>lv_gms := ?g3, lv_mono := mono_event (clock ?g3) ?e (lv_mono S)\<rparr>"])
      (simp add: quiet_def emit_def)
qed

lemma live_next:
  assumes "quiet h (lv_gms S)" "ctl (lv_gms S) = AtSleep p rid res" "0 < workers (lv_gms S)"
    and "after_sleep p rid res rnd = AtLock q rid res'" "q = Drawing \<or> q = Result"
  shows "\<exists>S' m. live_run tz uc guc late S [Handled (phaseEvent q rid res' m)] S' \<and>
     quiet h (lv_gms S') \<and> ctl (lv_gms S') = AtSleep q rid res' \<and> workers (lv_gms S') = workers (lv_gms S)"
proof -
  let ?g = "lv_gms S"
  let ?g1 = "?g\<lparr>clock := max (wake ?g) (clock ?g)\<rparr>"
  let ?g2 = "?g1\<lparr>ctl := AtLock q rid res'\<rparr>"
  let ?g3 = "?g2\<lparr>mach := beginPhase q (clock ?g2) res' (mach ?g2), ctl := AtEmit q rid res'\<rparr>"
  have 1: "live_run tz uc guc late S [] (S\<lparr>lv_gms := ?g1\<rparr>)"
    by (rule run_then [OF live_run.none live_env [OF tick]]) simp_all
  have "main_step tz ?g1 (?g1\<lparr>ctl := after_sleep p rid res rnd\<rparr>)"
    using assms(1,2) by (cases p) (auto simp: quiet_def intro: main_step.intros)
  then have "main_step tz (lv_gms (S\<lparr>lv_gms := ?g1\<rparr>)) ?g2" by (simp add: assms(4))
  from run_then [OF 1 live_main [OF this]] have 2: "live_run tz uc guc late S [] (S\<lparr>lv_gms := ?g2\<rparr>)" by simp
  have "main_step tz (lv_gms (S\<lparr>lv_gms := ?g2\<rparr>)) ?g3"
    using assms(5) lock_drawing [of ?g2 rid res' tz] lock_result [of ?g2 rid res' tz] by auto
  from run_then [OF 2 live_main [OF this]] have 3: "live_run tz uc guc late S [] (S\<lparr>lv_gms := ?g3\<rparr>)" by simp
  have "quiet h (lv_gms (S\<lparr>lv_gms := ?g3\<rparr>))" using assms(1,5) by (auto simp: quiet_def machine_defs)
  from live_handle [OF this, of q rid res' tz uc guc late] assms(3,5) obtain S' where
    "live_run tz uc guc late (S\<lparr>lv_gms := ?g3\<rparr>) [Handled (phaseEvent q rid res' (mach ?g3))] S'"
    "quiet h (lv_gms S')" "ctl (lv_gms S') = AtSleep q rid res'" "workers (lv_gms S') = workers ?g" by auto
  with live_run_trans [OF this(1) 3] show ?thesis by auto
qed

section \<open>The bet\<close>

text \<open>While the machine sleeps in its betting phase, a bet sees it and is accepted.\<close>

lemma seen_outcome:
  assumes "gms_reach tz g" "ctl g = AtSleep Betting r 0" "clock g < roundBettingEnd (mach g)" "c \<in> set drawColors"
  shows "\<exists>g'. bet_outcome gmsLocal (gs_gms (mono_gs (see g M))) u c a = (True, Some r, g') \<and>
     gatewayBroadcaster g' = gatewayBroadcaster (gs_gms (mono_gs M)) \<and> gsBroadcaster g' = gsBroadcaster (gs_gms (mono_gs M))"
proof -
  from reach_round_inv [OF assms(1)] assms(2) obtain rd where
    rd: "currentRound (mach g) = Some rd" "r_RoundID rd = r" "r_State rd = GAME_STATE_BETTING" by (auto simp: round_inv_def)
  have "r \<noteq> []" using reach_round_id [OF assms(1), of r] assms(2) by simp
  moreover have "isValidColor c" using assms(4) by (auto simp: drawColors_def isValidColor_def)
  moreover have "CanAcceptBet (clock g) (mach g)" "rv_RoundID (GetCurrentRound (clock g) (mach g)) = r"
    using rd assms(3) by (simp_all add: CanAcceptBet_def round_CanAcceptBet_def roundBettingEnd_def GetCurrentRound_def Let_def)
  ultimately show ?thesis
    by (simp add: bet_outcome_def gms_svc_defs gms_uc_defs see_def)
qed

lemma see_same [simp]:
  "mono_mgr (see g M) = mono_mgr M" "mono_tasks (see g M) = mono_tasks M" "gs_store (mono_gs (see g M)) = gs_store (mono_gs M)"
  "gs_wallet (mono_gs (see g M)) = gs_wallet (mono_gs M)" "gs_ids (mono_gs (see g M)) = gs_ids (mono_gs M)"
  "gs_nextId (mono_gs (see g M)) = gs_nextId (mono_gs M)" "mem_table T (mono_gs (see g M)) = mem_table T (mono_gs M)"
  by (simp_all add: see_def mem_table_def)

lemma live_bet:
  assumes "uc = NewGSUseCase memRepo orders gmsLocal mockWallet True overflow" "colorGameSvc guc = gsLocal tz' uc"
    and "gms_reach tz (lv_gms S)" "ctl (lv_gms S) = AtSleep Betting r 0" "clock (lv_gms S) < roundBettingEnd (mach (lv_gms S))"
    and "mem_table T (mono_gs (lv_mono S))" "\<forall>b \<in># mem_pending (gs_store (mono_gs (lv_mono S))) r. UserID b \<noteq> u"
    and "map_of (clients (mono_mgr (lv_mono S))) u = Some d" "length (Send (conns (mono_mgr (lv_mono S)) d)) < sendCap"
    and "0 \<le> sint u" "0 \<le> sint a" "T + sint a \<le> 2 ^ 52"
    and "valid_utf8 color" "map_of ColorGameReward_value (''REWARD_'' @ to_upper color) = Some c" "c \<in> set drawColors"
    and "betID = gs_ids (mono_gs (lv_mono S)) (gs_nextId (mono_gs (lv_mono S)))"
    and bet: "live_step tz uc guc late S [Said u (json_enc (bet_message color a))] S1"
  shows "lv_gms S1 = lv_gms S \<and>
     got d [json_enc (place_bet_rsp SUCCESS betID [])] (mono_mgr (lv_mono S)) (mono_mgr (lv_mono S1)) \<and>
     mem_table (T + sint a) (mono_gs (lv_mono S1)) \<and>
     gatewayBroadcaster (gs_gms (mono_gs (lv_mono S1))) = gatewayBroadcaster (gs_gms (mono_gs (lv_mono S))) \<and>
     gsBroadcaster (gs_gms (mono_gs (lv_mono S1))) = gsBroadcaster (gs_gms (mono_gs (lv_mono S))) \<and>
     wallet_balance mockWallet (gs_wallet (mono_gs (lv_mono S1))) u =
       wallet_balance mockWallet (gs_wallet (mono_gs (lv_mono S))) u - a \<and>
     raised_or_added r u c a betID (mem_pending (gs_store (mono_gs (lv_mono S))) r)
       (mem_pending (gs_store (mono_gs (lv_mono S1))) r) \<and>
     mono_tasks (lv_mono S1) = mono_tasks (lv_mono S)"
proof -
  let ?M = "lv_mono S" and ?g = "lv_gms S"
  obtain g' where g': "bet_outcome gmsLocal (gs_gms (mono_gs (see ?g ?M))) u c a = (True, Some r, g')"
    "gatewayBroadcaster g' = gatewayBroadcaster (gs_gms (mono_gs ?M))" "gsBroadcaster g' = gsBroadcaster (gs_gms (mono_gs ?M))"
    using seen_outcome [OF assms(3-5,15), of ?M u a] by blast
  let ?M1 = "mono_message guc late u (json_enc (bet_message color a)) (see ?g ?M)"
  have S1: "lv_mono S1 = ?M1" "lv_gms S1 = ?g" using bet by (auto elim!: said_step)
  from mono_message_bet [OF assms(1,2) _ assms(10-14) g'(1), of d ?M1 late] assms(6,8,9) obtain b B' where
    M1: "got d [json_enc (place_bet_rsp SUCCESS (BetID b) [])] (mono_mgr ?M) (mono_mgr ?M1)" "mem_table (T + sint a) (mono_gs ?M1)"
      "gs_gms (mono_gs ?M1) = g'"
      "wallet_balance mockWallet (gs_wallet (mono_gs ?M1)) u = wallet_balance mockWallet (gs_wallet (mono_gs ?M)) u - a"
      "mem_pending (gs_store (mono_gs ?M1)) r = B'"
      "raised_or_added r u c a betID (mem_pending (gs_store (mono_gs ?M)) r) B'" "bet_matches r u c b" "b \<in># B'"
      "mono_tasks ?M1 = mono_tasks ?M"
    unfolding assms(16) by auto
  have "BetID b = betID" by (rule only_bet_id [OF M1(6) assms(7) M1(8,7)])
  with M1 g' show ?thesis unfolding S1 by simp
qed

text \<open>From a quiet machine on, what a run hands to the handler is among what the machine emits in it.\<close>

lemma handled_emitted:
  assumes "gms_reach tz g" "quiet h g" "gms_reach tz g'" "emitted g' = emitted g @ zs" "\<forall>x \<in> set zs. snd x = [h]"
    and "map snd (finished g') = map snd (finished g) @ es"
  shows "mset es \<subseteq># mset (map fst zs)"
proof -
  have start: "mset (finished g) = jobs_of (emitted g)"
    using reach_jobs_inv [OF assms(1)] assms(2) by (simp add: jobs_inv_def quiet_def)
  have "jobs_of zs = mset (map (\<lambda>x. (h, fst x)) zs)"
    using assms(5) by (induction zs) (auto simp: jobs_of_def)
  moreover have "mset (finished g') \<subseteq># jobs_of (emitted g')"
    using reach_jobs_inv [OF assms(3)] by (metis jobs_inv_def mset_subset_eq_add_right)
  ultimately have "mset (finished g') \<subseteq># mset (finished g) + mset (map (\<lambda>x. (h, fst x)) zs)"
    by (simp add: assms(4) start jobs_of_def)
  from image_mset_subseteq_mono [OF this, of snd]
  have "mset (map snd (finished g')) \<subseteq># mset (map snd (finished g)) + mset (map fst zs)"
    by (simp add: multiset.map_comp comp_def)
  then show ?thesis by (simp add: assms(6))
qed

section \<open>Properties\<close>

text \<open>C1. A winning bet, end to end, in the running monolith.  While the machine sleeps in its betting phase, before
  the betting end, and no handler of an earlier event is waiting or running, a connected player who has no bet in
  this round sends one as JSON; whatever other bets of other players are pending in the round, with stakes of
  at most \<open>2 ^ 52\<close> in all, an order database that stores, and room in the queue of the connection.  Then the machine
  can draw the color of the bet, the draw and the result can be handled and the settlement run; and in every run
  after the bet in which nothing else is sent, whose one settlement is that of this round with this color, and
  whose messages fit into the queue, whatever machine, workers and pumps do in which order, the balance of the player
  has grown by exactly the stake (charged once, paid back twice), and the connection was handed exactly the success of
  the bet with its identifier and then, in the order of the run, the state of each event handled, among them
  the result of the round, and for the settlement the win of that bet and the end of the round; each event
  handled is one that the machine emitted since, and none twice.\<close>

theorem winning_bet_end_to_end:
  fixes S :: "'d live"
  assumes "uc = NewGSUseCase memRepo orders gmsLocal mockWallet True overflow" "orders_persist uc rows"
    and "colorGameSvc guc = gsLocal tz' uc" "others_write late"
    and "gms_reach tz (lv_gms S)" "quiet h (lv_gms S)"
    and "ctl (lv_gms S) = AtSleep Betting r 0" "clock (lv_gms S) < roundBettingEnd (mach (lv_gms S))"
    and "gatewayBroadcaster (gs_gms (mono_gs (lv_mono S)))" "gsBroadcaster (gs_gms (mono_gs (lv_mono S)))"
    and "mono_tasks (lv_mono S) = []" "mem_table T (mono_gs (lv_mono S))"
    and "\<forall>b \<in># mem_pending (gs_store (mono_gs (lv_mono S))) r. UserID b \<noteq> u"
    and "ws_reach (mono_mgr (lv_mono S))" "map_of (clients (mono_mgr (lv_mono S))) u = Some d"
    and "length (Send (conns (mono_mgr (lv_mono S)) d)) + 5 \<le> sendCap"
    and "0 \<le> sint u" "0 < sint a" "0 \<le> T" "T + sint a \<le> 2 ^ 52"
    and "valid_utf8 color" "map_of ColorGameReward_value (''REWARD_'' @ to_upper color) = Some c" "c \<in> set drawColors"
    and "betID = gs_ids (mono_gs (lv_mono S)) (gs_nextId (mono_gs (lv_mono S)))"
    and bet: "live_step tz uc guc late S [Said u (json_enc (bet_message color a))] S1"
  shows "(\<exists>e e' S2. live_run tz uc guc late S1 [Handled e, Handled e', Settled (SettleWith True r c)] S2 \<and>
       ev_Type e = GAME_STATE_DRAWING \<and> ev_RoundID e = r \<and> ev_Data e = ColorData c \<and>
       ev_Type e' = GAME_STATE_RESULT \<and> ev_RoundID e' = r \<and> ev_Data e' = ColorData c) \<and>
     (\<forall>xs S2. live_run tz uc guc late S1 xs S2 \<and> \<not> list_ex is_said xs \<and> settleds xs = [SettleWith True r c] \<and>
         length (Send (conns (mono_mgr (lv_mono S)) d)) + 1 + length (concat (map (told_of betID a) xs)) \<le> sendCap \<longrightarrow>
       wallet_balance mockWallet (gs_wallet (mono_gs (lv_mono S2))) u =
         wallet_balance mockWallet (gs_wallet (mono_gs (lv_mono S))) u + a \<and>
       enqueued (conns (mono_mgr (lv_mono S2)) d) = enqueued (conns (mono_mgr (lv_mono S)) d) @
         json_enc (place_bet_rsp SUCCESS betID []) # concat (map (told_of betID a) xs) \<and>
       (\<exists>e \<in> set (handleds xs). ev_Type e = GAME_STATE_RESULT \<and> ev_RoundID e = r \<and> ev_Data e = ColorData c) \<and>
       mset (handleds xs) \<subseteq># mset (map fst (drop (length (emitted (lv_gms S))) (emitted (lv_gms S2)))))"
proof -
  let ?mgr = "\<lambda>S. mono_mgr (lv_mono S)" and ?told = "\<lambda>xs. concat (map (told_of betID a) xs)"
  have dist: "distinct (map snd (clients (?mgr S)))" using assms(14) by (intro ws_inv_clients_distinct ws_reach_inv)
  have a: "0 \<le> sint a" "sint a \<le> 2 ^ 52" and room: "length (Send (conns (?mgr S) d)) < sendCap"
    using assms(16,18-20) by auto
  note S1 = live_bet [OF assms(1,3,5,7,8,12,13,15) room assms(17) a(1) assms(20-24) bet]
  have M1: "gms_reach tz (lv_gms S1)" "eventHandlers (mach (lv_gms S1)) = [h]" "mono_tasks (lv_mono S1) = []"
    "gatewayBroadcaster (gs_gms (mono_gs (lv_mono S1)))" "gsBroadcaster (gs_gms (mono_gs (lv_mono S1)))"
    using S1 assms(5,6,9-11) by (auto simp: quiet_def)
  have mgr: "distinct (map snd (clients (?mgr S1)))" "map_of (clients (?mgr S1)) u = Some d"
    "length (Send (conns (?mgr S1) d)) \<le> length (Send (conns (?mgr S) d)) + 1"
    using S1 dist assms(15) by (auto simp: got_def)
  have table: "mem_table (T + sint a) (mono_gs (lv_mono S1))"
    "raised_or_added r u c a betID (mem_pending (gs_store (mono_gs (lv_mono S))) r) (mem_pending (gs_store (mono_gs (lv_mono S1))) r)"
    using S1 by auto
  have effect: "length (Send (conns (?mgr S) d)) + 1 + length (?told xs) \<le> sendCap \<Longrightarrow>
      length (Send (conns (?mgr S1) d)) + length (?told xs) \<le> sendCap" for xs using mgr(3) by simp
  note effect = live_run_effect [OF _ _ _ assms(1,2) table(1) assms(20,4) table(2) assms(13,18) a(2) M1(1,2,4,5,3) mgr(1,2) effect]
  have "\<exists>e e' S2. live_run tz uc guc late S1 [Handled e, Handled e', Settled (SettleWith True r c)] S2 \<and>
       ev_Type e = GAME_STATE_DRAWING \<and> ev_RoundID e = r \<and> ev_Data e = ColorData c \<and>
       ev_Type e' = GAME_STATE_RESULT \<and> ev_RoundID e' = r \<and> ev_Data e' = ColorData c"
  proof -
    have "0 < workers (lv_gms S1)"
      using reach_pool_inv [OF M1(1)] S1 assms(7) by (auto simp: pool_inv_def workerCount_def)
    moreover have q: "quiet h (lv_gms S1)" "ctl (lv_gms S1) = AtSleep Betting r 0" using S1 assms(6,7) by auto
    moreover obtain rnd where "c = drawResult rnd"
      using assms(23) unfolding drawResult_def by (metis in_set_conv_nth mod_less)
    ultimately obtain S2 m where S2: "live_run tz uc guc late S1 [Handled (phaseEvent Drawing r c m)] S2"
      "quiet h (lv_gms S2)" "ctl (lv_gms S2) = AtSleep Drawing r c" "0 < workers (lv_gms S2)"
      using live_next [of h S1 Betting r 0 rnd Drawing c tz uc guc late] by auto
    from live_next [OF S2(2-4), of 0 Result c tz uc guc late] obtain S3 m' where
      S3: "live_run tz uc guc late S2 [Handled (phaseEvent Result r c m')] S3" by auto
    let ?xs = "[Handled (phaseEvent Drawing r c m), Handled (phaseEvent Result r c m')]"
    have run: "live_run tz uc guc late S1 ?xs S3" using live_run_trans [OF S3 S2(1)] by simp
    have "event_tasks (phaseEvent Drawing r c m) = []" "event_tasks (phaseEvent Result r c m') = [SettleWith True r c]"
      by (simp_all add: event_tasks_def)
    with effect [OF run] assms(16) have tasks: "mono_tasks (lv_mono S3) = [SettleWith True r c]"
      and S3': "mono_gs (lv_mono S3) = mono_gs (lv_mono S1)" "got d (?told ?xs) (?mgr S1) (?mgr S3)" by auto
    have "distinct (map snd (clients (?mgr S3)))" "map_of (clients (?mgr S3)) u = Some d"
      "length (Send (conns (?mgr S3) d)) + 2 \<le> sendCap" using S3'(2) mgr assms(16) by (auto simp: got_def)
    from mono_settle_bet [OF assms(1,2) table(1) [folded S3'(1)] assms(20,4) table(2) [folded S3'(1)] assms(13,18) a(2) this]
    obtain M' where "mono_settle uc late (SettleWith True r c) (lv_mono S3) = Some M'" by blast
    from settle [of S3 "[]" _ "[]", OF _ this, of tz guc] tasks
    have "live_step tz uc guc late S3 [Settled (SettleWith True r c)] (S3\<lparr>lv_mono := M'\<lparr>mono_tasks := []\<rparr>\<rparr>)" by simp
    from live_run.more [OF run this] show ?thesis by fastforce
  qed
  moreover have "wallet_balance mockWallet (gs_wallet (mono_gs (lv_mono S2))) u =
         wallet_balance mockWallet (gs_wallet (mono_gs (lv_mono S))) u + a \<and>
       enqueued (conns (?mgr S2) d) = enqueued (conns (?mgr S) d) @ json_enc (place_bet_rsp SUCCESS betID []) # ?told xs \<and>
       (\<exists>e \<in> set (handleds xs). ev_Type e = GAME_STATE_RESULT \<and> ev_RoundID e = r \<and> ev_Data e = ColorData c) \<and>
       mset (handleds xs) \<subseteq># mset (map fst (drop (length (emitted (lv_gms S))) (emitted (lv_gms S2))))"
    if run: "live_run tz uc guc late S1 xs S2" "\<not> list_ex is_said xs" "settleds xs = [SettleWith True r c]"
      "length (Send (conns (?mgr S) d)) + 1 + length (?told xs) \<le> sendCap" for xs S2
  proof -
    note E = effect [OF run(1,2) disjI2 [OF run(3)] run(4)]
    obtain zs where zs: "emitted (lv_gms S2) = emitted (lv_gms S) @ zs" "\<forall>x \<in> set zs. snd x = [h]" using E S1 by auto
    have "mset (handleds xs) \<subseteq># mset (map fst zs)"
      using handled_emitted [OF assms(5,6) _ zs, where es = "handleds xs"] E S1 by auto
    moreover have "\<exists>e \<in> set (handleds xs). ev_Type e = GAME_STATE_RESULT \<and> ev_RoundID e = r \<and> ev_Data e = ColorData c"
    proof -
      obtain e where "e \<in> set (handleds xs)" "SettleWith True r c \<in> set (event_tasks e)" using E run(3) by auto
      then show ?thesis by (auto simp: event_tasks_def split: event_data.splits if_splits)
    qed
    moreover have "enqueued (conns (?mgr S2) d) = enqueued (conns (?mgr S) d) @ json_enc (place_bet_rsp SUCCESS betID []) # ?told xs"
      using E S1 by (auto simp: got_def)
    ultimately show ?thesis using E S1 run(3) zs(1) by auto
  qed
  ultimately show ?thesis by blast
qed

text \<open>The sample machine in its betting phase, with its events handled, beside the sample monolith.\<close>

lemma steps_serve:
  assumes "running s = []" "0 < workers s"
  shows "gms_steps tz s (s\<lparr>mach := (mach s)\<lparr>jobQueue := []\<rparr>, running := [], finished := finished s @ jobQueue (mach s)\<rparr>)"
  using assms
proof (induction "jobQueue (mach s)" arbitrary: s)
  case Nil
  then have "s\<lparr>mach := (mach s)\<lparr>jobQueue := []\<rparr>, running := [], finished := finished s @ jobQueue (mach s)\<rparr> = s" by simp
  then show ?case by simp
next
  case (Cons j js)
  let ?t = "s\<lparr>mach := (mach s)\<lparr>jobQueue := js\<rparr>, running := [j]\<rparr>"
  let ?u = "s\<lparr>mach := (mach s)\<lparr>jobQueue := js\<rparr>, running := [], finished := finished s @ [j]\<rparr>"
  have "gms_steps tz s ?t"
    using steps_env [OF rtranclp.rtrancl_refl take_job [OF Cons.hyps(2) [symmetric]]] Cons.prems by simp
  moreover have "env_step ?t ?u" using finish_job [of j ?t] Cons.prems(1) by simp
  ultimately have "gms_steps tz s ?u" by (rule steps_env)
  moreover have "gms_steps tz ?u (?u\<lparr>mach := (mach ?u)\<lparr>jobQueue := []\<rparr>, running := [], finished := finished ?u @ jobQueue (mach ?u)\<rparr>)"
    using Cons.hyps(1) [of ?u] Cons.prems by simp
  ultimately have "gms_steps tz s (?u\<lparr>mach := (mach ?u)\<lparr>jobQueue := []\<rparr>, running := [], finished := finished ?u @ jobQueue (mach ?u)\<rparr>)"
    by (rule rtranclp_trans)
  then show ?case by (simp add: Cons.hyps(2) [symmetric])
qed

definition sample_live :: "BetOrder list live" where
  "sample_live =
     \<lparr>lv_gms = sample_betting\<lparr>mach := (mach sample_betting)\<lparr>jobQueue := []\<rparr>, running := [],
        finished := finished sample_betting @ jobQueue (mach sample_betting)\<rparr>,
      lv_mono = sample_monolith\<rparr>"

lemma sample_live_start:
  "gms_reach (\<lambda>_. 0) (lv_gms sample_live)" "quiet 1 (lv_gms sample_live)"
  "ctl (lv_gms sample_live) = AtSleep Betting sample_id 0"
  "clock (lv_gms sample_live) < roundBettingEnd (mach (lv_gms sample_live))"
  "gatewayBroadcaster (gs_gms (mono_gs (lv_mono sample_live)))" "gsBroadcaster (gs_gms (mono_gs (lv_mono sample_live)))"
  "mono_tasks (lv_mono sample_live) = []"
proof -
  have "running sample_betting = []" "0 < workers sample_betting" by (simp_all add: sample_defs workerCount_def)
  from steps_serve [OF this, of "\<lambda>_. 0"] show "gms_reach (\<lambda>_. 0) (lv_gms sample_live)"
    using reach_steps [OF sample_betting_reach] by (simp add: sample_live_def)
  show "quiet 1 (lv_gms sample_live)" "ctl (lv_gms sample_live) = AtSleep Betting sample_id 0"
    "clock (lv_gms sample_live) < roundBettingEnd (mach (lv_gms sample_live))"
    by (simp_all add: sample_live_def quiet_def sample_defs)
  show "gatewayBroadcaster (gs_gms (mono_gs (lv_mono sample_live)))" "gsBroadcaster (gs_gms (mono_gs (lv_mono sample_live)))"
    "mono_tasks (lv_mono sample_live) = []"
    by (simp_all add: sample_live_def sample_monolith_def sample_world_def sample_gms_def NewGMSUseCase_def)
qed

text \<open>User 7 bets 100 on red, and red is drawn.\<close>

theorem winning_bet_end_to_end_witness:
  "\<exists>S1 e e' S2. live_step (\<lambda>_. 0) (sample_gs gmsLocal) sample_guc id sample_live
       [Said 7 (json_enc (bet_message ''red'' 100))] S1 \<and>
     live_run (\<lambda>_. 0) (sample_gs gmsLocal) sample_guc id S1
       [Handled e, Handled e', Settled (SettleWith True sample_id REWARD_RED)] S2 \<and>
     wallet_balance mockWallet (gs_wallet (mono_gs (lv_mono S2))) 7 = 1000100 \<and>
     enqueued (conns (mono_mgr (lv_mono S2)) 0) =
       [json_enc (place_bet_rsp SUCCESS ''0'' []), event_text e, event_text e',
        win_text sample_id REWARD_RED ''0'' 100, round_text sample_id REWARD_RED] \<and>
     ev_Type e = GAME_STATE_DRAWING \<and> ev_Type e' = GAME_STATE_RESULT"
proof -
  have mono: "lv_mono sample_live = sample_monolith" by (simp add: sample_live_def)
  have none: "\<forall>b \<in># mem_pending (gs_store (mono_gs (lv_mono sample_live))) sample_id. UserID b \<noteq> 7"
    by (simp add: sample_start(2) mono)
  have bal: "wallet_balance mockWallet (gs_wallet (mono_gs (lv_mono sample_live))) 7 = 1000000"
    by (simp add: mono sample_monolith_def sample_world_def mock_balance NewMockService_def)
  obtain S1 where bet: "live_step (\<lambda>_. 0) (sample_gs gmsLocal) sample_guc id sample_live
      [Said 7 (json_enc (bet_message ''red'' 100))] S1" by (blast intro: said)
  note start = sample_start [folded mono]
  have "length (Send (conns (mono_mgr (lv_mono sample_live)) 0)) + 5 \<le> sendCap"
    "REWARD_RED \<in> set drawColors" by (simp_all add: start(5) sendCap_def drawColors_def)
  from winning_bet_end_to_end [OF sample_gs_def sample_orders_persist start(9,10) sample_live_start start(1) none start(3,4)
      this(1) _ _ _ _ start(7,8) this(2) start(11) bet]
  obtain e e' S2 where run: "live_run (\<lambda>_. 0) (sample_gs gmsLocal) sample_guc id S1
       [Handled e, Handled e', Settled (SettleWith True sample_id REWARD_RED)] S2"
      "ev_Type e = GAME_STATE_DRAWING" "ev_Type e' = GAME_STATE_RESULT"
    and all: "\<forall>xs S2. live_run (\<lambda>_. 0) (sample_gs gmsLocal) sample_guc id S1 xs S2 \<and> \<not> list_ex is_said xs \<and>
         settleds xs = [SettleWith True sample_id REWARD_RED] \<and>
         length (Send (conns (mono_mgr (lv_mono sample_live)) 0)) + 1 + length (concat (map (told_of ''0'' 100) xs)) \<le> sendCap \<longrightarrow>
       wallet_balance mockWallet (gs_wallet (mono_gs (lv_mono S2))) 7 = 1000000 + 100 \<and>
       enqueued (conns (mono_mgr (lv_mono S2)) 0) =
         json_enc (place_bet_rsp SUCCESS ''0'' []) # concat (map (told_of ''0'' 100) xs)"
    unfolding bal by (auto simp: start(6))
  from all [rule_format, OF conjI, OF run(1)] bet run show ?thesis
    by (intro exI [of _ S1] exI [of _ e] exI [of _ e'] exI [of _ S2]) (simp add: start(5) sendCap_def)
qed

end
