(* ===== verification/Spec2Isabelle.thy ===== *)
theory Spec2Isabelle
  imports Wallet Gms_Props Gms_UseCase Gs_Props Gateway_Props Access Gs_Redis Fanout Grpc_Services Admin Logging Gs_State System Accounts Ops_Props Robot_Access Robot_Main Ops_Server Startup Logger_Global Micro Live
begin

text \<open>
  A verification development for the color game server (module \<^verbatim>\<open>github.com/frankieli/game_product\<close>, Go,
  under \<^verbatim>\<open>src/\<close>).

  \<^bold>\<open>The program.\<close>  Players log in over HTTP (user module), connect to the gateway over WebSockets with
  their token, and bet on one of four colors.  The game machine service (GMS) runs the rounds: wait, betting,
  drawing, result, rest; it announces each phase through the gateway and, at the result, asks the game
  service (GS) to settle.  GS charges stakes to the wallet, keeps the pending bets in a repository (memory or
  Redis), and settles a round in batches: an order per bet in the database, the payout to the wallet, a
  notice to the player.  In the monolith the components call each other through local adapters; as
  microservices they call each other over gRPC, with addresses from Nacos.  An operations server and a load
  robot complete the repository.

  \<^bold>\<open>From the code to the theories\<close> (paths under \<^verbatim>\<open>src/\<close>; \<^verbatim>\<open>m/\<close> is \<^verbatim>\<open>internal/modules/\<close>).

  \<^item> Prelude.  \<^verbatim>\<open>Go_Base\<close>: sized integers as words, nil, errors as the left side of a sum, maps, the
    collections of rewrite rules.  \<^verbatim>\<open>Go_Time\<close>, \<^verbatim>\<open>Go_Rfc3339\<close>, \<^verbatim>\<open>Go_Strings\<close>, \<^verbatim>\<open>Utf8_Json\<close>, \<^verbatim>\<open>Json\<close>: what the
    program uses of \<^verbatim>\<open>time\<close>, \<^verbatim>\<open>strings\<close>, \<^verbatim>\<open>strconv\<close>, \<^verbatim>\<open>path/filepath\<close>, \<^verbatim>\<open>unicode/utf8\<close> and \<^verbatim>\<open>encoding/json\<close>,
    with the round trips the components need.  \<^verbatim>\<open>Proto\<close>: the messages of \<^verbatim>\<open>shared/proto/colorgame\<close>.
  \<^item> \<^verbatim>\<open>Wallet\<close>: \<^verbatim>\<open>pkg/service/wallet.go\<close> and \<^verbatim>\<open>m/wallet/mock.go\<close>; locale \<open>wallet_service\<close>.
  \<^item> \<^verbatim>\<open>Gms_Machine\<close>: each method of \<^verbatim>\<open>m/color_game/gms/machine/state_machine.go\<close> and \<^verbatim>\<open>domain/round.go\<close>;
    \<^verbatim>\<open>Gms_Run\<close>: the goroutine of \<^verbatim>\<open>Start\<close> as \<open>main_step\<close> between program points, and its workers, clock and
    callers as \<open>env_step\<close>; \<^verbatim>\<open>Gms_Props\<close>: order and delivery of the events, what a round shows in each of its
    phases, when bets are accepted, the stop.
    \<^verbatim>\<open>Gms_UseCase\<close>: \<^verbatim>\<open>gms/usecase\<close>, its adapters and the history of rounds.
  \<^item> \<^verbatim>\<open>Bets\<close>: \<^verbatim>\<open>gs/domain\<close>, \<^verbatim>\<open>gs/repository/memory\<close> and \<^verbatim>\<open>db\<close>, over a heap of bets, because the repository
    hands out pointers; locale \<open>bet_repository\<close>.  \<^verbatim>\<open>Redis_Bets\<close>, \<^verbatim>\<open>Redis_Contract\<close>: \<^verbatim>\<open>gs/repository/redis\<close>,
    keys, shards and JSON, as another interpretation of the same contract.
  \<^item> \<^verbatim>\<open>Gs_UseCase\<close>, \<^verbatim>\<open>Gs_State\<close>: \<^verbatim>\<open>gs/usecase/gs_uc.go\<close> and both adapters; \<^verbatim>\<open>Gs_Settle\<close>: what a bet and a
    settlement do, in the locale \<open>game_service\<close> over the contracts of wallet and repository; \<^verbatim>\<open>Gs_Props\<close>,
    \<^verbatim>\<open>Gs_Redis\<close>: the same on the two repositories, and what goes wrong (errors, repeated results).
  \<^item> \<^verbatim>\<open>Ws_Manager\<close>: \<^verbatim>\<open>m/gateway/ws/manager.go\<close> with its connections, pumps and callers as a step relation;
    \<^verbatim>\<open>Gateway\<close>, \<^verbatim>\<open>Gateway_Props\<close>: \<^verbatim>\<open>m/gateway/usecase\<close> and the three adapters, messages and events as JSON.
  \<^item> \<^verbatim>\<open>User\<close>, \<^verbatim>\<open>User_Adapters\<close>, \<^verbatim>\<open>User_Props\<close>: \<^verbatim>\<open>m/user\<close>; \<^verbatim>\<open>Accounts\<close>: the type of its tables, kept by every
    sequence of requests; \<^verbatim>\<open>Access\<close>: user service and gateway together.
  \<^item> \<^verbatim>\<open>Discovery\<close>: \<^verbatim>\<open>pkg/discovery\<close> and \<^verbatim>\<open>pkg/netutil\<close>; \<^verbatim>\<open>Grpc_Client\<close>, \<^verbatim>\<open>Fanout\<close>, \<^verbatim>\<open>Grpc_Services\<close>:
    \<^verbatim>\<open>pkg/grpc_client\<close>, its cache, connections, worker pool (a step relation) and service clients;
    \<^verbatim>\<open>Admin\<close>: \<^verbatim>\<open>pkg/admin\<close> and the client that puts the chunks together.
  \<^item> \<^verbatim>\<open>Logging\<close>, \<^verbatim>\<open>Logger_Global\<close>: \<^verbatim>\<open>pkg/logger\<close>; locale \<open>sink\<close>, the contract of the writer below the buffer.
    \<^verbatim>\<open>Config\<close>: \<^verbatim>\<open>internal/config\<close>.
  \<^item> \<^verbatim>\<open>Ops\<close>, \<^verbatim>\<open>Ops_Profiles\<close>, \<^verbatim>\<open>Pprof_Sessions\<close>, \<^verbatim>\<open>Ops_Props\<close>: the handlers of \<^verbatim>\<open>cmd/ops/main.go\<close>;
    \<^verbatim>\<open>Ops_Server\<close>: its main function and router (\<open>apiRoutes\<close>, \<open>ops_serve\<close>), and sequences of requests.
  \<^item> \<^verbatim>\<open>Net_Url\<close>, \<^verbatim>\<open>Robot\<close>, \<^verbatim>\<open>Robot_Main\<close>: \<^verbatim>\<open>cmd/color_game/test_robot\<close>; \<^verbatim>\<open>Robot_Access\<close>: its retries against
    the user service, over a network that loses requests and answers.  \<^verbatim>\<open>Startup\<close>: the main functions of the
    monolith and the services, and \<^verbatim>\<open>test_db_conn.go\<close>.
  \<^item> \<^verbatim>\<open>System\<close>: the monolith wired as its main wires it, and what a message, an event and a settlement do to
    it.  \<^verbatim>\<open>Live\<close>: the same with the machine of \<^verbatim>\<open>Gms_Run\<close> running beside it (\<open>live_step\<close>), and one bet followed
    from the text of the player's message, sent in the betting phase, over the draw and the result that the machine
    emits to the balance and the messages on the connection.  \<^verbatim>\<open>Cluster\<close>: game service and gateways as
    microservices; a run is labelled with the tasks that ran (\<open>cl_run\<close>), and what the players are given is what
    the monolith gives them, in any order: \<open>notices_can_overtake\<close> is a run with the order changed.
    \<^verbatim>\<open>Remote\<close>: game service and game machine behind their gRPC clients; over a network that is up a call to the
    client is a call to the handler (\<open>passes\<close>).  \<^verbatim>\<open>Micro\<close>: the bet of \<^verbatim>\<open>Live\<close>, followed through the services, without
    the texts of the machine's events.

  \<^bold>\<open>How the code is read.\<close>  Structs are records, enums and messages datatypes, \<^verbatim>\<open>int64\<close> and \<^verbatim>\<open>int\<close> 64-bit
  words, strings byte strings.  A function of the code is a definition that takes the state and returns the
  result with the new state; an error is \<open>Inl\<close>, a panic or a call that does not return \<open>None\<close>.  Interfaces
  are records of methods; a locale states the laws a client relies on, and each is interpreted on the code's
  own providers.  Goroutines are step relations: one step is what runs between two points where others can
  act (a channel operation, a sleep, the taking of a lock), so that a section under a mutex is one step.
  Clocks, random numbers, identifiers and map orders are inputs: a function from the number of the read to
  the value, or an argument.

  \<^bold>\<open>Bounds and fuel.\<close>  The outer loop of the settlement and the buffered write are \<open>partial_function\<close>s, so that
  a call that never returns is \<open>None\<close>; that they return is part of the properties (\<open>settle_terminates\<close>,
  \<open>log_complete_and_ordered\<close>).  The JSON parser takes fuel; twice the length of the text is enough, which
  \<^verbatim>\<open>Json\<close> proves (whatever some fuel finds, that fuel finds).  Payouts pass through \<^verbatim>\<open>float64\<close>: the money
  theorems assume stakes of non-negative amounts with a sum of at most \<open>2 ^ 52\<close>, where that is exact.

  \<^bold>\<open>What the lemmas show.\<close>  For each component: its invariant and that every operation or step keeps it, the
  behaviour of its operations on each path, and the laws of its contract.  The properties put them
  together; each is marked with its number and has a closed instance after it where it has hypotheses.
  Several of them describe defects: a refused bet is charged in the monolith and taken over gRPC, bets are
  dropped when the order database fails, a disconnect removes a newer connection, logout leaves the token
  valid, the wallet client reuses one transaction ID per round, a deletion can remove the whole storage.

  \<^bold>\<open>Parameters.\<close>  Code that is not in the repository is an argument of the definitions that use it, with what
  is relied on as named hypotheses: gorm and PostgreSQL (\<open>users_ok\<close>, \<open>sessions_ok\<close>, \<open>failures_keep\<close>,
  \<open>orders_persist\<close>), Redis (\<open>redis_ok\<close>), bcrypt and JWT (\<open>crypto\<close>), snowflake, Nacos, gRPC transport and
  servers behind it, the WebSocket library (which reads and writes fail, when), zerolog (the line of an event)
  and lumberjack, gin (what it makes of a body; the rate limiter), the Go runtime's profiles, the operating
  system's processes, ports and failures of file operations, the HTTP server the robot talks to.

  \<^bold>\<open>Abstractions.\<close>  \<^verbatim>\<open>emitEvent\<close> is one step with respect to the workers it hands its jobs to.  Differences of
  times are exact integers; a duration in seconds as a float is exact for runs shorter than 97 days.  The
  clock readings of a settlement that are only logged are left out, as are log lines everywhere but in the
  logging theories.  Texts of JSON errors, and the printing of floats that are no integers, are parameters.
  The expiry of Redis keys is not modelled.  Calls of one gRPC client are sequential, as its locks make them
  where they share state.  In \<^verbatim>\<open>Micro\<close> the client of
  the game service appears twice, for its calls and for its workers, and the settlement runs as the local adapter
  starts it: the context the gRPC adapter gives it, cancelled when the call returns, is a finding, and its effect
  on the database is left to \<open>orders_persist\<close>.  In \<^verbatim>\<open>Live\<close> a message of a player is handled at one instant of the
  machine, and an event by its handler in the step in which that returns; its property follows a bet when no other
  message is sent meanwhile.  In \<^verbatim>\<open>Startup\<close> a process is the list of what its main function does; a server in a
  goroutine appears as the point where it is started and, if it fails, as the fatal error that cuts the list short.
  A removal of files that fails removes nothing, where the system may have removed a part; a killed viewer is gone
  at once, and is one process.

  \<^bold>\<open>Not modelled.\<close>  The wire format and the reflection part of the generated protobuf code (they belong to the
  protobuf runtime); middleware set-up and the redirects of gin for a slash at the end of a path; the transfer of
  the reverse proxy; formatting and rotation of log files; the token bucket of the rate limiter (its decisions
  are inputs); pool sizes of the database; the frontend, which is not Go.
\<close>

end
